(* ===== verification/Prelude.thy ===== *)
theory Prelude
  imports
    Main
    "HOL-Library.Word"
    "HOL-Library.Char_ord"
    "HOL-Library.List_Lexorder"
    "HOL-Library.Finite_Map"
begin

text \<open>
  What every component of the development shares: the fact collections, the shape of a Go
  function that returns an \<open>error\<close> (a chain of checks of which the first failing one is
  returned), the loops over a slice that keep a \<open>seen\<close> map, 64-bit counters and a few list
  lemmas.  Nothing here models a line of the program.
\<close>

named_theorems closed_vocabulary \<open>the membership tests of the closed string vocabularies\<close>
named_theorems record_checks \<open>what a passed record validation says of the record\<close>
named_theorems go_text_eval \<open>equations that evaluate the text checks on literals\<close>

section \<open>Errors in order\<close>

text \<open>
  A Go validator is a sequence of statements \<open>if bad { return err }\<close>.  Every check is pure and
  total, so the sequence is the first failing check of a list: \<open>None\<close> is Go's \<open>nil\<close> error.
\<close>

definition fail_if :: "bool \<Rightarrow> 'e \<Rightarrow> 'e option" where
  "fail_if bad e = (if bad then Some e else None)"

fun first_error :: "'e option list \<Rightarrow> 'e option" where
  "first_error [] = None"
| "first_error (c # cs) = (case c of Some e \<Rightarrow> Some e | None \<Rightarrow> first_error cs)"

lemma fail_if_None [simp]: "fail_if bad e = None \<longleftrightarrow> \<not> bad"
  by (simp add: fail_if_def)

lemma fail_if_Some [simp]: "fail_if bad e = Some e' \<longleftrightarrow> bad \<and> e' = e"
  by (auto simp: fail_if_def)

lemma fail_if_simps [simp]: "fail_if True e = Some e" "fail_if False e = None"
  by (simp_all add: fail_if_def)

lemma first_error_append [simp]:
  "first_error (cs @ ds) = (case first_error cs of Some e \<Rightarrow> Some e | None \<Rightarrow> first_error ds)"
  by (induction cs) (simp_all split: option.splits)

lemma first_error_None_iff: "first_error cs = None \<longleftrightarrow> (\<forall>c\<in>set cs. c = None)"
  by (induction cs) (auto split: option.splits)

lemma first_error_Cons_None [simp]:
  "first_error (c # cs) = None \<longleftrightarrow> c = None \<and> first_error cs = None"
  by (simp split: option.splits)

lemma first_error_SomeD: "first_error cs = Some e \<Longrightarrow> Some e \<in> set cs"
  by (induction cs) (auto split: option.splits)

declare first_error.simps(2) [simp del]

lemma first_error_known [simp]:
  "first_error (Some e # cs) = Some e"
  "first_error (None # cs) = first_error cs"
  by (simp_all add: first_error.simps)

text \<open>A \<open>(value, error)\<close> result: \<open>Inl\<close> the error, \<open>Inr\<close> the value.\<close>

definition ensure :: "'e option \<Rightarrow> 'e + 'a \<Rightarrow> 'e + 'a" where
  "ensure c r = (case c of Some e \<Rightarrow> Inl e | None \<Rightarrow> r)"

lemma ensure_Inr [simp]: "ensure c r = Inr x \<longleftrightarrow> c = None \<and> r = Inr x"
  by (simp add: ensure_def split: option.splits)

lemma ensure_None [simp]: "ensure None r = r"
  by (simp add: ensure_def)

lemma ensure_Some [simp]: "ensure (Some e) r = Inl e"
  by (simp add: ensure_def)

lemma ensure_Inl: "ensure c r = Inl e \<longleftrightarrow> c = Some e \<or> (c = None \<and> r = Inl e)"
  by (simp add: ensure_def split: option.splits)

section \<open>Loops over a slice with a seen map\<close>

text \<open>
  The pattern \<open>seen := map[..]; for _, v := range values { if err := check(v) ..; if seen[k(v)]
  { return dup }; seen[k(v)] = .. }\<close> occurs in most validators.
\<close>

fun scan_unique :: "('a \<Rightarrow> 'e option) \<Rightarrow> ('a \<Rightarrow> 'k) \<Rightarrow> 'e \<Rightarrow> 'k set \<Rightarrow> 'a list \<Rightarrow> 'e option" where
  "scan_unique check key dup seen [] = None"
| "scan_unique check key dup seen (v # vs) =
     (case check v of
        Some e \<Rightarrow> Some e
      | None \<Rightarrow> (if key v \<in> seen then Some dup
                 else scan_unique check key dup (insert (key v) seen) vs))"

lemma scan_unique_None_gen:
  "scan_unique check key dup seen vs = None \<longleftrightarrow>
     (\<forall>v\<in>set vs. check v = None) \<and> distinct (map key vs) \<and> key ` set vs \<inter> seen = {}"
  by (induction vs arbitrary: seen) (auto split: option.splits)

lemma scan_unique_None [simp]:
  "scan_unique check key dup {} vs = None \<longleftrightarrow> (\<forall>v\<in>set vs. check v = None) \<and> distinct (map key vs)"
  by (simp add: scan_unique_None_gen)

section \<open>64-bit integers\<close>

text \<open>
  Go's \<open>int64\<close> (and \<open>int\<close> on the supported 64-bit targets): two's complement, additions wrap.
\<close>

type_synonym int64 = "64 word"

abbreviation MaxInt64 :: int64 where
  "MaxInt64 \<equiv> 0x7FFFFFFFFFFFFFFF"

lemma sint_MaxInt64: "sint MaxInt64 = 2 ^ 63 - 1"
  by simp

lemma sint64_bounds: "- (2 ^ 63) \<le> sint (x :: int64)" "sint (x :: int64) < 2 ^ 63"
  using sint_range_size [of x] by (simp_all add: word_size)

lemma sint64_inc:
  assumes "sint (x :: int64) < 2 ^ 63 - 1"
  shows "sint (x + 1) = sint x + 1"
proof -
  have "sint (x + 1) = signed_take_bit 63 (sint x + 1)"
    by (simp add: sint_word_ariths)
  also have "\<dots> = sint x + 1"
    using assms sint64_bounds [of x] by (intro signed_take_bit_int_eq_self) auto
  finally show ?thesis .
qed

lemma sint64_eq_Max: "x = MaxInt64 \<longleftrightarrow> sint (x :: int64) = 2 ^ 63 - 1"
  by (metis sint_MaxInt64 signed_word_eqI)

lemma sint64_inc_less: "sint (x :: int64) < sint (y :: int64) \<Longrightarrow> sint (x + 1) = sint x + 1"
  using sint64_bounds [of y] by (intro sint64_inc) simp

lemma sint64_inc_not_Max: "x \<noteq> MaxInt64 \<Longrightarrow> sint (x + 1) = sint (x :: int64) + 1"
  using sint64_bounds [of x] by (intro sint64_inc) (auto simp: sint64_eq_Max)

section \<open>Lists\<close>

lemma distinct_map_iff_inj: "distinct (map f xs) \<longleftrightarrow> distinct xs \<and> inj_on f (set xs)"
  by (simp add: distinct_map)

lemma set_filter_member [simp]: "set (filter (\<lambda>x. x \<in> A) xs) = set xs \<inter> A"
  by auto

lemma list_update_map_fst:
  "map f (xs[i := y]) = (map f xs)[i := f y]"
  by (rule map_update)

end
