(* ===== verification/Go_Text.thy ===== *)
theory Go_Text
  imports Prelude
begin

text \<open>
  The part of Go's standard library the program reads its text with: strings are byte sequences
  (\<open>string\<close>, whose characters are bytes), UTF-8 decoding as \<open>utf8.DecodeRune\<close> does it, the
  Unicode classes \<open>unicode.IsSpace\<close> and \<open>unicode.IsControl\<close>, \<open>strings.TrimSpace\<close>,
  \<open>strings.ContainsAny\<close>, \<open>strconv.Quote\<close>, \<open>strconv.FormatInt\<close>, the anchored regular
  expressions the validators compile, and \<open>time.Time\<close>.
\<close>

section \<open>Bytes and UTF-8\<close>

abbreviation byte :: "char \<Rightarrow> nat" where
  "byte c \<equiv> of_char c"

definition cont_byte :: "char \<Rightarrow> bool" where
  "cont_byte c \<longleftrightarrow> 0x80 \<le> byte c \<and> byte c \<le> 0xBF"

definition RuneError :: nat where
  "RuneError = 0xFFFD"

text \<open>The rune at the front of the string and its width; \<open>(RuneError, 1)\<close> on an invalid encoding.\<close>

fun decode_rune :: "string \<Rightarrow> nat \<times> nat" where
  "decode_rune [] = (RuneError, 0)"
| "decode_rune (c # cs) =
     (let b = byte c in
      if b < 0x80 then (b, 1)
      else if 0xC2 \<le> b \<and> b \<le> 0xDF then
        (case cs of
           c1 # _ \<Rightarrow> if cont_byte c1 then ((b - 0xC0) * 64 + (byte c1 - 0x80), 2) else (RuneError, 1)
         | [] \<Rightarrow> (RuneError, 1))
      else if 0xE0 \<le> b \<and> b \<le> 0xEF then
        (case cs of
           c1 # c2 # _ \<Rightarrow>
             if cont_byte c1 \<and> cont_byte c2 \<and> (b = 0xE0 \<longrightarrow> 0xA0 \<le> byte c1) \<and> (b = 0xED \<longrightarrow> byte c1 \<le> 0x9F)
             then ((b - 0xE0) * 4096 + (byte c1 - 0x80) * 64 + (byte c2 - 0x80), 3)
             else (RuneError, 1)
         | _ \<Rightarrow> (RuneError, 1))
      else if 0xF0 \<le> b \<and> b \<le> 0xF4 then
        (case cs of
           c1 # c2 # c3 # _ \<Rightarrow>
             if cont_byte c1 \<and> cont_byte c2 \<and> cont_byte c3 \<and>
                (b = 0xF0 \<longrightarrow> 0x90 \<le> byte c1) \<and> (b = 0xF4 \<longrightarrow> byte c1 \<le> 0x8F)
             then ((b - 0xF0) * 262144 + (byte c1 - 0x80) * 4096 + (byte c2 - 0x80) * 64 + (byte c3 - 0x80), 4)
             else (RuneError, 1)
         | _ \<Rightarrow> (RuneError, 1))
      else (RuneError, 1))"

lemma decode_rune_width: "s \<noteq> [] \<Longrightarrow> 1 \<le> snd (decode_rune s)"
  by (cases s rule: decode_rune.cases) (auto simp: Let_def split: list.splits)

lemma decode_rune_width_le: "snd (decode_rune s) \<le> length s"
  by (cases s rule: decode_rune.cases) (auto simp: Let_def split: list.splits)

text \<open>\<open>for _, r := range s\<close>: the decoded runes with the width each took.\<close>

function decode_all :: "string \<Rightarrow> (nat \<times> nat) list" where
  "decode_all s = (if s = [] then [] else decode_rune s # decode_all (drop (snd (decode_rune s)) s))"
  by pat_completeness auto
termination
  by (relation "measure length") (use decode_rune_width in \<open>fastforce simp: less_Suc_eq_le\<close>)+

declare decode_all.simps [simp del]

lemma decode_all_Nil [simp, go_text_eval]: "decode_all [] = []"
  by (simp add: decode_all.simps)

lemma decode_all_Cons [go_text_eval]:
  "decode_all (c # cs) = decode_rune (c # cs) # decode_all (drop (snd (decode_rune (c # cs))) (c # cs))"
  by (simp add: decode_all.simps [of "c # cs"])

lemma decode_rune_ascii: "byte c < 0x80 \<Longrightarrow> decode_rune (c # cs) = (byte c, 1)"
  by simp

lemma decode_all_ascii: "\<forall>c\<in>set s. byte c < 0x80 \<Longrightarrow> decode_all s = map (\<lambda>c. (byte c, 1)) s"
  by (induction s) (simp_all add: decode_all_Cons)

definition runes :: "string \<Rightarrow> nat list" where
  "runes s = map fst (decode_all s)"

definition ValidString :: "string \<Rightarrow> bool" where
  "ValidString s \<longleftrightarrow> (RuneError, 1) \<notin> set (decode_all s)"

text \<open>\<open>utf8.DecodeLastRuneInString\<close>: back up at most four bytes to a rune start.\<close>

definition rune_start :: "char \<Rightarrow> bool" where
  "rune_start c \<longleftrightarrow> \<not> cont_byte c"

definition decode_last_rune :: "string \<Rightarrow> nat \<times> nat" where
  "decode_last_rune s =
     (if s = [] then (RuneError, 0)
      else if byte (last s) < 0x80 then (byte (last s), 1)
      else
        (let n = length s;
             starts = filter (\<lambda>k. k \<le> n \<and> rune_start (s ! (n - k))) [2, 3, 4];
             k = (case starts of k # _ \<Rightarrow> k | [] \<Rightarrow> min n 5);
             d = decode_rune (drop (n - k) s)
         in if snd d = k then d else (RuneError, 1)))"

section \<open>Unicode classes, trimming, searching\<close>

definition IsSpace :: "nat \<Rightarrow> bool" where
  "IsSpace r \<longleftrightarrow>
     (if r \<le> 0xFF then r \<in> {0x09, 0x0A, 0x0B, 0x0C, 0x0D, 0x20, 0x85, 0xA0}
      else r = 0x1680 \<or> (0x2000 \<le> r \<and> r \<le> 0x200A) \<or> r \<in> {0x2028, 0x2029, 0x202F, 0x205F, 0x3000})"

definition IsControl :: "nat \<Rightarrow> bool" where
  "IsControl r \<longleftrightarrow> r < 0x20 \<or> (0x7F \<le> r \<and> r < 0xA0)"

function trim_left :: "string \<Rightarrow> string" where
  "trim_left s =
     (if s \<noteq> [] \<and> IsSpace (fst (decode_rune s)) then trim_left (drop (snd (decode_rune s)) s) else s)"
  by pat_completeness auto
termination
  by (relation "measure length") (use decode_rune_width in \<open>fastforce simp: less_Suc_eq_le\<close>)+

lemma decode_last_rune_width: "s \<noteq> [] \<Longrightarrow> 1 \<le> snd (decode_last_rune s)"
  by (auto simp: decode_last_rune_def Let_def Suc_le_eq split: list.splits intro!: Nat.gr0I)

function trim_right :: "string \<Rightarrow> string" where
  "trim_right s =
     (if s \<noteq> [] \<and> IsSpace (fst (decode_last_rune s))
      then trim_right (take (length s - snd (decode_last_rune s)) s) else s)"
  by pat_completeness auto
termination
  by (relation "measure length") (use decode_last_rune_width in \<open>fastforce simp: less_Suc_eq_le\<close>)+

declare trim_left.simps [simp del] trim_right.simps [simp del]

definition TrimSpace :: "string \<Rightarrow> string" where
  "TrimSpace s = trim_right (trim_left s)"

definition ContainsAny :: "string \<Rightarrow> string \<Rightarrow> bool" where
  "ContainsAny s chars \<longleftrightarrow> (\<exists>c\<in>set s. c \<in> set chars)"

section \<open>Decimal and hexadecimal text\<close>

fun dec_nat :: "nat \<Rightarrow> string" where
  "dec_nat n = (if n < 10 then [char_of (48 + n)] else dec_nat (n div 10) @ [char_of (48 + n mod 10)])"

declare dec_nat.simps [simp del]

text \<open>\<open>strconv.FormatInt(n, 10)\<close>.\<close>

definition FormatInt :: "int64 \<Rightarrow> string" where
  "FormatInt n = (if sint n < 0 then CHR ''-'' # dec_nat (nat (- sint n)) else dec_nat (nat (sint n)))"

definition hex_digit :: "nat \<Rightarrow> char" where
  "hex_digit d = (if d < 10 then char_of (48 + d) else char_of (87 + d))"

text \<open>The low \<open>k\<close> hexadecimal digits of \<open>n\<close>, most significant first.\<close>

fun hex_digits :: "nat \<Rightarrow> nat \<Rightarrow> string" where
  "hex_digits 0 n = []"
| "hex_digits (Suc k) n = hex_digits k (n div 16) @ [hex_digit (n mod 16)]"

lemma length_hex_digits [simp]: "length (hex_digits k n) = k"
  by (induction k arbitrary: n) simp_all

section \<open>strconv.Quote\<close>

text \<open>
  \<open>strconv.IsPrint\<close> is a fixed test up to \<open>U+00FF\<close> and a lookup in the Unicode tables of the Go
  release above it.  That table is the argument \<open>u\<close> of every definition that quotes text.
\<close>

type_synonym print_table = "nat \<Rightarrow> bool"

definition IsPrint :: "print_table \<Rightarrow> nat \<Rightarrow> bool" where
  "IsPrint u r \<longleftrightarrow>
     (if r \<le> 0xFF then (0x20 \<le> r \<and> r < 0x7F) \<or> (0xA1 \<le> r \<and> r \<noteq> 0xAD) else u r)"

text \<open>What one rune of the input, or one invalid byte, contributes to the quoted text.\<close>

definition quote_chunk :: "print_table \<Rightarrow> string \<Rightarrow> string" where
  "quote_chunk u s =
     (let (r, w) = decode_rune s in
      if w = 1 \<and> r = RuneError then CHR 0x5C # CHR ''x'' # hex_digits 2 (byte (hd s))
      else if r = 0x22 \<or> r = 0x5C then [CHR 0x5C, hd s]
      else if IsPrint u r then take w s
      else if r = 7 then [CHR 0x5C, CHR ''a'']
      else if r = 8 then [CHR 0x5C, CHR ''b'']
      else if r = 12 then [CHR 0x5C, CHR ''f'']
      else if r = 10 then [CHR 0x5C, CHR ''n'']
      else if r = 13 then [CHR 0x5C, CHR ''r'']
      else if r = 9 then [CHR 0x5C, CHR ''t'']
      else if r = 11 then [CHR 0x5C, CHR ''v'']
      else if r < 0x20 \<or> r = 0x7F then CHR 0x5C # CHR ''x'' # hex_digits 2 r
      else if r < 0x10000 then CHR 0x5C # CHR ''u'' # hex_digits 4 r
      else CHR 0x5C # CHR ''U'' # hex_digits 8 r)"

function quote_body :: "print_table \<Rightarrow> string \<Rightarrow> string" where
  "quote_body u s =
     (if s = [] then [] else quote_chunk u s @ quote_body u (drop (snd (decode_rune s)) s))"
  by pat_completeness auto
termination
  by (relation "measure (length \<circ> snd)") (use decode_rune_width in \<open>fastforce simp: less_Suc_eq_le\<close>)+

declare quote_body.simps [simp del]

definition Quote :: "print_table \<Rightarrow> string \<Rightarrow> string" where
  "Quote u s = CHR 0x22 # quote_body u s @ [CHR 0x22]"

section \<open>The regular expressions\<close>

definition lower_digit :: "char \<Rightarrow> bool" where
  "lower_digit c \<longleftrightarrow> (CHR ''a'' \<le> c \<and> c \<le> CHR ''z'') \<or> (CHR ''0'' \<le> c \<and> c \<le> CHR ''9'')"

definition upper :: "char \<Rightarrow> bool" where
  "upper c \<longleftrightarrow> CHR ''A'' \<le> c \<and> c \<le> CHR ''Z''"

definition hex_char :: "char \<Rightarrow> bool" where
  "hex_char c \<longleftrightarrow> (CHR ''0'' \<le> c \<and> c \<le> CHR ''9'') \<or> (CHR ''a'' \<le> c \<and> c \<le> CHR ''f'')"

text \<open>\<open>^[head][body]{lo,hi}$\<close> and \<open>^[body]{n}$\<close>.\<close>

definition matches_head_body :: "(char \<Rightarrow> bool) \<Rightarrow> (char \<Rightarrow> bool) \<Rightarrow> nat \<Rightarrow> nat \<Rightarrow> string \<Rightarrow> bool" where
  "matches_head_body h b lo hi s \<longleftrightarrow>
     s \<noteq> [] \<and> h (hd s) \<and> list_all b (tl s) \<and> lo \<le> length (tl s) \<and> length (tl s) \<le> hi"

definition matches_exactly :: "(char \<Rightarrow> bool) \<Rightarrow> nat \<Rightarrow> string \<Rightarrow> bool" where
  "matches_exactly b n s \<longleftrightarrow> length s = n \<and> list_all b s"

section \<open>time.Time\<close>

text \<open>
  An instant, in nanoseconds since year 1 UTC, and whether \<open>Location()\<close> is \<open>time.UTC\<close>.  The zero
  \<open>Time\<close> is instant 0.  \<open>Before\<close>, \<open>After\<close> and \<open>Equal\<close> compare instants; \<open>Sub\<close> saturates at the
  bounds of \<open>time.Duration\<close>, a 64-bit count of nanoseconds.
\<close>

record time =
  instant :: int
  in_utc :: bool

definition IsZero :: "time \<Rightarrow> bool" where
  "IsZero t \<longleftrightarrow> instant t = 0"

definition Before :: "time \<Rightarrow> time \<Rightarrow> bool" where
  "Before a b \<longleftrightarrow> instant a < instant b"

definition After :: "time \<Rightarrow> time \<Rightarrow> bool" where
  "After a b \<longleftrightarrow> instant b < instant a"

definition time_Equal :: "time \<Rightarrow> time \<Rightarrow> bool" where
  "time_Equal a b \<longleftrightarrow> instant a = instant b"

definition Sub :: "time \<Rightarrow> time \<Rightarrow> int" where
  "Sub a b = max (- (2 ^ 63)) (min (2 ^ 63 - 1) (instant a - instant b))"

definition Minute :: int where
  "Minute = 60000000000"

lemmas time_defs = IsZero_def Before_def After_def time_Equal_def

section \<open>ASCII text\<close>

definition printable_ascii :: "string \<Rightarrow> bool" where
  "printable_ascii s \<longleftrightarrow> s \<noteq> [] \<and> hd s \<noteq> CHR '' '' \<and> list_all (\<lambda>c. 0x20 \<le> byte c \<and> byte c < 0x7F) s"

lemma decode_last_rune_ascii_head:
  assumes "s = c # cs" "byte c < 0x80" "snd (decode_last_rune s) = length s"
  shows "cs = []"
proof (rule ccontr)
  assume "cs \<noteq> []"
  then have n: "length s \<ge> 2" using assms(1) by (cases cs) auto
  have d: "decode_rune s = (byte c, 1)" using assms by simp
  show False
    using assms(3) n d
    by (auto simp: decode_last_rune_def Let_def split: if_splits)
qed

lemma decode_last_rune_width_le: "snd (decode_last_rune s) \<le> length s"
  by (auto simp: decode_last_rune_def Let_def Suc_le_eq split: list.splits)

lemma trim_right_ascii_head:
  "s = c # cs \<Longrightarrow> byte c < 0x80 \<Longrightarrow> \<not> IsSpace (byte c) \<Longrightarrow> trim_right s \<noteq> []"
proof (induction s arbitrary: cs rule: trim_right.induct)
  case (1 s)
  show ?case
  proof (cases "IsSpace (fst (decode_last_rune s))")
    case False
    then show ?thesis using 1(2-4) by (subst trim_right.simps) simp
  next
    case True
    let ?w = "snd (decode_last_rune s)"
    have "cs \<noteq> []"
      using True 1(2-4) by (auto simp: decode_last_rune_def)
    then have "?w < length s"
      using decode_last_rune_ascii_head [OF 1(2,3)] decode_last_rune_width_le [of s] by linarith
    then obtain ds where ds: "take (length s - ?w) s = c # ds"
      using 1(2) by (cases "length s - ?w") auto
    have go: "s \<noteq> [] \<and> IsSpace (fst (decode_last_rune s))"
      using True 1(2) by simp
    have "trim_right (take (length s - ?w) s) \<noteq> []"
      by (rule "1.IH" [OF go ds 1(3,4)])
    then show ?thesis
      using go by (subst trim_right.simps) simp
  qed
qed

lemma TrimSpace_ascii_head:
  assumes "s \<noteq> []" "byte (hd s) < 0x80" "\<not> IsSpace (byte (hd s))"
  shows "TrimSpace s \<noteq> []"
proof -
  obtain c cs where s: "s = c # cs" using assms(1) by (cases s) auto
  then have "trim_left s = s" using assms by (simp add: trim_left.simps [of "c # cs"])
  then show ?thesis using assms s trim_right_ascii_head by (simp add: TrimSpace_def)
qed

lemma ValidString_ascii: "\<forall>c\<in>set s. byte c < 0x80 \<Longrightarrow> ValidString s"
  by (auto simp: ValidString_def decode_all_ascii RuneError_def)

lemma runes_ascii: "\<forall>c\<in>set s. byte c < 0x80 \<Longrightarrow> runes s = map byte s"
  by (simp add: runes_def decode_all_ascii)

end
