(* ===== verification/Sha256.thy ===== *)
theory Sha256
  imports Go_Text
begin

unbundle bit_operations_syntax

text \<open>
  \<open>crypto/sha256\<close> as the standard FIPS 180-4 defines it, and the lower-case hexadecimal text
  \<open>fmt.Sprintf("%x", sha256.Sum256(b))\<close> under which every digest of the program is stored.
  The other theories rely on one law of it only, the locale \<open>hex_digest\<close>: a digest is 64 lower-case
  hexadecimal characters.
\<close>

section \<open>The compression function\<close>

type_synonym u32 = "32 word"

text \<open>The round constants and the initial state of the standard, in decimal.\<close>

definition sha_K :: "u32 list" where
  "sha_K =
    [1116352408, 1899447441, 3049323471, 3921009573, 961987163, 1508970993,
     2453635748, 2870763221, 3624381080, 310598401, 607225278, 1426881987,
     1925078388, 2162078206, 2614888103, 3248222580, 3835390401, 4022224774,
     264347078, 604807628, 770255983, 1249150122, 1555081692, 1996064986,
     2554220882, 2821834349, 2952996808, 3210313671, 3336571891, 3584528711,
     113926993, 338241895, 666307205, 773529912, 1294757372, 1396182291,
     1695183700, 1986661051, 2177026350, 2456956037, 2730485921, 2820302411,
     3259730800, 3345764771, 3516065817, 3600352804, 4094571909, 275423344,
     430227734, 506948616, 659060556, 883997877, 958139571, 1322822218,
     1537002063, 1747873779, 1955562222, 2024104815, 2227730452, 2361852424,
     2428436474, 2756734187, 3204031479, 3329325298]"

definition sha_H0 :: "u32 list" where
  "sha_H0 =
    [1779033703, 3144134277, 1013904242, 2773480762, 1359893119, 2600822924,
     528734635, 1541459225]"

definition rotr :: "nat \<Rightarrow> u32 \<Rightarrow> u32" where
  "rotr n x = drop_bit n x OR push_bit (32 - n) x"

definition Sigma0 :: "u32 \<Rightarrow> u32" where
  "Sigma0 x = rotr 2 x XOR rotr 13 x XOR rotr 22 x"

definition Sigma1 :: "u32 \<Rightarrow> u32" where
  "Sigma1 x = rotr 6 x XOR rotr 11 x XOR rotr 25 x"

definition sigma0 :: "u32 \<Rightarrow> u32" where
  "sigma0 x = rotr 7 x XOR rotr 18 x XOR drop_bit 3 x"

definition sigma1 :: "u32 \<Rightarrow> u32" where
  "sigma1 x = rotr 17 x XOR rotr 19 x XOR drop_bit 10 x"

text \<open>The message schedule, newest word first: sixteen words in, 64 out.\<close>

fun extend_schedule :: "nat \<Rightarrow> u32 list \<Rightarrow> u32 list" where
  "extend_schedule 0 ws = ws"
| "extend_schedule (Suc n) ws =
     extend_schedule n ((sigma1 (ws ! 1) + ws ! 6 + sigma0 (ws ! 14) + ws ! 15) # ws)"

definition sha_schedule :: "u32 list \<Rightarrow> u32 list" where
  "sha_schedule block = rev (extend_schedule 48 (rev block))"

fun sha_round :: "u32 \<times> u32 \<Rightarrow> u32 list \<Rightarrow> u32 list" where
  "sha_round (k, w) [a, b, c, d, e, f, g, h] =
     (let t1 = h + Sigma1 e + ((e AND f) XOR (NOT e AND g)) + k + w;
          t2 = Sigma0 a + ((a AND b) XOR (a AND c) XOR (b AND c))
      in [t1 + t2, a, b, c, d + t1, e, f, g])"
| "sha_round _ st = st"

definition sha_block :: "u32 list \<Rightarrow> u32 list \<Rightarrow> u32 list" where
  "sha_block hs block = map2 (+) hs (fold sha_round (zip sha_K (sha_schedule block)) hs)"

section \<open>Padding and digest\<close>

definition be_bytes :: "nat \<Rightarrow> nat \<Rightarrow> string" where
  "be_bytes k n = map (\<lambda>i. char_of (n div 256 ^ (k - 1 - i) mod 256)) [0..<k]"

definition sha_pad :: "string \<Rightarrow> string" where
  "sha_pad s =
     s @ CHR 0x80 # replicate ((119 - length s mod 64) mod 64) (CHR 0x00) @ be_bytes 8 (8 * length s)"

definition be_word :: "string \<Rightarrow> u32" where
  "be_word cs = fold (\<lambda>c w. w * 256 + of_nat (byte c)) cs 0"

function chunks_of :: "nat \<Rightarrow> 'a list \<Rightarrow> 'a list list" where
  "chunks_of n xs = (if xs = [] \<or> n = 0 then [] else take n xs # chunks_of n (drop n xs))"
  by pat_completeness auto
termination
  by (relation "measure (length \<circ> snd)") auto

declare chunks_of.simps [simp del]

definition sha256_words :: "string \<Rightarrow> u32 list" where
  "sha256_words s =
     fold (\<lambda>block hs. sha_block hs (map be_word (chunks_of 4 block))) (chunks_of 64 (sha_pad s)) sha_H0"

definition sha256_hex :: "string \<Rightarrow> string" where
  "sha256_hex s = concat (map (\<lambda>w. hex_digits 8 (unat w)) (sha256_words s))"

section \<open>The interface: a digest is 64 lower-case hexadecimal characters\<close>

locale hex_digest =
  fixes digest :: "string \<Rightarrow> string"
  assumes digest_shape: "matches_exactly hex_char 64 (digest s)"
begin

lemma digest_length: "length (digest s) = 64"
  using digest_shape by (simp add: matches_exactly_def)

lemma digest_nonempty: "digest s \<noteq> []"
  using digest_length [of s] by auto

lemma digest_prefix: "k \<le> 64 \<Longrightarrow> matches_exactly hex_char k (take k (digest s))"
  using digest_shape [of s] by (auto simp: matches_exactly_def list_all_iff dest: in_set_takeD)

end

lemma length_extend_schedule: "length (extend_schedule n ws) = n + length ws"
  by (induction n arbitrary: ws) simp_all

lemma length_sha_round [simp]: "length (sha_round kw st) = length st"
  by (cases "(kw, st)" rule: sha_round.cases) (simp_all add: Let_def)

lemma length_sha_rounds [simp]: "length (fold sha_round kws st) = length st"
  by (induction kws arbitrary: st) simp_all

lemma length_sha_block [simp]: "length (sha_block hs block) = length hs"
  by (simp add: sha_block_def)

lemma length_fold_sha_block: "length (fold (\<lambda>b hs. sha_block hs (f b)) bs hs) = length hs"
  by (induction bs arbitrary: hs) simp_all

lemma length_sha256_words [simp]: "length (sha256_words s) = 8"
  by (simp add: sha256_words_def length_fold_sha_block sha_H0_def)

lemma hex_char_hex_digit: "d < 16 \<Longrightarrow> hex_char (hex_digit d)"
  by (auto simp: hex_char_def hex_digit_def less_eq_char_def)

lemma hex_char_hex_digits: "list_all hex_char (hex_digits k n)"
  by (induction k arbitrary: n) (simp_all add: hex_char_hex_digit)

lemma length_concat_hex: "length (concat (map (\<lambda>w. hex_digits 8 (f w)) ws)) = 8 * length ws"
  by (induction ws) simp_all

lemma sha256_hex_shape: "matches_exactly hex_char 64 (sha256_hex s)"
  using hex_char_hex_digits
  by (auto simp: matches_exactly_def sha256_hex_def length_concat_hex list_all_iff)

interpretation sha: hex_digest sha256_hex
  by unfold_locales (rule sha256_hex_shape)

end
