(* ===== verification/Validation.thy ===== *)
theory Validation
  imports Sha256
begin

text \<open>
  The closed string vocabularies of \<open>src/internal/domain\<close>, the error values, and the field
  validators of \<open>validation.go\<close>, \<open>error.go\<close> and \<open>attachment.go\<close>.

  A Go vocabulary is a string type with named constants, so a variable of it can also hold a string
  that is none of them: each datatype has one constructor per constant, in the order of the source,
  and a last one, \<open>\<dots>Other\<close>, for every other string (the zero value is \<open>\<dots>Other ''''\<close>).
\<close>

section \<open>Vocabularies\<close>

datatype TaskShape = ShapeShip | ShapeScout | ShapeOther string

datatype DeliveryMode =
    DeliveryPullRequest | DeliveryLocalBranch | DeliveryReport | DeliveryMergeAfterApproval
  | DeliveryOther string

datatype TaskState =
    TaskPrepared | TaskReady | TaskLaunching | TaskWorking | TaskAwaitingDecision | TaskBlocked
  | TaskPaused | TaskReconciling | TaskValidating | TaskCandidateComplete | TaskDelivering
  | TaskDelivered | TaskFailed | TaskCancelled | TaskUnknown | TaskCleanupHeld | TaskCleaned
  | TaskStateOther string

datatype TaskTransition =
    TransitionBindAcknowledged | TransitionPreparationPreserved | TransitionPreparationAbandoned
  | TransitionLaunchRequested | TransitionWorkerAcknowledged | TransitionTerminalUnavailable
  | TransitionDecisionRequested | TransitionDecisionAnswered | TransitionBlocked
  | TransitionResumed | TransitionPaused | TransitionValidationStarted
  | TransitionValidationAccepted | TransitionEvidenceInvalidated | TransitionDeliveryStarted
  | TransitionDeliveryAccepted | TransitionFailureObserved | TransitionCancelRequested
  | TransitionCleanupStarted | TransitionCleanupAccepted | TransitionReconcileRequired
  | TransitionReconciliationUnresolved | TransitionReconciledPrepared | TransitionReconciledReady
  | TransitionReconciledLaunching | TransitionReconciledWorking | TransitionReconciledDecision
  | TransitionReconciledBlocked | TransitionReconciledPaused | TransitionReconciledValidating
  | TransitionReconciledCandidate | TransitionReconciledDelivering | TransitionReconciledDelivered
  | TransitionReconciledFailed | TransitionReconciledCancelled | TransitionReconciledCleanupHeld
  | TransitionOther string

datatype ErrorCode =
    ErrorInvalidArgument | ErrorNotFound | ErrorConflict | ErrorUnauthorized | ErrorUnavailable
  | ErrorDeadlineExceeded | ErrorPrecondition | ErrorInternal | ErrorUnknown
  | ErrorCodeOther string

datatype MergeRefusalReason =
    MergeRefusedNoApproval | MergeRefusedApprovalExpired | MergeRefusedScopeMismatch
  | MergeRefusedHeadChanged | MergeRefusedOperatorDisabled
  | MergeRefusalOther string

datatype ContractArtifactKind =
    ArtifactAPISchema | ArtifactGeneratedClient | ArtifactFixture | ArtifactMigrationContract
  | ArtifactIntegrationNote
  | ArtifactKindOther string

definition TaskShape_valid :: "TaskShape \<Rightarrow> bool" where
  "TaskShape_valid shape \<longleftrightarrow> shape = ShapeShip \<or> shape = ShapeScout"

fun DeliveryMode_valid :: "DeliveryMode \<Rightarrow> bool" where
  "DeliveryMode_valid DeliveryPullRequest = True"
| "DeliveryMode_valid DeliveryReport = True"
| "DeliveryMode_valid _ = False"

definition ValidForShape :: "DeliveryMode \<Rightarrow> TaskShape \<Rightarrow> bool" where
  "ValidForShape mode shape =
     (if \<not> DeliveryMode_valid mode \<or> \<not> TaskShape_valid shape then False
      else if shape = ShapeScout then mode = DeliveryReport
      else mode = DeliveryPullRequest)"

fun TaskState_valid :: "TaskState \<Rightarrow> bool" where
  "TaskState_valid (TaskStateOther _) = False"
| "TaskState_valid _ = True"

fun SatisfiesInitiativeDependency :: "TaskState \<Rightarrow> bool" where
  "SatisfiesInitiativeDependency TaskCandidateComplete = True"
| "SatisfiesInitiativeDependency TaskDelivering = True"
| "SatisfiesInitiativeDependency TaskDelivered = True"
| "SatisfiesInitiativeDependency TaskCleanupHeld = True"
| "SatisfiesInitiativeDependency TaskCleaned = True"
| "SatisfiesInitiativeDependency _ = False"

fun allowsUnboundPreparation :: "TaskState \<Rightarrow> bool" where
  "allowsUnboundPreparation TaskPrepared = True"
| "allowsUnboundPreparation TaskReconciling = True"
| "allowsUnboundPreparation TaskUnknown = True"
| "allowsUnboundPreparation TaskCancelled = True"
| "allowsUnboundPreparation TaskCleanupHeld = True"
| "allowsUnboundPreparation TaskCleaned = True"
| "allowsUnboundPreparation _ = False"

fun ErrorCode_Valid :: "ErrorCode \<Rightarrow> bool" where
  "ErrorCode_Valid (ErrorCodeOther _) = False"
| "ErrorCode_Valid _ = True"

fun ContractArtifactKind_valid :: "ContractArtifactKind \<Rightarrow> bool" where
  "ContractArtifactKind_valid (ArtifactKindOther _) = False"
| "ContractArtifactKind_valid _ = True"

text \<open>The constants' string values, where the program prints them.\<close>

fun TaskShape_string :: "TaskShape \<Rightarrow> string" where
  "TaskShape_string ShapeShip = ''ship''"
| "TaskShape_string ShapeScout = ''scout''"
| "TaskShape_string (ShapeOther s) = s"

fun DeliveryMode_string :: "DeliveryMode \<Rightarrow> string" where
  "DeliveryMode_string DeliveryPullRequest = ''pull_request''"
| "DeliveryMode_string DeliveryLocalBranch = ''local_branch''"
| "DeliveryMode_string DeliveryReport = ''report''"
| "DeliveryMode_string DeliveryMergeAfterApproval = ''merge_after_approval''"
| "DeliveryMode_string (DeliveryOther s) = s"

fun ContractArtifactKind_string :: "ContractArtifactKind \<Rightarrow> string" where
  "ContractArtifactKind_string ArtifactAPISchema = ''api_schema''"
| "ContractArtifactKind_string ArtifactGeneratedClient = ''generated_client''"
| "ContractArtifactKind_string ArtifactFixture = ''fixture''"
| "ContractArtifactKind_string ArtifactMigrationContract = ''migration_contract''"
| "ContractArtifactKind_string ArtifactIntegrationNote = ''integration_note''"
| "ContractArtifactKind_string (ArtifactKindOther s) = s"

section \<open>Error values\<close>

datatype go_error =
    ValidationError string string
  | TransitionError TaskState TaskTransition string
  | MergeRefusal MergeRefusalReason string
  | Failure ErrorCode bool string string "go_error option"
  | PlainError string
  | WrapError string go_error

type_synonym 'a result = "go_error + 'a"

section \<open>Field validators\<close>

definition opaqueIDPattern :: "string \<Rightarrow> bool" where
  "opaqueIDPattern = matches_head_body lower_digit (\<lambda>c. lower_digit c \<or> c = CHR ''-'') 2 63"

definition commandPattern :: "string \<Rightarrow> bool" where
  "commandPattern =
     matches_head_body upper
       (\<lambda>c. upper c \<or> lower_digit c) 2 63"

definition revisionPattern :: "string \<Rightarrow> bool" where
  "revisionPattern s \<longleftrightarrow> matches_exactly hex_char 40 s \<or> matches_exactly hex_char 64 s"

definition sha256HexPattern :: "string \<Rightarrow> bool" where
  "sha256HexPattern = matches_exactly hex_char 64"

definition authorityPattern :: "string \<Rightarrow> bool" where
  "authorityPattern =
     matches_head_body (\<lambda>c. upper c \<or> lower_digit c)
       (\<lambda>c. upper c \<or> lower_digit c \<or> c \<in> set ''._~-'') 2 255"

definition attachmentTargetNamePattern :: "string \<Rightarrow> bool" where
  "attachmentTargetNamePattern s \<longleftrightarrow>
     length s = 48 \<and> take 11 s = ''attachment-'' \<and>
     list_all hex_char (take 32 (drop 11 s)) \<and> drop 43 s = ''.sock''"

definition validateOpaqueID :: "string \<Rightarrow> string \<Rightarrow> go_error option" where
  "validateOpaqueID field value =
     fail_if (\<not> opaqueIDPattern value)
       (ValidationError field ''must be a bounded lowercase opaque identifier'')"

definition validateCommand :: "string \<Rightarrow> go_error option" where
  "validateCommand value =
     fail_if (\<not> commandPattern value)
       (ValidationError ''command'' ''must be a known command-style identifier'')"

definition validateAuthorityReference :: "string \<Rightarrow> string \<Rightarrow> go_error option" where
  "validateAuthorityReference field value =
     fail_if (\<not> authorityPattern value)
       (ValidationError field ''must be a bounded opaque authority reference'')"

definition validateRevision :: "string \<Rightarrow> go_error option" where
  "validateRevision value =
     fail_if (\<not> revisionPattern value)
       (ValidationError ''baseRevision'' ''must be a lowercase Git object identity'')"

definition validateSHA256 :: "string \<Rightarrow> string \<Rightarrow> go_error option" where
  "validateSHA256 field value =
     fail_if (\<not> sha256HexPattern value)
       (ValidationError field ''must be a lowercase SHA-256 digest'')"

definition ValidateAttachmentTargetName :: "string \<Rightarrow> go_error option" where
  "ValidateAttachmentTargetName value =
     fail_if (\<not> attachmentTargetNamePattern value)
       (ValidationError ''attachmentTargetName'' ''must be a Comis-managed attachment socket name'')"

definition ValidateTaskHandle :: "string \<Rightarrow> go_error option" where
  "ValidateTaskHandle value = validateOpaqueID ''taskHandle'' value"

definition ValidateRepositoryID :: "string \<Rightarrow> go_error option" where
  "ValidateRepositoryID value = validateOpaqueID ''repositoryId'' value"

definition ValidateOperationID :: "string \<Rightarrow> go_error option" where
  "ValidateOperationID value = validateOpaqueID ''operationId'' value"

definition ValidateDecisionKey :: "string \<Rightarrow> go_error option" where
  "ValidateDecisionKey value = validateOpaqueID ''externalKey'' value"

definition validateTimes :: "time \<Rightarrow> time \<Rightarrow> go_error option" where
  "validateTimes createdAt updatedAt = first_error
     [fail_if (IsZero createdAt \<or> IsZero updatedAt) (ValidationError ''timestamps'' ''must be present''),
      fail_if (\<not> in_utc createdAt \<or> \<not> in_utc updatedAt) (ValidationError ''timestamps'' ''must use UTC''),
      fail_if (Before updatedAt createdAt) (ValidationError ''updatedAt'' ''must not precede createdAt'')]"

definition validateBoundedSafeText :: "string \<Rightarrow> string \<Rightarrow> nat \<Rightarrow> go_error option" where
  "validateBoundedSafeText field value maximumBytes = first_error
     [fail_if (TrimSpace value = []) (ValidationError field ''must not be empty''),
      fail_if (length value > maximumBytes)
        (ValidationError field (''must be at most '' @ dec_nat maximumBytes @ '' bytes'')),
      fail_if (\<not> ValidString value) (ValidationError field ''must be valid UTF-8''),
      fail_if (\<exists>r\<in>set (runes value). IsControl r)
        (ValidationError field ''must not contain control characters'')]"

definition validateSafeText :: "string \<Rightarrow> string \<Rightarrow> go_error option" where
  "validateSafeText field value = validateBoundedSafeText field value 512"

definition ValidateSteeringInstruction :: "string \<Rightarrow> go_error option" where
  "ValidateSteeringInstruction value = validateBoundedSafeText ''instruction'' value 2048"

definition MaximumDecisionResponseBytes :: nat where
  "MaximumDecisionResponseBytes = 8192"

definition ValidateDecisionResponse :: "string \<Rightarrow> go_error option" where
  "ValidateDecisionResponse value = first_error
     [fail_if (value = []) (ValidationError ''response'' ''must not be empty''),
      fail_if (length value > MaximumDecisionResponseBytes)
        (ValidationError ''response'' ''must stay within its byte bound''),
      fail_if (\<not> ValidString value) (ValidationError ''response'' ''must be valid text''),
      fail_if (\<exists>r\<in>set (runes value). r \<noteq> 0x0A \<and> r \<noteq> 0x09 \<and> (r < 0x20 \<or> r = 0x7F))
        (ValidationError ''response'' ''must not carry control characters'')]"

definition NewFailure ::
  "ErrorCode \<Rightarrow> bool \<Rightarrow> string \<Rightarrow> string \<Rightarrow> go_error option \<Rightarrow> go_error result" where
  "NewFailure code retryable message hint cause =
     ensure (first_error
       [fail_if (\<not> ErrorCode_Valid code) (ValidationError ''code'' ''must be a known error code''),
        validateSafeText ''message'' message,
        validateSafeText ''hint'' hint])
     (Inr (Failure code retryable message hint cause))"

section \<open>Text the validators accept\<close>

lemma validateBoundedSafeText_ascii:
  assumes "printable_ascii s" "length s \<le> n"
  shows "validateBoundedSafeText f s n = None"
proof -
  have a: "\<forall>c\<in>set s. byte c < 0x80" using assms by (auto simp: printable_ascii_def list_all_iff)
  have h: "0x20 \<le> byte (hd s)" "byte (hd s) < 0x7F" "hd s \<noteq> CHR '' ''" "s \<noteq> []"
    using assms by (auto simp: printable_ascii_def list_all_iff)
  have "byte (hd s) \<noteq> 0x20"
  proof
    assume "byte (hd s) = 0x20"
    then have "byte (hd s) = byte (CHR '' '')" by simp
    with h(3) show False by (simp only: of_char_eq_iff)
  qed
  with h have "\<not> IsSpace (byte (hd s))" by (auto simp: IsSpace_def)
  then have "TrimSpace s \<noteq> []" using h by (intro TrimSpace_ascii_head) auto
  moreover have "\<not> (\<exists>r\<in>set (runes s). IsControl r)"
    using assms by (auto simp: runes_ascii [OF a] IsControl_def printable_ascii_def list_all_iff)
  ultimately show ?thesis
    using assms(2) ValidString_ascii [OF a] by (simp add: validateBoundedSafeText_def)
qed

end
