(* ===== verification/Task.thy ===== *)
theory Task
  imports Validation
begin

text \<open>
  The durable task record (\<open>task.go\<close>), the contracts it pins (\<open>contract_artifact.go\<close>) and its
  canonical worker brief (\<open>brief.go\<close>): the text a worker is launched with and the SHA-256 digest
  that binds it to the record.
\<close>

section \<open>Records\<close>

record PinnedContract =
  pin_ArtifactHandle :: string
  pin_Kind :: ContractArtifactKind
  pin_ContentHash :: string

record Task =
  task_SchemaVersion :: int64
  task_Handle :: string
  task_ServiceInstanceID :: string
  task_ManagedRunID :: string
  task_WorkspaceLeaseID :: string
  task_ExecutionAttachmentID :: string
  task_AttachmentTargetName :: string
  task_State :: TaskState
  task_Shape :: TaskShape
  task_RepositoryID :: string
  task_BaseRevision :: string
  task_BriefRevision :: int64
  task_BriefRevisionHash :: string
  task_AcceptanceCriteria :: "string list"
  task_Constraints :: "string list"
  task_ConsumedContracts :: "PinnedContract list"
  task_ValidationProfile :: string
  task_DeliveryMode :: DeliveryMode
  task_WorkerProfileID :: string
  task_ReportCursor :: int64
  task_StateVersion :: int64
  task_CreatedAt :: time
  task_UpdatedAt :: time

record WorkerBrief =
  brief_Revision :: int64
  brief_RevisionHash :: string
  brief_Content :: string

section \<open>Pinned contracts and contract text\<close>

definition PinnedContract_Validate :: "PinnedContract \<Rightarrow> go_error option" where
  "PinnedContract_Validate pin = first_error
     [validateOpaqueID ''consumedContracts.artifactHandle'' (pin_ArtifactHandle pin),
      fail_if (\<not> ContractArtifactKind_valid (pin_Kind pin))
        (ValidationError ''consumedContracts.kind'' ''must be a closed contract artifact kind''),
      validateSHA256 ''consumedContracts.contentHash'' (pin_ContentHash pin)]"

definition maximumContractEntries :: nat where
  "maximumContractEntries = 32"

definition maximumWorkerBriefBytes :: nat where
  "maximumWorkerBriefBytes = 16 * 1024"

definition validateContractTextList :: "string \<Rightarrow> string list \<Rightarrow> bool \<Rightarrow> go_error option" where
  "validateContractTextList field values required = first_error
     [fail_if (required \<and> values = []) (ValidationError field ''must contain at least one entry''),
      fail_if (length values > maximumContractEntries)
        (ValidationError field ''must contain at most 32 entries''),
      scan_unique (validateSafeText field) id
        (ValidationError field ''must not contain duplicate entries'') {} values]"

definition validateConsumedContracts :: "Task \<Rightarrow> go_error option" where
  "validateConsumedContracts task = first_error
     [fail_if (length (task_ConsumedContracts task) > maximumContractEntries)
        (ValidationError ''consumedContracts'' ''must hold a bounded number of pins''),
      scan_unique PinnedContract_Validate pin_ArtifactHandle
        (ValidationError ''consumedContracts'' ''an artifact may be pinned once'') {}
        (task_ConsumedContracts task)]"

definition validateBriefInputs :: "Task \<Rightarrow> go_error option" where
  "validateBriefInputs task = first_error
     [fail_if (sint (task_BriefRevision task) < 1) (ValidationError ''briefRevision'' ''must be positive''),
      validateContractTextList ''acceptanceCriteria'' (task_AcceptanceCriteria task) True,
      validateContractTextList ''constraints'' (task_Constraints task) False,
      validateConsumedContracts task]"

section \<open>Rendering the brief\<close>

definition writeBriefField :: "string \<Rightarrow> string \<Rightarrow> string" where
  "writeBriefField name value = name @ '': '' @ value @ [CHR 0x0A]"

definition writeBriefList :: "print_table \<Rightarrow> string \<Rightarrow> string list \<Rightarrow> string" where
  "writeBriefList u name values =
     name @ '':'' @ [CHR 0x0A] @ concat (map (\<lambda>v. ''- '' @ Quote u v @ [CHR 0x0A]) values)"

definition writeBriefContracts :: "PinnedContract list \<Rightarrow> string" where
  "writeBriefContracts pins =
     (if pins = [] then []
      else ''consumedContracts:'' @ [CHR 0x0A] @
        concat (map (\<lambda>pin. ''  - '' @ pin_ArtifactHandle pin @ '' '' @
                      ContractArtifactKind_string (pin_Kind pin) @ '' '' @ pin_ContentHash pin @ [CHR 0x0A])
                    (sort_key pin_ArtifactHandle pins)))"

definition brief_body :: "print_table \<Rightarrow> Task \<Rightarrow> string" where
  "brief_body u task =
     writeBriefField ''taskHandle'' (task_Handle task) @
     writeBriefField ''briefRevision'' (FormatInt (task_BriefRevision task)) @
     writeBriefField ''shape'' (TaskShape_string (task_Shape task)) @
     writeBriefField ''deliveryMode'' (DeliveryMode_string (task_DeliveryMode task)) @
     writeBriefField ''repositoryId'' (task_RepositoryID task) @
     writeBriefField ''baseRevision'' (task_BaseRevision task) @
     writeBriefField ''validationProfile'' (task_ValidationProfile task) @
     writeBriefField ''workerProfileId'' (task_WorkerProfileID task) @
     writeBriefList u ''acceptanceCriteria'' (task_AcceptanceCriteria task) @
     writeBriefList u ''constraints'' (task_Constraints task) @
     writeBriefContracts (task_ConsumedContracts task) @
     writeBriefField ''workspaceSelfCheck''
       ''verify the canonical working directory and task handle before mutation'' @
     writeBriefField ''reportCommand'' ''devcrew-report through the protected task reporter'' @
     writeBriefField ''reportKinds''
       ''progress, attention, blocked, paused, candidate_complete, failed, resolution'' @
     writeBriefField ''decisionProtocol''
       ''request one keyed decision and wait for acknowledged delivery'' @
     writeBriefField ''completionMeaning'' ''candidate_complete requires service validation and evidence'' @
     writeBriefField ''prohibitedActions''
       ''merge, mutate the primary checkout, change task shape, or bypass the reporter''"

definition renderBriefContent :: "print_table \<Rightarrow> Task \<Rightarrow> string result" where
  "renderBriefContent u task = ensure (validateBriefInputs task) (Inr (brief_body u task))"

definition briefRevisionDigest :: "print_table \<Rightarrow> Task \<Rightarrow> string result" where
  "briefRevisionDigest u task =
     (case renderBriefContent u task of
        Inl e \<Rightarrow> Inl e
      | Inr content \<Rightarrow> Inr (sha256_hex content))"

section \<open>Task validation\<close>

definition Task_Validate :: "print_table \<Rightarrow> Task \<Rightarrow> go_error option" where
  "Task_Validate u task =
     (let hasRun = task_ManagedRunID task \<noteq> [];
          hasLease = task_WorkspaceLeaseID task \<noteq> [];
          hasAttachmentID = task_ExecutionAttachmentID task \<noteq> [];
          hasAttachmentTarget = task_AttachmentTargetName task \<noteq> []
      in first_error
        [fail_if (task_SchemaVersion task \<noteq> 1) (ValidationError ''schemaVersion'' ''must equal 1''),
         validateOpaqueID ''handle'' (task_Handle task),
         validateOpaqueID ''repositoryId'' (task_RepositoryID task),
         validateOpaqueID ''validationProfile'' (task_ValidationProfile task),
         validateOpaqueID ''workerProfileId'' (task_WorkerProfileID task),
         validateAuthorityReference ''serviceInstanceId'' (task_ServiceInstanceID task),
         fail_if (hasRun \<noteq> hasLease)
           (ValidationError ''binding'' ''managed run and workspace lease must be present together''),
         (if hasRun then first_error
            [validateAuthorityReference ''managedRunId'' (task_ManagedRunID task),
             validateAuthorityReference ''workspaceLeaseId'' (task_WorkspaceLeaseID task)] else None),
         fail_if (hasAttachmentID \<noteq> hasAttachmentTarget)
           (ValidationError ''executionAttachment'' ''attachment identity and target must be present together''),
         (if hasAttachmentID then first_error
            [validateAuthorityReference ''executionAttachmentId'' (task_ExecutionAttachmentID task),
             ValidateAttachmentTargetName (task_AttachmentTargetName task)] else None),
         fail_if (\<not> TaskState_valid (task_State task))
           (ValidationError ''state'' ''must be a known E0 task state''),
         fail_if (\<not> allowsUnboundPreparation (task_State task) \<and> \<not> hasRun)
           (ValidationError ''binding'' ''active and terminal task states require exact host binding''),
         fail_if (\<not> TaskShape_valid (task_Shape task)) (ValidationError ''shape'' ''must be ship or scout''),
         validateRevision (task_BaseRevision task),
         fail_if (sint (task_BriefRevision task) < 1) (ValidationError ''briefRevision'' ''must be positive''),
         validateContractTextList ''acceptanceCriteria'' (task_AcceptanceCriteria task) True,
         validateContractTextList ''constraints'' (task_Constraints task) False,
         validateSHA256 ''briefRevisionHash'' (task_BriefRevisionHash task),
         (case briefRevisionDigest u task of
            Inl e \<Rightarrow> Some e
          | Inr wantBriefHash \<Rightarrow> fail_if (task_BriefRevisionHash task \<noteq> wantBriefHash)
              (ValidationError ''briefRevisionHash'' ''does not pin the canonical worker brief'')),
         fail_if (\<not> DeliveryMode_valid (task_DeliveryMode task))
           (ValidationError ''deliveryMode'' ''must be an E0 delivery mode''),
         fail_if (\<not> ValidForShape (task_DeliveryMode task) (task_Shape task))
           (ValidationError ''deliveryMode'' ''ship tasks deliver changes; scout tasks deliver a report''),
         fail_if (sint (task_ReportCursor task) < 0) (ValidationError ''reportCursor'' ''must not be negative''),
         fail_if (sint (task_StateVersion task) < 1) (ValidationError ''stateVersion'' ''must be positive''),
         validateTimes (task_CreatedAt task) (task_UpdatedAt task)])"

section \<open>Pinning and rendering\<close>

definition PinBriefRevision :: "print_table \<Rightarrow> Task \<Rightarrow> Task result" where
  "PinBriefRevision u task =
     (let pinned = task\<lparr>task_BriefRevisionHash := []\<rparr> in
      ensure (validateBriefInputs pinned)
       (case briefRevisionDigest u pinned of
          Inl e \<Rightarrow> Inl e
        | Inr digest \<Rightarrow>
            (let pinned' = pinned\<lparr>task_BriefRevisionHash := digest\<rparr> in
             ensure (Task_Validate u pinned') (Inr pinned'))))"

definition RenderWorkerBrief :: "print_table \<Rightarrow> Task \<Rightarrow> WorkerBrief result" where
  "RenderWorkerBrief u task =
     (case Task_Validate u task of
        Some e \<Rightarrow> Inl (WrapError ''render worker brief'' e)
      | None \<Rightarrow>
          (case renderBriefContent u task of
             Inl e \<Rightarrow> Inl (WrapError ''render worker brief'' e)
           | Inr content \<Rightarrow>
               Inr \<lparr>brief_Revision = task_BriefRevision task,
                    brief_RevisionHash = task_BriefRevisionHash task, brief_Content = content\<rparr>))"

definition WorkerBrief_Validate :: "WorkerBrief \<Rightarrow> go_error option" where
  "WorkerBrief_Validate brief = first_error
     [fail_if (sint (brief_Revision brief) < 1) (ValidationError ''briefRevision'' ''must be positive''),
      validateSHA256 ''briefRevisionHash'' (brief_RevisionHash brief),
      fail_if (TrimSpace (brief_Content brief) = [] \<or>
               length (brief_Content brief) > maximumWorkerBriefBytes \<or>
               \<not> ValidString (brief_Content brief))
        (ValidationError ''briefContent'' ''must be bounded nonempty UTF-8''),
      fail_if (\<exists>r\<in>set (runes (brief_Content brief)). IsControl r \<and> r \<noteq> 0x0A)
        (ValidationError ''briefContent'' ''must not contain non-line control characters''),
      fail_if (sha256_hex (brief_Content brief) \<noteq> brief_RevisionHash brief)
        (ValidationError ''briefRevisionHash'' ''does not pin the rendered worker brief'')]"

section \<open>What a passed validation says\<close>

text \<open>The fields a binding, transition or report never touches: the worker's contract.\<close>

definition same_contract :: "Task \<Rightarrow> Task \<Rightarrow> bool" where
  "same_contract a b \<longleftrightarrow>
     task_SchemaVersion a = task_SchemaVersion b \<and> task_Handle a = task_Handle b \<and>
     task_ServiceInstanceID a = task_ServiceInstanceID b \<and> task_Shape a = task_Shape b \<and>
     task_RepositoryID a = task_RepositoryID b \<and> task_BaseRevision a = task_BaseRevision b \<and>
     task_BriefRevision a = task_BriefRevision b \<and> task_BriefRevisionHash a = task_BriefRevisionHash b \<and>
     task_AcceptanceCriteria a = task_AcceptanceCriteria b \<and> task_Constraints a = task_Constraints b \<and>
     task_ConsumedContracts a = task_ConsumedContracts b \<and> task_ValidationProfile a = task_ValidationProfile b \<and>
     task_DeliveryMode a = task_DeliveryMode b \<and> task_WorkerProfileID a = task_WorkerProfileID b \<and>
     task_CreatedAt a = task_CreatedAt b"

definition task_bound :: "Task \<Rightarrow> bool" where
  "task_bound task \<longleftrightarrow> task_ManagedRunID task \<noteq> []"

lemma same_contract_refl [simp]: "same_contract a a"
  by (simp add: same_contract_def)

lemma same_contract_trans: "same_contract a b \<Longrightarrow> same_contract b c \<Longrightarrow> same_contract a c"
  by (simp add: same_contract_def)

lemma validateBriefInputs_cong: "same_contract a b \<Longrightarrow> validateBriefInputs a = validateBriefInputs b"
  by (simp add: same_contract_def validateBriefInputs_def validateConsumedContracts_def)

lemma brief_body_cong: "same_contract a b \<Longrightarrow> brief_body u a = brief_body u b"
  by (simp add: same_contract_def brief_body_def)

lemma briefRevisionDigest_cong: "same_contract a b \<Longrightarrow> briefRevisionDigest u a = briefRevisionDigest u b"
  by (simp add: briefRevisionDigest_def renderBriefContent_def validateBriefInputs_cong brief_body_cong)

lemma briefRevisionDigest_hash_free [simp]:
  "briefRevisionDigest u (task\<lparr>task_BriefRevisionHash := h\<rparr>) = briefRevisionDigest u task"
  by (simp add: briefRevisionDigest_def renderBriefContent_def validateBriefInputs_def
      validateConsumedContracts_def brief_body_def)

lemma briefRevisionDigest_Inr:
  "briefRevisionDigest u task = Inr d \<longleftrightarrow>
     validateBriefInputs task = None \<and> d = sha256_hex (brief_body u task)"
  by (auto simp: briefRevisionDigest_def renderBriefContent_def ensure_def split: option.splits)

text \<open>
  The checks on the fields that change over a task's life, apart from the contract ones.
\<close>

definition progress_ok :: "Task \<Rightarrow> bool" where
  "progress_ok task \<longleftrightarrow>
     (task_bound task \<longleftrightarrow> task_WorkspaceLeaseID task \<noteq> []) \<and>
     (task_bound task \<longrightarrow> authorityPattern (task_ManagedRunID task) \<and> authorityPattern (task_WorkspaceLeaseID task)) \<and>
     (task_ExecutionAttachmentID task \<noteq> [] \<longleftrightarrow> task_AttachmentTargetName task \<noteq> []) \<and>
     (task_ExecutionAttachmentID task \<noteq> [] \<longrightarrow>
        authorityPattern (task_ExecutionAttachmentID task) \<and>
        attachmentTargetNamePattern (task_AttachmentTargetName task)) \<and>
     TaskState_valid (task_State task) \<and>
     (allowsUnboundPreparation (task_State task) \<or> task_bound task) \<and>
     0 \<le> sint (task_ReportCursor task) \<and> 1 \<le> sint (task_StateVersion task) \<and>
     validateTimes (task_CreatedAt task) (task_UpdatedAt task) = None"

definition contract_ok :: "print_table \<Rightarrow> Task \<Rightarrow> bool" where
  "contract_ok u task \<longleftrightarrow>
     task_SchemaVersion task = 1 \<and> opaqueIDPattern (task_Handle task) \<and>
     opaqueIDPattern (task_RepositoryID task) \<and> opaqueIDPattern (task_ValidationProfile task) \<and>
     opaqueIDPattern (task_WorkerProfileID task) \<and> authorityPattern (task_ServiceInstanceID task) \<and>
     revisionPattern (task_BaseRevision task) \<and> validateBriefInputs task = None \<and>
     task_BriefRevisionHash task = sha256_hex (brief_body u task) \<and>
     ValidForShape (task_DeliveryMode task) (task_Shape task)"

lemma sha256_hex_HexPattern [simp]: "sha256HexPattern (sha256_hex s)"
  by (simp add: sha256HexPattern_def sha.digest_shape)

lemma ValidForShape_valid: "ValidForShape m s \<Longrightarrow> DeliveryMode_valid m \<and> TaskShape_valid s"
  by (simp add: ValidForShape_def split: if_splits)

lemma brief_hash_check:
  "(case briefRevisionDigest u task of
      Inl e \<Rightarrow> Some e
    | Inr want \<Rightarrow> fail_if (task_BriefRevisionHash task \<noteq> want) err) = None \<longleftrightarrow>
   validateBriefInputs task = None \<and> task_BriefRevisionHash task = sha256_hex (brief_body u task)"
  by (cases "validateBriefInputs task") (auto simp: briefRevisionDigest_def renderBriefContent_def)

lemmas field_check_defs =
  validateOpaqueID_def validateAuthorityReference_def validateSHA256_def validateRevision_def
  ValidateAttachmentTargetName_def ValidateTaskHandle_def ValidateRepositoryID_def

lemma if_check_None: "(if b then c else None) = None \<longleftrightarrow> (b \<longrightarrow> c = None)"
  by simp

lemma Task_Validate_iff: "Task_Validate u task = None \<longleftrightarrow> contract_ok u task \<and> progress_ok task"
proof
  assume "Task_Validate u task = None"
  then show "contract_ok u task \<and> progress_ok task"
    unfolding Task_Validate_def Let_def first_error_Cons_None brief_hash_check if_check_None
      field_check_defs fail_if_None
    by (simp add: contract_ok_def progress_ok_def task_bound_def) blast
next
  assume ok: "contract_ok u task \<and> progress_ok task"
  then have "DeliveryMode_valid (task_DeliveryMode task)" "TaskShape_valid (task_Shape task)"
    by (auto simp: contract_ok_def dest: ValidForShape_valid)
  with ok show "Task_Validate u task = None"
    unfolding Task_Validate_def Let_def first_error_Cons_None brief_hash_check if_check_None
      field_check_defs fail_if_None
    by (simp add: contract_ok_def progress_ok_def task_bound_def validateBriefInputs_def) blast
qed

lemma contract_ok_cong: "same_contract a b \<Longrightarrow> contract_ok u a \<longleftrightarrow> contract_ok u b"
  by (simp add: contract_ok_def brief_body_cong validateBriefInputs_cong) (simp add: same_contract_def)

section \<open>A concrete task\<close>

text \<open>
  A prepared ship task with its brief pinned, and a bound working one: the inputs at which the
  properties are applied.
\<close>

definition utc_at :: "int \<Rightarrow> time" where
  "utc_at n = \<lparr>instant = n, in_utc = True\<rparr>"

definition draft_task :: Task where
  "draft_task =
     \<lparr>task_SchemaVersion = 1, task_Handle = ''task-1'', task_ServiceInstanceID = ''svc-1'',
      task_ManagedRunID = [], task_WorkspaceLeaseID = [], task_ExecutionAttachmentID = [],
      task_AttachmentTargetName = [], task_State = TaskPrepared, task_Shape = ShapeShip,
      task_RepositoryID = ''repo-1'', task_BaseRevision = ''0123456789012345678901234567890123456789'',
      task_BriefRevision = 1, task_BriefRevisionHash = [],
      task_AcceptanceCriteria = [''the tests pass''], task_Constraints = [], task_ConsumedContracts = [],
      task_ValidationProfile = ''go-default'', task_DeliveryMode = DeliveryPullRequest,
      task_WorkerProfileID = ''codex-worker'', task_ReportCursor = 0, task_StateVersion = 1,
      task_CreatedAt = utc_at 1, task_UpdatedAt = utc_at 1\<rparr>"

definition prepared_task :: "print_table \<Rightarrow> Task" where
  "prepared_task u = draft_task\<lparr>task_BriefRevisionHash := sha256_hex (brief_body u draft_task)\<rparr>"

definition task_in :: "print_table \<Rightarrow> TaskState \<Rightarrow> Task" where
  "task_in u s = (prepared_task u)\<lparr>task_ManagedRunID := ''run-1'', task_WorkspaceLeaseID := ''lease-1'', task_State := s\<rparr>"

lemmas draft_defs = draft_task_def utc_at_def

lemma draft_strings:
  "opaqueIDPattern ''task-1''" "opaqueIDPattern ''repo-1''" "opaqueIDPattern ''go-default''"
  "opaqueIDPattern ''codex-worker''" "authorityPattern ''svc-1''" "authorityPattern ''run-1''"
  "authorityPattern ''lease-1''" "revisionPattern ''0123456789012345678901234567890123456789''"
  "printable_ascii ''the tests pass''"
  by code_simp+

lemma draft_inputs: "validateBriefInputs draft_task = None"
  by (simp add: draft_defs validateBriefInputs_def validateContractTextList_def validateConsumedContracts_def
      maximumContractEntries_def validateSafeText_def validateBoundedSafeText_ascii draft_strings)

lemma brief_body_hash_free [simp]: "brief_body u (t\<lparr>task_BriefRevisionHash := h\<rparr>) = brief_body u t"
  by (simp add: brief_body_def)

lemma validateBriefInputs_hash_free [simp]:
  "validateBriefInputs (t\<lparr>task_BriefRevisionHash := h\<rparr>) = validateBriefInputs t"
  by (simp add: validateBriefInputs_def validateConsumedContracts_def)

lemma contract_ok_prepared: "contract_ok u (prepared_task u)"
  by (simp add: contract_ok_def prepared_task_def draft_inputs)
     (simp add: draft_defs draft_strings ValidForShape_def TaskShape_valid_def)

lemma prepared_task_valid: "Task_Validate u (prepared_task u) = None"
proof -
  have "progress_ok (prepared_task u)"
    by (simp add: prepared_task_def progress_ok_def task_bound_def draft_defs validateTimes_def time_defs)
  with contract_ok_prepared show ?thesis by (simp add: Task_Validate_iff)
qed

lemma task_in_valid:
  assumes "TaskState_valid s"
  shows "Task_Validate u (task_in u s) = None"
proof -
  have "contract_ok u (task_in u s) \<longleftrightarrow> contract_ok u (prepared_task u)"
    by (rule contract_ok_cong) (simp add: task_in_def same_contract_def)
  moreover have "progress_ok (task_in u s)"
    using assms by (simp add: task_in_def prepared_task_def progress_ok_def task_bound_def draft_defs
      validateTimes_def time_defs draft_strings)
  ultimately show ?thesis
    using contract_ok_prepared by (simp add: Task_Validate_iff)
qed

lemma task_in_sel [simp]:
  "task_State (task_in u s) = s" "task_UpdatedAt (task_in u s) = utc_at 1"
  "task_StateVersion (task_in u s) = 1" "task_ReportCursor (task_in u s) = 0"
  "task_ManagedRunID (task_in u s) = ''run-1''" "task_WorkspaceLeaseID (task_in u s) = ''lease-1''"
  "task_WorkerProfileID (task_in u s) = ''codex-worker''" "task_Handle (task_in u s) = ''task-1''"
  "task_RepositoryID (task_in u s) = ''repo-1''" "task_Shape (task_in u s) = ShapeShip"
  "task_BaseRevision (task_in u s) = ''0123456789012345678901234567890123456789''"
  "task_BriefRevision (task_in u s) = 1" "task_bound (task_in u s)" "task_ConsumedContracts (task_in u s) = []"
  by (simp_all add: task_in_def prepared_task_def draft_defs task_bound_def)

lemma utc_at_sel [simp]: "instant (utc_at n) = n" "in_utc (utc_at n)"
  by (simp_all add: utc_at_def)

end
