(* ===== verification/Versioned.thy ===== *)
theory Versioned
  imports Go_Text
begin

text \<open>
  The interface every durable record of the program keeps towards its writers: an operation either
  fails and leaves the record as it was, or yields a valid record whose version is one higher and
  whose stamp is not earlier.  Runs of such operations count their successes in the version, so an
  unchanged version means an unchanged record, which is what the optimistic \<open>ExpectedTaskVersion\<close>
  and \<open>stateVersion\<close> checks of the commit paths rely on.
\<close>

primrec run_ops :: "('t \<Rightarrow> 'e \<Rightarrow> 't \<times> 'err option) \<Rightarrow> 't \<Rightarrow> 'e list \<Rightarrow> 't" where
  "run_ops f t [] = t"
| "run_ops f t (e # es) = run_ops f (fst (f t e)) es"

primrec accepted_ops :: "('t \<Rightarrow> 'e \<Rightarrow> 't \<times> 'err option) \<Rightarrow> 't \<Rightarrow> 'e list \<Rightarrow> nat" where
  "accepted_ops f t [] = 0"
| "accepted_ops f t (e # es) =
     (if snd (f t e) = None then 1 else 0) + accepted_ops f (fst (f t e)) es"

locale versioned_record =
  fixes valid :: "'t \<Rightarrow> bool"
    and version :: "'t \<Rightarrow> int64"
    and stamp :: "'t \<Rightarrow> time"
    and update_op :: "'t \<Rightarrow> 'e \<Rightarrow> 't \<times> 'err option"
  assumes op_fails: "update_op t e = (t', Some err) \<Longrightarrow> t' = t"
    and op_valid: "update_op t e = (t', None) \<Longrightarrow> valid t'"
    and op_version: "update_op t e = (t', None) \<Longrightarrow> sint (version t') = sint (version t) + 1"
    and op_stamp: "update_op t e = (t', None) \<Longrightarrow> instant (stamp t) \<le> instant (stamp t')"
begin

lemma op_cases [case_names rejected accepted]:
  obtains err where "update_op t e = (t, Some err)"
  | t' where "update_op t e = (t', None)" "valid t'" "sint (version t') = sint (version t) + 1"
      "instant (stamp t) \<le> instant (stamp t')"
  by (cases "update_op t e"; cases "snd (update_op t e)")
     (auto dest: op_fails op_valid op_version op_stamp)

lemma run_version: "sint (version (run_ops update_op t es)) = sint (version t) + int (accepted_ops update_op t es)"
proof (induction es arbitrary: t)
  case (Cons e es)
  show ?case
    by (rule op_cases [where t = t and e = e]) (simp_all add: Cons.IH)
qed simp

lemma run_valid: "valid t \<Longrightarrow> valid (run_ops update_op t es)"
proof (induction es arbitrary: t)
  case (Cons e es)
  show ?case
    by (rule op_cases [where t = t and e = e]) (use Cons.prems in \<open>simp_all add: Cons.IH\<close>)
qed simp

lemma run_stamp: "instant (stamp t) \<le> instant (stamp (run_ops update_op t es))"
proof (induction es arbitrary: t)
  case (Cons e es)
  show ?case
    by (rule op_cases [where t = t and e = e]) (auto simp: Cons.IH intro: order_trans [OF _ Cons.IH])
qed simp

lemma run_none_accepted: "accepted_ops update_op t es = 0 \<Longrightarrow> run_ops update_op t es = t"
proof (induction es arbitrary: t)
  case (Cons e es)
  show ?case
    by (rule op_cases [where t = t and e = e]) (use Cons.prems in \<open>simp_all add: Cons.IH\<close>)
qed simp

lemma unchanged_version: "version (run_ops update_op t es) = version t \<Longrightarrow> run_ops update_op t es = t"
  using run_version [of t es] by (intro run_none_accepted) simp

end

end
