(* ===== verification/Lifecycle.thy ===== *)
theory Lifecycle
  imports Task Versioned "HOL-Library.Sublist"
begin

text \<open>
  The task lifecycle: the transition table and \<open>ApplyTransition\<close> (\<open>task_transition.go\<close>), host
  binding (\<open>binding.go\<close>), worker reports (\<open>report.go\<close>, \<open>report_transition.go\<close>) and the replay
  ledger record (\<open>operation.go\<close>).  An operation returns, as in Go, the pair of a task and an error.
\<close>

section \<open>The transition table\<close>

definition requiredTaskState :: "TaskState \<Rightarrow> TaskState \<Rightarrow> TaskState \<Rightarrow> TaskState option" where
  "requiredTaskState current required next_state = (if current \<noteq> required then None else Some next_state)"

fun oneOfTaskStates :: "TaskState \<Rightarrow> TaskState \<Rightarrow> TaskState list \<Rightarrow> TaskState option" where
  "oneOfTaskStates current next_state [] = None"
| "oneOfTaskStates current next_state (state # allowed) =
     (if current = state then Some next_state else oneOfTaskStates current next_state allowed)"

fun reconciledTaskState :: "TaskTransition \<Rightarrow> TaskState option" where
  "reconciledTaskState TransitionReconciliationUnresolved = Some TaskUnknown"
| "reconciledTaskState TransitionReconciledPrepared = Some TaskPrepared"
| "reconciledTaskState TransitionReconciledReady = Some TaskReady"
| "reconciledTaskState TransitionReconciledLaunching = Some TaskLaunching"
| "reconciledTaskState TransitionReconciledWorking = Some TaskWorking"
| "reconciledTaskState TransitionReconciledDecision = Some TaskAwaitingDecision"
| "reconciledTaskState TransitionReconciledBlocked = Some TaskBlocked"
| "reconciledTaskState TransitionReconciledPaused = Some TaskPaused"
| "reconciledTaskState TransitionReconciledValidating = Some TaskValidating"
| "reconciledTaskState TransitionReconciledCandidate = Some TaskCandidateComplete"
| "reconciledTaskState TransitionReconciledDelivering = Some TaskDelivering"
| "reconciledTaskState TransitionReconciledDelivered = Some TaskDelivered"
| "reconciledTaskState TransitionReconciledFailed = Some TaskFailed"
| "reconciledTaskState TransitionReconciledCancelled = Some TaskCancelled"
| "reconciledTaskState TransitionReconciledCleanupHeld = Some TaskCleanupHeld"
| "reconciledTaskState _ = None"

definition nextTaskState :: "TaskState \<Rightarrow> TaskTransition \<Rightarrow> TaskState option" where
  "nextTaskState current transition =
     (if transition = TransitionReconcileRequired then
        (if current \<noteq> TaskCleaned \<and> current \<noteq> TaskReconciling then Some TaskReconciling else None)
      else if current = TaskReconciling then reconciledTaskState transition
      else
        (case transition of
           TransitionBindAcknowledged \<Rightarrow> requiredTaskState current TaskPrepared TaskReady
         | TransitionPreparationPreserved \<Rightarrow> requiredTaskState current TaskPrepared TaskPrepared
         | TransitionPreparationAbandoned \<Rightarrow> requiredTaskState current TaskPrepared TaskCancelled
         | TransitionLaunchRequested \<Rightarrow> requiredTaskState current TaskReady TaskLaunching
         | TransitionWorkerAcknowledged \<Rightarrow> requiredTaskState current TaskLaunching TaskWorking
         | TransitionTerminalUnavailable \<Rightarrow> oneOfTaskStates current TaskUnknown
             [TaskLaunching, TaskWorking, TaskAwaitingDecision, TaskBlocked, TaskPaused]
         | TransitionDecisionRequested \<Rightarrow> requiredTaskState current TaskWorking TaskAwaitingDecision
         | TransitionDecisionAnswered \<Rightarrow> requiredTaskState current TaskAwaitingDecision TaskWorking
         | TransitionBlocked \<Rightarrow> oneOfTaskStates current TaskBlocked [TaskWorking, TaskAwaitingDecision]
         | TransitionPaused \<Rightarrow> oneOfTaskStates current TaskPaused
             [TaskReady, TaskWorking, TaskAwaitingDecision, TaskBlocked]
         | TransitionResumed \<Rightarrow> requiredTaskState current TaskPaused TaskReady
         | TransitionValidationStarted \<Rightarrow> oneOfTaskStates current TaskValidating [TaskWorking, TaskPaused]
         | TransitionValidationAccepted \<Rightarrow> requiredTaskState current TaskValidating TaskCandidateComplete
         | TransitionEvidenceInvalidated \<Rightarrow>
             oneOfTaskStates current TaskValidating [TaskCandidateComplete, TaskDelivered]
         | TransitionDeliveryStarted \<Rightarrow> requiredTaskState current TaskCandidateComplete TaskDelivering
         | TransitionDeliveryAccepted \<Rightarrow> requiredTaskState current TaskDelivering TaskDelivered
         | TransitionFailureObserved \<Rightarrow> oneOfTaskStates current TaskFailed
             [TaskPrepared, TaskReady, TaskLaunching, TaskWorking, TaskAwaitingDecision, TaskBlocked,
              TaskPaused, TaskValidating, TaskCandidateComplete, TaskDelivering]
         | TransitionCancelRequested \<Rightarrow> oneOfTaskStates current TaskCancelled
             [TaskPrepared, TaskReady, TaskLaunching, TaskWorking, TaskAwaitingDecision, TaskBlocked,
              TaskPaused, TaskValidating, TaskCandidateComplete]
         | TransitionCleanupStarted \<Rightarrow>
             oneOfTaskStates current TaskCleanupHeld [TaskDelivered, TaskFailed, TaskCancelled]
         | TransitionCleanupAccepted \<Rightarrow> requiredTaskState current TaskCleanupHeld TaskCleaned
         | _ \<Rightarrow> None))"

section \<open>ApplyTransition\<close>

definition transitionFailure :: "Task \<Rightarrow> TaskTransition \<Rightarrow> string \<Rightarrow> go_error" where
  "transitionFailure task transition reason = TransitionError (task_State task) transition reason"

definition ApplyTransition ::
  "print_table \<Rightarrow> Task \<Rightarrow> TaskTransition \<Rightarrow> time \<Rightarrow> Task \<times> go_error option" where
  "ApplyTransition u task transition occurredAt =
     (if Task_Validate u task \<noteq> None then
        (task, Some (transitionFailure task transition ''current task is invalid''))
      else if \<not> in_utc occurredAt \<or> Before occurredAt (task_UpdatedAt task) then
        (task, Some (transitionFailure task transition ''transition time must be monotonic UTC''))
      else if task_StateVersion task = MaxInt64 then
        (task, Some (transitionFailure task transition ''state version is exhausted''))
      else
        (case nextTaskState (task_State task) transition of
           None \<Rightarrow> (task, Some (transitionFailure task transition ''transition is not valid from current state''))
         | Some next_state \<Rightarrow>
             (let updated = task\<lparr>task_State := next_state,
                                 task_StateVersion := task_StateVersion task + 1,
                                 task_UpdatedAt := occurredAt\<rparr>
              in if Task_Validate u updated \<noteq> None
                 then (task, Some (transitionFailure task transition ''transition would create an invalid task''))
                 else (updated, None))))"

section \<open>Host binding\<close>

record TaskBinding =
  bind_ManagedRunID :: string
  bind_WorkspaceLeaseID :: string

definition TaskBinding_Validate :: "TaskBinding \<Rightarrow> go_error option" where
  "TaskBinding_Validate binding = first_error
     [validateAuthorityReference ''managedRunId'' (bind_ManagedRunID binding),
      validateAuthorityReference ''workspaceLeaseId'' (bind_WorkspaceLeaseID binding)]"

definition AcknowledgeBinding ::
  "print_table \<Rightarrow> Task \<Rightarrow> TaskBinding \<Rightarrow> time \<Rightarrow> Task \<times> go_error option" where
  "AcknowledgeBinding u task binding occurredAt =
     (if TaskBinding_Validate binding \<noteq> None then
        (task, Some (transitionFailure task TransitionBindAcknowledged ''binding identity is invalid''))
      else if task_State task = TaskReady \<and> task_ManagedRunID task = bind_ManagedRunID binding \<and>
              task_WorkspaceLeaseID task = bind_WorkspaceLeaseID binding then (task, None)
      else if task_State task \<noteq> TaskPrepared \<or> task_ManagedRunID task \<noteq> [] \<or> task_WorkspaceLeaseID task \<noteq> [] then
        (task, Some (transitionFailure task TransitionBindAcknowledged ''task is not an unbound preparation''))
      else
        (let bound = task\<lparr>task_ManagedRunID := bind_ManagedRunID binding,
                          task_WorkspaceLeaseID := bind_WorkspaceLeaseID binding\<rparr>
         in ApplyTransition u bound TransitionBindAcknowledged occurredAt))"

section \<open>Worker reports\<close>

datatype WorkerReportKind =
    ReportProgress | ReportDecision | ReportBlocked | ReportPaused | ReportCandidateComplete
  | ReportFailed | ReportResolution
  | ReportKindOther string

fun WorkerReportKind_valid :: "WorkerReportKind \<Rightarrow> bool" where
  "WorkerReportKind_valid (ReportKindOther _) = False"
| "WorkerReportKind_valid _ = True"

record WorkerReport =
  rep_SchemaVersion :: int64
  rep_LocalReportID :: string
  rep_BriefRevision :: int64
  rep_BriefRevisionHash :: string
  rep_Kind :: WorkerReportKind
  rep_ExternalKey :: string
  rep_Summary :: string
  rep_Details :: string
  rep_WorkerObservedAt :: "time option"

definition WorkerReport_Validate :: "WorkerReport \<Rightarrow> go_error option" where
  "WorkerReport_Validate report =
     (let requiresKey = rep_Kind report = ReportDecision \<or> rep_Kind report = ReportResolution
      in first_error
        [fail_if (rep_SchemaVersion report \<noteq> 1) (ValidationError ''schemaVersion'' ''must equal 1''),
         validateOpaqueID ''localReportId'' (rep_LocalReportID report),
         fail_if (sint (rep_BriefRevision report) < 1) (ValidationError ''briefRevision'' ''must be positive''),
         validateSHA256 ''briefRevisionHash'' (rep_BriefRevisionHash report),
         fail_if (\<not> WorkerReportKind_valid (rep_Kind report))
           (ValidationError ''kind'' ''must be a known sparse report kind''),
         (if requiresKey then validateOpaqueID ''externalKey'' (rep_ExternalKey report)
          else fail_if (rep_ExternalKey report \<noteq> [])
            (ValidationError ''externalKey'' ''is allowed only for decision or resolution reports'')),
         validateSafeText ''summary'' (rep_Summary report),
         (if rep_Details report \<noteq> [] then validateBoundedSafeText ''details'' (rep_Details report) 4096 else None),
         (case rep_WorkerObservedAt report of
            None \<Rightarrow> None
          | Some at \<Rightarrow> fail_if (IsZero at \<or> \<not> in_utc at)
              (ValidationError ''workerObservedAt'' ''must be a nonzero UTC time when present''))])"

record AcceptedReport =
  acc_TaskHandle :: string
  acc_Report :: WorkerReport
  acc_SubjectDigest :: string
  acc_StateVersion :: int64
  acc_AcceptedAt :: time

definition AcceptedReport_Validate :: "AcceptedReport \<Rightarrow> go_error option" where
  "AcceptedReport_Validate accepted = first_error
     [validateOpaqueID ''taskHandle'' (acc_TaskHandle accepted),
      WorkerReport_Validate (acc_Report accepted),
      validateSHA256 ''subjectDigest'' (acc_SubjectDigest accepted),
      fail_if (sint (acc_StateVersion accepted) < 1) (ValidationError ''stateVersion'' ''must be positive''),
      fail_if (IsZero (acc_AcceptedAt accepted) \<or> \<not> in_utc (acc_AcceptedAt accepted))
        (ValidationError ''acceptedAt'' ''must be nonzero UTC service time'')]"

text \<open>An unknown kind becomes the transition of the same spelling, which the table refuses.\<close>

fun reportTransition :: "WorkerReportKind \<Rightarrow> TaskTransition" where
  "reportTransition ReportProgress = TransitionWorkerAcknowledged"
| "reportTransition ReportDecision = TransitionDecisionRequested"
| "reportTransition ReportResolution = TransitionDecisionAnswered"
| "reportTransition ReportBlocked = TransitionBlocked"
| "reportTransition ReportPaused = TransitionPaused"
| "reportTransition ReportCandidateComplete = TransitionValidationStarted"
| "reportTransition ReportFailed = TransitionFailureObserved"
| "reportTransition (ReportKindOther s) = TransitionOther s"

definition AcceptWorkerReport ::
  "print_table \<Rightarrow> Task \<Rightarrow> WorkerReport \<Rightarrow> time \<Rightarrow> Task \<times> go_error option" where
  "AcceptWorkerReport u task report acceptedAt =
     (let transition = reportTransition (rep_Kind report) in
      if Task_Validate u task \<noteq> None then
        (task, Some (transitionFailure task transition ''current task is invalid''))
      else if WorkerReport_Validate report \<noteq> None then
        (task, Some (ValidationError ''report'' ''worker report is invalid''))
      else if rep_BriefRevision report \<noteq> task_BriefRevision task \<or>
              rep_BriefRevisionHash report \<noteq> task_BriefRevisionHash task then
        (task, Some (ValidationError ''reportBrief'' ''does not match the pinned task brief''))
      else if IsZero acceptedAt \<or> \<not> in_utc acceptedAt \<or> Before acceptedAt (task_UpdatedAt task) then
        (task, Some (ValidationError ''acceptedAt'' ''must be monotonic UTC service time''))
      else if task_ReportCursor task = MaxInt64 \<or> task_StateVersion task = MaxInt64 then
        (task, Some (transitionFailure task transition ''task report authority is exhausted''))
      else
        (let applied =
               (if rep_Kind report = ReportProgress then
                  (if task_State task = TaskLaunching \<and> task_WorkerProfileID task = ''fixture-worker'' then
                     ApplyTransition u task transition acceptedAt
                   else if task_State task \<noteq> TaskWorking then
                     (task, Some (transitionFailure task transition ''progress requires acknowledged working state''))
                   else (task\<lparr>task_StateVersion := task_StateVersion task + 1,
                              task_UpdatedAt := acceptedAt\<rparr>, None))
                else ApplyTransition u task transition acceptedAt)
         in case applied of
              (_, Some err) \<Rightarrow> (task, Some err)
            | (updated, None) \<Rightarrow>
                (let counted = updated\<lparr>task_ReportCursor := task_ReportCursor updated + 1\<rparr>
                 in if Task_Validate u counted \<noteq> None
                    then (task, Some (transitionFailure task transition ''report would create an invalid task''))
                    else (counted, None))))"

section \<open>The replay ledger record\<close>

datatype OperationStatus =
    OperationAccepted | OperationCompleted | OperationRejected | OperationUnknown
  | OperationStatusOther string

fun OperationStatus_valid :: "OperationStatus \<Rightarrow> bool" where
  "OperationStatus_valid (OperationStatusOther _) = False"
| "OperationStatus_valid _ = True"

record OperationRecord =
  op_SchemaVersion :: int64
  op_ID :: string
  op_Command :: string
  op_SubjectDigest :: string
  op_Status :: OperationStatus
  op_ErrorCode :: ErrorCode
  op_ResultRef :: string
  op_StateVersion :: int64
  op_CreatedAt :: time
  op_UpdatedAt :: time

definition OperationRecord_Validate :: "OperationRecord \<Rightarrow> go_error option" where
  "OperationRecord_Validate operation = first_error
     [fail_if (op_SchemaVersion operation \<noteq> 1) (ValidationError ''schemaVersion'' ''must equal 1''),
      validateOpaqueID ''operationId'' (op_ID operation),
      validateCommand (op_Command operation),
      validateSHA256 ''subjectDigest'' (op_SubjectDigest operation),
      fail_if (\<not> OperationStatus_valid (op_Status operation))
        (ValidationError ''status'' ''must be a known operation status''),
      (if op_Status operation = OperationRejected then
         fail_if (\<not> ErrorCode_Valid (op_ErrorCode operation))
           (ValidationError ''errorCode'' ''rejected operations require a known code'')
       else fail_if (op_ErrorCode operation \<noteq> ErrorCodeOther [])
           (ValidationError ''errorCode'' ''only rejected operations carry an error code'')),
      (if op_ResultRef operation \<noteq> [] then validateOpaqueID ''resultRef'' (op_ResultRef operation) else None),
      fail_if (sint (op_StateVersion operation) < 1) (ValidationError ''stateVersion'' ''must be positive''),
      validateTimes (op_CreatedAt operation) (op_UpdatedAt operation)]"

section \<open>Facts about the table\<close>

lemma oneOfTaskStates_Some [simp]:
  "oneOfTaskStates c n xs = Some s \<longleftrightarrow> c \<in> set xs \<and> s = n"
  by (induction xs) auto

lemma oneOfTaskStates_None [simp]: "oneOfTaskStates c n xs = None \<longleftrightarrow> c \<notin> set xs"
  by (induction xs) auto

declare oneOfTaskStates.simps(2) [simp del]

lemma requiredTaskState_Some [simp]: "requiredTaskState c r n = Some s \<longleftrightarrow> c = r \<and> s = n"
  by (auto simp: requiredTaskState_def)

lemma reconciledTaskState_range:
  "reconciledTaskState tr = Some s \<Longrightarrow> TaskState_valid s \<and> s \<noteq> TaskReconciling \<and> s \<noteq> TaskCleaned"
  by (cases tr) auto

lemma nextTaskState_valid: "nextTaskState c tr = Some s \<Longrightarrow> TaskState_valid s"
  by (cases tr) (auto simp: nextTaskState_def dest: reconciledTaskState_range split: if_splits)

lemma nextTaskState_from_cleaned: "nextTaskState TaskCleaned tr = None"
  by (cases tr) (auto simp: nextTaskState_def requiredTaskState_def)

lemma nextTaskState_to_cleaned:
  "nextTaskState c tr = Some TaskCleaned \<longleftrightarrow> c = TaskCleanupHeld \<and> tr = TransitionCleanupAccepted"
  by (cases tr) (auto simp: nextTaskState_def dest: reconciledTaskState_range split: if_splits)

lemma nextTaskState_from_unknown:
  "nextTaskState TaskUnknown tr = Some s \<longleftrightarrow> tr = TransitionReconcileRequired \<and> s = TaskReconciling"
  by (cases tr) (auto simp: nextTaskState_def requiredTaskState_def split: if_splits)

lemma nextTaskState_to_candidate:
  "nextTaskState c tr = Some TaskCandidateComplete \<longleftrightarrow>
     (c = TaskValidating \<and> tr = TransitionValidationAccepted) \<or>
     (c = TaskReconciling \<and> tr = TransitionReconciledCandidate)"
  by (cases tr) (auto simp: nextTaskState_def split: if_splits)

lemma nextTaskState_to_delivering:
  "nextTaskState c tr = Some TaskDelivering \<longleftrightarrow>
     (c = TaskCandidateComplete \<and> tr = TransitionDeliveryStarted) \<or>
     (c = TaskReconciling \<and> tr = TransitionReconciledDelivering)"
  by (cases tr) (auto simp: nextTaskState_def split: if_splits)

lemma nextTaskState_to_delivered:
  "nextTaskState c tr = Some TaskDelivered \<longleftrightarrow>
     (c = TaskDelivering \<and> tr = TransitionDeliveryAccepted) \<or>
     (c = TaskReconciling \<and> tr = TransitionReconciledDelivered)"
  by (cases tr) (auto simp: nextTaskState_def split: if_splits)

lemma nextTaskState_to_reconciling:
  "nextTaskState c tr = Some TaskReconciling \<longleftrightarrow>
     tr = TransitionReconcileRequired \<and> c \<noteq> TaskCleaned \<and> c \<noteq> TaskReconciling"
  by (cases tr) (auto simp: nextTaskState_def dest: reconciledTaskState_range split: if_splits)

section \<open>Single operations\<close>

lemma progress_ok_step:
  assumes "progress_ok t" "nextTaskState (task_State t) tr = Some s"
    and "in_utc at" "\<not> Before at (task_UpdatedAt t)" "task_StateVersion t \<noteq> MaxInt64"
  shows "progress_ok (t\<lparr>task_State := s, task_StateVersion := task_StateVersion t + 1, task_UpdatedAt := at\<rparr>)
     \<longleftrightarrow> \<not> IsZero at \<and> (allowsUnboundPreparation s \<or> task_bound t)"
proof -
  have times: "validateTimes (task_CreatedAt t) at = None \<longleftrightarrow> \<not> IsZero at"
    using assms by (auto simp: progress_ok_def validateTimes_def time_defs)
  show ?thesis
    using assms(1) nextTaskState_valid [OF assms(2)] sint64_inc_not_Max [OF assms(5)]
    by (simp add: progress_ok_def task_bound_def times) blast
qed

definition stepped :: "Task \<Rightarrow> TaskState \<Rightarrow> time \<Rightarrow> Task" where
  "stepped t s at = t\<lparr>task_State := s, task_StateVersion := task_StateVersion t + 1, task_UpdatedAt := at\<rparr>"

lemma stepped_sel [simp]:
  "task_State (stepped t s at) = s"
  "task_StateVersion (stepped t s at) = task_StateVersion t + 1"
  "task_UpdatedAt (stepped t s at) = at"
  "task_ReportCursor (stepped t s at) = task_ReportCursor t"
  "task_ManagedRunID (stepped t s at) = task_ManagedRunID t"
  "task_WorkspaceLeaseID (stepped t s at) = task_WorkspaceLeaseID t"
  "task_ExecutionAttachmentID (stepped t s at) = task_ExecutionAttachmentID t"
  "task_AttachmentTargetName (stepped t s at) = task_AttachmentTargetName t"
  "same_contract (stepped t s at) t"
  by (simp_all add: stepped_def same_contract_def)

lemma Task_Validate_stepped:
  assumes "Task_Validate u t = None" "nextTaskState (task_State t) tr = Some s"
    and "in_utc at" "\<not> Before at (task_UpdatedAt t)" "task_StateVersion t \<noteq> MaxInt64"
  shows "Task_Validate u (stepped t s at) = None \<longleftrightarrow>
    \<not> IsZero at \<and> (allowsUnboundPreparation s \<or> task_bound t)"
proof -
  have "contract_ok u (stepped t s at) \<longleftrightarrow> contract_ok u t"
    by (rule contract_ok_cong) simp
  then show ?thesis
    using assms progress_ok_step [of t tr s at] by (simp add: Task_Validate_iff flip: stepped_def)
qed

lemma ApplyTransition_accepts:
  "ApplyTransition u t tr at = (t', None) \<longleftrightarrow>
     Task_Validate u t = None \<and> in_utc at \<and> \<not> IsZero at \<and> \<not> Before at (task_UpdatedAt t) \<and>
     task_StateVersion t \<noteq> MaxInt64 \<and>
     (\<exists>s. nextTaskState (task_State t) tr = Some s \<and>
          (allowsUnboundPreparation s \<or> task_bound t) \<and> t' = stepped t s at)"
proof (cases "nextTaskState (task_State t) tr")
  case None
  then show ?thesis by (simp add: ApplyTransition_def)
next
  case (Some s)
  then show ?thesis
    using Task_Validate_stepped [of u t tr s at]
    by (auto simp: ApplyTransition_def Let_def simp flip: stepped_def split: if_splits)
qed

lemma ApplyTransition_rejects: "ApplyTransition u t tr at = (t', Some err) \<Longrightarrow> t' = t"
  by (auto simp: ApplyTransition_def Let_def split: if_splits option.splits)

lemma ApplyTransition_error_shape:
  "ApplyTransition u t tr at = (t', Some err) \<Longrightarrow> \<exists>reason. err = TransitionError (task_State t) tr reason"
  by (auto simp: ApplyTransition_def transitionFailure_def Let_def split: if_splits option.splits)

lemma AcceptWorkerReport_rejects: "AcceptWorkerReport u t r at = (t', Some err) \<Longrightarrow> t' = t"
  by (auto simp: AcceptWorkerReport_def Let_def split: if_splits option.splits prod.splits)

text \<open>The state a report of one kind moves the task to, if the report is admissible there.\<close>

definition report_target :: "Task \<Rightarrow> WorkerReportKind \<Rightarrow> TaskState option" where
  "report_target t kind =
     (if kind = ReportProgress then
        (if (task_State t = TaskLaunching \<and> task_WorkerProfileID t = ''fixture-worker'') \<or>
            task_State t = TaskWorking then Some TaskWorking else None)
      else nextTaskState (task_State t) (reportTransition kind))"

definition reported :: "Task \<Rightarrow> TaskState \<Rightarrow> time \<Rightarrow> Task" where
  "reported t s at = (stepped t s at)\<lparr>task_ReportCursor := task_ReportCursor t + 1\<rparr>"

lemma reported_sel [simp]:
  "task_State (reported t s at) = s"
  "task_StateVersion (reported t s at) = task_StateVersion t + 1"
  "task_UpdatedAt (reported t s at) = at"
  "task_ReportCursor (reported t s at) = task_ReportCursor t + 1"
  "task_ManagedRunID (reported t s at) = task_ManagedRunID t"
  "task_WorkspaceLeaseID (reported t s at) = task_WorkspaceLeaseID t"
  "same_contract (reported t s at) t"
  by (simp_all add: reported_def stepped_def same_contract_def)

lemma Task_Validate_counted:
  assumes "Task_Validate u t = None" "task_ReportCursor t \<noteq> MaxInt64"
  shows "Task_Validate u (t\<lparr>task_ReportCursor := task_ReportCursor t + 1\<rparr>) = None"
proof -
  let ?t' = "t\<lparr>task_ReportCursor := task_ReportCursor t + 1\<rparr>"
  have "contract_ok u ?t' \<longleftrightarrow> contract_ok u t"
    by (rule contract_ok_cong) (simp add: same_contract_def)
  moreover have "progress_ok t \<Longrightarrow> progress_ok ?t'"
    using sint64_inc_not_Max [OF assms(2)] by (simp add: progress_ok_def task_bound_def) blast
  ultimately show ?thesis
    using assms(1) by (simp add: Task_Validate_iff)
qed

lemma Task_Validate_working_again:
  assumes "Task_Validate u t = None" "task_State t = TaskWorking" "in_utc at" "\<not> IsZero at"
    and "\<not> Before at (task_UpdatedAt t)" "task_StateVersion t \<noteq> MaxInt64"
  shows "Task_Validate u (stepped t TaskWorking at) = None"
proof -
  have "contract_ok u (stepped t TaskWorking at) \<longleftrightarrow> contract_ok u t"
    by (rule contract_ok_cong) simp
  moreover have "progress_ok t \<Longrightarrow> progress_ok (stepped t TaskWorking at)"
    using assms sint64_inc_not_Max [OF assms(6)]
    by (simp add: progress_ok_def task_bound_def stepped_def validateTimes_def time_defs) blast
  ultimately show ?thesis
    using assms(1) by (simp add: Task_Validate_iff)
qed

lemma stepped_same_state:
  "task_State t = s \<Longrightarrow> t\<lparr>task_StateVersion := task_StateVersion t + 1, task_UpdatedAt := at\<rparr> = stepped t s at"
  by (cases t) (simp add: stepped_def)

definition report_admissible :: "print_table \<Rightarrow> Task \<Rightarrow> WorkerReport \<Rightarrow> time \<Rightarrow> bool" where
  "report_admissible u t r at \<longleftrightarrow>
     Task_Validate u t = None \<and> WorkerReport_Validate r = None \<and>
     rep_BriefRevision r = task_BriefRevision t \<and> rep_BriefRevisionHash r = task_BriefRevisionHash t \<and>
     \<not> IsZero at \<and> in_utc at \<and> \<not> Before at (task_UpdatedAt t) \<and>
     task_ReportCursor t \<noteq> MaxInt64 \<and> task_StateVersion t \<noteq> MaxInt64"

lemma report_not_admissible: "\<not> report_admissible u t r at \<Longrightarrow> snd (AcceptWorkerReport u t r at) \<noteq> None"
  by (auto simp: AcceptWorkerReport_def report_admissible_def Let_def)

text \<open>The state change of an admissible report, before the cursor is counted.\<close>

definition report_step :: "print_table \<Rightarrow> Task \<Rightarrow> WorkerReportKind \<Rightarrow> time \<Rightarrow> Task \<times> go_error option" where
  "report_step u t kind at =
     (if kind = ReportProgress then
        (if task_State t = TaskLaunching \<and> task_WorkerProfileID t = ''fixture-worker'' then
           ApplyTransition u t (reportTransition kind) at
         else if task_State t \<noteq> TaskWorking then
           (t, Some (transitionFailure t (reportTransition kind) ''progress requires acknowledged working state''))
         else (t\<lparr>task_StateVersion := task_StateVersion t + 1, task_UpdatedAt := at\<rparr>, None))
      else ApplyTransition u t (reportTransition kind) at)"

lemma AcceptWorkerReport_admissible:
  assumes "report_admissible u t r at"
  shows "AcceptWorkerReport u t r at =
    (case report_step u t (rep_Kind r) at of
       (_, Some err) \<Rightarrow> (t, Some err)
     | (updated, None) \<Rightarrow>
         (let counted = updated\<lparr>task_ReportCursor := task_ReportCursor updated + 1\<rparr>
          in if Task_Validate u counted \<noteq> None
             then (t, Some (transitionFailure t (reportTransition (rep_Kind r)) ''report would create an invalid task''))
             else (counted, None)))"
  using assms unfolding AcceptWorkerReport_def report_admissible_def report_step_def Let_def
  by (simp del: not_None_eq split del: if_split)

lemma report_step_accepts:
  assumes "report_admissible u t r at"
  shows "report_step u t kind at = (t', None) \<longleftrightarrow>
    (\<exists>s. report_target t kind = Some s \<and> (allowsUnboundPreparation s \<or> task_bound t) \<and> t' = stepped t s at)"
proof -
  have bound: "task_State t = TaskWorking \<Longrightarrow> task_bound t" "task_State t = TaskLaunching \<Longrightarrow> task_bound t"
    using assms by (auto simp: report_admissible_def Task_Validate_iff progress_ok_def)
  have launch: "nextTaskState TaskLaunching TransitionWorkerAcknowledged = Some TaskWorking"
    by (simp add: nextTaskState_def)
  show ?thesis
    using assms bound launch
    by (auto simp: report_step_def report_target_def ApplyTransition_accepts report_admissible_def
        stepped_same_state)
qed

lemma report_step_valid:
  assumes "report_admissible u t r at" "report_step u t kind at = (t', None)"
  shows "Task_Validate u t' = None"
proof (cases "kind = ReportProgress \<and> task_State t = TaskWorking")
  case True
  then have "t' = stepped t TaskWorking at"
    using assms(2) by (auto simp: report_step_def stepped_same_state)
  with True assms(1) show ?thesis
    by (simp add: Task_Validate_working_again report_admissible_def)
next
  case False
  then have "ApplyTransition u t (reportTransition kind) at = (t', None)"
    using assms(2) by (auto simp: report_step_def split: if_splits)
  then show ?thesis
    by (auto simp: ApplyTransition_accepts Task_Validate_stepped)
qed

lemma AcceptWorkerReport_accepts:
  "AcceptWorkerReport u t r at = (t', None) \<longleftrightarrow>
     report_admissible u t r at \<and>
     (\<exists>s. report_target t (rep_Kind r) = Some s \<and> (allowsUnboundPreparation s \<or> task_bound t) \<and>
          t' = reported t s at)"
proof (cases "report_admissible u t r at")
  case False
  with report_not_admissible [OF this] show ?thesis by auto
next
  case adm: True
  note eq = AcceptWorkerReport_admissible [OF adm]
  show ?thesis
  proof (cases "snd (report_step u t (rep_Kind r) at)")
    case None
    then obtain m where m: "report_step u t (rep_Kind r) at = (m, None)"
      by (metis prod.collapse)
    have v: "Task_Validate u (m\<lparr>task_ReportCursor := task_ReportCursor m + 1\<rparr>) = None"
      using report_step_valid [OF adm m] m adm
      by (intro Task_Validate_counted) (auto simp: report_step_accepts [OF adm] report_admissible_def)
    have "AcceptWorkerReport u t r at = (m\<lparr>task_ReportCursor := task_ReportCursor m + 1\<rparr>, None)"
      by (simp add: eq m v Let_def)
    with m adm show ?thesis
      by (auto simp: report_step_accepts [OF adm] reported_def)
  next
    case (Some e)
    then have "\<And>m. report_step u t (rep_Kind r) at \<noteq> (m, None)" by auto
    with Some show ?thesis
      using report_step_accepts [OF adm, of "rep_Kind r"] by (auto simp: eq split: prod.splits)
  qed
qed

text \<open>No report kind leads into an accepted, delivered or cleaned state.\<close>

lemma report_target_states:
  "report_target t kind = Some s \<Longrightarrow>
     s \<in> {TaskWorking, TaskAwaitingDecision, TaskBlocked, TaskPaused, TaskValidating, TaskFailed}"
  by (cases kind) (auto simp: report_target_def nextTaskState_def split: if_splits)

lemma AcknowledgeBinding_accepts:
  "AcknowledgeBinding u t b at = (t', None) \<longleftrightarrow>
     TaskBinding_Validate b = None \<and>
     ((task_State t = TaskReady \<and> task_ManagedRunID t = bind_ManagedRunID b \<and>
       task_WorkspaceLeaseID t = bind_WorkspaceLeaseID b \<and> t' = t) \<or>
      (task_State t = TaskPrepared \<and> task_ManagedRunID t = [] \<and> task_WorkspaceLeaseID t = [] \<and>
       ApplyTransition u (t\<lparr>task_ManagedRunID := bind_ManagedRunID b,
                            task_WorkspaceLeaseID := bind_WorkspaceLeaseID b\<rparr>)
         TransitionBindAcknowledged at = (t', None)))"
  by (auto simp: AcknowledgeBinding_def Let_def split: if_splits)

section \<open>The lifecycle as a step relation\<close>

inductive task_step :: "print_table \<Rightarrow> Task \<Rightarrow> Task \<Rightarrow> bool" for u where
  by_transition: "ApplyTransition u t tr at = (t', None) \<Longrightarrow> task_step u t t'"
| by_report: "AcceptWorkerReport u t r at = (t', None) \<Longrightarrow> task_step u t t'"
| by_binding: "AcknowledgeBinding u t b at = (t', None) \<Longrightarrow> task_step u t t'"

inductive task_reaches :: "print_table \<Rightarrow> Task \<Rightarrow> Task \<Rightarrow> bool" for u where
  reaches_here: "task_reaches u t t"
| reaches_step: "task_reaches u t t' \<Longrightarrow> task_step u t' t'' \<Longrightarrow> task_reaches u t t''"

datatype TaskEvent = EvTransition TaskTransition time | EvReport WorkerReport time

fun task_event :: "print_table \<Rightarrow> Task \<Rightarrow> TaskEvent \<Rightarrow> Task \<times> go_error option" where
  "task_event u t (EvTransition tr at) = ApplyTransition u t tr at"
| "task_event u t (EvReport r at) = AcceptWorkerReport u t r at"

lemma AcceptWorkerReport_valid:
  assumes "AcceptWorkerReport u t r at = (t', None)"
  shows "Task_Validate u t' = None"
proof (rule ccontr)
  assume "Task_Validate u t' \<noteq> None"
  then show False
    using assms by (auto simp: AcceptWorkerReport_def Let_def split: if_splits option.splits prod.splits)
qed

lemma ApplyTransition_valid: "ApplyTransition u t tr at = (t', None) \<Longrightarrow> Task_Validate u t' = None"
  by (auto simp: ApplyTransition_accepts Task_Validate_stepped)

interpretation task_life: versioned_record
  "\<lambda>t. Task_Validate u t = None" task_StateVersion task_UpdatedAt "task_event u"
proof unfold_locales
  fix t e t' and err :: go_error
  show "task_event u t e = (t', Some err) \<Longrightarrow> t' = t"
    by (cases e) (auto dest: ApplyTransition_rejects AcceptWorkerReport_rejects)
  show "task_event u t e = (t', None) \<Longrightarrow> Task_Validate u t' = None"
    by (cases e) (auto dest: ApplyTransition_valid AcceptWorkerReport_valid)
  show "task_event u t e = (t', None) \<Longrightarrow> sint (task_StateVersion t') = sint (task_StateVersion t) + 1"
    by (cases e) (auto simp: ApplyTransition_accepts AcceptWorkerReport_accepts report_admissible_def sint64_inc_not_Max)
  show "task_event u t e = (t', None) \<Longrightarrow> instant (task_UpdatedAt t) \<le> instant (task_UpdatedAt t')"
    by (cases e) (auto simp: ApplyTransition_accepts AcceptWorkerReport_accepts report_admissible_def Before_def)
qed

lemma task_step_valid: "task_step u t t' \<Longrightarrow> Task_Validate u t = None \<Longrightarrow> Task_Validate u t' = None"
  by (induction rule: task_step.induct)
     (auto dest: ApplyTransition_valid AcceptWorkerReport_valid simp: AcknowledgeBinding_accepts)

lemma task_step_contract: "task_step u t t' \<Longrightarrow> same_contract t' t"
proof (induction rule: task_step.induct)
  case (by_binding t b at t')
  then show ?case
    by (auto simp: AcknowledgeBinding_accepts ApplyTransition_accepts stepped_def same_contract_def)
qed (auto simp: ApplyTransition_accepts AcceptWorkerReport_accepts)

lemma task_step_binding:
  "task_step u t t' \<Longrightarrow> task_bound t \<Longrightarrow>
     task_ManagedRunID t' = task_ManagedRunID t \<and> task_WorkspaceLeaseID t' = task_WorkspaceLeaseID t"
  by (induction rule: task_step.induct)
     (auto simp: ApplyTransition_accepts AcceptWorkerReport_accepts AcknowledgeBinding_accepts task_bound_def)

lemma task_step_cleaned: "task_step u t t' \<Longrightarrow> task_State t \<noteq> TaskCleaned"
  by (induction rule: task_step.induct)
     (auto simp: ApplyTransition_accepts AcceptWorkerReport_accepts AcknowledgeBinding_accepts
        nextTaskState_from_cleaned report_target_def split: if_splits)

section \<open>The way to delivery\<close>

text \<open>
  A run of accepted operations with the transitions it made: a report makes the transition of its
  kind, a binding the acknowledgement.
\<close>

inductive task_trace :: "print_table \<Rightarrow> Task \<Rightarrow> TaskTransition list \<Rightarrow> Task \<Rightarrow> bool" for u where
  trace_here: "task_trace u t [] t"
| trace_transition:
    "\<lbrakk>ApplyTransition u t tr at = (t', None); task_trace u t' trs t''\<rbrakk> \<Longrightarrow> task_trace u t (tr # trs) t''"
| trace_report:
    "\<lbrakk>AcceptWorkerReport u t r at = (t', None); task_trace u t' trs t''\<rbrakk>
     \<Longrightarrow> task_trace u t (reportTransition (rep_Kind r) # trs) t''"
| trace_binding:
    "\<lbrakk>AcknowledgeBinding u t b at = (t', None); task_trace u t' trs t''\<rbrakk>
     \<Longrightarrow> task_trace u t (TransitionBindAcknowledged # trs) t''"

text \<open>What still lies between a state and delivery, in this order, while nothing is reconciled.\<close>

fun still_needed :: "TaskState \<Rightarrow> TaskTransition list" where
  "still_needed TaskDelivered = []"
| "still_needed TaskDelivering = [TransitionDeliveryAccepted]"
| "still_needed TaskCandidateComplete = [TransitionDeliveryStarted, TransitionDeliveryAccepted]"
| "still_needed TaskValidating =
     [TransitionValidationAccepted, TransitionDeliveryStarted, TransitionDeliveryAccepted]"
| "still_needed s =
     (if s \<in> {TaskPrepared, TaskFailed, TaskCancelled, TaskCleanupHeld, TaskCleaned}
      then [TransitionBindAcknowledged] else []) @
     [TransitionValidationStarted, TransitionValidationAccepted, TransitionDeliveryStarted,
      TransitionDeliveryAccepted]"

text \<open>The state changes of the operations: by the table, or none at all.\<close>

definition table_step :: "TaskState \<Rightarrow> TaskTransition \<Rightarrow> TaskState \<Rightarrow> bool" where
  "table_step s tr s' \<longleftrightarrow>
     nextTaskState s tr = Some s' \<or> (s' = s \<and> s \<noteq> TaskReconciling \<and> tr \<noteq> TransitionReconcileRequired)"

lemma ApplyTransition_table: "ApplyTransition u t tr at = (t', None) \<Longrightarrow> table_step (task_State t) tr (task_State t')"
  by (auto simp: ApplyTransition_accepts table_step_def)

lemma AcceptWorkerReport_table:
  "AcceptWorkerReport u t r at = (t', None) \<Longrightarrow>
     table_step (task_State t) (reportTransition (rep_Kind r)) (task_State t')"
  by (cases "rep_Kind r") (auto simp: AcceptWorkerReport_accepts table_step_def report_target_def nextTaskState_def split: if_splits)

lemma AcknowledgeBinding_table:
  "AcknowledgeBinding u t b at = (t', None) \<Longrightarrow>
     table_step (task_State t) TransitionBindAcknowledged (task_State t')"
  by (auto simp: AcknowledgeBinding_accepts ApplyTransition_accepts table_step_def)

lemma still_needed_step:
  assumes "table_step s tr s'" "tr \<noteq> TransitionReconcileRequired" "s \<noteq> TaskReconciling"
  shows "subseq (still_needed s) (tr # still_needed s')"
  using assms by (cases tr) (auto simp: table_step_def nextTaskState_def)

lemma reconciling_step:
  assumes "table_step TaskReconciling tr s"
  shows "reconciledTaskState tr = Some s"
  using assms by (auto simp: table_step_def nextTaskState_def split: if_splits)

lemma to_reconciling_step:
  assumes "table_step s tr TaskReconciling"
  shows "tr = TransitionReconcileRequired"
  using assms by (auto simp: table_step_def nextTaskState_to_reconciling)

lemma reconcile_step:
  assumes "table_step s TransitionReconcileRequired s'"
  shows "s' = TaskReconciling"
  using assms by (auto simp: table_step_def nextTaskState_def split: if_splits)

text \<open>
  A run into the delivered state either made all that was needed, or the last reconciliation in it
  chose a state and what that state needed was made after it.
\<close>

definition reconciled_delivery :: "TaskState \<Rightarrow> TaskTransition list \<Rightarrow> bool" where
  "reconciled_delivery s trs \<longleftrightarrow>
     (\<exists>pre tr found post. trs = pre @ tr # post \<and> reconciledTaskState tr = Some found \<and>
        (TransitionReconcileRequired \<in> set pre \<or> s = TaskReconciling) \<and>
        TransitionReconcileRequired \<notin> set post \<and> subseq (still_needed found) post)"

lemma delivery_step:
  assumes step: "table_step s tr s'"
    and rest: "(s' \<noteq> TaskReconciling \<and> TransitionReconcileRequired \<notin> set trs \<and> subseq (still_needed s') trs) \<or>
      reconciled_delivery s' trs"
  shows "(s \<noteq> TaskReconciling \<and> TransitionReconcileRequired \<notin> set (tr # trs) \<and> subseq (still_needed s) (tr # trs)) \<or>
      reconciled_delivery s (tr # trs)"
  using rest
proof (elim disjE conjE)
  assume now: "s' \<noteq> TaskReconciling" "TransitionReconcileRequired \<notin> set trs" "subseq (still_needed s') trs"
  show ?thesis
  proof (cases "s = TaskReconciling")
    case True
    with step now reconciling_step show ?thesis
      unfolding reconciled_delivery_def by (intro disjI2 exI [of _ "[]"] exI [of _ tr] exI [of _ s'] exI [of _ trs]) auto
  next
    case False
    with step now reconcile_step have "tr \<noteq> TransitionReconcileRequired" by auto
    with False now still_needed_step [OF step] show ?thesis
      by (auto intro: subseq_order.trans)
  qed
next
  assume "reconciled_delivery s' trs"
  then obtain pre x found post where split: "trs = pre @ x # post" "reconciledTaskState x = Some found"
    "TransitionReconcileRequired \<in> set pre \<or> s' = TaskReconciling"
    "TransitionReconcileRequired \<notin> set post" "subseq (still_needed found) post"
    unfolding reconciled_delivery_def by blast
  then have "TransitionReconcileRequired \<in> set (tr # pre)"
    using step to_reconciling_step by auto
  with split show ?thesis
    unfolding reconciled_delivery_def by (intro disjI2 exI [of _ "tr # pre"] exI [of _ x] exI [of _ found] exI [of _ post]) auto
qed

lemma trace_to_delivered:
  assumes "task_trace u t trs t'" "task_State t' = TaskDelivered"
  shows "(task_State t \<noteq> TaskReconciling \<and> TransitionReconcileRequired \<notin> set trs \<and> subseq (still_needed (task_State t)) trs) \<or>
    reconciled_delivery (task_State t) trs"
  using assms
  by (induction rule: task_trace.induct)
    (simp, (rule delivery_step, erule ApplyTransition_table AcceptWorkerReport_table AcknowledgeBinding_table, simp)+)

text \<open>A run of the table is a run of a valid, bound task.\<close>

fun table_run :: "TaskState \<Rightarrow> TaskTransition list \<Rightarrow> TaskState option" where
  "table_run s [] = Some s"
| "table_run s (tr # trs) = (case nextTaskState s tr of None \<Rightarrow> None | Some s' \<Rightarrow> table_run s' trs)"

lemma table_run_trace:
  assumes "table_run (task_State t) trs = Some s" "Task_Validate u t = None" "task_bound t"
    and "in_utc at" "\<not> IsZero at" "\<not> Before at (task_UpdatedAt t)" "sint (task_StateVersion t) + int (length trs) < 2 ^ 63"
  shows "\<exists>t'. task_trace u t trs t' \<and> task_State t' = s"
  using assms
proof (induction trs arbitrary: t)
  case (Cons tr trs)
  then obtain m where m: "nextTaskState (task_State t) tr = Some m" "table_run m trs = Some s"
    by (auto split: option.splits)
  have small: "task_StateVersion t \<noteq> MaxInt64"
    using Cons.prems(7) by (auto simp: sint_MaxInt64)
  let ?t = "stepped t m at"
  have ok: "ApplyTransition u t tr at = (?t, None)"
    using Cons.prems m small by (auto simp: ApplyTransition_accepts)
  have "\<exists>t'. task_trace u ?t trs t' \<and> task_State t' = s"
    using Cons.prems m(2) small
    by (intro Cons.IH) (auto simp: ApplyTransition_valid [OF ok] task_bound_def sint64_inc_not_Max time_defs)
  with ok show ?case
    by (auto intro: trace_transition)
qed (auto intro: trace_here)

section \<open>Properties\<close>

text \<open>
  C21.  \<open>ApplyTransition\<close> succeeds exactly when the task is valid, the time is non-zero UTC and not
  before the last update, the version counter is not exhausted, the table has the transition, and the
  target state is bound or may be unbound; and then it changes state, version and stamp only.
\<close>

theorem apply_transition_exact:
  "ApplyTransition u t tr at = (t', None) \<longleftrightarrow>
     Task_Validate u t = None \<and> in_utc at \<and> \<not> IsZero at \<and> \<not> Before at (task_UpdatedAt t) \<and>
     task_StateVersion t \<noteq> MaxInt64 \<and>
     (\<exists>s. nextTaskState (task_State t) tr = Some s \<and>
          (allowsUnboundPreparation s \<or> task_bound t) \<and>
          t' = t\<lparr>task_State := s, task_StateVersion := task_StateVersion t + 1, task_UpdatedAt := at\<rparr>)"
  using ApplyTransition_accepts [of u t tr at t'] by (simp add: stepped_def)

text \<open>
  A rejected transition or report leaves the record as it was, and its version says so: over any
  sequence of transitions and reports the version grows by exactly the number of accepted ones, the
  stamp never goes back, and an unchanged version means an unchanged record.
\<close>

lemma task_version_counts_changes:
  "sint (task_StateVersion (run_ops (task_event u) t es)) =
     sint (task_StateVersion t) + int (accepted_ops (task_event u) t es) \<and>
   instant (task_UpdatedAt t) \<le> instant (task_UpdatedAt (run_ops (task_event u) t es)) \<and>
   (task_StateVersion (run_ops (task_event u) t es) = task_StateVersion t \<longleftrightarrow>
      run_ops (task_event u) t es = t)"
  using task_life.run_version [of u t es] task_life.run_stamp [of t u es] task_life.unchanged_version [of u t es]
  by auto

text \<open>
  C17.  Along every path of transitions, reports and bindings a valid task stays valid, its contract
  (identity, brief, repository, base, delivery mode) never changes, and a binding, once made, is the
  binding for good.
\<close>

theorem task_life_invariant:
  assumes "task_reaches u t t'" "Task_Validate u t = None"
  shows "Task_Validate u t' = None \<and> same_contract t' t \<and>
    (task_ManagedRunID t \<noteq> [] \<longrightarrow>
       task_ManagedRunID t' = task_ManagedRunID t \<and> task_WorkspaceLeaseID t' = task_WorkspaceLeaseID t)"
  using assms
proof (induction rule: task_reaches.induct)
  case (reaches_step t t' t'')
  then have IH: "Task_Validate u t' = None" "same_contract t' t"
    "task_bound t \<longrightarrow> task_ManagedRunID t' = task_ManagedRunID t \<and> task_WorkspaceLeaseID t' = task_WorkspaceLeaseID t"
    by (simp_all add: task_bound_def)
  show ?case
    using task_step_valid [OF reaches_step.hyps(2) IH(1)] IH(2,3)
      same_contract_trans [OF task_step_contract [OF reaches_step.hyps(2)] IH(2)]
      task_step_binding [OF reaches_step.hyps(2)]
    by (simp add: task_bound_def)
qed simp

theorem task_life_invariant_witness:
  "Task_Validate (\<lambda>_. True)
     (fst (ApplyTransition (\<lambda>_. True) (task_in (\<lambda>_. True) TaskReady) TransitionLaunchRequested (utc_at 2))) = None"
proof -
  let ?u = "\<lambda>_::nat. True" and ?t = "task_in (\<lambda>_. True) TaskReady"
  have ok: "ApplyTransition ?u ?t TransitionLaunchRequested (utc_at 2) = (stepped ?t TaskLaunching (utc_at 2), None)"
    by (simp add: ApplyTransition_accepts task_in_valid nextTaskState_def time_defs)
  then have "task_reaches ?u ?t (stepped ?t TaskLaunching (utc_at 2))"
    by (intro task_reaches.reaches_step [OF task_reaches.reaches_here] task_step.by_transition)
  from task_life_invariant [OF this] show ?thesis
    by (simp add: ok task_in_valid)
qed

text \<open>
  C25.  A freshly prepared task is delivered in one of two ways only.  Either it was never reconciled,
  and it was bound, its validation was started and accepted, and its delivery started and accepted, in
  that order; or its last reconciliation found a state, and whatever then still lay between that state
  and delivery was made after it, in the same order.
\<close>

theorem delivered_only_in_order:
  assumes "task_trace u t trs t'" "task_State t = TaskPrepared" "task_State t' = TaskDelivered"
  shows "(TransitionReconcileRequired \<notin> set trs \<and>
      subseq [TransitionBindAcknowledged, TransitionValidationStarted, TransitionValidationAccepted,
        TransitionDeliveryStarted, TransitionDeliveryAccepted] trs) \<or>
    (\<exists>pre tr found post. trs = pre @ tr # post \<and> TransitionReconcileRequired \<in> set pre \<and>
      reconciledTaskState tr = Some found \<and> TransitionReconcileRequired \<notin> set post \<and>
      subseq (still_needed found) post)"
  using trace_to_delivered [OF assms(1,3)] assms(2) unfolding reconciled_delivery_def by auto

theorem delivered_only_in_order_witness:
  "\<exists>t'. task_trace (\<lambda>_. True) (task_in (\<lambda>_. True) TaskPrepared)
      [TransitionBindAcknowledged, TransitionLaunchRequested, TransitionWorkerAcknowledged,
       TransitionValidationStarted, TransitionValidationAccepted, TransitionReconcileRequired,
       TransitionReconciledCandidate, TransitionDeliveryStarted, TransitionDeliveryAccepted] t' \<and>
     task_State t' = TaskDelivered \<and>
     (\<exists>pre tr found post.
       [TransitionBindAcknowledged, TransitionLaunchRequested, TransitionWorkerAcknowledged,
        TransitionValidationStarted, TransitionValidationAccepted, TransitionReconcileRequired,
        TransitionReconciledCandidate, TransitionDeliveryStarted, TransitionDeliveryAccepted] = pre @ tr # post \<and>
       reconciledTaskState tr = Some found \<and> subseq (still_needed found) post)"
proof -
  let ?t = "task_in (\<lambda>_. True) TaskPrepared" and ?trs = "[TransitionBindAcknowledged, TransitionLaunchRequested,
    TransitionWorkerAcknowledged, TransitionValidationStarted, TransitionValidationAccepted, TransitionReconcileRequired,
    TransitionReconciledCandidate, TransitionDeliveryStarted, TransitionDeliveryAccepted]"
  have "\<exists>t'. task_trace (\<lambda>_. True) ?t ?trs t' \<and> task_State t' = TaskDelivered"
  proof (rule table_run_trace)
    show "table_run (task_State ?t) ?trs = Some TaskDelivered"
      by (simp add: task_in_def nextTaskState_def requiredTaskState_def oneOfTaskStates.simps)
    show "task_bound ?t" "in_utc (utc_at 2)" "\<not> IsZero (utc_at 2)" "\<not> Before (utc_at 2) (task_UpdatedAt ?t)"
      by (simp_all add: task_in_def prepared_task_def draft_defs task_bound_def time_defs)
    show "sint (task_StateVersion ?t) + int (length ?trs) < 2 ^ 63"
      by (simp add: task_in_def prepared_task_def draft_defs)
  qed (simp add: task_in_valid)
  then obtain t' where run: "task_trace (\<lambda>_. True) ?t ?trs t'" "task_State t' = TaskDelivered" by blast
  have "task_State ?t = TaskPrepared" by (simp add: task_in_def)
  from delivered_only_in_order [OF run(1) this run(2)]
  have "\<exists>pre tr found post. ?trs = pre @ tr # post \<and> reconciledTaskState tr = Some found \<and> subseq (still_needed found) post"
    by (rule disjE) (simp, blast)
  with run show ?thesis by blast
qed

text \<open>
  A cleaned task is final: no transition, report or binding changes it, and the only way into
  the state is the accepted cleanup of a task that cleanup already held.
\<close>

lemma cleaned_is_final:
  assumes "task_step u t t'"
  shows "task_State t \<noteq> TaskCleaned \<and> (task_State t' = TaskCleaned \<longrightarrow> task_State t = TaskCleanupHeld)"
proof -
  have "task_State t' = TaskCleaned \<Longrightarrow> task_State t = TaskCleanupHeld"
    using assms
    by (induction rule: task_step.induct)
       (auto simp: ApplyTransition_accepts AcceptWorkerReport_accepts AcknowledgeBinding_accepts
          nextTaskState_to_cleaned dest: report_target_states)
  then show ?thesis
    using task_step_cleaned [OF assms] by blast
qed

lemma cleanup_step_example:
  "ApplyTransition u (task_in u TaskCleanupHeld) TransitionCleanupAccepted (utc_at 2) =
     (stepped (task_in u TaskCleanupHeld) TaskCleaned (utc_at 2), None)"
  by (simp add: ApplyTransition_accepts task_in_valid nextTaskState_def time_defs)

text \<open>
  Unknown is not success: from the unknown state the only step is to require reconciliation; no
  worker report and no other transition is accepted there.
\<close>

lemma unknown_leaves_by_reconciliation:
  assumes "task_step u t t'" "task_State t = TaskUnknown"
  shows "task_State t' = TaskReconciling"
  using assms
proof (induction rule: task_step.induct)
  case (by_report t r at t')
  then show ?case
    by (cases "rep_Kind r")
       (auto simp: AcceptWorkerReport_accepts report_target_def nextTaskState_from_unknown)
qed (auto simp: ApplyTransition_accepts AcknowledgeBinding_accepts nextTaskState_from_unknown)

text \<open>
  A worker report is accepted exactly when task and report are valid, the report pins the task's
  brief revision and hash, the service time is monotonic, neither counter is exhausted and the kind is
  admissible in the task's state; and then version and report cursor both advance by one.
\<close>

lemma accept_report_exact:
  "AcceptWorkerReport u t r at = (t', None) \<longleftrightarrow>
     Task_Validate u t = None \<and> WorkerReport_Validate r = None \<and>
     rep_BriefRevision r = task_BriefRevision t \<and> rep_BriefRevisionHash r = task_BriefRevisionHash t \<and>
     \<not> IsZero at \<and> in_utc at \<and> \<not> Before at (task_UpdatedAt t) \<and>
     task_ReportCursor t \<noteq> MaxInt64 \<and> task_StateVersion t \<noteq> MaxInt64 \<and>
     (\<exists>s. report_target t (rep_Kind r) = Some s \<and>
          (allowsUnboundPreparation s \<or> task_bound t) \<and>
          t' = t\<lparr>task_State := s, task_StateVersion := task_StateVersion t + 1, task_UpdatedAt := at,
                 task_ReportCursor := task_ReportCursor t + 1\<rparr>)"
  using AcceptWorkerReport_accepts [of u t r at t']
  by (simp add: report_admissible_def reported_def stepped_def)

text \<open>
  C27.  A worker cannot report its way to success: whatever it sends, the accepted report leaves the
  task working, waiting, blocked, paused, validating or failed, never accepted, delivered or cleaned.
\<close>

theorem report_never_grants_success:
  assumes "AcceptWorkerReport u t r at = (t', None)"
  shows "task_State t' \<in> {TaskWorking, TaskAwaitingDecision, TaskBlocked, TaskPaused, TaskValidating, TaskFailed}"
  using assms by (auto simp: AcceptWorkerReport_accepts dest!: report_target_states)

definition sample_report :: "print_table \<Rightarrow> WorkerReportKind \<Rightarrow> WorkerReport" where
  "sample_report u kind =
     \<lparr>rep_SchemaVersion = 1, rep_LocalReportID = ''report-1'', rep_BriefRevision = 1,
      rep_BriefRevisionHash = task_BriefRevisionHash (prepared_task u), rep_Kind = kind, rep_ExternalKey = [],
      rep_Summary = ''the tests pass'', rep_Details = [], rep_WorkerObservedAt = None\<rparr>"

lemma sample_report_valid:
  "kind \<in> {ReportProgress, ReportBlocked, ReportPaused, ReportCandidateComplete, ReportFailed} \<Longrightarrow>
     WorkerReport_Validate (sample_report u kind) = None"
proof -
  have id: "opaqueIDPattern ''report-1''" by code_simp
  show "kind \<in> {ReportProgress, ReportBlocked, ReportPaused, ReportCandidateComplete, ReportFailed} \<Longrightarrow> ?thesis"
    by (auto simp: WorkerReport_Validate_def sample_report_def id validateOpaqueID_def validateSHA256_def
        prepared_task_def validateSafeText_def validateBoundedSafeText_ascii draft_strings)
qed

lemma report_step_example:
  "AcceptWorkerReport u (task_in u TaskWorking) (sample_report u ReportCandidateComplete) (utc_at 2) =
     (reported (task_in u TaskWorking) TaskValidating (utc_at 2), None)"
  by (simp add: AcceptWorkerReport_accepts report_admissible_def task_in_valid sample_report_valid
      report_target_def nextTaskState_def time_defs)
     (simp add: sample_report_def task_in_def prepared_task_def draft_task_def)

theorem report_never_grants_success_witness:
  "task_State (reported (task_in (\<lambda>_. True) TaskWorking) TaskValidating (utc_at 2))
     \<in> {TaskWorking, TaskAwaitingDecision, TaskBlocked, TaskPaused, TaskValidating, TaskFailed}"
  by (rule report_never_grants_success [OF report_step_example])

text \<open>
  Binding is idempotent and closed: after a successful acknowledgement the same binding is
  accepted again as a no-op at any time, and every other binding is refused.
\<close>

lemma binding_replay_closed:
  assumes "AcknowledgeBinding u t b at = (t', None)"
  shows "AcknowledgeBinding u t' b at' = (t', None) \<and>
    (b' \<noteq> b \<longrightarrow> snd (AcknowledgeBinding u t' b' at') \<noteq> None)"
proof -
  have "task_State t' = TaskReady" "task_ManagedRunID t' = bind_ManagedRunID b"
    "task_WorkspaceLeaseID t' = bind_WorkspaceLeaseID b" "TaskBinding_Validate b = None"
    using assms by (auto simp: AcknowledgeBinding_accepts ApplyTransition_accepts nextTaskState_def)
  then show ?thesis
    by (cases b; cases b') (auto simp: AcknowledgeBinding_def)
qed

definition sample_binding :: TaskBinding where
  "sample_binding = \<lparr>bind_ManagedRunID = ''run-1'', bind_WorkspaceLeaseID = ''lease-1''\<rparr>"

lemma binding_step_example:
  "AcknowledgeBinding u (prepared_task u) sample_binding (utc_at 2) =
     (stepped (task_in u TaskPrepared) TaskReady (utc_at 2), None)"
proof -
  have bound: "(prepared_task u)\<lparr>task_ManagedRunID := ''run-1'', task_WorkspaceLeaseID := ''lease-1''\<rparr> = task_in u TaskPrepared"
    by (simp add: task_in_def prepared_task_def draft_task_def)
  show ?thesis
    by (simp add: AcknowledgeBinding_accepts sample_binding_def TaskBinding_Validate_def validateAuthorityReference_def
        draft_strings bound ApplyTransition_accepts task_in_valid nextTaskState_def time_defs)
       (simp add: prepared_task_def draft_task_def)
qed

text \<open>
  A refused acknowledgement can hand back a changed record: when the binding itself is well formed
  but the transition is refused (here the time precedes the last update), the returned task carries
  the run and lease that were not acknowledged.
\<close>

lemma refused_binding_returns_changed_record:
  "snd (AcknowledgeBinding u (prepared_task u) sample_binding (utc_at 0)) \<noteq> None \<and>
   task_ManagedRunID (prepared_task u) = [] \<and>
   task_ManagedRunID (fst (AcknowledgeBinding u (prepared_task u) sample_binding (utc_at 0))) = ''run-1''"
proof -
  have bound: "(prepared_task u)\<lparr>task_ManagedRunID := ''run-1'', task_WorkspaceLeaseID := ''lease-1''\<rparr> = task_in u TaskPrepared"
    by (simp add: task_in_def prepared_task_def draft_task_def)
  have unbound: "task_State (prepared_task u) = TaskPrepared" "task_ManagedRunID (prepared_task u) = []"
    "task_WorkspaceLeaseID (prepared_task u) = []"
    by (simp_all add: prepared_task_def draft_task_def)
  show ?thesis
    by (simp add: AcknowledgeBinding_def sample_binding_def TaskBinding_Validate_def validateAuthorityReference_def
        draft_strings bound unbound Let_def ApplyTransition_def task_in_valid time_defs)
qed

end
