(* ===== verification/Text_Codec.thy ===== *)
theory Text_Codec
  imports Go_Text
begin

text \<open>
  Reading back what the program writes: UTF-8 decoding determines the bytes it read, quoted text
  (\<open>strconv.Quote\<close>) determines the text and where it ends, decimal numbers determine the number, and
  a line determines its content.  These are the facts under which a rendered record can be compared
  instead of the record.
\<close>

section \<open>UTF-8\<close>

definition utf8_encode :: "nat \<Rightarrow> string" where
  "utf8_encode r =
     (if r < 0x80 then [char_of r]
      else if r < 0x800 then [char_of (0xC0 + r div 64), char_of (0x80 + r mod 64)]
      else if r < 0x10000 then
        [char_of (0xE0 + r div 4096), char_of (0x80 + r div 64 mod 64), char_of (0x80 + r mod 64)]
      else [char_of (0xF0 + r div 262144), char_of (0x80 + r div 4096 mod 64),
            char_of (0x80 + r div 64 mod 64), char_of (0x80 + r mod 64)])"

definition invalid_front :: "string \<Rightarrow> bool" where
  "invalid_front s \<longleftrightarrow> decode_rune s = (RuneError, 1)"

text \<open>How a valid rune of each width lies at the front of the string.\<close>

lemma decode_rune_cases:
  assumes "s \<noteq> []" "\<not> invalid_front s" "decode_rune s = (r, w)"
  obtains (one) c cs where "s = c # cs" "byte c < 0x80" "r = byte c" "w = 1"
  | (two) c c1 cs where "s = c # c1 # cs" "0xC2 \<le> byte c" "byte c \<le> 0xDF" "cont_byte c1"
      "r = (byte c - 0xC0) * 64 + (byte c1 - 0x80)" "w = 2"
  | (three) c c1 c2 cs where "s = c # c1 # c2 # cs" "0xE0 \<le> byte c" "byte c \<le> 0xEF"
      "cont_byte c1" "cont_byte c2" "byte c = 0xE0 \<longrightarrow> 0xA0 \<le> byte c1"
      "r = (byte c - 0xE0) * 4096 + (byte c1 - 0x80) * 64 + (byte c2 - 0x80)" "w = 3"
  | (four) c c1 c2 c3 cs where "s = c # c1 # c2 # c3 # cs" "0xF0 \<le> byte c" "byte c \<le> 0xF4"
      "cont_byte c1" "cont_byte c2" "cont_byte c3" "byte c = 0xF0 \<longrightarrow> 0x90 \<le> byte c1"
      "r = (byte c - 0xF0) * 262144 + (byte c1 - 0x80) * 4096 + (byte c2 - 0x80) * 64 + (byte c3 - 0x80)"
      "w = 4"
proof -
  obtain c cs where s: "s = c # cs" using assms(1) by (cases s) auto
  show thesis
  proof (cases "byte c < 0x80")
    case True
    then show thesis using assms s by (intro one) auto
  next
    case False
    show thesis
      using assms(2,3) False
      by (auto simp: s invalid_front_def Let_def split: if_splits list.splits intro: two three four)
  qed
qed

lemma digits64:
  fixes a b :: nat
  assumes "b < 64"
  shows "(a * 64 + b) div 64 = a" "(a * 64 + b) mod 64 = b"
  using assms by simp_all

lemma weighted_bound3: "(a::nat) \<le> 15 \<Longrightarrow> b < 64 \<Longrightarrow> c < 64 \<Longrightarrow> (a * 64 + b) * 64 + c < 0x10000"
  by simp

lemma weighted_bound4:
  "(a::nat) \<le> 31 \<Longrightarrow> b < 64 \<Longrightarrow> a * 64 + b < 0x200000"
  "(a::nat) \<le> 15 \<Longrightarrow> b < 64 \<Longrightarrow> c < 64 \<Longrightarrow> a * 4096 + b * 64 + c < 0x200000"
  "(a::nat) \<le> 4 \<Longrightarrow> b < 64 \<Longrightarrow> c < 64 \<Longrightarrow> d < 64 \<Longrightarrow> a * 262144 + b * 4096 + c * 64 + d < 0x200000"
  by simp_all

lemma weighted_lower:
  "1 \<le> (a::nat) \<or> 16 \<le> b \<Longrightarrow> 0x10000 \<le> a * 262144 + b * 4096 + c * 64 + d"
  by auto

lemma cont_byte_low: "cont_byte c \<Longrightarrow> byte c - 0x80 < 64 \<and> 0x80 + (byte c - 0x80) = byte c"
  by (auto simp: cont_byte_def)

lemma char_of_byte_eq: "n = byte c \<Longrightarrow> char_of n = c"
  by simp

lemma take_decoded:
  assumes "s \<noteq> []" "\<not> invalid_front s" "decode_rune s = (r, w)"
  shows "take w s = utf8_encode r"
  using assms
proof (cases rule: decode_rune_cases)
  case (one c cs)
  then show ?thesis by (simp add: utf8_encode_def)
next
  case (two c c1 cs)
  have x: "byte c1 - 0x80 < 64" "0x80 + (byte c1 - 0x80) = byte c1"
    using two cont_byte_low by auto
  have r: "r div 64 = byte c - 0xC0" "r mod 64 = byte c1 - 0x80"
    using digits64 [OF x(1)] two(5) by simp_all
  have "\<not> r < 0x80" "r < 0x800" using two x(1) by auto
  then show ?thesis
    using two r x by (simp add: utf8_encode_def)
next
  case (three c c1 c2 cs)
  have x: "byte c1 - 0x80 < 64" "0x80 + (byte c1 - 0x80) = byte c1"
    "byte c2 - 0x80 < 64" "0x80 + (byte c2 - 0x80) = byte c2"
    using three cont_byte_low by auto
  let ?h = "(byte c - 0xE0) * 64 + (byte c1 - 0x80)"
  have rh: "r = ?h * 64 + (byte c2 - 0x80)" using three(7) by simp
  have r: "r div 64 = ?h" "r mod 64 = byte c2 - 0x80"
    unfolding rh by (rule digits64 [OF x(3)])+
  have h: "r div 4096 = byte c - 0xE0" "r div 64 mod 64 = byte c1 - 0x80"
    using div_mult2_eq [of r 64 64] unfolding r(1) by (simp_all only: digits64 [OF x(1)]) simp
  have "\<not> r < 0x800" using three x by (cases "byte c = 0xE0") auto
  moreover have "r < 0x10000"
  proof -
    have "byte c - 0xE0 \<le> 15" using three(3) by simp
    then show ?thesis unfolding rh using x(1,3) by (intro weighted_bound3)
  qed
  ultimately show ?thesis
    using three r h x by (simp add: utf8_encode_def)
next
  case (four c c1 c2 c3 cs)
  have x: "byte c1 - 0x80 < 64" "0x80 + (byte c1 - 0x80) = byte c1"
    "byte c2 - 0x80 < 64" "0x80 + (byte c2 - 0x80) = byte c2"
    "byte c3 - 0x80 < 64" "0x80 + (byte c3 - 0x80) = byte c3"
    using four cont_byte_low by auto
  let ?g = "(byte c - 0xF0) * 64 + (byte c1 - 0x80)"
  let ?h = "?g * 64 + (byte c2 - 0x80)"
  have rh: "r = ?h * 64 + (byte c3 - 0x80)" using four(8) by simp
  have r: "r div 64 = ?h" "r mod 64 = byte c3 - 0x80"
    unfolding rh by (rule digits64 [OF x(5)])+
  have h: "r div 4096 = ?g" "r div 64 mod 64 = byte c2 - 0x80"
    using div_mult2_eq [of r 64 64] unfolding r(1) by (simp_all only: digits64 [OF x(3)]) simp
  have g: "r div 262144 = byte c - 0xF0" "r div 4096 mod 64 = byte c1 - 0x80"
    using div_mult2_eq [of r 4096 64] unfolding h(1) by (simp_all only: digits64 [OF x(1)]) simp
  have "1 \<le> byte c - 0xF0 \<or> 16 \<le> byte c1 - 0x80"
    using four(2,7) by (cases "byte c = 0xF0") auto
  then have "0x10000 \<le> r" unfolding four(8) by (rule weighted_lower)
  then have "\<not> r < 0x80" "\<not> r < 0x800" "\<not> r < 0x10000" by simp_all
  then show ?thesis
    using four(1,2,9) r(2) h(2) g x(2,4,6) by (simp add: utf8_encode_def)
qed

lemma decode_rune_inj:
  assumes "s \<noteq> []" "\<not> invalid_front s" "s' \<noteq> []" "\<not> invalid_front s'"
    and "fst (decode_rune s) = fst (decode_rune s')"
  shows "take (snd (decode_rune s)) s = take (snd (decode_rune s')) s'"
  using take_decoded [OF assms(1,2)] take_decoded [OF assms(3,4)] assms(5)
  by (metis prod.collapse)

lemma decode_rune_ascii_rune:
  assumes "s \<noteq> []" "\<not> invalid_front s" "decode_rune s = (r, w)" "r < 0x80"
  shows "w = 1 \<and> byte (hd s) = r"
  using assms(1-3)
proof (cases rule: decode_rune_cases)
  case (three c c1 c2 cs)
  then show ?thesis using assms(4) by (cases "byte c = 0xE0") auto
next
  case (four c c1 c2 c3 cs)
  then have "1 \<le> byte c - 0xF0 \<or> 16 \<le> byte c1 - 0x80"
    by (cases "byte c = 0xF0") auto
  then have "0x10000 \<le> r" unfolding four(8) by (rule weighted_lower)
  then show ?thesis using assms(4) by simp
qed (use assms(4) in auto)

lemma decode_rune_bound:
  assumes "s \<noteq> []" "\<not> invalid_front s" "decode_rune s = (r, w)"
  shows "r < 0x200000"
  using assms
proof (cases rule: decode_rune_cases)
  case (two c c1 cs)
  have "byte c1 - 0x80 < 64" "byte c - 0xC0 \<le> 31" using two cont_byte_low by auto
  then show ?thesis unfolding two(5) by (intro weighted_bound4)
next
  case (three c c1 c2 cs)
  have "byte c1 - 0x80 < 64" "byte c2 - 0x80 < 64" "byte c - 0xE0 \<le> 15"
    using three cont_byte_low by auto
  then show ?thesis unfolding three(7) by (intro weighted_bound4)
next
  case (four c c1 c2 c3 cs)
  have "byte c1 - 0x80 < 64" "byte c2 - 0x80 < 64" "byte c3 - 0x80 < 64" "byte c - 0xF0 \<le> 4"
    using four cont_byte_low by auto
  then show ?thesis unfolding four(8) by (intro weighted_bound4)
qed simp

section \<open>Hexadecimal and decimal digits\<close>

lemma hex_digit_inj: "a < 16 \<Longrightarrow> b < 16 \<Longrightarrow> hex_digit a = hex_digit b \<longleftrightarrow> a = b"
  by (auto simp: hex_digit_def char_of_eq_iff take_bit_eq_mod split: if_splits)

lemma hex_digits_inj: "a < 16 ^ k \<Longrightarrow> b < 16 ^ k \<Longrightarrow> hex_digits k a = hex_digits k b \<longleftrightarrow> a = b"
proof (induction k arbitrary: a b)
  case (Suc k)
  then have "a div 16 < 16 ^ k" "b div 16 < 16 ^ k"
    by (simp_all add: less_mult_imp_div_less mult.commute)
  with Suc.IH [of "a div 16" "b div 16"] show ?case
    by (auto simp: hex_digit_inj) (metis div_mult_mod_eq)
qed simp

lemma dec_nat_digits: "c \<in> set (dec_nat n) \<Longrightarrow> 48 \<le> byte c \<and> byte c \<le> 57"
proof (induction n rule: dec_nat.induct)
  case (1 n)
  show ?case
    using 1 by (cases "n < 10") (auto simp: dec_nat.simps [of n] of_char_of take_bit_eq_mod)
qed

section \<open>Quoted text\<close>

text \<open>The length of the chunk at the front of a quoted text, read off the text alone.\<close>

definition chunk_length :: "string \<Rightarrow> nat" where
  "chunk_length q =
     (if hd q \<noteq> CHR 0x5C then
        (if byte (hd q) < 0x80 then 1 else if byte (hd q) < 0xE0 then 2 else if byte (hd q) < 0xF0 then 3 else 4)
      else if q ! 1 = CHR ''x'' then 4
      else if q ! 1 = CHR ''u'' then 6
      else if q ! 1 = CHR ''U'' then 10
      else 2)"

text \<open>The three forms of a chunk: a raw rune, a short escape, a hexadecimal escape.\<close>

lemma quote_chunk_cases:
  assumes "s \<noteq> []"
  obtains (raw) "\<not> invalid_front s" "quote_chunk u s = take (snd (decode_rune s)) s"
      "fst (decode_rune s) \<noteq> 0x22" "fst (decode_rune s) \<noteq> 0x5C"
  | (same) "quote_chunk u s = [CHR 0x5C, hd s]" "snd (decode_rune s) = 1" "hd s \<in> {CHR 0x22, CHR 0x5C}"
  | (short) c where "quote_chunk u s = [CHR 0x5C, c]" "snd (decode_rune s) = 1"
      "(c, hd s) \<in> {(CHR ''a'', CHR 7), (CHR ''b'', CHR 8), (CHR ''f'', CHR 12), (CHR ''n'', CHR 10),
         (CHR ''r'', CHR 13), (CHR ''t'', CHR 9), (CHR ''v'', CHR 11)}"
  | (hex2) "quote_chunk u s = CHR 0x5C # CHR ''x'' # hex_digits 2 (byte (hd s))" "snd (decode_rune s) = 1"
  | (hex4) "\<not> invalid_front s" "quote_chunk u s = CHR 0x5C # CHR ''u'' # hex_digits 4 (fst (decode_rune s))"
      "fst (decode_rune s) < 0x10000"
  | (hex8) "\<not> invalid_front s" "quote_chunk u s = CHR 0x5C # CHR ''U'' # hex_digits 8 (fst (decode_rune s))"
      "fst (decode_rune s) < 0x200000"
proof -
  obtain r w where d: "decode_rune s = (r, w)" by force
  show thesis
  proof (cases "invalid_front s")
    case True
    then show thesis using d by (intro hex2) (auto simp: quote_chunk_def invalid_front_def)
  next
    case valid: False
    then have nv: "\<not> (w = 1 \<and> r = RuneError)" using d by (auto simp: invalid_front_def)
    have low: "r < 0x80 \<Longrightarrow> w = 1 \<and> hd s = char_of r"
      using decode_rune_ascii_rune [OF assms valid d] by (metis char_of_char)
    note q = quote_chunk_def [of u s, unfolded d Let_def prod.case] 
    consider "r = 0x22 \<or> r = 0x5C" | "r \<noteq> 0x22" "r \<noteq> 0x5C" "IsPrint u r"
      | "\<not> IsPrint u r" "r \<in> {7,8,9,10,11,12,13}" 
      | "\<not> IsPrint u r" "r \<notin> {7,8,9,10,11,12,13}" "r < 0x20 \<or> r = 0x7F"
      | "\<not> IsPrint u r" "r \<notin> {7,8,9,10,11,12,13}" "r \<noteq> 0x22" "r \<noteq> 0x5C" "\<not> (r < 0x20 \<or> r = 0x7F)" "r < 0x10000"
      | "\<not> IsPrint u r" "r \<notin> {7,8,9,10,11,12,13}" "r \<noteq> 0x22" "r \<noteq> 0x5C" "\<not> r < 0x10000"
      by fastforce
    then show thesis
    proof cases
      case 1
      then show thesis using nv low d by (intro same) (auto simp: q char_of_eq_iff)
    next
      case 2
      then show thesis using nv valid d by (intro raw) (auto simp: q)
    next
      case 3
      let ?c = "if r = 7 then CHR ''a'' else if r = 8 then CHR ''b'' else if r = 12 then CHR ''f''
        else if r = 10 then CHR ''n'' else if r = 13 then CHR ''r'' else if r = 9 then CHR ''t'' else CHR ''v''"
      have w: "w = 1" "hd s = char_of r" using low 3(2) by auto
      show thesis
      proof (rule short [of ?c])
        show "quote_chunk u s = [CHR 0x5C, ?c]" using 3 nv by (auto simp: q)
        show "snd (decode_rune s) = 1" using d w by simp
        show "(?c, hd s) \<in> {(CHR ''a'', CHR 7), (CHR ''b'', CHR 8), (CHR ''f'', CHR 12), (CHR ''n'', CHR 10),
           (CHR ''r'', CHR 13), (CHR ''t'', CHR 9), (CHR ''v'', CHR 11)}"
          using 3(2) by (auto simp: w char_of_eq_iff)
      qed
    next
      case 4
      then have "byte (hd s) = r" using low by (auto simp: of_char_of take_bit_eq_mod)
      then show thesis using 4 nv low d by (intro hex2) (auto simp: q)
    next
      case 5
      then show thesis using nv valid d by (intro hex4) (auto simp: q)
    next
      case 6
      then show thesis using nv valid d decode_rune_bound [OF assms valid d] by (intro hex8) (auto simp: q)
    qed
  qed
qed

lemma raw_chunk_length:
  assumes "s \<noteq> []" "\<not> invalid_front s" "fst (decode_rune s) \<noteq> 0x5C"
  shows "chunk_length (take (snd (decode_rune s)) s @ x) = snd (decode_rune s)"
    and "hd (take (snd (decode_rune s)) s) = hd s" "hd s \<noteq> CHR 0x5C"
proof -
  obtain r w where d: "decode_rune s = (r, w)" by force
  have "chunk_length (take w s @ x) = w \<and> hd (take w s) = hd s \<and> hd s \<noteq> CHR 0x5C"
    using assms(1,2) d
  proof (cases rule: decode_rune_cases)
    case (one c cs)
    then have "c \<noteq> CHR 0x5C" using assms d by auto
    with one show ?thesis by (simp add: chunk_length_def)
  next
    case (two c c1 cs)
    then have "c \<noteq> CHR 0x5C" by auto
    with two show ?thesis by (simp add: chunk_length_def)
  next
    case (three c c1 c2 cs)
    then have "c \<noteq> CHR 0x5C" by auto
    with three show ?thesis by (simp add: chunk_length_def)
  next
    case (four c c1 c2 c3 cs)
    then have "c \<noteq> CHR 0x5C" by auto
    with four show ?thesis by (simp add: chunk_length_def)
  qed
  then show "chunk_length (take (snd (decode_rune s)) s @ x) = snd (decode_rune s)"
    and "hd (take (snd (decode_rune s)) s) = hd s" "hd s \<noteq> CHR 0x5C"
    using d by auto
qed

lemma quote_chunk_length:
  assumes "s \<noteq> []"
  shows "chunk_length (quote_chunk u s @ x) = length (quote_chunk u s)"
  using assms
proof (cases rule: quote_chunk_cases [where s = s and u = u])
  case raw
  then show ?thesis
    using raw_chunk_length(1) [OF assms raw(1,4), of x] decode_rune_width_le [of s] by simp
next
  case (short c)
  then show ?thesis by (auto simp: chunk_length_def)
qed (auto simp: chunk_length_def)

lemma raw_chunk_hd:
  assumes "s \<noteq> []" "\<not> invalid_front s" "fst (decode_rune s) \<noteq> 0x22" "fst (decode_rune s) \<noteq> 0x5C"
  shows "hd (take (snd (decode_rune s)) s) \<notin> {CHR 0x22, CHR 0x5C} \<and> take (snd (decode_rune s)) s \<noteq> []"
proof -
  have "hd s \<noteq> CHR 0x22"
  proof
    assume "hd s = CHR 0x22"
    then have "fst (decode_rune s) = 0x22" using assms(1) by (cases s) auto
    with assms show False by simp
  qed
  then show ?thesis
    using raw_chunk_length(2,3) [OF assms(1,2,4)] decode_rune_width [OF assms(1)] assms(1) by auto
qed

lemma quote_chunk_hd:
  assumes "s \<noteq> []"
  shows "quote_chunk u s \<noteq> [] \<and> hd (quote_chunk u s) \<noteq> CHR 0x22"
  using assms
proof (cases rule: quote_chunk_cases [where s = s and u = u])
  case raw
  then show ?thesis using raw_chunk_hd [OF assms raw(1,3,4)] by auto
qed auto

lemma two_hex_inj: "hex_digits 2 (byte a) = hex_digits 2 (byte b) \<longleftrightarrow> a = b"
  using hex_digits_inj [of "byte a" 2 "byte b"] by simp

lemma take_one: "s \<noteq> [] \<Longrightarrow> take (Suc 0) s = [hd s]"
  by (cases s) auto

text \<open>A chunk determines the bytes it was made from.\<close>

lemma escaped_chunk_source:
  assumes "s \<noteq> []" "s' \<noteq> []" "quote_chunk u s = quote_chunk u s'" "hd (quote_chunk u s) = CHR 0x5C"
  shows "take (snd (decode_rune s)) s = take (snd (decode_rune s')) s'"
  using assms(1)
proof (cases rule: quote_chunk_cases [where s = s and u = u])
  case raw
  have False
    using raw_chunk_hd [OF assms(1) raw(1,3,4)] assms(4) unfolding raw(2) by blast
  then show ?thesis ..
next
  case same
  from assms(2) show ?thesis
    by (cases rule: quote_chunk_cases [where s = s' and u = u])
       (use same assms raw_chunk_hd [of s'] in \<open>auto simp: take_one\<close>)
next
  case (short c)
  from assms(2) show ?thesis
    by (cases rule: quote_chunk_cases [where s = s' and u = u])
       (use short assms raw_chunk_hd [of s'] in \<open>auto simp: take_one\<close>)
next
  case hex2
  from assms(2) show ?thesis
    by (cases rule: quote_chunk_cases [where s = s' and u = u])
       (use hex2 assms raw_chunk_hd [of s'] in \<open>auto simp: take_one two_hex_inj\<close>)
next
  case hex4
  from assms(2) show ?thesis
    by (cases rule: quote_chunk_cases [where s = s' and u = u])
       (use hex4 assms raw_chunk_hd [of s'] decode_rune_inj [of s s'] hex_digits_inj [of _ 4] in auto)
next
  case hex8
  from assms(2) show ?thesis
    by (cases rule: quote_chunk_cases [where s = s' and u = u])
       (use hex8 assms raw_chunk_hd [of s'] decode_rune_inj [of s s'] hex_digits_inj [of _ 8] in auto)
qed

lemma quote_chunk_source:
  assumes "s \<noteq> []" "s' \<noteq> []" "quote_chunk u s = quote_chunk u s'"
  shows "take (snd (decode_rune s)) s = take (snd (decode_rune s')) s'"
proof (cases "hd (quote_chunk u s) = CHR 0x5C")
  case True
  then show ?thesis by (rule escaped_chunk_source [OF assms])
next
  case False
  have "quote_chunk u x = take (snd (decode_rune x)) x"
    if "x \<noteq> []" "hd (quote_chunk u x) \<noteq> CHR 0x5C" for x
    using that(1) by (cases rule: quote_chunk_cases [where s = x and u = u]) (use that(2) in auto)
  then show ?thesis using assms False by metis
qed

lemma quote_body_Cons:
  "s \<noteq> [] \<Longrightarrow> quote_body u s = quote_chunk u s @ quote_body u (drop (snd (decode_rune s)) s)"
  by (simp add: quote_body.simps [of u s])

lemma quote_body_Nil [simp]: "quote_body u [] = []"
  by (simp add: quote_body.simps)

lemma quote_body_inj:
  "quote_body u s @ CHR 0x22 # x = quote_body u s' @ CHR 0x22 # x' \<Longrightarrow> s = s' \<and> x = x'"
proof (induction u s arbitrary: s' rule: quote_body.induct)
  case (1 u s)
  have hd_ne: "t \<noteq> [] \<Longrightarrow> quote_body u t @ y \<noteq> CHR 0x22 # z" for t y z
    using quote_chunk_hd [of t u] by (cases "quote_chunk u t") (auto simp: quote_body_Cons)
  show ?case
  proof (cases "s = [] \<or> s' = []")
    case True
    have "s = []" if "s' = []"
      using "1.prems" hd_ne [of s "CHR 0x22 # x" x'] that by auto
    moreover have "s' = []" if "s = []"
      using "1.prems" hd_ne [of s' "CHR 0x22 # x'" x] that by (metis append_Nil quote_body_Nil)
    ultimately show ?thesis
      using True "1.prems" by auto
  next
    case False
    let ?d = "drop (snd (decode_rune s)) s" and ?d' = "drop (snd (decode_rune s')) s'"
    have eq: "quote_chunk u s @ quote_body u ?d @ CHR 0x22 # x = quote_chunk u s' @ quote_body u ?d' @ CHR 0x22 # x'"
      using "1.prems" False by (simp add: quote_body_Cons)
    then have "length (quote_chunk u s) = length (quote_chunk u s')"
      using False quote_chunk_length by metis
    with eq have c: "quote_chunk u s = quote_chunk u s'"
      and t: "quote_body u ?d @ CHR 0x22 # x = quote_body u ?d' @ CHR 0x22 # x'" by auto
    have "take (snd (decode_rune s)) s = take (snd (decode_rune s')) s'"
      using quote_chunk_source c False by blast
    moreover have "?d = ?d' \<and> x = x'"
      using "1.IH" [OF _ t] False by blast
    ultimately show ?thesis
      by (metis append_take_drop_id)
  qed
qed

lemma Quote_inj: "Quote u s @ x = Quote u s' @ x' \<longleftrightarrow> s = s' \<and> x = x'"
  using quote_body_inj [of u s x s' x'] by (auto simp: Quote_def)

section \<open>Lines and numbers\<close>

lemma split_at_inj:
  "c \<notin> set v \<Longrightarrow> c \<notin> set v' \<Longrightarrow> v @ c # x = v' @ c # x' \<longleftrightarrow> v = v' \<and> x = x'"
proof (induction v arbitrary: v')
  case Nil
  then show ?case by (cases v') auto
next
  case (Cons a v)
  then show ?case by (cases v') auto
qed

lemma dec_nat_nonempty: "dec_nat n \<noteq> []"
  by (simp add: dec_nat.simps [of n])

lemma dec_nat_digit: "d < 10 \<Longrightarrow> e < 10 \<Longrightarrow> char_of (48 + d) = (char_of (48 + e) :: char) \<longleftrightarrow> d = (e::nat)"
  by (auto simp: char_of_eq_iff take_bit_eq_mod)

lemma dec_nat_inj: "dec_nat m = dec_nat n \<longleftrightarrow> m = n"
proof (induction m arbitrary: n rule: dec_nat.induct)
  case (1 m)
  show ?case
  proof (cases "m < 10"; cases "n < 10")
    assume "\<not> m < 10" "\<not> n < 10"
    then show ?thesis
      using "1.IH" [of "n div 10"] dec_nat_digit [of "m mod 10" "n mod 10"]
      by (simp add: dec_nat.simps [of m] dec_nat.simps [of n]) (metis div_mult_mod_eq)
  qed (auto simp: dec_nat.simps [of m] dec_nat.simps [of n] dec_nat_digit dec_nat_nonempty dec_nat_nonempty [symmetric])
qed

lemma FormatInt_inj: "1 \<le> sint m \<Longrightarrow> 1 \<le> sint n \<Longrightarrow> FormatInt m = FormatInt n \<longleftrightarrow> m = n"
  by (auto simp: FormatInt_def dec_nat_inj eq_nat_nat_iff intro: signed_word_eqI)

lemma FormatInt_line: "1 \<le> sint m \<Longrightarrow> CHR 0x0A \<notin> set (FormatInt m)"
  by (auto simp: FormatInt_def dest: dec_nat_digits)

end
