(* ===== verification/Brief.thy ===== *)
theory Brief
  imports Task Text_Codec "HOL-Library.Multiset"
begin

text \<open>
  What the canonical worker brief (\<open>brief.go\<close>) determines.  The digest in a task pins the rendered
  text; the lemmas here read the text back, line by line, so that equal text means an equal contract.
\<close>

section \<open>Text without separators\<close>

definition plain_line :: "string \<Rightarrow> bool" where
  "plain_line s \<longleftrightarrow> CHR 0x0A \<notin> set s \<and> CHR '' '' \<notin> set s"

lemma lower_digit_plain: "lower_digit c \<Longrightarrow> c \<noteq> CHR 0x0A \<and> c \<noteq> CHR '' ''"
  by (auto simp: lower_digit_def)

lemma hex_char_plain: "hex_char c \<Longrightarrow> c \<noteq> CHR 0x0A \<and> c \<noteq> CHR '' ''"
  by (auto simp: hex_char_def)

lemma opaque_plain: "opaqueIDPattern s \<Longrightarrow> plain_line s"
  by (cases s) (auto simp: opaqueIDPattern_def matches_head_body_def plain_line_def list_all_iff dest!: lower_digit_plain)

lemma hex_plain: "matches_exactly hex_char n s \<Longrightarrow> plain_line s"
  by (auto simp: matches_exactly_def plain_line_def list_all_iff dest!: hex_char_plain)

lemma revision_plain: "revisionPattern s \<Longrightarrow> plain_line s"
  by (auto simp: revisionPattern_def dest: hex_plain)

lemma sha256_plain: "sha256HexPattern s \<Longrightarrow> plain_line s"
  by (auto simp: sha256HexPattern_def dest: hex_plain)

lemma kind_plain: "ContractArtifactKind_valid k \<Longrightarrow> plain_line (ContractArtifactKind_string k)"
  by (cases k) (auto simp: plain_line_def)

lemma kind_string_inj:
  "ContractArtifactKind_valid k \<Longrightarrow> ContractArtifactKind_valid k' \<Longrightarrow>
     ContractArtifactKind_string k = ContractArtifactKind_string k' \<longleftrightarrow> k = k'"
  by (cases k; cases k') auto

lemma shape_plain: "TaskShape_valid s \<Longrightarrow> plain_line (TaskShape_string s)"
  by (auto simp: TaskShape_valid_def plain_line_def)

lemma shape_string_inj:
  "TaskShape_valid s \<Longrightarrow> TaskShape_valid s' \<Longrightarrow> TaskShape_string s = TaskShape_string s' \<longleftrightarrow> s = s'"
  by (auto simp: TaskShape_valid_def)

lemma mode_plain: "DeliveryMode_valid m \<Longrightarrow> plain_line (DeliveryMode_string m)"
  by (cases m) (auto simp: plain_line_def)

lemma mode_string_inj:
  "DeliveryMode_valid m \<Longrightarrow> DeliveryMode_valid m' \<Longrightarrow> DeliveryMode_string m = DeliveryMode_string m' \<longleftrightarrow> m = m'"
  by (cases m; cases m') auto

lemma plain_no_newline: "plain_line s \<Longrightarrow> CHR 0x0A \<notin> set s"
  by (simp add: plain_line_def)

section \<open>Reading the parts back\<close>

lemma field_inj:
  "CHR 0x0A \<notin> set v \<Longrightarrow> CHR 0x0A \<notin> set v' \<Longrightarrow>
     writeBriefField n v @ x = writeBriefField n v' @ x' \<longleftrightarrow> v = v' \<and> x = x'"
  using split_at_inj [of "CHR 0x0A" v v' x x'] by (simp add: writeBriefField_def)

text \<open>
  A block of lines: each line is recognisable (\<open>line\<close> determines its item and where it ends) and
  starts differently from what follows the block.
\<close>

lemma block_inj:
  assumes inj: "\<And>v v' y y'. v \<in> A \<Longrightarrow> v' \<in> A \<Longrightarrow> line v @ y = line v' @ y' \<Longrightarrow> v = v' \<and> y = y'"
    and start: "\<And>v. v \<in> A \<Longrightarrow> \<exists>r. line v = c # r"
    and stop: "x \<noteq> [] \<and> hd x \<noteq> c" "x' \<noteq> [] \<and> hd x' \<noteq> c"
  shows "set vs \<subseteq> A \<Longrightarrow> set vs' \<subseteq> A \<Longrightarrow>
    concat (map line vs) @ x = concat (map line vs') @ x' \<longleftrightarrow> vs = vs' \<and> x = x'"
proof (induction vs arbitrary: vs')
  case Nil
  then show ?case
  proof (cases vs')
    case (Cons v w)
    with Nil start obtain r where "line v = c # r" by force
    with Cons stop show ?thesis by auto
  qed simp
next
  case (Cons v vs)
  then obtain r where r: "line v = c # r" using start by force
  show ?case
  proof (cases vs')
    case Nil
    with r stop show ?thesis by auto
  next
    case w: (Cons v' ws)
    have "line v @ concat (map line vs) @ x = line v' @ concat (map line ws) @ x' \<Longrightarrow> v = v'
        \<and> concat (map line vs) @ x = concat (map line ws) @ x'"
      using Cons.prems w by (intro inj) auto
    with Cons w show ?thesis by auto
  qed
qed

lemma quoted_lines_inj:
  assumes "x \<noteq> [] \<and> hd x \<noteq> CHR ''-''" "x' \<noteq> [] \<and> hd x' \<noteq> CHR ''-''"
  shows "writeBriefList u n vs @ x = writeBriefList u n vs' @ x' \<longleftrightarrow> vs = vs' \<and> x = x'"
proof -
  have "concat (map (\<lambda>v. ''- '' @ Quote u v @ [CHR 0x0A]) vs) @ x =
      concat (map (\<lambda>v. ''- '' @ Quote u v @ [CHR 0x0A]) vs') @ x' \<longleftrightarrow> vs = vs' \<and> x = x'"
    using assms by (intro block_inj [where A = UNIV and c = "CHR ''-''"]) (auto simp: Quote_inj)
  then show ?thesis by (simp add: writeBriefList_def)
qed

definition pin_line :: "PinnedContract \<Rightarrow> string" where
  "pin_line pin = ''  - '' @ pin_ArtifactHandle pin @ '' '' @
     ContractArtifactKind_string (pin_Kind pin) @ '' '' @ pin_ContentHash pin @ [CHR 0x0A]"

lemma pin_valid_parts:
  assumes "PinnedContract_Validate p = None"
  shows "plain_line (pin_ArtifactHandle p)" "plain_line (ContractArtifactKind_string (pin_Kind p))"
    "plain_line (pin_ContentHash p)" "ContractArtifactKind_valid (pin_Kind p)"
  using assms by (auto simp: PinnedContract_Validate_def field_check_defs intro: opaque_plain kind_plain sha256_plain)

lemma pin_line_inj:
  assumes "PinnedContract_Validate p = None" "PinnedContract_Validate q = None"
    and "pin_line p @ y = pin_line q @ y'"
  shows "p = q \<and> y = y'"
proof -
  note pv = pin_valid_parts [OF assms(1)] pin_valid_parts [OF assms(2)]
  have "pin_ArtifactHandle p @ CHR '' '' # ContractArtifactKind_string (pin_Kind p) @ CHR '' '' #
          pin_ContentHash p @ CHR 0x0A # y =
        pin_ArtifactHandle q @ CHR '' '' # ContractArtifactKind_string (pin_Kind q) @ CHR '' '' #
          pin_ContentHash q @ CHR 0x0A # y'"
    using assms(3) by (simp add: pin_line_def)
  then have "pin_ArtifactHandle p = pin_ArtifactHandle q \<and>
      ContractArtifactKind_string (pin_Kind p) = ContractArtifactKind_string (pin_Kind q) \<and>
      pin_ContentHash p = pin_ContentHash q \<and> y = y'"
    using pv by (simp add: split_at_inj plain_line_def)
  then show ?thesis
    using pv by (simp add: kind_string_inj)
qed

lemma contracts_inj:
  assumes "\<forall>p\<in>set ps. PinnedContract_Validate p = None" "\<forall>p\<in>set qs. PinnedContract_Validate p = None"
    and "\<exists>r. x = CHR ''w'' # r" "\<exists>r. x' = CHR ''w'' # r"
  shows "writeBriefContracts ps @ x = writeBriefContracts qs @ x' \<longleftrightarrow>
    sort_key pin_ArtifactHandle ps = sort_key pin_ArtifactHandle qs \<and> x = x'"
proof -
  let ?s = "sort_key pin_ArtifactHandle"
  have w: "writeBriefContracts zs = (if zs = [] then [] else
      ''consumedContracts:'' @ [CHR 0x0A] @ concat (map pin_line (?s zs)))" for zs
    unfolding writeBriefContracts_def pin_line_def ..
  have e: "?s zs = [] \<longleftrightarrow> zs = []" for zs
    using length_sort [of pin_ArtifactHandle zs] by (cases "?s zs") auto
  have stop: "x \<noteq> [] \<and> hd x \<noteq> CHR '' ''" "x' \<noteq> [] \<and> hd x' \<noteq> CHR '' ''"
    using assms(3,4) by auto
  have ok: "set (?s ps) \<subseteq> {p. PinnedContract_Validate p = None}" "set (?s qs) \<subseteq> {p. PinnedContract_Validate p = None}"
    using assms(1,2) by auto
  have lines: "concat (map pin_line (?s ps)) @ x = concat (map pin_line (?s qs)) @ x' \<longleftrightarrow> ?s ps = ?s qs \<and> x = x'"
  proof (rule block_inj [where line = pin_line, OF _ _ stop ok])
    show "\<exists>r. pin_line v = CHR '' '' # r" for v by (simp add: pin_line_def)
  qed (rule pin_line_inj; simp)
  obtain r r' where x: "x = CHR ''w'' # r" "x' = CHR ''w'' # r'" using assms(3,4) by auto
  let ?h = "''consumedContracts:'' @ [CHR 0x0A]"
  have differ: "?h @ y \<noteq> x" "?h @ y \<noteq> x'" for y
    by (simp_all add: x)
  show ?thesis
  proof (cases "ps = []"; cases "qs = []")
    assume "ps \<noteq> []" "qs \<noteq> []"
    then show ?thesis
      using lines by (simp only: w if_False append_assoc same_append_eq)
  next
    assume "ps \<noteq> []" "qs = []"
    then show ?thesis
      using e [of ps] differ(2) by (simp only: w if_False if_True append_assoc append_Nil sort_key_simps) auto
  next
    assume "ps = []" "qs \<noteq> []"
    then show ?thesis
      using e [of qs] differ(1) [symmetric] by (simp only: w if_False if_True append_assoc append_Nil sort_key_simps) auto
  next
    assume "ps = []" "qs = []"
    then show ?thesis by (simp add: w)
  qed
qed

section \<open>The brief determines the contract\<close>

definition brief_terms :: "Task \<Rightarrow> Task \<Rightarrow> bool" where
  "brief_terms a b \<longleftrightarrow>
     task_Handle a = task_Handle b \<and> task_BriefRevision a = task_BriefRevision b \<and>
     task_Shape a = task_Shape b \<and> task_DeliveryMode a = task_DeliveryMode b \<and>
     task_RepositoryID a = task_RepositoryID b \<and> task_BaseRevision a = task_BaseRevision b \<and>
     task_ValidationProfile a = task_ValidationProfile b \<and> task_WorkerProfileID a = task_WorkerProfileID b \<and>
     task_AcceptanceCriteria a = task_AcceptanceCriteria b \<and> task_Constraints a = task_Constraints b \<and>
     mset (task_ConsumedContracts a) = mset (task_ConsumedContracts b)"

lemma sort_key_mset_eq:
  assumes "distinct (map f xs)"
  shows "sort_key f xs = sort_key f ys \<longleftrightarrow> mset xs = mset ys"
proof
  assume "sort_key f xs = sort_key f ys"
  then show "mset xs = mset ys" by (metis mset_sort)
next
  assume m: "mset xs = mset ys"
  then have "inj_on f (set ys)" using assms by (metis distinct_map set_mset_mset)
  with m show "sort_key f xs = sort_key f ys"
    by (intro sort_key_inj_key_eq) (simp_all add: inj_on_def, metis set_mset_mset m)
qed

lemma brief_inputs_parts:
  assumes "validateBriefInputs t = None"
  shows "1 \<le> sint (task_BriefRevision t)" "distinct (map pin_ArtifactHandle (task_ConsumedContracts t))"
    "\<forall>p\<in>set (task_ConsumedContracts t). PinnedContract_Validate p = None"
  using assms by (auto simp: validateBriefInputs_def validateConsumedContracts_def)

lemma writeBriefContracts_front:
  "\<exists>c r. writeBriefContracts ps @ CHR ''w'' # x = c # r \<and> c \<noteq> CHR ''-''"
  by (cases "ps = []") (auto simp: writeBriefContracts_def)

lemma brief_body_iff:
  assumes "contract_ok u a" "contract_ok u b"
  shows "brief_body u a = brief_body u b \<longleftrightarrow> brief_terms a b"
proof -
  have va: "DeliveryMode_valid (task_DeliveryMode t)" "TaskShape_valid (task_Shape t)"
    "CHR 0x0A \<notin> set (task_Handle t)" "CHR 0x0A \<notin> set (TaskShape_string (task_Shape t))"
    "CHR 0x0A \<notin> set (FormatInt (task_BriefRevision t))"
    "CHR 0x0A \<notin> set (DeliveryMode_string (task_DeliveryMode t))" "CHR 0x0A \<notin> set (task_RepositoryID t)"
    "CHR 0x0A \<notin> set (task_BaseRevision t)" "CHR 0x0A \<notin> set (task_ValidationProfile t)"
    "CHR 0x0A \<notin> set (task_WorkerProfileID t)" "validateBriefInputs t = None"
    if "contract_ok u t" for t
    using that ValidForShape_valid [of "task_DeliveryMode t" "task_Shape t"]
      brief_inputs_parts(1) [of t] 
    by (auto simp: contract_ok_def intro!: plain_no_newline FormatInt_line
        intro: opaque_plain revision_plain shape_plain mode_plain)
  define tail where "tail = 
     writeBriefField ''workspaceSelfCheck''
       ''verify the canonical working directory and task handle before mutation'' @
     writeBriefField ''reportCommand'' ''devcrew-report through the protected task reporter'' @
     writeBriefField ''reportKinds''
       ''progress, attention, blocked, paused, candidate_complete, failed, resolution'' @
     writeBriefField ''decisionProtocol''
       ''request one keyed decision and wait for acknowledged delivery'' @
     writeBriefField ''completionMeaning'' ''candidate_complete requires service validation and evidence'' @
     writeBriefField ''prohibitedActions''
       ''merge, mutate the primary checkout, change task shape, or bypass the reporter''"
  then obtain tl where tail: "tail = CHR ''w'' # tl" by (simp add: writeBriefField_def)
  let ?pins = "\<lambda>t. writeBriefContracts (task_ConsumedContracts t) @ tail"
  let ?cons = "\<lambda>t. writeBriefList u ''constraints'' (task_Constraints t) @ ?pins t"
  have pins_front: "?pins t \<noteq> [] \<and> hd (?pins t) \<noteq> CHR ''-''" for t
    using writeBriefContracts_front [of "task_ConsumedContracts t" tl] by (auto simp: tail)
  have cons_front: "?cons t \<noteq> [] \<and> hd (?cons t) \<noteq> CHR ''-''" for t
    by (simp add: writeBriefList_def)
  note pa = brief_inputs_parts [OF va(11) [OF assms(1)]] and pb = brief_inputs_parts [OF va(11) [OF assms(2)]]
  have "?pins a = ?pins b \<longleftrightarrow> mset (task_ConsumedContracts a) = mset (task_ConsumedContracts b)"
    using contracts_inj [OF pa(3) pb(3), of tail tail] sort_key_mset_eq [OF pa(2)] by (simp add: tail)
  then have lists: "writeBriefList u ''acceptanceCriteria'' (task_AcceptanceCriteria a) @ ?cons a =
      writeBriefList u ''acceptanceCriteria'' (task_AcceptanceCriteria b) @ ?cons b \<longleftrightarrow>
      task_AcceptanceCriteria a = task_AcceptanceCriteria b \<and> task_Constraints a = task_Constraints b \<and>
      mset (task_ConsumedContracts a) = mset (task_ConsumedContracts b)"
    unfolding quoted_lines_inj [OF cons_front cons_front] quoted_lines_inj [OF pins_front pins_front] by simp
  define rest :: "Task \<Rightarrow> string" where
    "rest t = writeBriefList u ''acceptanceCriteria'' (task_AcceptanceCriteria t) @ ?cons t" for t
  have body: "brief_body u t =
     writeBriefField ''taskHandle'' (task_Handle t) @
     writeBriefField ''briefRevision'' (FormatInt (task_BriefRevision t)) @
     writeBriefField ''shape'' (TaskShape_string (task_Shape t)) @
     writeBriefField ''deliveryMode'' (DeliveryMode_string (task_DeliveryMode t)) @
     writeBriefField ''repositoryId'' (task_RepositoryID t) @
     writeBriefField ''baseRevision'' (task_BaseRevision t) @
     writeBriefField ''validationProfile'' (task_ValidationProfile t) @
     writeBriefField ''workerProfileId'' (task_WorkerProfileID t) @ rest t" for t
    unfolding brief_body_def tail_def [symmetric] rest_def ..
  from lists show ?thesis
    unfolding rest_def [symmetric] brief_terms_def body
    by (simp add: field_inj va assms FormatInt_inj pa(1) pb(1) shape_string_inj mode_string_inj)
qed

section \<open>Text a terminal can show\<close>

definition line_text :: "string \<Rightarrow> bool" where
  "line_text s \<longleftrightarrow> ValidString s \<and> (\<forall>r\<in>set (runes s). IsControl r \<longrightarrow> r = 0x0A)"

lemma decode_rune_extend:
  assumes "s \<noteq> []" "\<not> invalid_front s"
  shows "decode_rune (take (snd (decode_rune s)) s @ x) = decode_rune s"
  using assms
  by (cases s rule: decode_rune.cases)
     (auto simp: Let_def invalid_front_def split: if_splits list.splits)

lemma decode_rune_append:
  assumes "s \<noteq> []" "\<not> invalid_front s"
  shows "decode_rune (s @ x) = decode_rune s"
  using decode_rune_extend [OF assms, of "drop (snd (decode_rune s)) s @ x"]
  by (metis append_assoc append_take_drop_id)

lemma ValidString_step:
  "s \<noteq> [] \<Longrightarrow> ValidString s \<longleftrightarrow> \<not> invalid_front s \<and> ValidString (drop (snd (decode_rune s)) s)"
  by (auto simp: ValidString_def decode_all.simps [of s] invalid_front_def)

lemma decode_all_append: "ValidString s \<Longrightarrow> decode_all (s @ x) = decode_all s @ decode_all x"
proof (induction s rule: decode_all.induct)
  case (1 s)
  show ?case
  proof (cases "s = []")
    case False
    with 1 have v: "\<not> invalid_front s" "ValidString (drop (snd (decode_rune s)) s)"
      by (simp_all add: ValidString_step)
    have "decode_all (s @ x) = decode_rune s # decode_all (drop (snd (decode_rune s)) s @ x)"
      using False decode_rune_append [OF False v(1)] decode_rune_width_le [of s]
      by (simp add: decode_all.simps [of "s @ x"])
    then show ?thesis
      using 1(1) [OF False v(2)] False by (simp add: decode_all.simps [of s])
  qed simp
qed

lemma line_text_append: "line_text s \<Longrightarrow> line_text t \<Longrightarrow> line_text (s @ t)"
  by (auto simp: line_text_def ValidString_def decode_all_append runes_def)

lemma line_text_ascii: "\<forall>c\<in>set s. byte c < 0x7F \<and> (0x20 \<le> byte c \<or> byte c = 0x0A) \<Longrightarrow> line_text s"
  using ValidString_ascii [of s] runes_ascii [of s] by (fastforce simp: line_text_def IsControl_def)

definition line_ascii :: "string \<Rightarrow> bool" where
  "line_ascii s \<longleftrightarrow> list_all (\<lambda>c. byte c < (0x7F::nat) \<and> ((0x20::nat) \<le> byte c \<or> byte c = (0x0A::nat))) s"

lemma line_text_literal: "line_ascii s \<Longrightarrow> line_text s"
  by (simp add: line_ascii_def list_all_iff line_text_ascii)

lemma line_text_concat: "(\<And>v. v \<in> set vs \<Longrightarrow> line_text (f v)) \<Longrightarrow> line_text (concat (map f vs))"
  by (induction vs) (simp_all add: line_text_append, simp add: line_text_ascii)

lemma printable_bytes:
  "lower_digit c \<Longrightarrow> 0x20 \<le> byte c \<and> byte c < 0x7F" "hex_char c \<Longrightarrow> 0x20 \<le> byte c \<and> byte c < 0x7F"
  by (auto simp: lower_digit_def hex_char_def less_eq_char_def)

lemma hex_digit_bytes: "d < 16 \<Longrightarrow> 0x20 \<le> byte (hex_digit d) \<and> byte (hex_digit d) < 0x7F"
  by (auto simp: hex_digit_def take_bit_eq_mod)

lemma hex_digits_bytes: "c \<in> set (hex_digits k n) \<Longrightarrow> 0x20 \<le> byte c \<and> byte c < 0x7F"
  by (induction k arbitrary: n) (auto simp: hex_digit_bytes)

lemma line_text_opaque: "opaqueIDPattern s \<Longrightarrow> line_text s"
  by (cases s) (auto simp: opaqueIDPattern_def matches_head_body_def list_all_iff
      intro!: line_text_ascii dest!: printable_bytes)

lemma line_text_hex: "matches_exactly hex_char n s \<Longrightarrow> line_text s"
  by (auto simp: matches_exactly_def list_all_iff intro!: line_text_ascii dest!: printable_bytes)

lemma line_text_revision: "revisionPattern s \<Longrightarrow> line_text s"
  by (auto simp: revisionPattern_def intro: line_text_hex)

lemma line_text_quote_chunk:
  assumes "s \<noteq> []"
  shows "line_text (quote_chunk u s)"
proof -
  have ctl: "IsPrint u r \<Longrightarrow> IsControl r \<Longrightarrow> False" for r
    by (auto simp: IsPrint_def IsControl_def split: if_splits)
  show ?thesis
  proof (cases "hd (quote_chunk u s) = CHR 0x5C")
    case True
    from assms show ?thesis
    proof (cases rule: quote_chunk_cases [where s = s and u = u])
      case raw
      with True raw_chunk_hd [OF assms raw(1,3,4)] show ?thesis by auto
    next
      case same
      then show ?thesis by (intro line_text_ascii) auto
    next
      case (short c)
      then show ?thesis by (intro line_text_ascii) auto
    qed (auto intro!: line_text_ascii dest: hex_digits_bytes)
  next
    case False
    obtain r w where d: "decode_rune s = (r, w)" by force
    have p: "quote_chunk u s = take w s" "IsPrint u r" "\<not> invalid_front s"
      using False unfolding quote_chunk_def d invalid_front_def by (auto simp: Let_def split: if_splits)
    then have "decode_rune (take w s) = (r, w)"
      using decode_rune_extend [OF assms p(3), of "[]"] d by simp
    moreover have "take w s \<noteq> []" using assms decode_rune_width [OF assms] d by auto
    ultimately have "decode_all (take w s) = [(r, w)]"
      by (simp add: decode_all.simps [of "take w s"])
    then show ?thesis
      using p d ctl by (auto simp: line_text_def ValidString_def runes_def invalid_front_def)
  qed
qed

lemma line_text_quote_body: "line_text (quote_body u s)"
proof (induction u s rule: quote_body.induct)
  case (1 u s)
  then show ?case
    by (cases "s = []") (auto simp: quote_body_Cons line_text_quote_chunk line_text_append, simp add: line_text_ascii)
qed

lemma line_text_Quote: "line_text (Quote u s)"
proof -
  have "line_text ([CHR 0x22] @ quote_body u s @ [CHR 0x22])"
    by (intro line_text_append line_text_quote_body) (simp_all add: line_text_ascii)
  then show ?thesis by (simp add: Quote_def)
qed

section \<open>The rendered brief\<close>

lemma line_text_field:
  "line_text n \<Longrightarrow> line_text v \<Longrightarrow> line_text (writeBriefField n v)"
  unfolding writeBriefField_def by (intro line_text_append) (simp_all add: line_text_ascii)

lemma line_text_list: "line_text n \<Longrightarrow> line_text (writeBriefList u n vs)"
  unfolding writeBriefList_def
  by (intro line_text_append line_text_concat line_text_Quote) (simp_all add: line_text_ascii)

lemma line_text_pin:
  assumes "PinnedContract_Validate p = None"
  shows "line_text (pin_line p)"
proof -
  have "opaqueIDPattern (pin_ArtifactHandle p)" "matches_exactly hex_char 64 (pin_ContentHash p)"
    "ContractArtifactKind_valid (pin_Kind p)"
    using assms by (auto simp: PinnedContract_Validate_def field_check_defs sha256HexPattern_def)
  moreover from this(3) have "line_text (ContractArtifactKind_string (pin_Kind p))"
    by (cases "pin_Kind p") (simp_all add: line_text_ascii)
  ultimately show ?thesis
    unfolding pin_line_def
    by (intro line_text_append) (auto intro: line_text_opaque line_text_hex simp: line_text_ascii)
qed

lemma line_text_contracts:
  assumes "\<forall>p\<in>set ps. PinnedContract_Validate p = None"
  shows "line_text (writeBriefContracts ps)"
proof -
  have "line_text (concat (map pin_line (sort_key pin_ArtifactHandle ps)))"
    using assms by (intro line_text_concat line_text_pin) simp
  then show ?thesis
    unfolding writeBriefContracts_def pin_line_def [symmetric]
    by (cases "ps = []") (simp_all only: if_True if_False line_text_append simp_thms, simp_all add: line_text_ascii
        line_text_append [of "''consumedContracts:'' @ [CHR 0x0A]", simplified])
qed

lemma line_text_FormatInt: "1 \<le> sint n \<Longrightarrow> line_text (FormatInt n)"
  by (auto simp: FormatInt_def intro!: line_text_ascii dest!: dec_nat_digits)

lemma line_text_brief:
  assumes "contract_ok u t"
  shows "line_text (brief_body u t)"
proof -
  have "DeliveryMode_valid (task_DeliveryMode t)" "TaskShape_valid (task_Shape t)"
    using assms ValidForShape_valid by (auto simp: contract_ok_def)
  then have s: "line_text (DeliveryMode_string (task_DeliveryMode t))" "line_text (TaskShape_string (task_Shape t))"
    by (cases "task_DeliveryMode t"; cases "task_Shape t"; simp add: line_text_ascii TaskShape_valid_def)+
  have b: "validateBriefInputs t = None" "opaqueIDPattern (task_Handle t)" "opaqueIDPattern (task_RepositoryID t)"
    "opaqueIDPattern (task_ValidationProfile t)" "opaqueIDPattern (task_WorkerProfileID t)"
    "revisionPattern (task_BaseRevision t)"
    using assms by (simp_all add: contract_ok_def)
  note p = brief_inputs_parts [OF b(1)]
  show ?thesis
    unfolding brief_body_def
    by (intro line_text_append line_text_field line_text_list line_text_contracts [OF p(3)]
          line_text_FormatInt [OF p(1)] b(2-5) [THEN line_text_opaque] line_text_revision [OF b(6)] s line_text_literal;
        code_simp)
qed

lemma brief_body_front: "\<exists>r. brief_body u t = CHR ''t'' # r"
  by (simp add: brief_body_def writeBriefField_def)

lemma RenderWorkerBrief_Inr:
  "RenderWorkerBrief u t = Inr b \<longleftrightarrow>
     Task_Validate u t = None \<and>
     b = \<lparr>brief_Revision = task_BriefRevision t, brief_RevisionHash = sha256_hex (brief_body u t),
          brief_Content = brief_body u t\<rparr>"
proof (cases "Task_Validate u t")
  case None
  then have "validateBriefInputs t = None" "task_BriefRevisionHash t = sha256_hex (brief_body u t)"
    by (simp_all add: Task_Validate_iff contract_ok_def)
  with None show ?thesis by (auto simp: RenderWorkerBrief_def renderBriefContent_def)
qed (simp add: RenderWorkerBrief_def)

lemma WorkerBrief_Validate_rendered:
  assumes "RenderWorkerBrief u t = Inr b"
  shows "WorkerBrief_Validate b = None \<longleftrightarrow> length (brief_Content b) \<le> maximumWorkerBriefBytes"
proof -
  from assms have c: "contract_ok u t" and b: "b = \<lparr>brief_Revision = task_BriefRevision t,
      brief_RevisionHash = sha256_hex (brief_body u t), brief_Content = brief_body u t\<rparr>"
    by (simp_all add: RenderWorkerBrief_Inr Task_Validate_iff)
  obtain r where r: "brief_body u t = CHR ''t'' # r" using brief_body_front by blast
  then have "TrimSpace (brief_body u t) \<noteq> []"
    by (intro TrimSpace_ascii_head) (simp_all add: IsSpace_def)
  moreover have "1 \<le> sint (task_BriefRevision t)"
    using c brief_inputs_parts(1) by (simp add: contract_ok_def)
  ultimately show ?thesis
    using line_text_brief [OF c] by (auto simp: WorkerBrief_Validate_def b validateSHA256_def line_text_def)
qed

section \<open>A brief that is too long\<close>

definition long_entries :: "char \<Rightarrow> string list" where
  "long_entries c = map (\<lambda>i. replicate 511 c @ [char_of (97 + i)]) [0..<26]"

definition long_task :: "print_table \<Rightarrow> Task" where
  "long_task u =
     (let t = draft_task\<lparr>task_AcceptanceCriteria := long_entries CHR ''a'', task_Constraints := long_entries CHR ''b''\<rparr>
      in t\<lparr>task_BriefRevisionHash := sha256_hex (brief_body u t)\<rparr>)"

lemma quote_body_plain:
  "\<forall>c\<in>set s. 0x20 \<le> byte c \<and> byte c < 0x7F \<and> byte c \<noteq> 0x22 \<and> byte c \<noteq> 0x5C \<Longrightarrow> quote_body u s = s"
proof (induction s)
  case (Cons c s)
  then show ?case
    by (auto simp: quote_body_Cons quote_chunk_def RuneError_def IsPrint_def)
qed simp

lemma long_entry_bytes:
  assumes "v \<in> set (long_entries c)" "c \<in> {CHR ''a'', CHR ''b''}"
  shows "length v = 512" "\<forall>d\<in>set v. 97 \<le> byte d \<and> byte d < 0x7F" "hd v = c"
  using assms by (auto simp: long_entries_def take_bit_eq_mod)

lemma long_entries_ok:
  assumes c: "c \<in> {CHR ''a'', CHR ''b''}"
  shows "validateContractTextList f (long_entries c) r = None" "(length (Quote u v) = 514) \<or> v \<notin> set (long_entries c)"
proof -
  have "printable_ascii v" if "v \<in> set (long_entries c)" for v
    using long_entry_bytes [OF that c] c by (fastforce simp: printable_ascii_def list_all_iff)
  moreover have "distinct (long_entries c)"
    by (auto simp: long_entries_def distinct_map inj_on_def char_of_eq_iff take_bit_eq_mod)
  ultimately show "validateContractTextList f (long_entries c) r = None"
    using long_entry_bytes [OF _ c]
    by (auto simp: validateContractTextList_def maximumContractEntries_def validateSafeText_def
        validateBoundedSafeText_ascii) (simp_all add: long_entries_def)
  show "(length (Quote u v) = 514) \<or> v \<notin> set (long_entries c)"
    using long_entry_bytes [OF _ c, of v] quote_body_plain [of v u] by (fastforce simp: Quote_def)
qed

lemma long_list_length:
  assumes "c \<in> {CHR ''a'', CHR ''b''}"
  shows "length (writeBriefList u n (long_entries c)) \<ge> 26 * 517"
proof -
  let ?line = "\<lambda>v. ''- '' @ Quote u v @ [CHR 0x0A]"
  have "sum_list (map (\<lambda>v. length (?line v)) (long_entries c)) = sum_list (map (\<lambda>v. 517) (long_entries c))"
    using long_entries_ok(2) [OF assms] by (intro arg_cong [where f = sum_list] map_cong) auto
  also have "\<dots> = 26 * 517" by (simp only: sum_list_triv long_entries_def length_map length_upt) simp
  finally have "length (concat (map ?line (long_entries c))) = 26 * 517"
    by (simp only: length_concat map_map comp_def)
  then show ?thesis by (simp add: writeBriefList_def)
qed

lemma long_task_valid: "Task_Validate u (long_task u) = None"
proof -
  let ?t = "draft_task\<lparr>task_AcceptanceCriteria := long_entries CHR ''a'', task_Constraints := long_entries CHR ''b''\<rparr>"
  have "validateBriefInputs ?t = None"
    by (simp add: validateBriefInputs_def long_entries_ok) (simp add: draft_defs validateConsumedContracts_def)
  moreover have "progress_ok (long_task u)"
    by (simp add: long_task_def Let_def progress_ok_def task_bound_def draft_defs validateTimes_def time_defs)
  ultimately show ?thesis
    by (simp add: Task_Validate_iff contract_ok_def long_task_def Let_def)
       (simp add: draft_defs draft_strings ValidForShape_def TaskShape_valid_def)
qed

lemma long_task_content: "maximumWorkerBriefBytes < length (brief_body u (long_task u))"
proof -
  have "length (writeBriefList u ''acceptanceCriteria'' (task_AcceptanceCriteria (long_task u))) \<ge> 26 * 517"
    "length (writeBriefList u ''constraints'' (task_Constraints (long_task u))) \<ge> 26 * 517"
    using long_list_length by (simp_all add: long_task_def Let_def)
  then show ?thesis
    unfolding brief_body_def length_append maximumWorkerBriefBytes_def by linarith
qed

section \<open>Properties\<close>

text \<open>
  C22.  The rendered brief determines the worker's contract and nothing else: two valid tasks render
  the same content exactly when they agree on handle, brief revision, shape, delivery mode,
  repository, base revision, profiles, criteria and constraints, and pin the same contracts in any
  order.  No text in a criterion can imitate another field.
\<close>

theorem brief_determines_contract:
  assumes "Task_Validate u a = None" "Task_Validate u b = None"
  shows "renderBriefContent u a = renderBriefContent u b \<longleftrightarrow> brief_terms a b"
proof -
  have "contract_ok u a" "contract_ok u b" using assms by (simp_all add: Task_Validate_iff)
  with brief_body_iff [OF this] show ?thesis
    by (simp add: renderBriefContent_def contract_ok_def)
qed

theorem brief_determines_contract_witness:
  "renderBriefContent (\<lambda>_. True) (prepared_task (\<lambda>_. True)) \<noteq> renderBriefContent (\<lambda>_. True) (long_task (\<lambda>_. True))"
  using brief_determines_contract [OF prepared_task_valid long_task_valid]
  by (simp add: brief_terms_def prepared_task_def long_task_def Let_def draft_task_def long_entries_def)

text \<open>
  Pinning a brief succeeds exactly when the task carrying the digest of its own rendered content
  is valid, changes the digest only, and pinning again changes nothing.
\<close>

lemma pin_brief_exact:
  "(PinBriefRevision u t = Inr t' \<longleftrightarrow>
      t' = t\<lparr>task_BriefRevisionHash := sha256_hex (brief_body u t)\<rparr> \<and> Task_Validate u t' = None) \<and>
   (Task_Validate u t = None \<longleftrightarrow> PinBriefRevision u t = Inr t)"
proof -
  have "validateBriefInputs t = None" if "Task_Validate u (t\<lparr>task_BriefRevisionHash := h\<rparr>) = None" for h
    using that by (simp add: Task_Validate_iff contract_ok_def)
  moreover have "t\<lparr>task_BriefRevisionHash := h\<rparr> = t \<longleftrightarrow> task_BriefRevisionHash t = h" for h
    by (cases t) auto
  moreover have "task_BriefRevisionHash t = sha256_hex (brief_body u t)" if "Task_Validate u t = None"
    using that by (simp add: Task_Validate_iff contract_ok_def)
  moreover have "PinBriefRevision u t = Inr t' \<longleftrightarrow> validateBriefInputs t = None \<and>
      t' = t\<lparr>task_BriefRevisionHash := sha256_hex (brief_body u t)\<rparr> \<and> Task_Validate u t' = None" for t'
    by (cases "validateBriefInputs t")
       (auto simp: PinBriefRevision_def Let_def briefRevisionDigest_def renderBriefContent_def)
  ultimately show ?thesis
    by metis
qed

text \<open>
  A brief is rendered for exactly the valid tasks, its hash is the SHA-256 digest of its content,
  and its receiver's \<open>Validate\<close> accepts it exactly when the content fits the 16 KiB bound: the
  rendering never produces invalid UTF-8, a control character or a blank text.
\<close>

lemma rendered_brief_accepted_iff_bounded:
  assumes "RenderWorkerBrief u t = Inr b"
  shows "Task_Validate u t = None \<and> brief_RevisionHash b = sha256_hex (brief_Content b) \<and>
    brief_RevisionHash b = task_BriefRevisionHash t \<and>
    (WorkerBrief_Validate b = None \<longleftrightarrow> length (brief_Content b) \<le> maximumWorkerBriefBytes)"
  using assms WorkerBrief_Validate_rendered [OF assms]
  by (auto simp: RenderWorkerBrief_Inr Task_Validate_iff contract_ok_def)

lemma prepared_brief:
  "RenderWorkerBrief u (prepared_task u) =
     Inr \<lparr>brief_Revision = 1, brief_RevisionHash = sha256_hex (brief_body u (prepared_task u)),
          brief_Content = brief_body u (prepared_task u)\<rparr>"
  by (simp add: RenderWorkerBrief_Inr prepared_task_valid) (simp add: prepared_task_def draft_task_def)

text \<open>
  C30.  The task bounds do not imply the brief bound: a valid task with twenty-six criteria and
  twenty-six constraints of 512 bytes renders a brief that its receivers refuse.
\<close>

theorem valid_task_with_refused_brief:
  "Task_Validate u (long_task u) = None \<and>
   (\<exists>b. RenderWorkerBrief u (long_task u) = Inr b \<and> WorkerBrief_Validate b \<noteq> None)"
proof -
  obtain b where b: "RenderWorkerBrief u (long_task u) = Inr b" "brief_Content b = brief_body u (long_task u)"
    using long_task_valid by (auto simp: RenderWorkerBrief_Inr)
  then show ?thesis
    using WorkerBrief_Validate_rendered [OF b(1)] long_task_content [of u] long_task_valid [of u] by simp
qed

end
