(* ===== verification/Lapsing.thy ===== *)
theory Lapsing
  imports Go_Text
begin

text \<open>
  Decisions that hold within a window of time.  A merge approval and a candidate verdict are both
  asked again and again with a later clock; the contract is that the answer depends on the clock only
  through the window the record itself states.
\<close>

definition in_window :: "int \<Rightarrow> int \<Rightarrow> time \<Rightarrow> bool" where
  "in_window opens closes now \<longleftrightarrow>
     in_utc now \<and> \<not> IsZero now \<and> opens \<le> instant now \<and> instant now < closes"

locale lapsing_decision =
  fixes holds :: "'g \<Rightarrow> time \<Rightarrow> bool"
    and opens closes :: "'g \<Rightarrow> int"
  assumes holds_in_window: "holds g t \<Longrightarrow> in_window (opens g) (closes g) t"
    and holds_steady: "holds g t \<Longrightarrow> in_window (opens g) (closes g) t' \<Longrightarrow> holds g t'"
begin

lemma window_exact: "holds g t \<Longrightarrow> holds g t' \<longleftrightarrow> in_window (opens g) (closes g) t'"
  using holds_in_window holds_steady by blast

text \<open>Once it has lapsed it never holds again, whatever the later clock reads.\<close>

lemma lapsed_for_good:
  assumes "holds g t" "in_utc t'" "\<not> IsZero t'" "instant t \<le> instant t'" "\<not> holds g t'"
    and "instant t' \<le> instant t''"
  shows "\<not> holds g t''"
proof
  assume "holds g t''"
  then have "in_window (opens g) (closes g) t''" by (rule holds_in_window)
  with holds_in_window [OF assms(1)] assms(2-4,6) have "in_window (opens g) (closes g) t'"
    by (auto simp: in_window_def)
  with assms(1,5) holds_steady show False by blast
qed

end

end
