(* ===== verification/Evidence.thy ===== *)
theory Evidence
  imports Task Lapsing
begin

text \<open>
  Delivery evidence (\<open>evidence.go\<close>) and the judgment of a candidate against it
  (\<open>candidate_judge.go\<close>): the record of facts gathered about one head, its validation, and the
  domain verdict accepted, rejected or unknown with its reason.
\<close>

section \<open>Records\<close>

datatype WorktreeCleanliness = WorktreeClean | WorktreeDirty | WorktreeUnknown | WorktreeOther string

datatype CandidateUnverifiedReason =
    CandidateReconciliationMismatch | CandidateValidationDrift | UnverifiedOther string

datatype CheckConclusion = CheckPassed | CheckFailed | CheckPending | CheckUnknown | CheckOther string

record ValidationEvidenceReceipt =
  rcpt_CheckID :: string
  rcpt_ProgramID :: string
  rcpt_HeadRevision :: string
  rcpt_Conclusion :: CheckConclusion
  rcpt_Required :: bool
  rcpt_OutputHash :: string
  rcpt_StartedAt :: time
  rcpt_CompletedAt :: time

record ForgeCheckEvidence =
  fchk_Name :: string
  fchk_Conclusion :: CheckConclusion

record ForgeEvidence =
  forge_Repository :: string
  forge_PullRequestID :: string
  forge_Branch :: string
  forge_HeadRevision :: string
  forge_CheckConclusions :: "ForgeCheckEvidence list"

record ReportArtifactEvidence =
  art_ContentHash :: string
  art_Size :: int64
  art_MediaType :: string

record DeliveryEvidenceBundle =
  ev_SchemaVersion :: int64
  ev_TaskHandle :: string
  ev_RepositoryIdentity :: string
  ev_BaseRevision :: string
  ev_HeadRevision :: string
  ev_WorktreeCleanliness :: WorktreeCleanliness
  ev_UnverifiedReason :: CandidateUnverifiedReason
  ev_ValidationReceipts :: "ValidationEvidenceReceipt list"
  ev_ForgeEvidence :: "ForgeEvidence option"
  ev_ReportArtifact :: "ReportArtifactEvidence option"
  ev_UnresolvedDecisionCount :: int64
  ev_ProducedAt :: time
  ev_ExpiresAt :: time

text \<open>A sealed bundle: the bundle, its canonical bytes and their digest.\<close>

record SealedDeliveryEvidence =
  sealed_bundle :: DeliveryEvidenceBundle
  sealed_canonical :: string
  sealed_digest :: string

text \<open>\<open>Bundle()\<close> hands out a clone; cloning copies every slice and pointee, so the value is the same.\<close>

definition Bundle :: "SealedDeliveryEvidence \<Rightarrow> DeliveryEvidenceBundle" where
  "Bundle sealed = sealed_bundle sealed"

section \<open>Validation of a bundle\<close>

fun CheckConclusion_valid :: "CheckConclusion \<Rightarrow> bool" where
  "CheckConclusion_valid (CheckOther _) = False"
| "CheckConclusion_valid _ = True"

definition media_part :: "string \<Rightarrow> bool" where
  "media_part = matches_head_body lower_digit (\<lambda>c. lower_digit c \<or> c \<in> set ''.+-'') 0 63"

definition mediaTypePattern :: "string \<Rightarrow> bool" where
  "mediaTypePattern s \<longleftrightarrow>
     (let rest = dropWhile (\<lambda>c. c \<noteq> CHR ''/'') s
      in rest \<noteq> [] \<and> media_part (takeWhile (\<lambda>c. c \<noteq> CHR ''/'') s) \<and> media_part (tl rest))"

definition seal_error :: "string \<Rightarrow> go_error" where
  "seal_error reason = PlainError (''seal delivery evidence: '' @ reason)"

definition validateValidationReceipt :: "ValidationEvidenceReceipt \<Rightarrow> time \<Rightarrow> go_error option" where
  "validateValidationReceipt receipt producedAt = fail_if
     (validateOpaqueID ''checkId'' (rcpt_CheckID receipt) \<noteq> None \<or>
      validateOpaqueID ''programId'' (rcpt_ProgramID receipt) \<noteq> None \<or>
      \<not> revisionPattern (rcpt_HeadRevision receipt) \<or> \<not> CheckConclusion_valid (rcpt_Conclusion receipt) \<or>
      validateSHA256 ''outputHash'' (rcpt_OutputHash receipt) \<noteq> None \<or>
      IsZero (rcpt_StartedAt receipt) \<or> IsZero (rcpt_CompletedAt receipt) \<or>
      \<not> in_utc (rcpt_StartedAt receipt) \<or> \<not> in_utc (rcpt_CompletedAt receipt) \<or>
      Before (rcpt_CompletedAt receipt) (rcpt_StartedAt receipt) \<or> After (rcpt_CompletedAt receipt) producedAt)
     (seal_error ''validation receipt is invalid'')"

definition forge_check_error :: "ForgeCheckEvidence \<Rightarrow> go_error option" where
  "forge_check_error check = fail_if
     (fchk_Name check = [] \<or> length (fchk_Name check) > 128 \<or> TrimSpace (fchk_Name check) \<noteq> fchk_Name check \<or>
      ContainsAny (fchk_Name check) [CHR 0x00, CHR 0x0D, CHR 0x0A] \<or>
      \<not> CheckConclusion_valid (fchk_Conclusion check))
     (seal_error ''forge check is invalid'')"

definition validateForgeEvidence :: "ForgeEvidence \<Rightarrow> go_error option" where
  "validateForgeEvidence evidence = first_error
     [fail_if
        (validateOpaqueID ''forgeRepository'' (forge_Repository evidence) \<noteq> None \<or>
         validateAuthorityReference ''pullRequestId'' (forge_PullRequestID evidence) \<noteq> None \<or>
         forge_Branch evidence = [] \<or> length (forge_Branch evidence) > 256 \<or>
         TrimSpace (forge_Branch evidence) \<noteq> forge_Branch evidence \<or>
         ContainsAny (forge_Branch evidence) [CHR 0x00, CHR 0x0D, CHR 0x0A, CHR 0x09, CHR '' ''] \<or>
         \<not> revisionPattern (forge_HeadRevision evidence) \<or>
         length (forge_CheckConclusions evidence) = 0 \<or> length (forge_CheckConclusions evidence) > 64)
        (seal_error ''forge evidence is invalid''),
      scan_unique forge_check_error fchk_Name (seal_error ''forge check is duplicated'') {}
        (forge_CheckConclusions evidence)]"

definition unverified_reason :: "DeliveryEvidenceBundle \<Rightarrow> bool" where
  "unverified_reason bundle \<longleftrightarrow>
     ev_UnverifiedReason bundle = CandidateReconciliationMismatch \<or>
     ev_UnverifiedReason bundle = CandidateValidationDrift"

definition bundle_validate :: "DeliveryEvidenceBundle \<Rightarrow> go_error option" where
  "bundle_validate bundle =
     (let validHead = revisionPattern (ev_HeadRevision bundle) \<or>
            (ev_WorktreeCleanliness bundle = WorktreeUnknown \<and> ev_HeadRevision bundle = []);
          unverified = unverified_reason bundle;
          receipts = ev_ValidationReceipts bundle
      in first_error
        [fail_if
           (ev_SchemaVersion bundle \<noteq> 1 \<or> validateOpaqueID ''taskHandle'' (ev_TaskHandle bundle) \<noteq> None \<or>
            validateOpaqueID ''repositoryIdentity'' (ev_RepositoryIdentity bundle) \<noteq> None \<or>
            \<not> revisionPattern (ev_BaseRevision bundle) \<or> \<not> validHead)
           (seal_error ''bundle identity is invalid''),
         fail_if
           (ev_WorktreeCleanliness bundle \<noteq> WorktreeClean \<and> ev_WorktreeCleanliness bundle \<noteq> WorktreeDirty \<and>
            ev_WorktreeCleanliness bundle \<noteq> WorktreeUnknown)
           (seal_error ''worktree posture is invalid''),
         fail_if (ev_UnverifiedReason bundle \<noteq> UnverifiedOther [] \<and> \<not> unverified)
           (seal_error ''unverified reason is invalid''),
         fail_if
           (unverified \<and> (ev_WorktreeCleanliness bundle \<noteq> WorktreeClean \<or>
              ev_HeadRevision bundle = ev_BaseRevision bundle \<or> length receipts \<noteq> 0 \<or>
              ev_ForgeEvidence bundle \<noteq> None \<or> ev_ReportArtifact bundle \<noteq> None))
           (seal_error ''unverified authority is contradictory''),
         fail_if
           (length receipts > 64 \<or>
            (length receipts = 0 \<and> ev_WorktreeCleanliness bundle = WorktreeClean \<and>
             ev_HeadRevision bundle \<noteq> ev_BaseRevision bundle \<and> \<not> unverified))
           (seal_error ''validation receipts are invalid''),
         scan_unique (\<lambda>r. validateValidationReceipt r (ev_ProducedAt bundle)) rcpt_CheckID
           (seal_error ''validation receipt is duplicated'') {} receipts,
         fail_if (ev_ForgeEvidence bundle \<noteq> None \<and> ev_ReportArtifact bundle \<noteq> None)
           (seal_error ''delivery artifact is ambiguous''),
         (case ev_ForgeEvidence bundle of None \<Rightarrow> None | Some forge \<Rightarrow> validateForgeEvidence forge),
         (case ev_ReportArtifact bundle of
            None \<Rightarrow> None
          | Some artifact \<Rightarrow> fail_if
              (validateSHA256 ''reportContentHash'' (art_ContentHash artifact) \<noteq> None \<or>
               sint (art_Size artifact) < 1 \<or> sint (art_Size artifact) > 2 ^ 30 \<or>
               \<not> mediaTypePattern (art_MediaType artifact))
              (seal_error ''report artifact is invalid'')),
         fail_if
           (sint (ev_UnresolvedDecisionCount bundle) < 0 \<or> sint (ev_UnresolvedDecisionCount bundle) > 1024 \<or>
            IsZero (ev_ProducedAt bundle) \<or> IsZero (ev_ExpiresAt bundle) \<or>
            \<not> in_utc (ev_ProducedAt bundle) \<or> \<not> in_utc (ev_ExpiresAt bundle) \<or>
            \<not> After (ev_ExpiresAt bundle) (ev_ProducedAt bundle))
           (seal_error ''lifetime or decision count is invalid'')])"

section \<open>The judgment\<close>

datatype CandidateOutcome = CandidateAccepted | CandidateRejected | CandidateUnknown | CandidateOutcomeOther string

datatype CandidateReason =
    CandidateEvidenceAccepted | CandidateEvidenceInvalid | CandidateEvidenceStale
  | CandidateEvidenceConflicting | CandidateWorktreeUnverified | CandidateDecisionUnresolved
  | CandidateValidationMissing | CandidateValidationFailed | CandidateValidationUnknown
  | CandidateForgeMissing | CandidateForgeFailed | CandidateForgeUnknown | CandidateReportMissing
  | CandidateReasonOther string

record CandidateJudgeInput =
  judge_Task :: Task
  judge_Evidence :: "SealedDeliveryEvidence option"
  judge_RequiredLocalChecks :: "string list"
  judge_RequiredForgeChecks :: "string list"
  judge_Now :: time

record CandidateJudgment =
  judgment_Outcome :: CandidateOutcome
  judgment_Reason :: CandidateReason

definition candidateJudgment :: "CandidateOutcome \<Rightarrow> CandidateReason \<Rightarrow> CandidateJudgment" where
  "candidateJudgment outcome reason = \<lparr>judgment_Outcome = outcome, judgment_Reason = reason\<rparr>"

fun has_duplicate_from :: "string set \<Rightarrow> string list \<Rightarrow> bool" where
  "has_duplicate_from seen [] = False"
| "has_duplicate_from seen (value # values) =
     (if value = [] then True else if value \<in> seen then True
      else has_duplicate_from (insert value seen) values)"

definition hasDuplicateNames :: "string list \<Rightarrow> bool" where
  "hasDuplicateNames values = has_duplicate_from {} values"

text \<open>A Go map filled by a loop over a slice: the last entry of a key wins.\<close>

definition last_wins :: "('a \<Rightarrow> 'k) \<Rightarrow> ('a \<Rightarrow> 'v) \<Rightarrow> 'a list \<Rightarrow> 'k \<rightharpoonup> 'v" where
  "last_wins key val xs = map_of (rev (map (\<lambda>x. (key x, val x)) xs))"

fun required_receipts ::
  "string \<Rightarrow> (string \<rightharpoonup> ValidationEvidenceReceipt) \<Rightarrow> string list \<Rightarrow> CandidateJudgment option" where
  "required_receipts head receipts [] = None"
| "required_receipts head receipts (checkID # required) =
     (case receipts checkID of
        None \<Rightarrow> Some (candidateJudgment CandidateUnknown CandidateValidationMissing)
      | Some receipt \<Rightarrow>
          (if \<not> rcpt_Required receipt \<or> rcpt_HeadRevision receipt \<noteq> head
           then Some (candidateJudgment CandidateUnknown CandidateValidationMissing)
           else (case rcpt_Conclusion receipt of
                   CheckPassed \<Rightarrow> required_receipts head receipts required
                 | CheckFailed \<Rightarrow> Some (candidateJudgment CandidateRejected CandidateValidationFailed)
                 | CheckPending \<Rightarrow> Some (candidateJudgment CandidateUnknown CandidateValidationUnknown)
                 | CheckUnknown \<Rightarrow> Some (candidateJudgment CandidateUnknown CandidateValidationUnknown)
                 | CheckOther _ \<Rightarrow> Some (candidateJudgment CandidateUnknown CandidateEvidenceInvalid))))"

definition requiredValidationJudgment ::
  "DeliveryEvidenceBundle \<Rightarrow> string list \<Rightarrow> CandidateJudgment option" where
  "requiredValidationJudgment bundle required =
     (if required = [] \<or> hasDuplicateNames required
      then Some (candidateJudgment CandidateUnknown CandidateValidationMissing)
      else required_receipts (ev_HeadRevision bundle)
             (last_wins rcpt_CheckID id (ev_ValidationReceipts bundle)) required)"

fun required_checks :: "(string \<rightharpoonup> CheckConclusion) \<Rightarrow> string list \<Rightarrow> CandidateJudgment" where
  "required_checks checks [] = candidateJudgment CandidateAccepted CandidateEvidenceAccepted"
| "required_checks checks (required # requireds) =
     (case checks required of
        None \<Rightarrow> candidateJudgment CandidateUnknown CandidateForgeMissing
      | Some CheckPassed \<Rightarrow> required_checks checks requireds
      | Some CheckFailed \<Rightarrow> candidateJudgment CandidateRejected CandidateForgeFailed
      | Some CheckPending \<Rightarrow> candidateJudgment CandidateUnknown CandidateForgeUnknown
      | Some CheckUnknown \<Rightarrow> candidateJudgment CandidateUnknown CandidateForgeUnknown
      | Some (CheckOther _) \<Rightarrow> candidateJudgment CandidateUnknown CandidateEvidenceInvalid)"

definition judgeShipCandidate :: "CandidateJudgeInput \<Rightarrow> DeliveryEvidenceBundle \<Rightarrow> CandidateJudgment" where
  "judgeShipCandidate input bundle =
     (case ev_ForgeEvidence bundle of
        None \<Rightarrow> candidateJudgment CandidateUnknown CandidateForgeMissing
      | Some forge \<Rightarrow>
          (if judge_RequiredForgeChecks input = [] \<or> hasDuplicateNames (judge_RequiredForgeChecks input)
           then candidateJudgment CandidateUnknown CandidateForgeMissing
           else if forge_Repository forge \<noteq> task_RepositoryID (judge_Task input) \<or>
                   forge_HeadRevision forge \<noteq> ev_HeadRevision bundle
           then candidateJudgment CandidateUnknown CandidateEvidenceConflicting
           else required_checks (last_wins fchk_Name fchk_Conclusion (forge_CheckConclusions forge))
                  (judge_RequiredForgeChecks input)))"

definition JudgeCandidate :: "print_table \<Rightarrow> CandidateJudgeInput \<Rightarrow> CandidateJudgment" where
  "JudgeCandidate u input =
     (case judge_Evidence input of
        None \<Rightarrow> candidateJudgment CandidateUnknown CandidateEvidenceInvalid
      | Some evidence \<Rightarrow>
          (if Task_Validate u (judge_Task input) \<noteq> None \<or> IsZero (judge_Now input) \<or> \<not> in_utc (judge_Now input)
           then candidateJudgment CandidateUnknown CandidateEvidenceInvalid
           else
             (let bundle = Bundle evidence; task = judge_Task input in
              if ev_TaskHandle bundle \<noteq> task_Handle task \<or> ev_RepositoryIdentity bundle \<noteq> task_RepositoryID task \<or>
                 ev_BaseRevision bundle \<noteq> task_BaseRevision task \<or> After (ev_ProducedAt bundle) (judge_Now input)
              then candidateJudgment CandidateUnknown CandidateEvidenceConflicting
              else if \<not> Before (judge_Now input) (ev_ExpiresAt bundle)
              then candidateJudgment CandidateUnknown CandidateEvidenceStale
              else if ev_UnverifiedReason bundle \<noteq> UnverifiedOther []
              then candidateJudgment CandidateUnknown CandidateWorktreeUnverified
              else if ev_WorktreeCleanliness bundle \<noteq> WorktreeClean
              then candidateJudgment CandidateUnknown CandidateWorktreeUnverified
              else if ev_HeadRevision bundle = task_BaseRevision task
              then candidateJudgment CandidateUnknown CandidateWorktreeUnverified
              else if ev_UnresolvedDecisionCount bundle \<noteq> 0
              then candidateJudgment CandidateUnknown CandidateDecisionUnresolved
              else
                (case requiredValidationJudgment bundle (judge_RequiredLocalChecks input) of
                   Some judgment \<Rightarrow> judgment
                 | None \<Rightarrow>
                     (if task_Shape task = ShapeShip then judgeShipCandidate input bundle
                      else if task_Shape task = ShapeScout
                      then (if ev_ReportArtifact bundle = None
                            then candidateJudgment CandidateUnknown CandidateReportMissing
                            else candidateJudgment CandidateAccepted CandidateEvidenceAccepted)
                      else candidateJudgment CandidateUnknown CandidateEvidenceInvalid)))))"

section \<open>Lookups in a validated bundle\<close>

lemma last_wins_distinct:
  assumes "distinct (map key xs)"
  shows "last_wins key val xs k = Some v \<longleftrightarrow> (\<exists>x\<in>set xs. key x = k \<and> val x = v)"
proof -
  have "distinct (map fst (rev (map (\<lambda>x. (key x, val x)) xs)))"
    using assms by (simp add: rev_map [symmetric] comp_def)
  then show ?thesis
    unfolding last_wins_def by (subst map_of_eq_Some_iff) auto
qed

lemma has_duplicate_from_iff:
  "has_duplicate_from seen vs \<longleftrightarrow> \<not> ([] \<notin> set vs \<and> distinct vs \<and> set vs \<inter> seen = {})"
  by (induction vs arbitrary: seen) auto

lemma hasDuplicateNames_iff: "hasDuplicateNames vs \<longleftrightarrow> \<not> ([] \<notin> set vs \<and> distinct vs)"
  by (simp add: hasDuplicateNames_def has_duplicate_from_iff)

lemma required_receipts_None:
  "required_receipts head m ids = None \<longleftrightarrow>
     (\<forall>i\<in>set ids. \<exists>r. m i = Some r \<and> rcpt_Required r \<and> rcpt_HeadRevision r = head \<and> rcpt_Conclusion r = CheckPassed)"
  by (induction ids) (auto split: option.splits CheckConclusion.splits)

lemma required_receipts_not_accepted:
  "required_receipts head m ids = Some j \<Longrightarrow> judgment_Outcome j \<noteq> CandidateAccepted"
  by (induction ids) (auto simp: candidateJudgment_def split: option.splits CheckConclusion.splits if_splits)

lemma required_receipts_rejected:
  "required_receipts head m ids = Some j \<Longrightarrow> judgment_Outcome j = CandidateRejected \<Longrightarrow>
     \<exists>i\<in>set ids. \<exists>r. m i = Some r \<and> rcpt_Required r \<and> rcpt_HeadRevision r = head \<and> rcpt_Conclusion r = CheckFailed"
  by (induction ids) (auto simp: candidateJudgment_def split: option.splits CheckConclusion.splits if_splits)

lemma required_checks_accepted:
  "judgment_Outcome (required_checks m ids) = CandidateAccepted \<longleftrightarrow> (\<forall>i\<in>set ids. m i = Some CheckPassed)"
  by (induction ids) (auto simp: candidateJudgment_def split: option.splits CheckConclusion.splits)

lemma required_checks_rejected:
  "judgment_Outcome (required_checks m ids) = CandidateRejected \<Longrightarrow> \<exists>i\<in>set ids. m i = Some CheckFailed"
  by (induction ids) (auto simp: candidateJudgment_def split: option.splits CheckConclusion.splits)

lemma bundle_validate_parts:
  assumes "bundle_validate b = None"
  shows "distinct (map rcpt_CheckID (ev_ValidationReceipts b))"
    and "ev_ForgeEvidence b = Some f \<Longrightarrow> distinct (map fchk_Name (forge_CheckConclusions f))"
    and "instant (ev_ProducedAt b) < instant (ev_ExpiresAt b)"
  using assms by (auto simp: bundle_validate_def Let_def validateForgeEvidence_def After_def)

text \<open>
  The specification of an accepted candidate: what the facts have to say, without the order in which
  the code asks.
\<close>

definition evidence_current :: "print_table \<Rightarrow> CandidateJudgeInput \<Rightarrow> DeliveryEvidenceBundle \<Rightarrow> bool" where
  "evidence_current u input b \<longleftrightarrow>
     Task_Validate u (judge_Task input) = None \<and> \<not> IsZero (judge_Now input) \<and> in_utc (judge_Now input) \<and>
     ev_TaskHandle b = task_Handle (judge_Task input) \<and>
     ev_RepositoryIdentity b = task_RepositoryID (judge_Task input) \<and>
     ev_BaseRevision b = task_BaseRevision (judge_Task input) \<and>
     instant (ev_ProducedAt b) \<le> instant (judge_Now input) \<and> instant (judge_Now input) < instant (ev_ExpiresAt b) \<and>
     ev_UnverifiedReason b = UnverifiedOther [] \<and> ev_WorktreeCleanliness b = WorktreeClean \<and>
     ev_HeadRevision b \<noteq> task_BaseRevision (judge_Task input) \<and> ev_UnresolvedDecisionCount b = 0"

definition local_check :: "DeliveryEvidenceBundle \<Rightarrow> CheckConclusion \<Rightarrow> string \<Rightarrow> bool" where
  "local_check b c i \<longleftrightarrow>
     (\<exists>r\<in>set (ev_ValidationReceipts b). rcpt_CheckID r = i \<and> rcpt_Required r \<and>
        rcpt_HeadRevision r = ev_HeadRevision b \<and> rcpt_Conclusion r = c)"

definition forge_check :: "CandidateJudgeInput \<Rightarrow> DeliveryEvidenceBundle \<Rightarrow> CheckConclusion \<Rightarrow> string \<Rightarrow> bool" where
  "forge_check input b c i \<longleftrightarrow>
     (\<exists>f. ev_ForgeEvidence b = Some f \<and> forge_Repository f = task_RepositoryID (judge_Task input) \<and>
        forge_HeadRevision f = ev_HeadRevision b \<and>
        (\<exists>k\<in>set (forge_CheckConclusions f). fchk_Name k = i \<and> fchk_Conclusion k = c))"

definition required_names :: "string list \<Rightarrow> bool" where
  "required_names ids \<longleftrightarrow> ids \<noteq> [] \<and> [] \<notin> set ids \<and> distinct ids"

definition artifact_delivered :: "CandidateJudgeInput \<Rightarrow> DeliveryEvidenceBundle \<Rightarrow> bool" where
  "artifact_delivered input b \<longleftrightarrow>
     (if task_Shape (judge_Task input) = ShapeShip
      then required_names (judge_RequiredForgeChecks input) \<and>
           list_all (forge_check input b CheckPassed) (judge_RequiredForgeChecks input)
      else ev_ReportArtifact b \<noteq> None)"

lemma requiredValidationJudgment_None:
  assumes "bundle_validate b = None"
  shows "requiredValidationJudgment b ids = None \<longleftrightarrow> required_names ids \<and> list_all (local_check b CheckPassed) ids"
  using bundle_validate_parts(1) [OF assms]
  by (auto simp: requiredValidationJudgment_def hasDuplicateNames_iff required_names_def required_receipts_None
      last_wins_distinct list_all_iff local_check_def)

lemma requiredValidationJudgment_Some:
  assumes "bundle_validate b = None" "requiredValidationJudgment b ids = Some j"
  shows "judgment_Outcome j \<noteq> CandidateAccepted"
    and "judgment_Outcome j = CandidateRejected \<Longrightarrow> \<exists>i\<in>set ids. local_check b CheckFailed i"
proof -
  note s = assms(2) [unfolded requiredValidationJudgment_def]
  show "judgment_Outcome j \<noteq> CandidateAccepted"
    using s required_receipts_not_accepted by (auto simp: candidateJudgment_def split: if_splits)
  show "\<exists>i\<in>set ids. local_check b CheckFailed i" if rej: "judgment_Outcome j = CandidateRejected"
  proof -
    have "required_receipts (ev_HeadRevision b) (last_wins rcpt_CheckID id (ev_ValidationReceipts b)) ids = Some j"
      using s rej by (auto simp: candidateJudgment_def split: if_splits)
    from required_receipts_rejected [OF this rej] show ?thesis
      using bundle_validate_parts(1) [OF assms(1)] by (auto simp: last_wins_distinct local_check_def)
  qed
qed

lemma judgeShipCandidate_accepted:
  assumes "bundle_validate b = None"
  shows "judgment_Outcome (judgeShipCandidate input b) = CandidateAccepted \<longleftrightarrow>
    required_names (judge_RequiredForgeChecks input) \<and>
    list_all (forge_check input b CheckPassed) (judge_RequiredForgeChecks input)"
proof (cases "ev_ForgeEvidence b")
  case (Some f)
  let ?m = "last_wins fchk_Name fchk_Conclusion (forge_CheckConclusions f)"
    and ?ok = "forge_Repository f = task_RepositoryID (judge_Task input) \<and> forge_HeadRevision f = ev_HeadRevision b"
  have "judgment_Outcome (judgeShipCandidate input b) = CandidateAccepted \<longleftrightarrow>
      required_names (judge_RequiredForgeChecks input) \<and> ?ok \<and>
      judgment_Outcome (required_checks ?m (judge_RequiredForgeChecks input)) = CandidateAccepted"
    using Some by (auto simp: judgeShipCandidate_def hasDuplicateNames_iff required_names_def candidateJudgment_def)
  then show ?thesis
    unfolding required_checks_accepted last_wins_distinct [OF bundle_validate_parts(2) [OF assms Some]]
    using Some by (auto simp: list_all_iff forge_check_def required_names_def dest: hd_in_set)
qed (auto simp: judgeShipCandidate_def candidateJudgment_def required_names_def forge_check_def list_all_iff
      dest: hd_in_set)

lemma judgeShipCandidate_rejected:
  assumes "bundle_validate b = None" "judgment_Outcome (judgeShipCandidate input b) = CandidateRejected"
  shows "\<exists>i\<in>set (judge_RequiredForgeChecks input). forge_check input b CheckFailed i"
proof (cases "ev_ForgeEvidence b")
  case (Some f)
  then have "judgment_Outcome (required_checks (last_wins fchk_Name fchk_Conclusion (forge_CheckConclusions f))
      (judge_RequiredForgeChecks input)) = CandidateRejected"
    "forge_Repository f = task_RepositoryID (judge_Task input)" "forge_HeadRevision f = ev_HeadRevision b"
    using assms(2) by (auto simp: judgeShipCandidate_def candidateJudgment_def split: if_splits)
  with Some show ?thesis
    using required_checks_rejected bundle_validate_parts(2) [OF assms(1) Some]
    by (fastforce simp: forge_check_def last_wins_distinct)
qed (use assms(2) in \<open>auto simp: judgeShipCandidate_def candidateJudgment_def\<close>)

text \<open>The judgment of current evidence, and the refusal of everything else.\<close>

lemma JudgeCandidate_current:
  assumes "judge_Evidence input = Some e" "evidence_current u input (sealed_bundle e)"
  shows "JudgeCandidate u input =
    (case requiredValidationJudgment (sealed_bundle e) (judge_RequiredLocalChecks input) of
       Some judgment \<Rightarrow> judgment
     | None \<Rightarrow>
         (if task_Shape (judge_Task input) = ShapeShip then judgeShipCandidate input (sealed_bundle e)
          else if ev_ReportArtifact (sealed_bundle e) = None
          then candidateJudgment CandidateUnknown CandidateReportMissing
          else candidateJudgment CandidateAccepted CandidateEvidenceAccepted))"
proof -
  have "TaskShape_valid (task_Shape (judge_Task input))"
    using assms(2) ValidForShape_valid by (auto simp: evidence_current_def Task_Validate_iff contract_ok_def)
  then show ?thesis
    using assms
    by (auto simp: JudgeCandidate_def evidence_current_def Bundle_def Let_def time_defs TaskShape_valid_def
        split: option.split)
qed

lemma JudgeCandidate_not_current:
  assumes "judge_Evidence input = Some e" "\<not> evidence_current u input (sealed_bundle e)"
  shows "judgment_Outcome (JudgeCandidate u input) = CandidateUnknown"
  using assms unfolding JudgeCandidate_def evidence_current_def Bundle_def Let_def time_defs
  by (auto simp: candidateJudgment_def split: if_split)

lemma JudgeCandidate_accepts:
  assumes "judge_Evidence input = Some e" "bundle_validate (sealed_bundle e) = None"
  shows "judgment_Outcome (JudgeCandidate u input) = CandidateAccepted \<longleftrightarrow>
    evidence_current u input (sealed_bundle e) \<and>
    required_names (judge_RequiredLocalChecks input) \<and>
    list_all (local_check (sealed_bundle e) CheckPassed) (judge_RequiredLocalChecks input) \<and>
    artifact_delivered input (sealed_bundle e)"
proof (cases "evidence_current u input (sealed_bundle e)")
  case True
  show ?thesis
  proof (cases "requiredValidationJudgment (sealed_bundle e) (judge_RequiredLocalChecks input)")
    case None
    with True requiredValidationJudgment_None [OF assms(2), of "judge_RequiredLocalChecks input"]
      judgeShipCandidate_accepted [OF assms(2), of input] show ?thesis
      by (simp add: JudgeCandidate_current [OF assms(1)] artifact_delivered_def) (auto simp: candidateJudgment_def)
  next
    case (Some j)
    with True requiredValidationJudgment_Some(1) [OF assms(2) Some]
      requiredValidationJudgment_None [OF assms(2), of "judge_RequiredLocalChecks input"] show ?thesis
      by (auto simp: JudgeCandidate_current [OF assms(1)])
  qed
next
  case False
  with JudgeCandidate_not_current [OF assms(1) False] show ?thesis by simp
qed

lemma JudgeCandidate_rejects:
  assumes "judge_Evidence input = Some e" "bundle_validate (sealed_bundle e) = None"
    and "judgment_Outcome (JudgeCandidate u input) = CandidateRejected"
  shows "evidence_current u input (sealed_bundle e)"
    and "(\<exists>i\<in>set (judge_RequiredLocalChecks input). local_check (sealed_bundle e) CheckFailed i) \<or>
      (\<exists>i\<in>set (judge_RequiredForgeChecks input). forge_check input (sealed_bundle e) CheckFailed i)"
proof -
  show cur: "evidence_current u input (sealed_bundle e)"
    using JudgeCandidate_not_current [OF assms(1)] assms(3) by fastforce
  show "(\<exists>i\<in>set (judge_RequiredLocalChecks input). local_check (sealed_bundle e) CheckFailed i) \<or>
      (\<exists>i\<in>set (judge_RequiredForgeChecks input). forge_check input (sealed_bundle e) CheckFailed i)"
  proof (cases "requiredValidationJudgment (sealed_bundle e) (judge_RequiredLocalChecks input)")
    case None
    then have "judgment_Outcome (judgeShipCandidate input (sealed_bundle e)) = CandidateRejected"
      using assms(3) cur
      by (auto simp: JudgeCandidate_current [OF assms(1)] candidateJudgment_def split: if_splits)
    then show ?thesis using judgeShipCandidate_rejected [OF assms(2)] by blast
  next
    case (Some j)
    then show ?thesis
      using assms(3) cur requiredValidationJudgment_Some(2) [OF assms(2) Some]
      by (simp add: JudgeCandidate_current [OF assms(1)])
  qed
qed

section \<open>The clock\<close>

definition evidence_opens :: "CandidateJudgeInput \<Rightarrow> int" where
  "evidence_opens input = (case judge_Evidence input of Some e \<Rightarrow> instant (ev_ProducedAt (sealed_bundle e)) | None \<Rightarrow> 0)"

definition evidence_closes :: "CandidateJudgeInput \<Rightarrow> int" where
  "evidence_closes input = (case judge_Evidence input of Some e \<Rightarrow> instant (ev_ExpiresAt (sealed_bundle e)) | None \<Rightarrow> 0)"

lemma evidence_current_now:
  assumes "evidence_current u input b"
  shows "evidence_current u (input\<lparr>judge_Now := now\<rparr>) b \<longleftrightarrow>
    in_window (instant (ev_ProducedAt b)) (instant (ev_ExpiresAt b)) now"
  using assms by (auto simp: evidence_current_def in_window_def)

lemma evidence_current_window:
  "evidence_current u input b \<Longrightarrow> in_window (instant (ev_ProducedAt b)) (instant (ev_ExpiresAt b)) (judge_Now input)"
  by (simp add: evidence_current_def in_window_def)

lemma JudgeCandidate_now:
  assumes "judge_Evidence input = Some e" "evidence_current u input (sealed_bundle e)"
    and "in_window (evidence_opens input) (evidence_closes input) now"
  shows "JudgeCandidate u (input\<lparr>judge_Now := now\<rparr>) = JudgeCandidate u input"
proof -
  have ship: "judgeShipCandidate (input\<lparr>judge_Now := now\<rparr>) b = judgeShipCandidate input b" for b
    by (cases "ev_ForgeEvidence b") (simp_all add: judgeShipCandidate_def)
  have cur: "evidence_current u (input\<lparr>judge_Now := now\<rparr>) (sealed_bundle e)"
    using assms by (simp add: evidence_current_now evidence_opens_def evidence_closes_def)
  show ?thesis
    using JudgeCandidate_current [OF assms(1,2)] JudgeCandidate_current [OF _ cur] assms(1)
    by (simp add: ship split: option.split)
qed

lemma JudgeCandidate_accepted_current:
  assumes "judgment_Outcome (JudgeCandidate u input) = CandidateAccepted"
  obtains e where "judge_Evidence input = Some e" "evidence_current u input (sealed_bundle e)"
proof (cases "judge_Evidence input")
  case None
  with assms show thesis by (simp add: JudgeCandidate_def candidateJudgment_def)
next
  case (Some e)
  with assms that JudgeCandidate_not_current [OF Some] show thesis by fastforce
qed

interpretation verdict: lapsing_decision
  "\<lambda>(u, input) t. judgment_Outcome (JudgeCandidate u (input\<lparr>judge_Now := t\<rparr>)) = CandidateAccepted"
  "\<lambda>(u, input). evidence_opens input" "\<lambda>(u, input). evidence_closes input"
proof (unfold_locales, goal_cases)
  case (1 g t)
  obtain u input where g: "g = (u, input)" by force
  with 1 obtain e where "judge_Evidence input = Some e" "evidence_current u (input\<lparr>judge_Now := t\<rparr>) (sealed_bundle e)"
    using JudgeCandidate_accepted_current [of u "input\<lparr>judge_Now := t\<rparr>"] by auto
  with evidence_current_window [OF this(2)] show ?case
    by (simp add: g evidence_opens_def evidence_closes_def)
next
  case (2 g t t')
  obtain u input where g: "g = (u, input)" by force
  with 2(1) obtain e where e: "judge_Evidence (input\<lparr>judge_Now := t\<rparr>) = Some e"
      "evidence_current u (input\<lparr>judge_Now := t\<rparr>) (sealed_bundle e)"
    using JudgeCandidate_accepted_current [of u "input\<lparr>judge_Now := t\<rparr>"] by auto
  have "in_window (evidence_opens (input\<lparr>judge_Now := t\<rparr>)) (evidence_closes (input\<lparr>judge_Now := t\<rparr>)) t'"
    using 2(2) by (simp add: g evidence_opens_def evidence_closes_def)
  from JudgeCandidate_now [OF e this] 2(1) show ?case by (simp add: g)
qed

section \<open>Which reason goes with which outcome\<close>

fun reason_outcome :: "CandidateReason \<Rightarrow> CandidateOutcome" where
  "reason_outcome CandidateEvidenceAccepted = CandidateAccepted"
| "reason_outcome CandidateValidationFailed = CandidateRejected"
| "reason_outcome CandidateForgeFailed = CandidateRejected"
| "reason_outcome _ = CandidateUnknown"

fun known_reason :: "CandidateReason \<Rightarrow> bool" where
  "known_reason (CandidateReasonOther _) = False"
| "known_reason _ = True"

definition consistent :: "CandidateJudgment \<Rightarrow> bool" where
  "consistent j \<longleftrightarrow> known_reason (judgment_Reason j) \<and> judgment_Outcome j = reason_outcome (judgment_Reason j)"

lemma consistent_judgment [simp]: "consistent (candidateJudgment o' r) \<longleftrightarrow> known_reason r \<and> o' = reason_outcome r"
  by (simp add: consistent_def candidateJudgment_def)

lemma required_receipts_consistent: "required_receipts head m ids = Some j \<Longrightarrow> consistent j"
  by (induction ids) (auto split: option.splits CheckConclusion.splits if_splits)

lemma requiredValidationJudgment_consistent: "requiredValidationJudgment b ids = Some j \<Longrightarrow> consistent j"
  by (auto simp: requiredValidationJudgment_def dest: required_receipts_consistent split: if_splits)

lemma required_checks_consistent: "consistent (required_checks m ids)"
  by (induction ids) (auto split: option.splits CheckConclusion.splits)

lemma JudgeCandidate_consistent: "consistent (JudgeCandidate u input)"
proof -
  have ship: "consistent (judgeShipCandidate input b)" for b
    by (auto simp: judgeShipCandidate_def required_checks_consistent split: option.split)
  show ?thesis
    using requiredValidationJudgment_consistent
    by (auto simp: JudgeCandidate_def Let_def ship split: option.split)
qed

section \<open>A concrete judgment\<close>

definition sample_receipt :: "CheckConclusion \<Rightarrow> ValidationEvidenceReceipt" where
  "sample_receipt c =
     \<lparr>rcpt_CheckID = ''unit-tests'', rcpt_ProgramID = ''go-test'',
      rcpt_HeadRevision = ''abcdef6789012345678901234567890123456789'', rcpt_Conclusion = c, rcpt_Required = True,
      rcpt_OutputHash = sha256_hex [], rcpt_StartedAt = utc_at 2, rcpt_CompletedAt = utc_at 3\<rparr>"

definition sample_bundle :: "CheckConclusion \<Rightarrow> DeliveryEvidenceBundle" where
  "sample_bundle c =
     \<lparr>ev_SchemaVersion = 1, ev_TaskHandle = ''task-1'', ev_RepositoryIdentity = ''repo-1'',
      ev_BaseRevision = ''0123456789012345678901234567890123456789'',
      ev_HeadRevision = ''abcdef6789012345678901234567890123456789'', ev_WorktreeCleanliness = WorktreeClean,
      ev_UnverifiedReason = UnverifiedOther [], ev_ValidationReceipts = [sample_receipt c],
      ev_ForgeEvidence = Some \<lparr>forge_Repository = ''repo-1'', forge_PullRequestID = ''pull-17'', forge_Branch = ''work'',
        forge_HeadRevision = ''abcdef6789012345678901234567890123456789'',
        forge_CheckConclusions = [\<lparr>fchk_Name = ''ci'', fchk_Conclusion = CheckPassed\<rparr>]\<rparr>,
      ev_ReportArtifact = None, ev_UnresolvedDecisionCount = 0, ev_ProducedAt = utc_at 4, ev_ExpiresAt = utc_at 100\<rparr>"

definition sample_judge :: "print_table \<Rightarrow> CheckConclusion \<Rightarrow> CandidateJudgeInput" where
  "sample_judge u c =
     \<lparr>judge_Task = task_in u TaskValidating,
      judge_Evidence = Some \<lparr>sealed_bundle = sample_bundle c, sealed_canonical = [], sealed_digest = []\<rparr>,
      judge_RequiredLocalChecks = [''unit-tests''], judge_RequiredForgeChecks = [''ci''], judge_Now = utc_at 5\<rparr>"

lemma evidence_strings:
  "opaqueIDPattern ''unit-tests''" "opaqueIDPattern ''go-test''" "authorityPattern ''pull-17''"
  "revisionPattern ''abcdef6789012345678901234567890123456789''"
  "TrimSpace ''work'' = ''work''" "TrimSpace ''ci'' = ''ci''"
  by code_simp+

lemma sample_bundle_valid:
  assumes "CheckConclusion_valid c"
  shows "bundle_validate (sample_bundle c) = None"
proof -
  have "validateValidationReceipt (sample_receipt c) (utc_at 4) = None"
    using assms by (simp add: validateValidationReceipt_def sample_receipt_def field_check_defs evidence_strings time_defs)
  then show ?thesis
    by (simp add: bundle_validate_def sample_bundle_def Let_def unverified_reason_def field_check_defs draft_strings
        evidence_strings validateForgeEvidence_def forge_check_error_def ContainsAny_def time_defs)
qed

lemma sample_judge_current: "evidence_current u (sample_judge u c) (sample_bundle c)"
  by (simp add: evidence_current_def sample_judge_def task_in_valid time_defs) (simp add: sample_bundle_def)

section \<open>Properties\<close>

text \<open>
  C18.  A candidate is accepted exactly when the sealed evidence is current for the task (same task,
  repository and base, within its lifetime, verified clean, head moved, no open decision), every
  required local check passed on that head, and the artifact was delivered: for a ship task every
  required forge check passed on the same head, for a scout task a report exists.
\<close>

theorem candidate_accepted_iff:
  assumes "judge_Evidence input = Some e" "bundle_validate (sealed_bundle e) = None"
  shows "judgment_Outcome (JudgeCandidate u input) = CandidateAccepted \<longleftrightarrow>
    evidence_current u input (sealed_bundle e) \<and>
    required_names (judge_RequiredLocalChecks input) \<and>
    list_all (local_check (sealed_bundle e) CheckPassed) (judge_RequiredLocalChecks input) \<and>
    artifact_delivered input (sealed_bundle e)"
  by (rule JudgeCandidate_accepts [OF assms])

lemma sample_judge_complete:
  "required_names (judge_RequiredLocalChecks (sample_judge u c))"
  "list_all (local_check (sample_bundle c) c) (judge_RequiredLocalChecks (sample_judge u c))"
  "artifact_delivered (sample_judge u c) (sample_bundle c)"
  by (simp_all add: required_names_def local_check_def artifact_delivered_def forge_check_def sample_judge_def
      sample_bundle_def sample_receipt_def)

theorem candidate_accepted_iff_witness:
  "judgment_Outcome (JudgeCandidate (\<lambda>_. True) (sample_judge (\<lambda>_. True) CheckPassed)) = CandidateAccepted"
proof -
  have "judge_Evidence (sample_judge (\<lambda>_. True) CheckPassed) =
      Some \<lparr>sealed_bundle = sample_bundle CheckPassed, sealed_canonical = [], sealed_digest = []\<rparr>"
    by (simp add: sample_judge_def)
  from candidate_accepted_iff [OF this, of "\<lambda>_. True"] show ?thesis
    using sample_judge_current sample_bundle_valid sample_judge_complete by simp
qed

text \<open>
  A candidate is rejected only on current evidence in which a required check, local or forge,
  failed on the candidate's own head: missing, pending, stale or conflicting facts never reject.
\<close>

lemma candidate_rejected_only_on_failure:
  assumes "judge_Evidence input = Some e" "bundle_validate (sealed_bundle e) = None"
    and "judgment_Outcome (JudgeCandidate u input) = CandidateRejected"
  shows "evidence_current u input (sealed_bundle e) \<and>
    ((\<exists>i\<in>set (judge_RequiredLocalChecks input). local_check (sealed_bundle e) CheckFailed i) \<or>
     (\<exists>i\<in>set (judge_RequiredForgeChecks input). forge_check input (sealed_bundle e) CheckFailed i))"
  using JudgeCandidate_rejects [OF assms] by blast

lemma sample_judge_failed:
  "JudgeCandidate u (sample_judge u CheckFailed) = candidateJudgment CandidateRejected CandidateValidationFailed"
  using sample_judge_current [of u CheckFailed]
  by (simp add: JudgeCandidate_current sample_judge_def requiredValidationJudgment_def hasDuplicateNames_iff)
     (simp add: sample_bundle_def sample_receipt_def last_wins_def)

text \<open>
  Reason and outcome always agree and stay in the closed vocabulary: acceptance has one reason,
  rejection the two failed-check reasons, and every other reason is the outcome unknown.
\<close>

lemma judgment_reason_decides_outcome:
  "known_reason (judgment_Reason (JudgeCandidate u input)) \<and>
   judgment_Outcome (JudgeCandidate u input) = reason_outcome (judgment_Reason (JudgeCandidate u input))"
  using JudgeCandidate_consistent [of u input] by (simp add: consistent_def)

text \<open>
  C29.  An acceptance is good for the evidence's lifetime and no longer: once a candidate is accepted,
  the same question asked at any other time is answered accepted exactly when that time is a UTC time
  from the production of the evidence until before its expiry.
\<close>

theorem acceptance_lifetime:
  assumes "judgment_Outcome (JudgeCandidate u input) = CandidateAccepted"
  shows "judgment_Outcome (JudgeCandidate u (input\<lparr>judge_Now := now\<rparr>)) = CandidateAccepted \<longleftrightarrow>
    in_window (evidence_opens input) (evidence_closes input) now"
  using verdict.window_exact [of "(u, input)" "judge_Now input" now] assms by simp

theorem acceptance_lifetime_witness:
  "judgment_Outcome (JudgeCandidate (\<lambda>_. True) ((sample_judge (\<lambda>_. True) CheckPassed)\<lparr>judge_Now := utc_at 100\<rparr>))
     \<noteq> CandidateAccepted"
proof -
  have "judgment_Outcome (JudgeCandidate (\<lambda>_. True) (sample_judge (\<lambda>_. True) CheckPassed)) = CandidateAccepted"
    using JudgeCandidate_accepts [of "sample_judge (\<lambda>_. True) CheckPassed" _ "\<lambda>_. True"]
      sample_judge_current sample_bundle_valid sample_judge_complete
    by (simp add: sample_judge_def)
  from acceptance_lifetime [OF this, of "utc_at 100"] show ?thesis
    by (simp add: in_window_def evidence_closes_def sample_judge_def sample_bundle_def)
qed

end
