(* ===== verification/Delivery.thy ===== *)
theory Delivery
  imports Task Lapsing
begin

text \<open>
  The decisions at the two ends of a task: a backlog item that may become work (\<open>backlog.go\<close>), the
  authorization of a merge by a human approval (\<open>merge_approval.go\<close>) and the proof that work
  landed (\<open>landed_proof.go\<close>).
\<close>

section \<open>Backlog items\<close>

datatype BacklogPriority =
    BacklogPriorityLow | BacklogPriorityNormal | BacklogPriorityHigh | BacklogPriorityOther string

datatype BacklogReadiness =
    BacklogNeedsRefinement | BacklogReady | BacklogPromoted | BacklogDropped | BacklogReadinessOther string

fun BacklogPriority_valid :: "BacklogPriority \<Rightarrow> bool" where
  "BacklogPriority_valid (BacklogPriorityOther _) = False"
| "BacklogPriority_valid _ = True"

fun BacklogReadiness_valid :: "BacklogReadiness \<Rightarrow> bool" where
  "BacklogReadiness_valid (BacklogReadinessOther _) = False"
| "BacklogReadiness_valid _ = True"

fun BacklogReadiness_string :: "BacklogReadiness \<Rightarrow> string" where
  "BacklogReadiness_string BacklogNeedsRefinement = ''needs_refinement''"
| "BacklogReadiness_string BacklogReady = ''ready''"
| "BacklogReadiness_string BacklogPromoted = ''promoted''"
| "BacklogReadiness_string BacklogDropped = ''dropped''"
| "BacklogReadiness_string (BacklogReadinessOther s) = s"

record BacklogItem =
  item_SchemaVersion :: int64
  item_Handle :: string
  item_RepositoryID :: string
  item_Shape :: TaskShape
  item_RequestedOutcome :: string
  item_DependsOn :: "string list"
  item_Priority :: BacklogPriority
  item_Readiness :: BacklogReadiness
  item_SourceConversationRef :: string
  item_CreatedAt :: time
  item_UpdatedAt :: time

definition maxRequestedOutcomeBytes :: nat where
  "maxRequestedOutcomeBytes = 8192"

definition ValidateBacklogHandle :: "string \<Rightarrow> go_error option" where
  "ValidateBacklogHandle value = validateOpaqueID ''backlogHandle'' value"

definition BacklogItem_Validate :: "BacklogItem \<Rightarrow> go_error option" where
  "BacklogItem_Validate item = first_error
     [fail_if (item_SchemaVersion item \<noteq> 1) (ValidationError ''schemaVersion'' ''must equal 1''),
      ValidateBacklogHandle (item_Handle item),
      ValidateRepositoryID (item_RepositoryID item),
      fail_if (\<not> TaskShape_valid (item_Shape item)) (ValidationError ''shape'' ''must be a closed task shape''),
      fail_if (\<not> BacklogPriority_valid (item_Priority item)) (ValidationError ''priority'' ''must be a closed priority''),
      fail_if (\<not> BacklogReadiness_valid (item_Readiness item)) (ValidationError ''readiness'' ''must be a closed readiness''),
      fail_if (item_RequestedOutcome item = [] \<or> length (item_RequestedOutcome item) > maxRequestedOutcomeBytes \<or>
               \<not> ValidString (item_RequestedOutcome item))
        (ValidationError ''requestedOutcome'' ''must be bounded valid text''),
      validateAuthorityReference ''sourceConversationRef'' (item_SourceConversationRef item),
      fail_if (length (item_DependsOn item) > 64) (ValidationError ''dependsOn'' ''must hold at most 64 dependencies''),
      scan_unique
        (\<lambda>dependency. first_error
           [validateOpaqueID ''dependsOn'' dependency,
            fail_if (dependency = item_Handle item) (ValidationError ''dependsOn'' ''an item cannot depend on itself'')])
        id (ValidationError ''dependsOn'' ''dependencies must be unique'') {} (item_DependsOn item),
      fail_if (Before (item_UpdatedAt item) (item_CreatedAt item))
        (ValidationError ''updatedAt'' ''cannot precede creation'')]"

fun unsatisfied_dependency :: "(string \<Rightarrow> bool) \<Rightarrow> string list \<Rightarrow> go_error option" where
  "unsatisfied_dependency satisfied [] = None"
| "unsatisfied_dependency satisfied (dependency # dependencies) =
     (if \<not> satisfied dependency
      then Some (ValidationError ''dependsOn'' (''dependency '' @ dependency @ '' is not satisfied''))
      else unsatisfied_dependency satisfied dependencies)"

definition CheckPromotable :: "BacklogItem \<Rightarrow> (string \<Rightarrow> bool) \<Rightarrow> go_error option" where
  "CheckPromotable item satisfied = first_error
     [BacklogItem_Validate item,
      fail_if (item_Readiness item \<noteq> BacklogReady)
        (ValidationError ''readiness''
          (''only a ready item may be promoted; this one is '' @ BacklogReadiness_string (item_Readiness item))),
      unsatisfied_dependency satisfied (item_DependsOn item)]"

section \<open>Merge approval\<close>

definition MaximumMergeApprovalTTL :: int where
  "MaximumMergeApprovalTTL = 15 * Minute"

record MergeApproval =
  appr_TaskHandle :: string
  appr_ApprovalID :: string
  appr_ManagedRunID :: string
  appr_MCPOperationID :: string
  appr_ResolvingPrincipal :: string
  appr_OperationFingerprint :: string
  appr_ApprovedHead :: string
  appr_ApprovedAt :: time
  appr_ExpiresAt :: time
  appr_ConsumedAt :: time
  appr_OperatorEnabled :: bool

record MergeAuthorization =
  auth_ObservedHead :: string
  auth_ManagedRunID :: string
  auth_MCPOperationID :: string
  auth_Now :: time

definition mergeApprovalFingerprintPattern :: "string \<Rightarrow> bool" where
  "mergeApprovalFingerprintPattern = matches_exactly hex_char 64"

definition validMergePrincipal :: "string \<Rightarrow> bool" where
  "validMergePrincipal value \<longleftrightarrow>
     value \<noteq> [] \<and> length value \<le> 256 \<and> ValidString value \<and> TrimSpace value = value \<and>
     \<not> ContainsAny value [CHR 0x00, CHR 0x0D, CHR 0x0A]"

definition AuthorizeMerge :: "MergeApproval \<Rightarrow> MergeAuthorization \<Rightarrow> go_error option" where
  "AuthorizeMerge approval request = first_error
     [fail_if (\<not> appr_OperatorEnabled approval)
        (MergeRefusal MergeRefusedOperatorDisabled ''merge_after_approval is disabled for this deployment''),
      fail_if
        (validateOpaqueID ''taskHandle'' (appr_TaskHandle approval) \<noteq> None \<or>
         validateAuthorityReference ''approvalRequestId'' (appr_ApprovalID approval) \<noteq> None \<or>
         validateAuthorityReference ''managedRunId'' (appr_ManagedRunID approval) \<noteq> None \<or>
         validateOpaqueID ''mcpOperationId'' (appr_MCPOperationID approval) \<noteq> None \<or>
         \<not> validMergePrincipal (appr_ResolvingPrincipal approval) \<or>
         \<not> mergeApprovalFingerprintPattern (appr_OperationFingerprint approval) \<or>
         validateRevision (appr_ApprovedHead approval) \<noteq> None \<or>
         IsZero (appr_ApprovedAt approval) \<or> \<not> in_utc (appr_ApprovedAt approval) \<or>
         IsZero (appr_ExpiresAt approval) \<or> \<not> in_utc (appr_ExpiresAt approval) \<or>
         IsZero (appr_ConsumedAt approval) \<or> \<not> in_utc (appr_ConsumedAt approval) \<or>
         Sub (appr_ExpiresAt approval) (appr_ApprovedAt approval) \<noteq> MaximumMergeApprovalTTL \<or>
         Before (appr_ConsumedAt approval) (appr_ApprovedAt approval) \<or>
         \<not> Before (appr_ConsumedAt approval) (appr_ExpiresAt approval))
        (MergeRefusal MergeRefusedNoApproval ''no complete authenticated approval receipt is recorded for this task''),
      fail_if
        (IsZero (auth_Now request) \<or> \<not> in_utc (auth_Now request) \<or>
         Before (auth_Now request) (appr_ApprovedAt approval) \<or>
         \<not> Before (auth_Now request) (appr_ExpiresAt approval))
        (MergeRefusal MergeRefusedApprovalExpired ''the recorded approval is outside its current fifteen-minute window''),
      fail_if
        (auth_ManagedRunID request \<noteq> appr_ManagedRunID approval \<or>
         auth_MCPOperationID request \<noteq> appr_MCPOperationID approval)
        (MergeRefusal MergeRefusedScopeMismatch ''the approval receipt belongs to a different managed operation''),
      fail_if (auth_ObservedHead request \<noteq> appr_ApprovedHead approval)
        (MergeRefusal MergeRefusedHeadChanged ''the head moved after approval; approval and evidence are both invalid'')]"

text \<open>\<open>errors.As\<close> walks the chain of wrapped causes to the first merge refusal.\<close>

fun IsMergeRefusal :: "go_error \<Rightarrow> MergeRefusalReason \<Rightarrow> bool" where
  "IsMergeRefusal (MergeRefusal r detail) reason = (r = reason)"
| "IsMergeRefusal (Failure code retryable message hint (Some cause)) reason = IsMergeRefusal cause reason"
| "IsMergeRefusal (WrapError prefix cause) reason = IsMergeRefusal cause reason"
| "IsMergeRefusal _ reason = False"

section \<open>Landed proof\<close>

datatype LandedRoute =
    LandedRouteNone | LandedByRemoteTracking | LandedByMergedPullRequest | LandedByDefaultBranchContainment

record MergedPullRequest =
  mpr_Number :: int64
  mpr_Merged :: bool
  mpr_MergeCommitContainsHead :: bool
  mpr_HeadRevisionMatches :: bool

record LandedEvidence =
  land_WorkHead :: string
  land_ForgeTruthAvailable :: bool
  land_ReachableFromRemoteRefs :: "string list"
  land_RecordedPullRequest :: int64
  land_MergedPullRequestByHeadBranch :: "MergedPullRequest option"
  land_DefaultBranchHead :: string
  land_DefaultBranchUpToDate :: bool
  land_DefaultBranchContainsHead :: bool

record LandedProof =
  proof_Landed :: bool
  proof_Route :: LandedRoute
  proof_EvidenceGap :: string

definition landedGap :: "LandedEvidence \<Rightarrow> string" where
  "landedGap evidence =
     (case land_MergedPullRequestByHeadBranch evidence of
        Some merged \<Rightarrow>
          (if \<not> mpr_Merged merged then ''the pull request for this head branch is not merged''
           else ''the merged pull request neither records nor contains this head'')
      | None \<Rightarrow>
          (if land_DefaultBranchContainsHead evidence \<and> \<not> land_DefaultBranchUpToDate evidence
           then ''the default branch contains the head but was not refreshed, so containment is a claim about an old snapshot''
           else ''no authenticated remote ref reaches this head, no merged pull request was found for its head branch, and the default branch does not contain it''))"

definition pull_request_landed :: "LandedEvidence \<Rightarrow> bool" where
  "pull_request_landed evidence \<longleftrightarrow>
     (case land_MergedPullRequestByHeadBranch evidence of
        Some merged \<Rightarrow> mpr_Merged merged \<and> (mpr_HeadRevisionMatches merged \<or> mpr_MergeCommitContainsHead merged)
      | None \<Rightarrow> False)"

definition ProveLanded :: "LandedEvidence \<Rightarrow> LandedProof" where
  "ProveLanded evidence =
     (if validateRevision (land_WorkHead evidence) \<noteq> None then
        \<lparr>proof_Landed = False, proof_Route = LandedRouteNone,
         proof_EvidenceGap = ''no exact work head to prove anything about''\<rparr>
      else if length (land_ReachableFromRemoteRefs evidence) > 0 then
        \<lparr>proof_Landed = True, proof_Route = LandedByRemoteTracking, proof_EvidenceGap = []\<rparr>
      else if \<not> land_ForgeTruthAvailable evidence then
        \<lparr>proof_Landed = False, proof_Route = LandedRouteNone,
         proof_EvidenceGap = ''forge truth was unavailable, so merge and containment could not be checked''\<rparr>
      else if pull_request_landed evidence then
        \<lparr>proof_Landed = True, proof_Route = LandedByMergedPullRequest, proof_EvidenceGap = []\<rparr>
      else if land_DefaultBranchUpToDate evidence \<and> land_DefaultBranchContainsHead evidence \<and>
              validateRevision (land_DefaultBranchHead evidence) = None then
        \<lparr>proof_Landed = True, proof_Route = LandedByDefaultBranchContainment, proof_EvidenceGap = []\<rparr>
      else \<lparr>proof_Landed = False, proof_Route = LandedRouteNone, proof_EvidenceGap = landedGap evidence\<rparr>)"

section \<open>What an authorization means\<close>

text \<open>A complete approval receipt, without the request it is used for.\<close>

definition approval_complete :: "MergeApproval \<Rightarrow> bool" where
  "approval_complete a \<longleftrightarrow>
     opaqueIDPattern (appr_TaskHandle a) \<and> authorityPattern (appr_ApprovalID a) \<and>
     authorityPattern (appr_ManagedRunID a) \<and> opaqueIDPattern (appr_MCPOperationID a) \<and>
     validMergePrincipal (appr_ResolvingPrincipal a) \<and>
     mergeApprovalFingerprintPattern (appr_OperationFingerprint a) \<and> revisionPattern (appr_ApprovedHead a) \<and>
     in_utc (appr_ExpiresAt a) \<and> \<not> IsZero (appr_ExpiresAt a) \<and>
     in_utc (appr_ApprovedAt a) \<and> \<not> IsZero (appr_ApprovedAt a) \<and>
     instant (appr_ExpiresAt a) = instant (appr_ApprovedAt a) + MaximumMergeApprovalTTL \<and>
     in_window (instant (appr_ApprovedAt a)) (instant (appr_ExpiresAt a)) (appr_ConsumedAt a)"

lemma Sub_exact: "Sub a b = MaximumMergeApprovalTTL \<longleftrightarrow> instant a = instant b + MaximumMergeApprovalTTL"
  by (auto simp: Sub_def MaximumMergeApprovalTTL_def Minute_def max_def min_def)

lemma approval_check:
  "(validateOpaqueID ''taskHandle'' (appr_TaskHandle a) \<noteq> None \<or>
    validateAuthorityReference ''approvalRequestId'' (appr_ApprovalID a) \<noteq> None \<or>
    validateAuthorityReference ''managedRunId'' (appr_ManagedRunID a) \<noteq> None \<or>
    validateOpaqueID ''mcpOperationId'' (appr_MCPOperationID a) \<noteq> None \<or>
    \<not> validMergePrincipal (appr_ResolvingPrincipal a) \<or>
    \<not> mergeApprovalFingerprintPattern (appr_OperationFingerprint a) \<or>
    validateRevision (appr_ApprovedHead a) \<noteq> None \<or>
    IsZero (appr_ApprovedAt a) \<or> \<not> in_utc (appr_ApprovedAt a) \<or>
    IsZero (appr_ExpiresAt a) \<or> \<not> in_utc (appr_ExpiresAt a) \<or>
    IsZero (appr_ConsumedAt a) \<or> \<not> in_utc (appr_ConsumedAt a) \<or>
    Sub (appr_ExpiresAt a) (appr_ApprovedAt a) \<noteq> MaximumMergeApprovalTTL \<or>
    Before (appr_ConsumedAt a) (appr_ApprovedAt a) \<or>
    \<not> Before (appr_ConsumedAt a) (appr_ExpiresAt a)) \<longleftrightarrow> \<not> approval_complete a"
  unfolding approval_complete_def in_window_def Sub_exact Before_def not_less [symmetric]
    field_check_defs fail_if_None not_not de_Morgan_conj by blast

lemma window_check:
  "(IsZero now \<or> \<not> in_utc now \<or> Before now opens \<or> \<not> Before now closes) \<longleftrightarrow>
     \<not> in_window (instant opens) (instant closes) now"
  by (auto simp: in_window_def Before_def)

lemmas AuthorizeMerge_checks = AuthorizeMerge_def [unfolded approval_check window_check]

lemma AuthorizeMerge_None:
  "AuthorizeMerge a r = None \<longleftrightarrow>
     appr_OperatorEnabled a \<and> approval_complete a \<and>
     in_window (instant (appr_ApprovedAt a)) (instant (appr_ExpiresAt a)) (auth_Now r) \<and>
     auth_ManagedRunID r = appr_ManagedRunID a \<and> auth_MCPOperationID r = appr_MCPOperationID a \<and>
     auth_ObservedHead r = appr_ApprovedHead a"
  by (simp add: AuthorizeMerge_checks)

interpretation merge: lapsing_decision
  "\<lambda>(a, r) t. AuthorizeMerge a (r\<lparr>auth_Now := t\<rparr>) = None"
  "\<lambda>(a, r). instant (appr_ApprovedAt a)" "\<lambda>(a, r). instant (appr_ExpiresAt a)"
  by unfold_locales (auto simp: AuthorizeMerge_None)

lemma unsatisfied_dependency_None: "unsatisfied_dependency sat ds = None \<longleftrightarrow> (\<forall>d\<in>set ds. sat d)"
  by (induction ds) auto

section \<open>Concrete inputs\<close>

definition sample_approval :: MergeApproval where
  "sample_approval =
     \<lparr>appr_TaskHandle = ''task-1'', appr_ApprovalID = ''approval-1'', appr_ManagedRunID = ''run-1'',
      appr_MCPOperationID = ''merge-1'', appr_ResolvingPrincipal = ''ada'', appr_OperationFingerprint = sha256_hex [],
      appr_ApprovedHead = ''abcdef6789012345678901234567890123456789'', appr_ApprovedAt = utc_at 1,
      appr_ExpiresAt = utc_at (1 + 15 * Minute), appr_ConsumedAt = utc_at 2, appr_OperatorEnabled = True\<rparr>"

definition sample_authorization :: MergeAuthorization where
  "sample_authorization =
     \<lparr>auth_ObservedHead = ''abcdef6789012345678901234567890123456789'', auth_ManagedRunID = ''run-1'',
      auth_MCPOperationID = ''merge-1'', auth_Now = utc_at 3\<rparr>"

lemma approval_strings:
  "authorityPattern ''approval-1''" "opaqueIDPattern ''merge-1''" "TrimSpace ''ada'' = ''ada''"
  "revisionPattern ''abcdef6789012345678901234567890123456789''"
  by code_simp+

lemma sample_principal: "validMergePrincipal ''ada''"
  by (simp add: validMergePrincipal_def approval_strings ValidString_ascii ContainsAny_def)

lemma sample_approval_complete: "approval_complete sample_approval"
  using sha256_hex_HexPattern [of "[]"]
  by (simp add: approval_complete_def sample_approval_def draft_strings approval_strings sample_principal in_window_def
      MaximumMergeApprovalTTL_def Minute_def IsZero_def mergeApprovalFingerprintPattern_def sha256HexPattern_def)

lemma sample_merge_authorized: "AuthorizeMerge sample_approval sample_authorization = None"
  using sample_approval_complete
  by (simp add: AuthorizeMerge_None in_window_def)
     (simp add: sample_approval_def sample_authorization_def Minute_def IsZero_def)

section \<open>Properties\<close>

text \<open>
  A merge is authorized exactly when the operator enabled it, the approval receipt is complete
  (consumed within its own window of exactly fifteen minutes), the request comes within that window,
  from the same managed run and operation, and the head observed is the head approved.
\<close>

lemma merge_authorized_iff:
  "AuthorizeMerge a r = None \<longleftrightarrow>
     appr_OperatorEnabled a \<and> approval_complete a \<and>
     in_window (instant (appr_ApprovedAt a)) (instant (appr_ApprovedAt a) + 15 * Minute) (auth_Now r) \<and>
     auth_ManagedRunID r = appr_ManagedRunID a \<and> auth_MCPOperationID r = appr_MCPOperationID a \<and>
     auth_ObservedHead r = appr_ApprovedHead a"
  by (auto simp: AuthorizeMerge_None approval_complete_def MaximumMergeApprovalTTL_def)

text \<open>
  An authorization lapses for good: when the same request is refused at a later UTC time, it is
  refused at every time after that.
\<close>

lemma merge_lapses_for_good:
  assumes "AuthorizeMerge a r = None" "in_utc t'" "\<not> IsZero t'" "\<not> Before t' (auth_Now r)"
    and "AuthorizeMerge a (r\<lparr>auth_Now := t'\<rparr>) \<noteq> None" "\<not> Before t'' t'"
  shows "AuthorizeMerge a (r\<lparr>auth_Now := t''\<rparr>) \<noteq> None"
  using merge.lapsed_for_good [of "(a, r)" "auth_Now r" t' t''] assms by (simp add: Before_def)

text \<open>
  Every refusal is a merge refusal, and its reason is the first precondition that fails: a
  disabled operator switch before anything else, an incomplete receipt before its window, the window
  before the scope, the scope before the head.
\<close>

lemma merge_refusal_reason:
  "(AuthorizeMerge a r = None \<or> (\<exists>e. AuthorizeMerge a r = Some e \<and>
      IsMergeRefusal e
        (if \<not> appr_OperatorEnabled a then MergeRefusedOperatorDisabled
         else if \<not> approval_complete a then MergeRefusedNoApproval
         else if \<not> in_window (instant (appr_ApprovedAt a)) (instant (appr_ExpiresAt a)) (auth_Now r)
           then MergeRefusedApprovalExpired
         else if (auth_ManagedRunID r, auth_MCPOperationID r) \<noteq> (appr_ManagedRunID a, appr_MCPOperationID a)
           then MergeRefusedScopeMismatch
         else MergeRefusedHeadChanged)))"
  by (auto simp: AuthorizeMerge_checks fail_if_def)

text \<open>
  Work is proven landed exactly by one of three routes on an exact work head: a remote ref
  reaches it, or, with forge truth at hand, a merged pull request records or contains it, or an
  up-to-date default branch with a known head contains it.
\<close>

lemma landed_iff:
  "proof_Landed (ProveLanded e) \<longleftrightarrow>
     revisionPattern (land_WorkHead e) \<and>
     (land_ReachableFromRemoteRefs e \<in> - {[]} \<or>
      land_ForgeTruthAvailable e \<and>
      ((\<exists>m. land_MergedPullRequestByHeadBranch e = Some m \<and> mpr_Merged m \<and>
            (mpr_HeadRevisionMatches m \<or> mpr_MergeCommitContainsHead m)) \<or>
       land_DefaultBranchUpToDate e \<and> land_DefaultBranchContainsHead e \<and> revisionPattern (land_DefaultBranchHead e)))"
  by (auto simp: ProveLanded_def pull_request_landed_def validateRevision_def split: option.splits)

text \<open>
  A verdict always explains itself: it is positive exactly when it names a route, and exactly the
  negative verdicts name an evidence gap.
\<close>

lemma landed_verdict_explained:
  "(proof_Landed (ProveLanded e) \<longleftrightarrow> proof_Route (ProveLanded e) \<in> - {LandedRouteNone}) \<and>
   (proof_Landed (ProveLanded e) \<longleftrightarrow> proof_EvidenceGap (ProveLanded e) = [])"
  by (auto simp: ProveLanded_def landedGap_def split: option.splits)

text \<open>
  A backlog item may be promoted exactly when its record is valid, it is ready and every
  dependency is satisfied; so a promoted or dropped item is refused.
\<close>

lemma promotable_iff:
  "(CheckPromotable item satisfied = None \<longleftrightarrow>
      BacklogItem_Validate item = None \<and> item_Readiness item = BacklogReady \<and>
      list_all satisfied (item_DependsOn item))"
  by (auto simp: CheckPromotable_def unsatisfied_dependency_None list_all_iff)

end
