(* ===== verification/Initiative.thy ===== *)
theory Initiative
  imports Evidence
begin

text \<open>
  Initiatives (\<open>initiative.go\<close>): several tasks coordinated by a dependency graph over frozen base
  revisions, and the immutable contract artifacts they exchange (\<open>contract_artifact.go\<close>,
  \<open>contract_artifact_content.go\<close>).

  A Go \<open>map[string]bool\<close> of members is the list of its keys in the order they were inserted; where
  the code ranges over it, in unspecified order, the result is proved not to depend on the order.
\<close>

section \<open>Records\<close>

datatype InitiativeState =
    InitiativePreparing | InitiativeActive | InitiativeBlocked | InitiativeIntegrating
  | InitiativeValidating | InitiativeCandidateComplete | InitiativeDelivered | InitiativeFailed
  | InitiativeCancelled | InitiativeUnknown
  | InitiativeStateOther string

datatype InitiativeEdgeKind =
    EdgeBlocksStart | EdgeBlocksValidation | EdgeConsumesArtifact | EdgeIntegratesAfter
  | EdgeKindOther string

definition MaximumInitiativeMembers :: nat where
  "MaximumInitiativeMembers = 16"

fun InitiativeState_valid :: "InitiativeState \<Rightarrow> bool" where
  "InitiativeState_valid (InitiativeStateOther _) = False"
| "InitiativeState_valid _ = True"

fun InitiativeEdgeKind_valid :: "InitiativeEdgeKind \<Rightarrow> bool" where
  "InitiativeEdgeKind_valid (EdgeKindOther _) = False"
| "InitiativeEdgeKind_valid _ = True"

definition blocksStart :: "InitiativeEdgeKind \<Rightarrow> bool" where
  "blocksStart kind \<longleftrightarrow> kind = EdgeBlocksStart \<or> kind = EdgeConsumesArtifact \<or> kind = EdgeIntegratesAfter"

record InitiativeBaseRevision =
  base_RepositoryID :: string
  base_Revision :: string

record InitiativeComponent =
  comp_ComponentHandle :: string
  comp_RepositoryID :: string
  comp_ResponsibilityRef :: string
  comp_TaskHandles :: "string list"

record InitiativeEdge =
  edge_From :: string
  edge_To :: string
  edge_Kind :: InitiativeEdgeKind
  edge_RequiredArtifactKind :: ContractArtifactKind

record DevelopmentInitiative =
  ini_SchemaVersion :: int64
  ini_Handle :: string
  ini_ManagedRunGroupID :: string
  ini_TitleRef :: string
  ini_State :: InitiativeState
  ini_BaseRevisionSet :: "InitiativeBaseRevision list"
  ini_Components :: "InitiativeComponent list"
  ini_Edges :: "InitiativeEdge list"
  ini_ContractArtifacts :: "string list"
  ini_IntegrationPolicyID :: string
  ini_IntegrationOwnerTask :: string
  ini_StateVersion :: int64
  ini_CreatedAt :: time
  ini_UpdatedAt :: time

section \<open>Cycle detection\<close>

datatype visit_mark = unvisited | onStack | done_mark

definition adjacency :: "InitiativeEdge list \<Rightarrow> string \<Rightarrow> string list" where
  "adjacency edges node = map edge_To (filter (\<lambda>e. edge_From e = node) edges)"

text \<open>
  The loop of \<open>visit\<close> over the successors of a node, with the recursive \<open>visit(next)\<close> in place: it
  marks the node, loops over its successors, and marks it done unless a cycle was found.
\<close>

function visit_next ::
  "InitiativeEdge list \<Rightarrow> (string \<Rightarrow> visit_mark) \<Rightarrow> string list \<Rightarrow> bool \<times> (string \<Rightarrow> visit_mark)" where
  "visit_next edges mark [] = (False, mark)"
| "visit_next edges mark (next # rest) =
     (case mark next of
        onStack \<Rightarrow> (True, mark)
      | done_mark \<Rightarrow> visit_next edges mark rest
      | unvisited \<Rightarrow>
          (let r = visit_next edges (mark(next := onStack)) (adjacency edges next)
           in if fst r then r else visit_next edges ((snd r)(next := done_mark)) rest))"
  by pat_completeness auto

definition fresh :: "InitiativeEdge list \<Rightarrow> (string \<Rightarrow> visit_mark) \<Rightarrow> string list \<Rightarrow> string set" where
  "fresh edges mark nexts = {x \<in> edge_To ` set edges \<union> set nexts. mark x = unvisited}"

lemma finite_fresh [simp]: "finite (fresh edges mark nexts)"
  by (simp add: fresh_def)

lemma visit_next_keeps_marks:
  "visit_next_dom (edges, mark, nexts) \<Longrightarrow> mark x \<noteq> unvisited \<Longrightarrow> snd (visit_next edges mark nexts) x \<noteq> unvisited"
proof (induction arbitrary: x rule: visit_next.pinduct)
  case (2 edges mark nx rest)
  show ?case
  proof (cases "mark nx")
    case unvisited
    let ?r = "visit_next edges (mark(nx := onStack)) (adjacency edges nx)"
    have r: "snd ?r x \<noteq> unvisited" by (rule "2.IH"(1) [OF unvisited]) (use "2.prems" in auto)
    show ?thesis
    proof (cases "fst ?r")
      case True
      with r show ?thesis using unvisited by (simp add: visit_next.psimps(2) [OF "2.hyps"] Let_def)
    next
      case False
      have "snd (visit_next edges ((snd ?r)(nx := done_mark)) rest) x \<noteq> unvisited"
        by (rule "2.IH"(2) [OF unvisited refl False]) (use r in auto)
      with False unvisited show ?thesis
        by (simp add: visit_next.psimps(2) [OF "2.hyps"] Let_def)
    qed
  qed (use 2 in \<open>simp_all add: visit_next.psimps\<close>)
qed (simp add: visit_next.psimps)

termination visit_next
proof (relation "measures [\<lambda>(edges, mark, nexts). card (fresh edges mark nexts), \<lambda>(edges, mark, nexts). length nexts]",
    goal_cases)
  case (2 edges mark nx rest)
  then have "fresh edges (mark(nx := onStack)) (adjacency edges nx) \<subset> fresh edges mark (nx # rest)"
    by (auto simp: fresh_def adjacency_def split: if_splits)
  then show ?case by (auto intro!: psubset_card_mono)
next
  case (3 edges mark nx rest r)
  have "mark x \<noteq> unvisited \<Longrightarrow> snd r x \<noteq> unvisited" for x
    using visit_next_keeps_marks [OF 3(4), of x] 3(2) by auto
  then have "fresh edges ((snd r)(nx := done_mark)) rest \<subset> fresh edges mark (nx # rest)"
    using 3(1) by (auto simp: fresh_def split: if_splits)
  then show ?case by (auto intro!: psubset_card_mono)
next
  case (4 edges mark nx rest)
  then have "fresh edges mark rest \<subseteq> fresh edges mark (nx # rest)"
    by (auto simp: fresh_def)
  then have "card (fresh edges mark rest) \<le> card (fresh edges mark (nx # rest))"
    by (intro card_mono) simp_all
  then show ?case by auto
qed simp

definition visit :: "InitiativeEdge list \<Rightarrow> (string \<Rightarrow> visit_mark) \<Rightarrow> string \<Rightarrow> bool \<times> (string \<Rightarrow> visit_mark)" where
  "visit edges mark node =
     (let r = visit_next edges (mark(node := onStack)) (adjacency edges node)
      in if fst r then r else (False, (snd r)(node := done_mark)))"

fun visit_members :: "InitiativeEdge list \<Rightarrow> (string \<Rightarrow> visit_mark) \<Rightarrow> string list \<Rightarrow> bool" where
  "visit_members edges mark [] = False"
| "visit_members edges mark (member # members) =
     (if mark member = unvisited
      then (let r = visit edges mark member in if fst r then True else visit_members edges (snd r) members)
      else visit_members edges mark members)"

definition hasCycle :: "InitiativeEdge list \<Rightarrow> string list \<Rightarrow> bool" where
  "hasCycle edges members = visit_members edges (\<lambda>_. unvisited) members"

lemma visit_next_visit:
  "visit_next edges mark (nx # rest) =
     (case mark nx of
        onStack \<Rightarrow> (True, mark)
      | done_mark \<Rightarrow> visit_next edges mark rest
      | unvisited \<Rightarrow>
          (let r = visit edges mark nx in if fst r then r else visit_next edges (snd r) rest))"
  by (auto simp: visit_def Let_def split: visit_mark.split)

section \<open>The search finds exactly the cycles\<close>

definition edge_rel :: "InitiativeEdge list \<Rightarrow> (string \<times> string) set" where
  "edge_rel edges = (\<lambda>e. (edge_From e, edge_To e)) ` set edges"

lemma set_adjacency: "set (adjacency edges x) = {y. (x, y) \<in> edge_rel edges}"
  by (auto simp: adjacency_def edge_rel_def image_iff)

text \<open>Done nodes are closed under edges and lie on no cycle.\<close>

definition settled :: "InitiativeEdge list \<Rightarrow> (string \<Rightarrow> visit_mark) \<Rightarrow> bool" where
  "settled edges mark \<longleftrightarrow>
     (\<forall>x y. mark x = done_mark \<longrightarrow> (x, y) \<in> edge_rel edges \<longrightarrow> mark y = done_mark) \<and>
     (\<forall>x. mark x = done_mark \<longrightarrow> (x, x) \<notin> (edge_rel edges)\<^sup>+)"

definition same_stack :: "(string \<Rightarrow> visit_mark) \<Rightarrow> (string \<Rightarrow> visit_mark) \<Rightarrow> bool" where
  "same_stack mark mark' \<longleftrightarrow>
     (\<forall>x. mark' x = onStack \<longleftrightarrow> mark x = onStack) \<and> (\<forall>x. mark x = done_mark \<longrightarrow> mark' x = done_mark)"

lemma settled_reach:
  assumes "settled edges mark" "(x, y) \<in> (edge_rel edges)\<^sup>*" "mark x = done_mark"
  shows "mark y = done_mark"
  using assms(2,1,3) by (induction) (auto simp: settled_def)

lemma settle_node:
  assumes "settled edges m" "m node = onStack" "\<forall>y\<in>set (adjacency edges node). m y = done_mark"
  shows "settled edges (m(node := done_mark))"
proof -
  have "(node, node) \<notin> (edge_rel edges)\<^sup>+"
  proof
    assume "(node, node) \<in> (edge_rel edges)\<^sup>+"
    then obtain y where "(node, y) \<in> edge_rel edges" "(y, node) \<in> (edge_rel edges)\<^sup>*"
      by (meson tranclD)
    then have "m node = done_mark"
      using settled_reach [OF assms(1)] assms(3) by (auto simp: set_adjacency)
    with assms(2) show False by simp
  qed
  with assms show ?thesis by (auto simp: settled_def set_adjacency)
qed

lemma visit_next_correct:
  assumes "settled edges mark" "mark node = onStack" "set nexts \<subseteq> set (adjacency edges node)"
    and "\<forall>s. mark s = onStack \<longrightarrow> (s, node) \<in> (edge_rel edges)\<^sup>*"
  shows "(fst (visit_next edges mark nexts) \<longrightarrow> (\<exists>x. (x, x) \<in> (edge_rel edges)\<^sup>+)) \<and>
    (\<not> fst (visit_next edges mark nexts) \<longrightarrow>
       settled edges (snd (visit_next edges mark nexts)) \<and> same_stack mark (snd (visit_next edges mark nexts)) \<and>
       (\<forall>y\<in>set nexts. snd (visit_next edges mark nexts) y = done_mark))"
  using assms
proof (induction edges mark nexts arbitrary: node rule: visit_next.induct)
  case (1 edges mark)
  then show ?case by (simp add: same_stack_def)
next
  case (2 edges mark nx rest)
  have e: "(node, nx) \<in> edge_rel edges" using "2.prems"(3) by (simp add: set_adjacency)
  show ?case
  proof (cases "mark nx")
    case onStack
    then have "(nx, node) \<in> (edge_rel edges)\<^sup>*" using "2.prems"(4) by blast
    with e have "(nx, nx) \<in> (edge_rel edges)\<^sup>+" by simp
    with onStack show ?thesis by auto
  next
    case done_mark
    then show ?thesis
      using "2.IH"(3) [OF done_mark "2.prems"(1,2) _ "2.prems"(4)] "2.prems"(3) by (auto simp: same_stack_def)
  next
    case unvisited
    let ?m = "mark(nx := onStack)"
    let ?r = "visit_next edges ?m (adjacency edges nx)"
    have m: "settled edges ?m" "?m nx = onStack" using "2.prems"(1) unvisited by (auto simp: settled_def)
    have stack: "\<forall>s. ?m s = onStack \<longrightarrow> (s, nx) \<in> (edge_rel edges)\<^sup>*"
      using "2.prems"(4) e by (auto intro: rtrancl.rtrancl_into_rtrancl)
    have IH: "fst ?r \<longrightarrow> (\<exists>x. (x, x) \<in> (edge_rel edges)\<^sup>+)"
      "\<not> fst ?r \<longrightarrow> settled edges (snd ?r) \<and> same_stack ?m (snd ?r) \<and> (\<forall>y\<in>set (adjacency edges nx). snd ?r y = done_mark)"
      using "2.IH"(1) [OF unvisited m subset_refl stack] by blast+
    show ?thesis
    proof (cases "fst ?r")
      case True
      with IH unvisited show ?thesis by (simp add: Let_def)
    next
      case False
      let ?m' = "(snd ?r)(nx := done_mark)"
      have s: "settled edges (snd ?r)" "same_stack ?m (snd ?r)" "\<forall>y\<in>set (adjacency edges nx). snd ?r y = done_mark"
        using IH(2) False by auto
      have ss: "same_stack mark ?m'" using s(2) unvisited by (auto simp: same_stack_def)
      have m': "settled edges ?m'"
        using s by (intro settle_node) (auto simp: same_stack_def)
      have stack': "\<forall>s. ?m' s = onStack \<longrightarrow> (s, node) \<in> (edge_rel edges)\<^sup>*"
        using ss "2.prems"(4) unfolding same_stack_def by blast
      have node: "?m' node = onStack" using ss "2.prems"(2) unfolding same_stack_def by blast
      have "set rest \<subseteq> set (adjacency edges node)" using "2.prems"(3) by simp
      from "2.IH"(2) [OF unvisited refl False m' node this stack']
      have "(fst (visit_next edges ?m' rest) \<longrightarrow> (\<exists>x. (x, x) \<in> (edge_rel edges)\<^sup>+)) \<and>
          (\<not> fst (visit_next edges ?m' rest) \<longrightarrow> settled edges (snd (visit_next edges ?m' rest)) \<and>
             same_stack ?m' (snd (visit_next edges ?m' rest)) \<and>
             (\<forall>y\<in>set rest. snd (visit_next edges ?m' rest) y = done_mark))" .
      moreover have "visit_next edges mark (nx # rest) = visit_next edges ?m' rest"
        using unvisited False by (simp add: Let_def)
      moreover have "same_stack mark n \<and> n nx = done_mark" if "same_stack ?m' n" for n
        using ss that unfolding same_stack_def by (metis fun_upd_same)
      ultimately show ?thesis
        by (metis set_ConsD)
    qed
  qed
qed

lemma visit_correct:
  assumes "settled edges mark" "\<forall>x. mark x \<noteq> onStack" "mark node = unvisited"
  shows "fst (visit edges mark node) \<Longrightarrow> \<exists>x. (x, x) \<in> (edge_rel edges)\<^sup>+"
    and "\<not> fst (visit edges mark node) \<Longrightarrow>
      settled edges (snd (visit edges mark node)) \<and> (\<forall>x. snd (visit edges mark node) x \<noteq> onStack) \<and>
      snd (visit edges mark node) node = done_mark \<and>
      (\<forall>x. mark x = done_mark \<longrightarrow> snd (visit edges mark node) x = done_mark)"
proof -
  let ?m = "mark(node := onStack)" 
  let ?r = "visit_next edges ?m (adjacency edges node)"
  have "settled edges ?m" using assms by (auto simp: settled_def)
  then have r: "fst ?r \<longrightarrow> (\<exists>x. (x, x) \<in> (edge_rel edges)\<^sup>+)"
    "\<not> fst ?r \<longrightarrow> settled edges (snd ?r) \<and> same_stack ?m (snd ?r) \<and> (\<forall>y\<in>set (adjacency edges node). snd ?r y = done_mark)"
    using visit_next_correct [of edges ?m node "adjacency edges node"] assms(2) by auto
  show "fst (visit edges mark node) \<Longrightarrow> \<exists>x. (x, x) \<in> (edge_rel edges)\<^sup>+"
    using r(1) by (auto simp: visit_def Let_def split: if_splits)
  assume "\<not> fst (visit edges mark node)"
  then have f: "\<not> fst ?r" by (auto simp: visit_def Let_def)
  with r(2) have s: "settled edges (snd ?r)" "same_stack ?m (snd ?r)" "\<forall>y\<in>set (adjacency edges node). snd ?r y = done_mark"
    by auto
  then have "settled edges ((snd ?r)(node := done_mark))"
    by (intro settle_node) (auto simp: same_stack_def)
  with s(2) f assms show "settled edges (snd (visit edges mark node)) \<and>
      (\<forall>x. snd (visit edges mark node) x \<noteq> onStack) \<and> snd (visit edges mark node) node = done_mark \<and>
      (\<forall>x. mark x = done_mark \<longrightarrow> snd (visit edges mark node) x = done_mark)"
    by (auto simp: visit_def Let_def same_stack_def)
qed

lemma visit_members_correct:
  assumes "settled edges mark" "\<forall>x. mark x \<noteq> onStack"
  shows "visit_members edges mark members \<longleftrightarrow>
    (\<exists>x. (x, x) \<in> (edge_rel edges)\<^sup>+) \<and>
    (\<exists>m\<in>set members. mark m = unvisited \<and> visit_members edges mark members)"
proof -
  have "visit_members edges mark members \<Longrightarrow> (\<exists>x. (x, x) \<in> (edge_rel edges)\<^sup>+) \<and> (\<exists>m\<in>set members. mark m = unvisited)"
    using assms
  proof (induction edges mark members rule: visit_members.induct)
    case (2 edges mark member members)
    show ?case
    proof (cases "mark member = unvisited")
      case True
      then show ?thesis
        using 2 visit_correct [OF "2.prems"(2,3) True]
        by (cases "fst (visit edges mark member)") (auto simp: Let_def)
    qed (use 2 in auto)
  qed simp
  then show ?thesis by blast
qed

lemma visit_members_complete:
  assumes "settled edges mark" "\<forall>x. mark x \<noteq> onStack" "\<not> visit_members edges mark members"
  shows "\<forall>x. x \<in> set members \<or> mark x = done_mark \<longrightarrow> (x, x) \<notin> (edge_rel edges)\<^sup>+"
  using assms
proof (induction edges mark members rule: visit_members.induct)
  case (1 edges mark)
  then show ?case by (auto simp: settled_def)
next
  case (2 edges mark member members)
  show ?case
  proof (cases "mark member = unvisited")
    case True
    let ?r = "visit edges mark member"
    have f: "\<not> fst ?r" "\<not> visit_members edges (snd ?r) members"
      using "2.prems"(3) True by (auto simp: Let_def split: if_splits)
    note v = visit_correct(2) [OF "2.prems"(1,2) True f(1)]
    show ?thesis
      using "2.IH"(1) [OF True refl f(1) _ _ f(2)] v by auto
  next
    case False
    then have "mark member = done_mark" using "2.prems"(2) by (cases "mark member") auto
    with 2 False show ?thesis by auto
  qed
qed

lemma hasCycle_iff:
  assumes "Domain (edge_rel edges) \<subseteq> set members"
  shows "hasCycle edges members \<longleftrightarrow> \<not> acyclic (edge_rel edges)"
proof
  have s: "settled edges (\<lambda>_. unvisited)" by (simp add: settled_def)
  show "hasCycle edges members \<Longrightarrow> \<not> acyclic (edge_rel edges)"
    using visit_members_correct [OF s] by (auto simp: hasCycle_def acyclic_def)
  assume "\<not> acyclic (edge_rel edges)"
  then obtain x where x: "(x, x) \<in> (edge_rel edges)\<^sup>+" by (auto simp: acyclic_def)
  then have "x \<in> Domain (edge_rel edges)" by (meson DomainI tranclD)
  with assms x show "hasCycle edges members"
    using visit_members_complete [OF s, of members] by (auto simp: hasCycle_def)
qed

section \<open>Validation\<close>

definition validateContractArtifacts :: "DevelopmentInitiative \<Rightarrow> go_error option" where
  "validateContractArtifacts initiative = first_error
     [fail_if (length (ini_ContractArtifacts initiative) > 128)
        (ValidationError ''contractArtifacts'' ''must hold at most 128 artifacts''),
      scan_unique (validateOpaqueID ''contractArtifacts'') id
        (ValidationError ''contractArtifacts'' ''artifact handles must be unique'') {} (ini_ContractArtifacts initiative)]"

definition validateBaseRevisions :: "DevelopmentInitiative \<Rightarrow> string list result" where
  "validateBaseRevisions initiative =
     ensure (first_error
       [fail_if (length (ini_BaseRevisionSet initiative) = 0 \<or> length (ini_BaseRevisionSet initiative) > 32)
          (ValidationError ''baseRevisionSet'' ''must freeze between one and 32 repositories''),
        scan_unique
          (\<lambda>base. first_error [ValidateRepositoryID (base_RepositoryID base), validateRevision (base_Revision base)])
          base_RepositoryID (ValidationError ''baseRevisionSet'' ''must freeze exactly one revision per repository'')
          {} (ini_BaseRevisionSet initiative)])
     (Inr (map base_RepositoryID (ini_BaseRevisionSet initiative)))"

text \<open>The inner loop over a component's tasks, with the members collected so far.\<close>

fun scan_tasks :: "string list \<Rightarrow> string list \<Rightarrow> string list result" where
  "scan_tasks members [] = Inr members"
| "scan_tasks members (handle # handles) =
     ensure (first_error
       [ValidateTaskHandle handle,
        fail_if (handle \<in> set members)
          (ValidationError ''components.taskHandles'' ''a task belongs to exactly one component'')])
     (scan_tasks (members @ [handle]) handles)"

fun scan_components ::
  "string list \<Rightarrow> string list \<Rightarrow> string list \<Rightarrow> InitiativeComponent list \<Rightarrow> string list result" where
  "scan_components bases handles members [] = Inr members"
| "scan_components bases handles members (component # components) =
     ensure (first_error
       [validateOpaqueID ''componentHandle'' (comp_ComponentHandle component),
        ValidateRepositoryID (comp_RepositoryID component),
        fail_if (comp_RepositoryID component \<notin> set bases)
          (ValidationError ''components.repositoryId'' ''every component repository must have a frozen base revision''),
        fail_if (comp_ComponentHandle component \<in> set handles)
          (ValidationError ''components'' ''component handles must be unique''),
        fail_if (length (comp_TaskHandles component) = 0 \<or> length (comp_TaskHandles component) > 64)
          (ValidationError ''components.taskHandles'' ''must hold between one and 64 tasks'')])
     (case scan_tasks members (comp_TaskHandles component) of
        Inl e \<Rightarrow> Inl e
      | Inr members' \<Rightarrow> scan_components bases (handles @ [comp_ComponentHandle component]) members' components)"

definition validateComponents :: "DevelopmentInitiative \<Rightarrow> string list \<Rightarrow> string list result" where
  "validateComponents initiative bases =
     ensure (fail_if (length (ini_Components initiative) = 0 \<or> length (ini_Components initiative) > 64)
         (ValidationError ''components'' ''must hold between one and 64 components''))
       (scan_components bases [] [] (ini_Components initiative))"

definition edge_check :: "string list \<Rightarrow> InitiativeEdge \<Rightarrow> go_error option" where
  "edge_check members edge = first_error
     [fail_if (\<not> InitiativeEdgeKind_valid (edge_Kind edge))
        (ValidationError ''edges.kind'' ''must be a closed edge kind''),
      fail_if (edge_From edge \<notin> set members \<or> edge_To edge \<notin> set members)
        (ValidationError ''edges'' ''both endpoints must be tasks this initiative contains''),
      fail_if (edge_From edge = edge_To edge) (ValidationError ''edges'' ''a task cannot depend on itself''),
      (if edge_Kind edge = EdgeConsumesArtifact
       then fail_if (\<not> ContractArtifactKind_valid (edge_RequiredArtifactKind edge))
         (ValidationError ''edges.requiredArtifactKind'' ''an artifact edge must name the artifact kind it consumes'')
       else fail_if (edge_RequiredArtifactKind edge \<noteq> ArtifactKindOther [])
         (ValidationError ''edges.requiredArtifactKind'' ''only an artifact edge may name a required artifact kind''))]"

definition validateEdges :: "DevelopmentInitiative \<Rightarrow> string list \<Rightarrow> go_error option" where
  "validateEdges initiative members = first_error
     [fail_if (length (ini_Edges initiative) > 512) (ValidationError ''edges'' ''must hold at most 512 edges''),
      scan_unique (edge_check members) (\<lambda>edge. (edge_From edge, edge_To edge, edge_Kind edge))
        (ValidationError ''edges'' ''edges must be unique'') {} (ini_Edges initiative),
      fail_if (hasCycle (ini_Edges initiative) members) (ValidationError ''edges'' ''must form an acyclic graph'')]"

definition Initiative_Validate :: "DevelopmentInitiative \<Rightarrow> go_error option" where
  "Initiative_Validate initiative = first_error
     [fail_if (ini_SchemaVersion initiative \<noteq> 1) (ValidationError ''schemaVersion'' ''must equal 1''),
      validateOpaqueID ''initiativeHandle'' (ini_Handle initiative),
      validateOpaqueID ''integrationPolicyId'' (ini_IntegrationPolicyID initiative),
      validateBoundedSafeText ''titleRef'' (ini_TitleRef initiative) 256,
      (if ini_ManagedRunGroupID initiative = []
       then fail_if (ini_State initiative \<noteq> InitiativePreparing \<and> ini_State initiative \<noteq> InitiativeUnknown)
         (ValidationError ''managedRunGroupId'' ''must be bound before an initiative becomes active or terminal'')
       else validateAuthorityReference ''managedRunGroupId'' (ini_ManagedRunGroupID initiative)),
      fail_if (\<not> InitiativeState_valid (ini_State initiative))
        (ValidationError ''state'' ''must be a closed initiative state''),
      fail_if (sint (ini_StateVersion initiative) < 1) (ValidationError ''stateVersion'' ''must be positive''),
      fail_if (Before (ini_UpdatedAt initiative) (ini_CreatedAt initiative))
        (ValidationError ''updatedAt'' ''cannot precede creation''),
      (case validateBaseRevisions initiative of
         Inl e \<Rightarrow> Some e
       | Inr bases \<Rightarrow>
           (case validateComponents initiative bases of
              Inl e \<Rightarrow> Some e
            | Inr members \<Rightarrow> first_error
                [validateEdges initiative members,
                 validateContractArtifacts initiative,
                 fail_if (ini_IntegrationOwnerTask initiative \<noteq> [] \<and>
                          ini_IntegrationOwnerTask initiative \<notin> set members)
                   (ValidationError ''integrationOwnerTask'' ''must name a task this initiative contains'')]))]"

section \<open>Operations\<close>

definition task_members :: "DevelopmentInitiative \<Rightarrow> string list" where
  "task_members initiative = concat (map comp_TaskHandles (ini_Components initiative))"

definition ContainsTask :: "DevelopmentInitiative \<Rightarrow> string \<Rightarrow> bool" where
  "ContainsTask initiative taskHandle \<longleftrightarrow>
     (\<exists>component\<in>set (ini_Components initiative). \<exists>handle\<in>set (comp_TaskHandles component). handle = taskHandle)"

definition DependencyReadyTasks :: "DevelopmentInitiative \<Rightarrow> (string \<Rightarrow> bool) \<Rightarrow> string list" where
  "DependencyReadyTasks initiative satisfied =
     (let members = remdups (task_members initiative);
          blocked = map edge_To
            (filter (\<lambda>edge. blocksStart (edge_Kind edge) \<and> \<not> satisfied (edge_From edge)) (ini_Edges initiative))
      in sort (filter (\<lambda>member. member \<notin> set blocked \<and> \<not> satisfied member) members))"

definition AuthorizeIntegrationWrite :: "DevelopmentInitiative \<Rightarrow> string \<Rightarrow> go_error option" where
  "AuthorizeIntegrationWrite initiative taskHandle = first_error
     [fail_if (ini_IntegrationOwnerTask initiative = [])
        (ValidationError ''integrationOwnerTask'' ''this initiative records no integration owner, so no task may integrate''),
      fail_if (taskHandle \<noteq> ini_IntegrationOwnerTask initiative)
        (ValidationError ''integrationOwnerTask'' ''only the recorded integration owner may apply candidates'')]"

definition AuthorizeIntegrationWorktree ::
  "DevelopmentInitiative \<Rightarrow> string \<Rightarrow> (string, string) fmap \<Rightarrow> go_error option" where
  "AuthorizeIntegrationWorktree initiative taskHandle worktreeByTask =
     (case AuthorizeIntegrationWrite initiative taskHandle of
        Some e \<Rightarrow> Some e
      | None \<Rightarrow>
          (let own = (case fmlookup worktreeByTask taskHandle of Some path \<Rightarrow> path | None \<Rightarrow> [])
           in if own = [] then
                Some (ValidationError ''integrationWorktree'' ''the integration owner holds no worktree of its own'')
              else if fBex (fmdom worktreeByTask)
                        (\<lambda>otherTask. otherTask \<noteq> taskHandle \<and> fmlookup worktreeByTask otherTask = Some own) then
                Some (ValidationError ''integrationWorktree'' ''the integration worktree must not be shared with a component task'')
              else None))"

text \<open>The targets of the edges that satisfy a test, each once, in the order of the edges.\<close>

fun collect_targets :: "(InitiativeEdge \<Rightarrow> bool) \<Rightarrow> string set \<Rightarrow> InitiativeEdge list \<Rightarrow> string list" where
  "collect_targets wanted seen [] = []"
| "collect_targets wanted seen (edge # edges) =
     (if \<not> wanted edge then collect_targets wanted seen edges
      else if edge_To edge \<in> seen then collect_targets wanted seen edges
      else edge_To edge # collect_targets wanted (insert (edge_To edge) seen) edges)"

definition TasksStaleAfterSupersession ::
  "DevelopmentInitiative \<Rightarrow> ContractArtifactKind \<Rightarrow> string \<Rightarrow> string list" where
  "TasksStaleAfterSupersession initiative kind producerTaskHandle =
     sort (collect_targets
       (\<lambda>edge. \<not> (edge_Kind edge \<noteq> EdgeConsumesArtifact \<or> edge_From edge \<noteq> producerTaskHandle \<or>
                   edge_RequiredArtifactKind edge \<noteq> kind)) {} (ini_Edges initiative))"

definition TasksStaleAfterHeadChange :: "DevelopmentInitiative \<Rightarrow> string \<Rightarrow> string list" where
  "TasksStaleAfterHeadChange initiative taskHandle =
     (if \<not> ContainsTask initiative taskHandle then []
      else taskHandle # sort (collect_targets
        (\<lambda>edge. \<not> (edge_Kind edge \<noteq> EdgeConsumesArtifact \<or> edge_From edge \<noteq> taskHandle))
        {taskHandle} (ini_Edges initiative)))"

section \<open>Contract artifacts\<close>

record ComponentContractArtifact =
  cart_ArtifactHandle :: string
  cart_InitiativeHandle :: string
  cart_ProducerTaskHandle :: string
  cart_Kind :: ContractArtifactKind
  cart_ContentHash :: string
  cart_SourceRevision :: string
  cart_MediaType :: string
  cart_Size :: int64
  cart_ProducedAt :: time
  cart_SupersedesArtifactHandle :: string

record ContractArtifactContent =
  content_Artifact :: ComponentContractArtifact
  content_Content :: string

definition maxContractArtifactBytes :: int where
  "maxContractArtifactBytes = 2 ^ 20"

definition ValidateContractArtifactHandle :: "string \<Rightarrow> go_error option" where
  "ValidateContractArtifactHandle value = validateOpaqueID ''artifactHandle'' value"

definition ContractArtifact_Validate :: "ComponentContractArtifact \<Rightarrow> go_error option" where
  "ContractArtifact_Validate artifact = first_error
     [ValidateContractArtifactHandle (cart_ArtifactHandle artifact),
      validateOpaqueID ''initiativeHandle'' (cart_InitiativeHandle artifact),
      ValidateTaskHandle (cart_ProducerTaskHandle artifact),
      fail_if (\<not> ContractArtifactKind_valid (cart_Kind artifact))
        (ValidationError ''kind'' ''must be a closed contract artifact kind''),
      validateSHA256 ''contentHash'' (cart_ContentHash artifact),
      validateRevision (cart_SourceRevision artifact),
      fail_if (\<not> mediaTypePattern (cart_MediaType artifact))
        (ValidationError ''mediaType'' ''must be a bounded media type''),
      fail_if (sint (cart_Size artifact) \<le> 0 \<or> sint (cart_Size artifact) > maxContractArtifactBytes)
        (ValidationError ''size'' ''must be a positive bounded artifact size''),
      fail_if (IsZero (cart_ProducedAt artifact) \<or> \<not> in_utc (cart_ProducedAt artifact))
        (ValidationError ''producedAt'' ''must be a non-zero UTC time''),
      (if cart_SupersedesArtifactHandle artifact \<noteq> [] then first_error
         [validateOpaqueID ''supersedesArtifactHandle'' (cart_SupersedesArtifactHandle artifact),
          fail_if (cart_SupersedesArtifactHandle artifact = cart_ArtifactHandle artifact)
            (ValidationError ''supersedesArtifactHandle'' ''an artifact cannot supersede itself'')]
       else None)]"

text \<open>\<open>int64(len(content))\<close> is exact: a slice is shorter than \<open>2^63\<close>.\<close>

definition ContractArtifactContent_Validate :: "ContractArtifactContent \<Rightarrow> go_error option" where
  "ContractArtifactContent_Validate content = first_error
     [ContractArtifact_Validate (content_Artifact content),
      fail_if (int (length (content_Content content)) \<noteq> sint (cart_Size (content_Artifact content)))
        (PlainError ''contract artifact content size differs''),
      fail_if (sha256_hex (content_Content content) \<noteq> cart_ContentHash (content_Artifact content))
        (PlainError ''contract artifact content digest differs'')]"

section \<open>What a valid initiative is\<close>

lemma scan_tasks_Inr:
  "scan_tasks members hs = Inr ms \<longleftrightarrow>
     ms = members @ hs \<and> (\<forall>h\<in>set hs. ValidateTaskHandle h = None) \<and> distinct hs \<and> set hs \<inter> set members = {}"
  by (induction hs arbitrary: members) auto

lemma scan_components_Inr:
  "scan_components bases handles members cs = Inr ms \<Longrightarrow>
     ms = members @ concat (map comp_TaskHandles cs) \<and> (distinct members \<longrightarrow> distinct ms) \<and>
     (\<forall>c\<in>set cs. comp_RepositoryID c \<in> set bases \<and> comp_TaskHandles c \<noteq> [])"
proof (induction cs arbitrary: handles members)
  case (Cons c cs)
  then obtain ms' where t: "scan_tasks members (comp_TaskHandles c) = Inr ms'"
    and r: "scan_components bases (handles @ [comp_ComponentHandle c]) ms' cs = Inr ms"
    by (auto split: sum.splits)
  have ms': "ms' = members @ comp_TaskHandles c" "distinct members \<longrightarrow> distinct ms'"
    using t by (auto simp: scan_tasks_Inr)
  have c: "comp_RepositoryID c \<in> set bases \<and> comp_TaskHandles c \<noteq> []"
    using Cons.prems by auto
  have "ms = members @ concat (map comp_TaskHandles (c # cs))" "distinct members \<longrightarrow> distinct ms"
    using Cons.IH [OF r] ms' by (simp, blast)
  with Cons.IH [OF r] c show ?case by simp
qed simp

definition edges_closed :: "DevelopmentInitiative \<Rightarrow> bool" where
  "edges_closed i \<longleftrightarrow>
     (\<forall>e\<in>set (ini_Edges i). edge_From e \<in> set (task_members i) \<and> edge_To e \<in> set (task_members i))"

lemma Initiative_Validate_graph:
  assumes "Initiative_Validate i = None"
  shows "distinct (task_members i)" "task_members i \<noteq> []" "edges_closed i" "acyclic (edge_rel (ini_Edges i))"
    "distinct (map base_RepositoryID (ini_BaseRevisionSet i))"
    "\<forall>c\<in>set (ini_Components i). comp_RepositoryID c \<in> base_RepositoryID ` set (ini_BaseRevisionSet i)"
    "\<forall>e\<in>set (ini_Edges i). edge_check (task_members i) e = None"
    "ini_IntegrationOwnerTask i = [] \<or> ini_IntegrationOwnerTask i \<in> set (task_members i)"
proof -
  obtain bases members where b: "validateBaseRevisions i = Inr bases" and m: "validateComponents i bases = Inr members"
    and e: "validateEdges i members = None" and own: "ini_IntegrationOwnerTask i = [] \<or> ini_IntegrationOwnerTask i \<in> set members"
    using assms by (auto simp: Initiative_Validate_def split: sum.splits)
  from b have bases: "bases = map base_RepositoryID (ini_BaseRevisionSet i)" "distinct bases"
    by (auto simp: validateBaseRevisions_def)
  from m have ne: "ini_Components i \<noteq> []" and sc: "scan_components bases [] [] (ini_Components i) = Inr members"
    by (auto simp: validateComponents_def)
  note c = scan_components_Inr [OF sc]
  then have mem: "members = task_members i" by (simp add: task_members_def)
  from c mem show "distinct (task_members i)" "task_members i \<noteq> []"
    using ne by (auto simp: task_members_def neq_Nil_conv)
  have ec: "\<forall>x\<in>set (ini_Edges i). edge_check members x = None" and cyc: "\<not> hasCycle (ini_Edges i) members"
    using e by (auto simp: validateEdges_def)
  then show cl: "edges_closed i" "\<forall>e\<in>set (ini_Edges i). edge_check (task_members i) e = None"
    by (auto simp: edges_closed_def edge_check_def mem)
  then have "Domain (edge_rel (ini_Edges i)) \<subseteq> set members"
    by (auto simp: edge_rel_def edges_closed_def mem)
  from hasCycle_iff [OF this] cyc show "acyclic (edge_rel (ini_Edges i))" by simp
  from bases c own mem show "distinct (map base_RepositoryID (ini_BaseRevisionSet i))"
    "\<forall>c\<in>set (ini_Components i). comp_RepositoryID c \<in> base_RepositoryID ` set (ini_BaseRevisionSet i)"
    "ini_IntegrationOwnerTask i = [] \<or> ini_IntegrationOwnerTask i \<in> set (task_members i)"
    by auto
qed

lemma ContainsTask_iff: "ContainsTask i t \<longleftrightarrow> t \<in> set (task_members i)"
  by (auto simp: ContainsTask_def task_members_def)

section \<open>Readiness\<close>

definition start_ready :: "DevelopmentInitiative \<Rightarrow> (string \<Rightarrow> bool) \<Rightarrow> string \<Rightarrow> bool" where
  "start_ready i satisfied t \<longleftrightarrow>
     t \<in> set (task_members i) \<and> \<not> satisfied t \<and>
     (\<forall>e\<in>set (ini_Edges i). edge_To e = t \<and> blocksStart (edge_Kind e) \<longrightarrow> satisfied (edge_From e))"

lemma set_DependencyReadyTasks: "set (DependencyReadyTasks i satisfied) = {t. start_ready i satisfied t}"
  by (auto simp: DependencyReadyTasks_def Let_def start_ready_def)

lemma DependencyReadyTasks_sorted:
  "sorted (DependencyReadyTasks i satisfied) \<and> distinct (DependencyReadyTasks i satisfied)"
  by (simp add: DependencyReadyTasks_def Let_def)

lemma some_ready:
  assumes "edges_closed i" "acyclic (edge_rel (ini_Edges i))"
    and "t \<in> set (task_members i)" "\<not> satisfied t"
  shows "\<exists>r. start_ready i satisfied r"
proof -
  let ?U = "{t \<in> set (task_members i). \<not> satisfied t}"
  have "finite (edge_rel (ini_Edges i))" by (simp add: edge_rel_def)
  with assms(2) have "wf (edge_rel (ini_Edges i))" by (intro finite_acyclic_wf)
  moreover have "t \<in> ?U" using assms by simp
  ultimately obtain r where r: "r \<in> ?U" "\<And>y. (y, r) \<in> edge_rel (ini_Edges i) \<Longrightarrow> y \<notin> ?U"
    using wfE_min [of "edge_rel (ini_Edges i)" t ?U] by metis
  have "satisfied (edge_From e)" if "e \<in> set (ini_Edges i)" "edge_To e = r" for e
    using r(2) [of "edge_From e"] that assms(1) by (auto simp: edge_rel_def edges_closed_def)
  with r(1) show ?thesis by (auto simp: start_ready_def)
qed

text \<open>
  Rounds of work: every ready task is satisfied, and the question is asked again.
\<close>

fun work_rounds :: "DevelopmentInitiative \<Rightarrow> nat \<Rightarrow> (string \<Rightarrow> bool) \<Rightarrow> string \<Rightarrow> bool" where
  "work_rounds i 0 satisfied = satisfied"
| "work_rounds i (Suc n) satisfied =
     work_rounds i n (\<lambda>t. satisfied t \<or> t \<in> set (DependencyReadyTasks i satisfied))"

lemma work_rounds_done:
  assumes "edges_closed i" "acyclic (edge_rel (ini_Edges i))"
  shows "card {t \<in> set (task_members i). \<not> satisfied t} \<le> n \<Longrightarrow> t \<in> set (task_members i) \<Longrightarrow> work_rounds i n satisfied t"
proof (induction n arbitrary: satisfied)
  case 0
  then show ?case by auto
next
  case (Suc n)
  let ?sat' = "\<lambda>t. satisfied t \<or> t \<in> set (DependencyReadyTasks i satisfied)"
  have "card {t \<in> set (task_members i). \<not> ?sat' t} \<le> n"
  proof (cases "\<exists>t\<in>set (task_members i). \<not> satisfied t")
    case True
    then obtain r where "start_ready i satisfied r" using some_ready [OF assms] by blast
    then have "{t \<in> set (task_members i). \<not> ?sat' t} \<subset> {t \<in> set (task_members i). \<not> satisfied t}"
      by (auto simp: set_DependencyReadyTasks start_ready_def)
    then have "card {t \<in> set (task_members i). \<not> ?sat' t} < card {t \<in> set (task_members i). \<not> satisfied t}"
      by (intro psubset_card_mono) auto
    with Suc.prems show ?thesis by simp
  next
    case False
    then have "{t \<in> set (task_members i). \<not> ?sat' t} = {}" by auto
    then show ?thesis by (simp only: card.empty)
  qed
  with Suc show ?case by simp
qed

section \<open>Staleness\<close>

lemma set_collect_targets:
  "set (collect_targets wanted seen es) = {edge_To e | e. e \<in> set es \<and> wanted e} - seen"
  by (induction es arbitrary: seen) auto

lemma distinct_collect_targets: "distinct (collect_targets wanted seen es)"
  by (induction es arbitrary: seen) (auto simp: set_collect_targets)

section \<open>A concrete initiative\<close>

definition sample_initiative :: DevelopmentInitiative where
  "sample_initiative =
     \<lparr>ini_SchemaVersion = 1, ini_Handle = ''init-1'', ini_ManagedRunGroupID = ''group-1'', ini_TitleRef = ''title'',
      ini_State = InitiativeActive,
      ini_BaseRevisionSet = [\<lparr>base_RepositoryID = ''repo-1'', base_Revision = ''0123456789012345678901234567890123456789''\<rparr>],
      ini_Components =
        [\<lparr>comp_ComponentHandle = ''server'', comp_RepositoryID = ''repo-1'', comp_ResponsibilityRef = [],
          comp_TaskHandles = [''task-1'']\<rparr>,
         \<lparr>comp_ComponentHandle = ''client'', comp_RepositoryID = ''repo-1'', comp_ResponsibilityRef = [],
          comp_TaskHandles = [''task-2'']\<rparr>],
      ini_Edges = [\<lparr>edge_From = ''task-1'', edge_To = ''task-2'', edge_Kind = EdgeConsumesArtifact,
        edge_RequiredArtifactKind = ArtifactAPISchema\<rparr>],
      ini_ContractArtifacts = [], ini_IntegrationPolicyID = ''policy-1'', ini_IntegrationOwnerTask = ''task-2'',
      ini_StateVersion = 1, ini_CreatedAt = utc_at 1, ini_UpdatedAt = utc_at 1\<rparr>"

lemma initiative_strings:
  "opaqueIDPattern ''init-1''" "opaqueIDPattern ''policy-1''" "authorityPattern ''group-1''" "opaqueIDPattern ''server''"
  "opaqueIDPattern ''client''" "opaqueIDPattern ''task-2''" "printable_ascii ''title''"
  by code_simp+

lemma sample_initiative_valid: "Initiative_Validate sample_initiative = None"
proof -
  have e: "\<not> hasCycle (ini_Edges sample_initiative) [''task-1'', ''task-2'']"
    by (simp add: hasCycle_def visit_def sample_initiative_def adjacency_def)
  show ?thesis
    using e
    by (simp add: Initiative_Validate_def sample_initiative_def validateBaseRevisions_def validateComponents_def
        validateEdges_def edge_check_def validateContractArtifacts_def field_check_defs initiative_strings draft_strings
        validateBoundedSafeText_ascii time_defs)
qed

section \<open>Properties\<close>

text \<open>
  C20.  The three-colour search decides cyclicity exactly, in whatever order the members are visited:
  for edges between members it reports a cycle if and only if the dependency relation has one.
\<close>

theorem cycle_search_exact:
  assumes "list_all (\<lambda>e. edge_From e \<in> set members) edges"
  shows "hasCycle edges members \<longleftrightarrow> \<not> acyclic (edge_rel edges)"
  using assms by (intro hasCycle_iff) (auto simp: edge_rel_def list_all_iff)

theorem cycle_search_exact_witness:
  "hasCycle (ini_Edges sample_initiative) [''task-2'', ''task-1''] \<longleftrightarrow> \<not> acyclic (edge_rel (ini_Edges sample_initiative))"
  by (rule cycle_search_exact) (simp add: sample_initiative_def)

text \<open>
  C28.  A valid initiative is a closed acyclic graph over distinct members: every task is in one
  component, every component's repository has exactly one frozen base, every edge joins two members,
  and the integration owner, if any, is a member.
\<close>

theorem valid_initiative_graph:
  assumes "Initiative_Validate i = None"
  shows "distinct (task_members i) \<and> edges_closed i \<and> acyclic (edge_rel (ini_Edges i)) \<and>
    distinct (map base_RepositoryID (ini_BaseRevisionSet i)) \<and>
    comp_RepositoryID ` set (ini_Components i) \<subseteq> base_RepositoryID ` set (ini_BaseRevisionSet i) \<and>
    ini_IntegrationOwnerTask i \<in> {[]} \<union> set (task_members i)"
  using Initiative_Validate_graph [OF assms] by auto

theorem valid_initiative_graph_witness:
  "acyclic (edge_rel (ini_Edges sample_initiative))"
  using valid_initiative_graph [OF sample_initiative_valid] by blast

text \<open>
  The ready tasks are, sorted and without repetition, exactly the unsatisfied members whose every
  launch-blocking dependency is satisfied.
\<close>

lemma ready_tasks_exact:
  "set (DependencyReadyTasks i satisfied) = {t. start_ready i satisfied t} \<and>
   sorted (DependencyReadyTasks i satisfied) \<and> distinct (DependencyReadyTasks i satisfied)"
  using set_DependencyReadyTasks DependencyReadyTasks_sorted by blast

text \<open>
  C26.  A valid initiative never deadlocks on its own graph: while a member is unsatisfied some member
  is ready, and finishing the ready tasks round by round satisfies every member in at most as many
  rounds as there are members.
\<close>

theorem initiative_makes_progress:
  assumes "Initiative_Validate i = None" "t \<in> set (task_members i)"
  shows "(satisfied t \<or> (\<exists>r. r \<in> set (DependencyReadyTasks i satisfied))) \<and>
    work_rounds i (length (task_members i)) satisfied t"
proof -
  note g = Initiative_Validate_graph [OF assms(1)]
  have "card {t \<in> set (task_members i). \<not> satisfied t} \<le> card (set (task_members i))"
    by (intro card_mono) auto
  then have "card {t \<in> set (task_members i). \<not> satisfied t} \<le> length (task_members i)"
    using distinct_card [OF g(1)] by simp
  with work_rounds_done [OF g(3,4)] assms(2) some_ready [OF g(3,4) assms(2), of satisfied] show ?thesis
    by (auto simp: set_DependencyReadyTasks)
qed

theorem initiative_makes_progress_witness:
  "work_rounds sample_initiative 2 (\<lambda>_. False) ''task-2''"
proof -
  have "task_members sample_initiative = [''task-1'', ''task-2'']"
    by (simp add: task_members_def sample_initiative_def)
  with initiative_makes_progress [OF sample_initiative_valid, of "''task-2''" "\<lambda>_. False"] show ?thesis
    by (simp add: numeral_2_eq_2)
qed

text \<open>
  Superseding an artifact stales exactly the tasks with an artifact edge of that kind from that
  producer; moving a member's head stales that task first and then exactly the other tasks that
  consume any artifact of it.  Both lists are sorted (after the head) and free of repetition.
\<close>

lemma stale_tasks_exact:
  "set (TasksStaleAfterSupersession i kind p) =
     {edge_To e | e. e \<in> set (ini_Edges i) \<and> edge_Kind e = EdgeConsumesArtifact \<and> edge_From e = p \<and>
        edge_RequiredArtifactKind e = kind} \<and>
   sorted (TasksStaleAfterSupersession i kind p) \<and> distinct (TasksStaleAfterSupersession i kind p) \<and>
   TasksStaleAfterHeadChange i p =
     (if ContainsTask i p
      then p # sorted_list_of_set ({edge_To e | e. e \<in> set (ini_Edges i) \<and> edge_Kind e = EdgeConsumesArtifact \<and>
        edge_From e = p} - {p})
      else [])"
proof -
  have "sort (collect_targets wanted seen es) =
      sorted_list_of_set ({edge_To e | e. e \<in> set es \<and> wanted e} - seen)" for wanted seen es
    unfolding set_collect_targets [symmetric]
    by (simp add: sorted_list_of_set_sort_remdups distinct_remdups_id distinct_collect_targets)
  then show ?thesis
    by (simp add: TasksStaleAfterSupersession_def TasksStaleAfterHeadChange_def set_collect_targets
        distinct_collect_targets conj_commute conj_left_commute)
qed

text \<open>
  There is at most one integration writer, the recorded owner, and it needs a worktree path that
  no other task holds.
\<close>

lemma integration_writer_unique:
  "(AuthorizeIntegrationWorktree i t worktrees = None \<longleftrightarrow>
     t = ini_IntegrationOwnerTask i \<and> t \<in> - {[]} \<and>
     (\<exists>path. fmlookup worktrees t = Some path \<and> path \<in> - {[]} \<and>
        {x. fmlookup worktrees x = Some path} = {t}))"
proof (cases "AuthorizeIntegrationWrite i t")
  case None
  then have t: "t = ini_IntegrationOwnerTask i" "t \<noteq> []"
    by (auto simp: AuthorizeIntegrationWrite_def)
  show ?thesis
  proof (cases "fmlookup worktrees t")
    case no: None
    with None show ?thesis by (simp add: AuthorizeIntegrationWorktree_def)
  next
    case (Some path)
    have "fBex (fmdom worktrees) (\<lambda>x. x \<noteq> t \<and> fmlookup worktrees x = Some path) \<longleftrightarrow>
        {x. fmlookup worktrees x = Some path} \<noteq> {t}"
      using Some by (auto intro: fmdomI)
    with Some None t show ?thesis
      by (simp add: AuthorizeIntegrationWorktree_def Let_def)
  qed
next
  case (Some e)
  moreover have "AuthorizeIntegrationWrite i t = None \<longleftrightarrow> t = ini_IntegrationOwnerTask i \<and> t \<in> - {[]}"
    by (auto simp: AuthorizeIntegrationWrite_def)
  ultimately have "\<not> (t = ini_IntegrationOwnerTask i \<and> t \<in> - {[]})" by simp
  with Some show ?thesis by (simp add: AuthorizeIntegrationWorktree_def)
qed

text \<open>
  Accepted artifact bytes are the bytes the metadata names: a valid pair has a positive size of at
  most one MiB equal to the length of its content, and the content's SHA-256 digest is the recorded one.
\<close>

lemma artifact_content_matches:
  assumes "ContractArtifactContent_Validate c = None"
  shows "0 < length (content_Content c) \<and> length (content_Content c) \<le> 2 ^ 20 \<and>
    cart_ContentHash (content_Artifact c) = sha256_hex (content_Content c) \<and>
    cart_SupersedesArtifactHandle (content_Artifact c) \<noteq> cart_ArtifactHandle (content_Artifact c)"
proof -
  have "cart_ArtifactHandle (content_Artifact c) \<noteq> []"
    using assms by (auto simp: ContractArtifactContent_Validate_def ContractArtifact_Validate_def
      ValidateContractArtifactHandle_def validateOpaqueID_def opaqueIDPattern_def matches_head_body_def)
  then show ?thesis
    using assms by (auto simp: ContractArtifactContent_Validate_def ContractArtifact_Validate_def
      maxContractArtifactBytes_def split: if_splits)
qed

definition sample_artifact :: ContractArtifactContent where
  "sample_artifact =
     \<lparr>content_Artifact = \<lparr>cart_ArtifactHandle = ''art-1'', cart_InitiativeHandle = ''init-1'',
        cart_ProducerTaskHandle = ''task-1'', cart_Kind = ArtifactAPISchema, cart_ContentHash = sha256_hex ''{}'',
        cart_SourceRevision = ''0123456789012345678901234567890123456789'', cart_MediaType = ''text/plain'',
        cart_Size = 2, cart_ProducedAt = utc_at 1, cart_SupersedesArtifactHandle = []\<rparr>,
      content_Content = ''{}''\<rparr>"

lemma artifact_strings: "opaqueIDPattern ''art-1''" "mediaTypePattern ''text/plain''"
  by code_simp+

end
