(* ===== verification/Scheduler.thy ===== *)
theory Scheduler
  imports Initiative "HOL-Library.Product_Lexorder"
begin

text \<open>
  The fleet-wide scheduler (\<open>initiative_scheduler.go\<close>, \<open>initiative_scheduler_artifacts.go\<close>,
  \<open>initiative_scheduler_usage.go\<close>): which ready members of the active initiatives may be launched
  under the host, repository and worker-profile ceilings, and the state of an initiative derived from
  its members.

  Counters are 64-bit integers.  A Go map that is only looked up is a function or a partial function;
  a map the code ranges over is a finite map, ranged over in key order (every error of such a loop is
  the same value, and every sum commutes, so the order does not show).
\<close>

section \<open>Records\<close>

datatype InitiativeScheduleReason =
    ScheduleDependencyBlocked | ScheduleResourceQueued | ScheduleContractStale | ScheduleIntegrationHeld
  | ScheduleReasonOther string

abbreviation no_reason :: InitiativeScheduleReason where
  "no_reason \<equiv> ScheduleReasonOther []"

record InitiativeSchedulingLimits =
  lim_MaxConcurrentTasks :: int64
  lim_MaxConcurrentTasksPerRepository :: int64
  lim_WorkerProfileLimits :: "(string, int64) fmap"

record InitiativeTaskSchedule =
  dec_TaskHandle :: string
  dec_State :: TaskState
  dec_Launchable :: bool
  dec_Reason :: InitiativeScheduleReason

record InitiativeSchedule =
  sch_InitiativeHandle :: string
  sch_State :: InitiativeState
  sch_Tasks :: "InitiativeTaskSchedule list"

record schedulingCandidate =
  cand_scheduleIndex :: nat
  cand_decisionIndex :: nat
  cand_task :: Task

record schedulingUsage =
  use_host :: int64
  use_repositories :: "string \<Rightarrow> int64"
  use_profiles :: "string \<Rightarrow> int64"

record InitiativeSchedulingUsage =
  given_Host :: int64
  given_Repositories :: "(string, int64) fmap"
  given_WorkerProfiles :: "(string, int64) fmap"

definition map_count :: "(string, int64) fmap \<Rightarrow> string \<Rightarrow> int64" where
  "map_count m k = (case fmlookup m k of Some n \<Rightarrow> n | None \<Rightarrow> 0)"

section \<open>Limits, tasks, usage\<close>

definition validateSchedulingLimits :: "InitiativeSchedulingLimits \<Rightarrow> go_error option" where
  "validateSchedulingLimits limits = first_error
     [fail_if (sint (lim_MaxConcurrentTasks limits) < 1 \<or> sint (lim_MaxConcurrentTasks limits) > 1024 \<or>
               sint (lim_MaxConcurrentTasksPerRepository limits) < 1 \<or>
               sint (lim_MaxConcurrentTasksPerRepository limits) > sint (lim_MaxConcurrentTasks limits) \<or>
               fcard (fmdom (lim_WorkerProfileLimits limits)) = 0 \<or> fcard (fmdom (lim_WorkerProfileLimits limits)) > 64)
        (PlainError ''schedule initiatives: concurrency limits are invalid''),
      first_error (map (\<lambda>(profileID, limit).
          fail_if (validateAuthorityReference ''workerProfileId'' profileID \<noteq> None \<or>
                   sint limit < 1 \<or> sint limit > sint (lim_MaxConcurrentTasks limits))
            (PlainError ''schedule initiatives: worker profile limit is invalid''))
        (sorted_list_of_fmap (lim_WorkerProfileLimits limits)))]"

fun index_task_set ::
  "print_table \<Rightarrow> InitiativeSchedulingLimits \<Rightarrow> (string \<rightharpoonup> Task) \<Rightarrow> Task list \<Rightarrow> (string \<rightharpoonup> Task) result" where
  "index_task_set u limits indexed [] = Inr indexed"
| "index_task_set u limits indexed (task # tasks) =
     ensure (first_error
       [map_option (WrapError (''schedule task '' @ Quote u (task_Handle task))) (Task_Validate u task),
        fail_if (indexed (task_Handle task) \<noteq> None)
          (PlainError ''schedule initiatives: task handles must be unique''),
        fail_if (fmlookup (lim_WorkerProfileLimits limits) (task_WorkerProfileID task) = None)
          (PlainError ''schedule initiatives: task worker profile has no concurrency limit'')])
     (index_task_set u limits (indexed(task_Handle task \<mapsto> task)) tasks)"

definition indexSchedulingTaskSet ::
  "print_table \<Rightarrow> Task list \<Rightarrow> InitiativeSchedulingLimits \<Rightarrow> (string \<rightharpoonup> Task) result" where
  "indexSchedulingTaskSet u tasks limits = index_task_set u limits Map.empty tasks"

fun taskConsumesWorker :: "TaskState \<Rightarrow> bool" where
  "taskConsumesWorker TaskLaunching = True"
| "taskConsumesWorker TaskWorking = True"
| "taskConsumesWorker TaskAwaitingDecision = True"
| "taskConsumesWorker TaskBlocked = True"
| "taskConsumesWorker TaskPaused = True"
| "taskConsumesWorker TaskReconciling = True"
| "taskConsumesWorker TaskUnknown = True"
| "taskConsumesWorker _ = False"

text \<open>\<open>usage.host++; usage.repositories[..]++; usage.profiles[..]++\<close>\<close>

definition charge :: "Task \<Rightarrow> schedulingUsage \<Rightarrow> schedulingUsage" where
  "charge task usage =
     usage\<lparr>use_host := use_host usage + 1,
           use_repositories := (use_repositories usage)
             (task_RepositoryID task := use_repositories usage (task_RepositoryID task) + 1),
           use_profiles := (use_profiles usage)
             (task_WorkerProfileID task := use_profiles usage (task_WorkerProfileID task) + 1)\<rparr>"

definition no_usage :: schedulingUsage where
  "no_usage = \<lparr>use_host = 0, use_repositories = (\<lambda>_. 0), use_profiles = (\<lambda>_. 0)\<rparr>"

text \<open>The index holds each task once, so ranging over it is ranging over the tasks.\<close>

definition indexSchedulingTasks ::
  "print_table \<Rightarrow> Task list \<Rightarrow> InitiativeSchedulingLimits \<Rightarrow> ((string \<rightharpoonup> Task) \<times> schedulingUsage) result" where
  "indexSchedulingTasks u tasks limits =
     (case indexSchedulingTaskSet u tasks limits of
        Inl e \<Rightarrow> Inl e
      | Inr indexed \<Rightarrow>
          Inr (indexed, fold (\<lambda>task usage. if taskConsumesWorker (task_State task) then charge task usage else usage)
                 tasks no_usage))"

definition normalizeSchedulingUsage ::
  "InitiativeSchedulingUsage \<Rightarrow> InitiativeSchedulingLimits \<Rightarrow> schedulingUsage result" where
  "normalizeSchedulingUsage provided limits =
     (let repositories = sorted_list_of_fmap (given_Repositories provided);
          profiles = sorted_list_of_fmap (given_WorkerProfiles provided);
          repositoryTotal = sum_list (map snd repositories);
          profileTotal = sum_list (map snd profiles)
      in ensure (first_error
        [fail_if (sint (given_Host provided) < 0) (PlainError ''schedule initiatives: fleet usage is invalid''),
         first_error (map (\<lambda>(repositoryID, used).
             fail_if (ValidateRepositoryID repositoryID \<noteq> None \<or> sint used < 1)
               (PlainError ''schedule initiatives: repository usage is invalid'')) repositories),
         first_error (map (\<lambda>(profileID, used).
             fail_if (fmlookup (lim_WorkerProfileLimits limits) profileID = None \<or> sint used < 0)
               (PlainError ''schedule initiatives: worker profile usage is invalid'')) profiles),
         fail_if (repositoryTotal \<noteq> given_Host provided \<or> profileTotal \<noteq> given_Host provided)
           (PlainError ''schedule initiatives: fleet usage totals differ'')])
      (Inr \<lparr>use_host = given_Host provided, use_repositories = map_count (given_Repositories provided),
            use_profiles = map_count (given_WorkerProfiles provided)\<rparr>))"

section \<open>Artifacts\<close>

type_synonym artifact_index = "string \<Rightarrow> string \<rightharpoonup> ComponentContractArtifact"

fun index_artifacts ::
  "print_table \<Rightarrow> (string \<rightharpoonup> DevelopmentInitiative) \<Rightarrow> artifact_index \<Rightarrow> ComponentContractArtifact list \<Rightarrow>
     artifact_index result" where
  "index_artifacts u initiativeByHandle indexed [] = Inr indexed"
| "index_artifacts u initiativeByHandle indexed (artifact # artifacts) =
     ensure (first_error
       [map_option (WrapError (''schedule contract artifact '' @ Quote u (cart_ArtifactHandle artifact)))
          (ContractArtifact_Validate artifact),
        (case initiativeByHandle (cart_InitiativeHandle artifact) of
           None \<Rightarrow> Some (PlainError ''schedule initiatives: contract artifact belongs to an unknown initiative'')
         | Some initiative \<Rightarrow>
             fail_if (\<not> ContainsTask initiative (cart_ProducerTaskHandle artifact))
               (PlainError ''schedule initiatives: contract artifact producer is outside the initiative'')),
        fail_if (indexed (cart_InitiativeHandle artifact) (cart_ArtifactHandle artifact) \<noteq> None)
          (PlainError ''schedule initiatives: contract artifact handles must be unique'')])
     (index_artifacts u initiativeByHandle
        (indexed(cart_InitiativeHandle artifact :=
           (indexed (cart_InitiativeHandle artifact))(cart_ArtifactHandle artifact \<mapsto> artifact))) artifacts)"

definition indexSchedulingArtifacts ::
  "print_table \<Rightarrow> DevelopmentInitiative list \<Rightarrow> ComponentContractArtifact list \<Rightarrow> artifact_index result" where
  "indexSchedulingArtifacts u initiatives artifacts =
     ensure (fail_if (\<not> distinct (map ini_Handle initiatives))
        (PlainError ''schedule initiatives: initiative handles must be unique''))
     (case index_artifacts u (map_of (map (\<lambda>i. (ini_Handle i, i)) initiatives)) (\<lambda>_. Map.empty) artifacts of
        Inl e \<Rightarrow> Inl e
      | Inr indexed \<Rightarrow>
          ensure (fail_if (\<exists>initiative\<in>set initiatives. \<exists>handle\<in>set (ini_ContractArtifacts initiative).
                     indexed (ini_Handle initiative) handle = None)
              (PlainError ''schedule initiatives: current contract artifact registry is incomplete''))
            (Inr indexed))"

section \<open>One initiative\<close>

definition taskDependencySatisfied :: "TaskState \<Rightarrow> bool" where
  "taskDependencySatisfied state = SatisfiesInitiativeDependency state"

fun pins_current ::
  "bool \<Rightarrow> string \<Rightarrow> ContractArtifactKind \<Rightarrow> (string \<rightharpoonup> ComponentContractArtifact) \<Rightarrow> string list \<Rightarrow>
     PinnedContract list \<Rightarrow> bool \<times> bool" where
  "pins_current pinned producer kind artifacts handles [] = (pinned, False)"
| "pins_current pinned producer kind artifacts handles (contract # contracts) =
     (if pin_Kind contract \<noteq> kind then pins_current pinned producer kind artifacts handles contracts
      else
        (case artifacts (pin_ArtifactHandle contract) of
           Some artifact \<Rightarrow>
             (if pin_ArtifactHandle contract \<in> set handles \<and> cart_ProducerTaskHandle artifact = producer \<and>
                 cart_Kind artifact = pin_Kind contract \<and> cart_ContentHash artifact = pin_ContentHash contract
              then (True, True)
              else pins_current True producer kind artifacts handles contracts)
         | None \<Rightarrow> pins_current True producer kind artifacts handles contracts))"

definition taskPinsCurrentContract ::
  "Task \<Rightarrow> string \<Rightarrow> ContractArtifactKind \<Rightarrow> (string \<rightharpoonup> ComponentContractArtifact) \<Rightarrow> string list \<Rightarrow> bool \<times> bool" where
  "taskPinsCurrentContract task producer kind currentArtifacts currentArtifactHandles =
     pins_current False producer kind currentArtifacts currentArtifactHandles (task_ConsumedContracts task)"

fun artifact_edges_reason ::
  "Task \<Rightarrow> (string \<rightharpoonup> ComponentContractArtifact) \<Rightarrow> string list \<Rightarrow> InitiativeEdge list \<Rightarrow> InitiativeScheduleReason option" where
  "artifact_edges_reason task artifacts handles [] = None"
| "artifact_edges_reason task artifacts handles (edge # edges) =
     (if edge_To edge \<noteq> task_Handle task \<or> edge_Kind edge \<noteq> EdgeConsumesArtifact
      then artifact_edges_reason task artifacts handles edges
      else
        (let (pinned, current) =
               taskPinsCurrentContract task (edge_From edge) (edge_RequiredArtifactKind edge) artifacts handles
         in if pinned \<and> \<not> current then Some ScheduleContractStale
            else if \<not> pinned then Some ScheduleDependencyBlocked
            else artifact_edges_reason task artifacts handles edges))"

fun start_edges_reason ::
  "DevelopmentInitiative \<Rightarrow> Task \<Rightarrow> (string \<rightharpoonup> Task) \<Rightarrow> InitiativeEdge list \<Rightarrow> InitiativeScheduleReason" where
  "start_edges_reason initiative task tasks [] = no_reason"
| "start_edges_reason initiative task tasks (edge # edges) =
     (if edge_To edge \<noteq> task_Handle task \<or> edge_Kind edge = EdgeBlocksValidation \<or> edge_Kind edge = EdgeConsumesArtifact
      then start_edges_reason initiative task tasks edges
      else
        (let state = (case tasks (edge_From edge) of Some predecessor \<Rightarrow> task_State predecessor | None \<Rightarrow> TaskStateOther [])
         in if taskDependencySatisfied state then start_edges_reason initiative task tasks edges
            else if edge_Kind edge = EdgeIntegratesAfter \<and> task_Handle task = ini_IntegrationOwnerTask initiative
            then ScheduleIntegrationHeld
            else ScheduleDependencyBlocked))"

definition launchDependencyReason ::
  "DevelopmentInitiative \<Rightarrow> Task \<Rightarrow> (string \<rightharpoonup> Task) \<Rightarrow> (string \<rightharpoonup> ComponentContractArtifact) \<Rightarrow> string list \<Rightarrow>
     InitiativeScheduleReason" where
  "launchDependencyReason initiative task tasks currentArtifacts currentArtifactHandles =
     (case artifact_edges_reason task currentArtifacts currentArtifactHandles (ini_Edges initiative) of
        Some reason \<Rightarrow> reason
      | None \<Rightarrow> start_edges_reason initiative task tasks (ini_Edges initiative))"

text \<open>The loops over components and their tasks: one decision per member, owners recorded.\<close>

fun collect_decisions ::
  "print_table \<Rightarrow> string \<Rightarrow> (string \<rightharpoonup> Task) \<Rightarrow> (string \<rightharpoonup> string) \<Rightarrow> (string \<times> string) list \<Rightarrow>
     (InitiativeTaskSchedule list \<times> (string \<rightharpoonup> string)) result" where
  "collect_decisions u initiativeHandle tasksByHandle memberOwner [] = Inr ([], memberOwner)"
| "collect_decisions u initiativeHandle tasksByHandle memberOwner ((repositoryID, handle) # rest) =
     (case memberOwner handle of
        Some owner \<Rightarrow> Inl (PlainError (''schedule initiatives: task '' @ Quote u handle @ '' belongs to both '' @
            Quote u owner @ '' and '' @ Quote u initiativeHandle))
      | None \<Rightarrow>
          (case tasksByHandle handle of
             None \<Rightarrow> Inl (PlainError (''schedule initiative '' @ Quote u initiativeHandle @ '': member task '' @
                 Quote u handle @ '' is missing''))
           | Some task \<Rightarrow>
               (if task_RepositoryID task \<noteq> repositoryID
                then Inl (PlainError (''schedule initiative '' @ Quote u initiativeHandle @ '': member repository differs''))
                else
                  (case collect_decisions u initiativeHandle tasksByHandle (memberOwner(handle \<mapsto> initiativeHandle)) rest of
                     Inl e \<Rightarrow> Inl e
                   | Inr (decisions, owners) \<Rightarrow>
                       Inr (\<lparr>dec_TaskHandle = handle, dec_State = task_State task, dec_Launchable = False,
                             dec_Reason = no_reason\<rparr> # decisions, owners)))))"

definition component_tasks :: "DevelopmentInitiative \<Rightarrow> (string \<times> string) list" where
  "component_tasks initiative =
     concat (map (\<lambda>c. map (Pair (comp_RepositoryID c)) (comp_TaskHandles c)) (ini_Components initiative))"

text \<open>A miss of the lookup is the zero task, whose state is not ready.\<close>

definition ready_decision ::
  "DevelopmentInitiative \<Rightarrow> (string \<rightharpoonup> Task) \<Rightarrow> (string \<rightharpoonup> ComponentContractArtifact) \<Rightarrow> InitiativeTaskSchedule \<Rightarrow>
     InitiativeTaskSchedule" where
  "ready_decision initiative tasksByHandle currentArtifacts decision =
     (case tasksByHandle (dec_TaskHandle decision) of
        None \<Rightarrow> decision
      | Some task \<Rightarrow>
          (if task_State task \<noteq> TaskReady \<or> ini_State initiative \<noteq> InitiativeActive then decision
           else decision\<lparr>dec_Reason := launchDependencyReason initiative task tasksByHandle currentArtifacts
                  (ini_ContractArtifacts initiative)\<rparr>))"

definition ready_candidates ::
  "nat \<Rightarrow> DevelopmentInitiative \<Rightarrow> (string \<rightharpoonup> Task) \<Rightarrow> InitiativeTaskSchedule list \<Rightarrow> schedulingCandidate list" where
  "ready_candidates scheduleIndex initiative tasksByHandle decisions =
     concat (map (\<lambda>decisionIndex.
        (case tasksByHandle (dec_TaskHandle (decisions ! decisionIndex)) of
           None \<Rightarrow> []
         | Some task \<Rightarrow>
             (if task_State task \<noteq> TaskReady \<or> ini_State initiative \<noteq> InitiativeActive then []
              else if dec_Reason (decisions ! decisionIndex) = no_reason
              then [\<lparr>cand_scheduleIndex = scheduleIndex, cand_decisionIndex = decisionIndex, cand_task = task\<rparr>]
              else []))) [0..<length decisions])"

definition scheduleOneInitiative ::
  "print_table \<Rightarrow> nat \<Rightarrow> DevelopmentInitiative \<Rightarrow> (string \<rightharpoonup> Task) \<Rightarrow> (string \<rightharpoonup> ComponentContractArtifact) \<Rightarrow>
     (string \<rightharpoonup> string) \<Rightarrow> (InitiativeSchedule \<times> schedulingCandidate list \<times> (string \<rightharpoonup> string)) result" where
  "scheduleOneInitiative u scheduleIndex initiative tasksByHandle currentArtifacts memberOwner =
     (case collect_decisions u (ini_Handle initiative) tasksByHandle memberOwner (component_tasks initiative) of
        Inl e \<Rightarrow> Inl e
      | Inr (collected, owners) \<Rightarrow>
          (let decisions = map (ready_decision initiative tasksByHandle currentArtifacts)
                 (sort_key dec_TaskHandle collected)
           in Inr (\<lparr>sch_InitiativeHandle = ini_Handle initiative, sch_State = InitiativeStateOther [], sch_Tasks = decisions\<rparr>,
                   ready_candidates scheduleIndex initiative tasksByHandle decisions, owners)))"

section \<open>Allocation\<close>

definition initiativeRoundOffset :: "InitiativeTaskSchedule list \<Rightarrow> nat" where
  "initiativeRoundOffset tasks =
     length (filter (\<lambda>task. dec_State task \<noteq> TaskPrepared \<and> dec_State task \<noteq> TaskReady) tasks)"

definition schedulingCapacityAvailable :: "Task \<Rightarrow> InitiativeSchedulingLimits \<Rightarrow> schedulingUsage \<Rightarrow> bool" where
  "schedulingCapacityAvailable task limits usage \<longleftrightarrow>
     sint (use_host usage) < sint (lim_MaxConcurrentTasks limits) \<and>
     sint (use_repositories usage (task_RepositoryID task)) < sint (lim_MaxConcurrentTasksPerRepository limits) \<and>
     sint (use_profiles usage (task_WorkerProfileID task)) <
       sint (map_count (lim_WorkerProfileLimits limits) (task_WorkerProfileID task))"

definition update_decision ::
  "nat \<Rightarrow> nat \<Rightarrow> (InitiativeTaskSchedule \<Rightarrow> InitiativeTaskSchedule) \<Rightarrow> InitiativeSchedule list \<Rightarrow> InitiativeSchedule list" where
  "update_decision s d f schedules =
     schedules[s := (schedules ! s)\<lparr>sch_Tasks := (sch_Tasks (schedules ! s))[d := f (sch_Tasks (schedules ! s) ! d)]\<rparr>]"

definition allocate_turn ::
  "InitiativeSchedulingLimits \<Rightarrow> schedulingCandidate \<Rightarrow> InitiativeSchedule list \<times> schedulingUsage \<Rightarrow>
     InitiativeSchedule list \<times> schedulingUsage" where
  "allocate_turn limits candidate state =
     (case state of (schedules, usage) \<Rightarrow>
        (if schedulingCapacityAvailable (cand_task candidate) limits usage
         then (update_decision (cand_scheduleIndex candidate) (cand_decisionIndex candidate)
                 (dec_Launchable_update (\<lambda>_. True)) schedules, charge (cand_task candidate) usage)
         else (update_decision (cand_scheduleIndex candidate) (cand_decisionIndex candidate)
                 (dec_Reason_update (\<lambda>_. ScheduleResourceQueued)) schedules, usage)))"

text \<open>The two loops, rounds outside and initiatives inside, and the candidate whose turn it is.\<close>

definition turn_candidates ::
  "nat list \<Rightarrow> schedulingCandidate list list \<Rightarrow> nat \<times> nat \<Rightarrow> schedulingCandidate list" where
  "turn_candidates roundOffsets candidates = (\<lambda>(round, initiativeIndex).
     (if round < roundOffsets ! initiativeIndex \<or>
         round - roundOffsets ! initiativeIndex \<ge> length (candidates ! initiativeIndex) then []
      else [candidates ! initiativeIndex ! (round - roundOffsets ! initiativeIndex)]))"

definition allocation_turns :: "InitiativeSchedule list \<Rightarrow> schedulingCandidate list list \<Rightarrow> schedulingCandidate list" where
  "allocation_turns schedules candidates =
     (let roundOffsets = map (\<lambda>s. initiativeRoundOffset (sch_Tasks s)) schedules;
          maximumRound = fold max (map2 (\<lambda>offset cs. offset + length cs) roundOffsets candidates) 0
      in concat (map (turn_candidates roundOffsets candidates)
           (List.product [0..<maximumRound] [0..<length candidates])))"

definition allocateInitiativeCandidates ::
  "InitiativeSchedule list \<Rightarrow> schedulingCandidate list list \<Rightarrow> InitiativeSchedulingLimits \<Rightarrow> schedulingUsage \<Rightarrow>
     InitiativeSchedule list \<times> schedulingUsage" where
  "allocateInitiativeCandidates schedules candidates limits usage =
     fold (allocate_turn limits) (allocation_turns schedules candidates) (schedules, usage)"

section \<open>The derived state of an initiative\<close>

definition state_count :: "TaskState \<Rightarrow> InitiativeTaskSchedule list \<Rightarrow> nat" where
  "state_count state decisions = length (filter (\<lambda>d. dec_State d = state) decisions)"

definition allTaskStates :: "InitiativeTaskSchedule list \<Rightarrow> TaskState list \<Rightarrow> bool" where
  "allTaskStates decisions allowed \<longleftrightarrow>
     (if length decisions = 0 then False else list_all (\<lambda>d. dec_State d \<in> set allowed) decisions)"

fun taskStateInSchedule :: "InitiativeTaskSchedule list \<Rightarrow> string \<Rightarrow> TaskState" where
  "taskStateInSchedule [] handle = TaskStateOther []"
| "taskStateInSchedule (decision # decisions) handle =
     (if dec_TaskHandle decision = handle then dec_State decision else taskStateInSchedule decisions handle)"

definition hasInitiativeProgress :: "InitiativeTaskSchedule list \<Rightarrow> bool" where
  "hasInitiativeProgress decisions \<longleftrightarrow>
     list_ex (\<lambda>d. dec_Launchable d \<or> dec_Reason d = ScheduleResourceQueued \<or>
       dec_State d \<in> {TaskLaunching, TaskWorking, TaskAwaitingDecision, TaskPaused, TaskDelivering}) decisions"

definition initiativeScheduleHeld :: "InitiativeTaskSchedule list \<Rightarrow> bool" where
  "initiativeScheduleHeld decisions \<longleftrightarrow>
     list_ex (\<lambda>d. dec_Reason d \<in> {ScheduleDependencyBlocked, ScheduleContractStale, ScheduleIntegrationHeld}) decisions"

definition deriveInitiativeState :: "DevelopmentInitiative \<Rightarrow> InitiativeTaskSchedule list \<Rightarrow> InitiativeState" where
  "deriveInitiativeState initiative decisions =
     (if ini_State initiative \<in> {InitiativePreparing, InitiativeUnknown, InitiativeDelivered, InitiativeFailed,
           InitiativeCancelled} then ini_State initiative
      else if state_count TaskUnknown decisions + state_count TaskReconciling decisions > 0 then InitiativeUnknown
      else if allTaskStates decisions [TaskDelivered, TaskCleaned] then
        (if ini_State initiative = InitiativeCancelled \<or> ini_State initiative = InitiativeFailed
         then ini_State initiative else InitiativeDelivered)
      else if allTaskStates decisions [TaskCancelled, TaskCleaned] then InitiativeCancelled
      else
        (let ownerState = taskStateInSchedule decisions (ini_IntegrationOwnerTask initiative)
         in if ownerState = TaskValidating then InitiativeValidating
            else if ownerState \<in> {TaskLaunching, TaskWorking, TaskAwaitingDecision, TaskPaused} then InitiativeIntegrating
            else if state_count TaskValidating decisions > 0 then InitiativeValidating
            else if allTaskStates decisions [TaskCandidateComplete, TaskDelivering, TaskDelivered, TaskCleanupHeld, TaskCleaned]
            then InitiativeCandidateComplete
            else if hasInitiativeProgress decisions then InitiativeActive
            else if state_count TaskFailed decisions > 0 then InitiativeFailed
            else if initiativeScheduleHeld decisions \<or> state_count TaskBlocked decisions > 0 then InitiativeBlocked
            else InitiativeActive))"

section \<open>The fleet\<close>

fun schedule_each ::
  "print_table \<Rightarrow> (string \<rightharpoonup> Task) \<Rightarrow> artifact_index \<Rightarrow> (string \<rightharpoonup> string) \<Rightarrow> nat \<Rightarrow> DevelopmentInitiative list \<Rightarrow>
     (InitiativeSchedule \<times> schedulingCandidate list) list result" where
  "schedule_each u tasksByHandle artifacts memberOwner n [] = Inr []"
| "schedule_each u tasksByHandle artifacts memberOwner n (initiative # initiatives) =
     (case Initiative_Validate initiative of
        Some e \<Rightarrow> Inl (WrapError (''schedule initiative '' @ Quote u (ini_Handle initiative)) e)
      | None \<Rightarrow>
          (case scheduleOneInitiative u n initiative tasksByHandle (artifacts (ini_Handle initiative)) memberOwner of
             Inl e \<Rightarrow> Inl e
           | Inr (schedule, ready, owners) \<Rightarrow>
               (case schedule_each u tasksByHandle artifacts owners (Suc n) initiatives of
                  Inl e \<Rightarrow> Inl e
                | Inr rest \<Rightarrow> Inr ((schedule, ready) # rest))))"

definition schedule_order :: "DevelopmentInitiative list \<Rightarrow> DevelopmentInitiative list" where
  "schedule_order initiatives = sort_key (\<lambda>i. (instant (ini_CreatedAt i), ini_Handle i)) initiatives"

definition scheduleInitiatives ::
  "print_table \<Rightarrow> DevelopmentInitiative list \<Rightarrow> (string \<rightharpoonup> Task) \<Rightarrow> ComponentContractArtifact list \<Rightarrow>
     InitiativeSchedulingLimits \<Rightarrow> schedulingUsage \<Rightarrow> InitiativeSchedule list result" where
  "scheduleInitiatives u initiatives tasksByHandle artifacts limits usage =
     (let ordered = schedule_order initiatives in
      case indexSchedulingArtifacts u ordered artifacts of
        Inl e \<Rightarrow> Inl e
      | Inr artifactsByInitiative \<Rightarrow>
          (case schedule_each u tasksByHandle artifactsByInitiative Map.empty 0 ordered of
             Inl e \<Rightarrow> Inl e
           | Inr each \<Rightarrow>
               (let schedules = fst (allocateInitiativeCandidates (map fst each) (map snd each) limits usage)
                in Inr (map2 (\<lambda>initiative schedule.
                      schedule\<lparr>sch_State := deriveInitiativeState initiative (sch_Tasks schedule)\<rparr>) ordered schedules))))"

definition ScheduleInitiatives ::
  "print_table \<Rightarrow> DevelopmentInitiative list \<Rightarrow> Task list \<Rightarrow> ComponentContractArtifact list \<Rightarrow>
     InitiativeSchedulingLimits \<Rightarrow> InitiativeSchedule list result" where
  "ScheduleInitiatives u initiatives tasks artifacts limits =
     ensure (validateSchedulingLimits limits)
     (case indexSchedulingTasks u tasks limits of
        Inl e \<Rightarrow> Inl e
      | Inr (tasksByHandle, usage) \<Rightarrow> scheduleInitiatives u initiatives tasksByHandle artifacts limits usage)"

definition ScheduleInitiativesWithUsage ::
  "print_table \<Rightarrow> DevelopmentInitiative list \<Rightarrow> Task list \<Rightarrow> ComponentContractArtifact list \<Rightarrow>
     InitiativeSchedulingLimits \<Rightarrow> InitiativeSchedulingUsage \<Rightarrow> InitiativeSchedule list result" where
  "ScheduleInitiativesWithUsage u initiatives tasks artifacts limits usage =
     ensure (validateSchedulingLimits limits)
     (case indexSchedulingTaskSet u tasks limits of
        Inl e \<Rightarrow> Inl e
      | Inr tasksByHandle \<Rightarrow>
          (case normalizeSchedulingUsage usage limits of
             Inl e \<Rightarrow> Inl e
           | Inr normalized \<Rightarrow> scheduleInitiatives u initiatives tasksByHandle artifacts limits normalized))"

fun index_members :: "print_table \<Rightarrow> (string \<rightharpoonup> Task) \<Rightarrow> Task list \<Rightarrow> (string \<rightharpoonup> Task) result" where
  "index_members u indexed [] = Inr indexed"
| "index_members u indexed (task # tasks) =
     ensure (first_error
       [map_option (WrapError (''derive initiative member '' @ Quote u (task_Handle task))) (Task_Validate u task),
        fail_if (indexed (task_Handle task) \<noteq> None)
          (PlainError ''derive initiative state: member handles must be unique'')])
     (index_members u (indexed(task_Handle task \<mapsto> task)) tasks)"

definition DeriveInitiativeState ::
  "print_table \<Rightarrow> DevelopmentInitiative \<Rightarrow> Task list \<Rightarrow> ComponentContractArtifact list \<Rightarrow> InitiativeState result" where
  "DeriveInitiativeState u initiative members artifacts =
     (case Initiative_Validate initiative of
        Some e \<Rightarrow> Inl (WrapError ''derive initiative state'' e)
      | None \<Rightarrow>
          (case index_members u Map.empty members of
             Inl e \<Rightarrow> Inl e
           | Inr indexed \<Rightarrow>
               (case indexSchedulingArtifacts u [initiative] artifacts of
                  Inl e \<Rightarrow> Inl e
                | Inr indexedArtifacts \<Rightarrow>
                    (case scheduleOneInitiative u 0 initiative indexed (indexedArtifacts (ini_Handle initiative)) Map.empty of
                       Inl e \<Rightarrow> Inl e
                     | Inr (schedule, ready, owners) \<Rightarrow>
                         (if length (sch_Tasks schedule) \<noteq> length members
                          then Inl (PlainError ''derive initiative state: member set contains a task outside the initiative'')
                          else Inr (deriveInitiativeState initiative
                            (fold (\<lambda>c ds. ds[cand_decisionIndex c := (ds ! cand_decisionIndex c)\<lparr>dec_Launchable := True\<rparr>])
                               ready (sch_Tasks schedule))))))))"

end
