(* ===== verification/Allocation.thy ===== *)
theory Allocation
  imports Prelude
begin

text \<open>
  Handing out a shared capacity in turns.  A list of requests is served in order; a request is granted
  when the current usage leaves room for it, and only then is it charged.  Two contracts are kept apart:
  a meter (one dimension of the usage with its ceiling), and the law that a refusal stays a refusal
  while the usage grows.
\<close>

fun grants :: "('c \<Rightarrow> 'u \<Rightarrow> bool) \<Rightarrow> ('c \<Rightarrow> 'u \<Rightarrow> 'u) \<Rightarrow> 'u \<Rightarrow> 'c list \<Rightarrow> 'c list" where
  "grants avail pay u [] = []"
| "grants avail pay u (c # cs) =
     (if avail c u then c # grants avail pay (pay c u) cs else grants avail pay u cs)"

definition usage_after :: "('c \<Rightarrow> 'u \<Rightarrow> bool) \<Rightarrow> ('c \<Rightarrow> 'u \<Rightarrow> 'u) \<Rightarrow> 'u \<Rightarrow> 'c list \<Rightarrow> 'u" where
  "usage_after avail pay u cs = fold pay (grants avail pay u cs) u"

lemma usage_after_simps [simp]:
  "usage_after avail pay u [] = u"
  "usage_after avail pay u (c # cs) =
     (if avail c u then usage_after avail pay (pay c u) cs else usage_after avail pay u cs)"
  by (simp_all add: usage_after_def)

lemma usage_after_append:
  "usage_after avail pay u (xs @ ys) = usage_after avail pay (usage_after avail pay u xs) ys"
  by (induction xs arbitrary: u) auto

lemma grants_append:
  "grants avail pay u (xs @ ys) = grants avail pay u xs @ grants avail pay (usage_after avail pay u xs) ys"
  by (induction xs arbitrary: u) auto

lemma set_grants: "set (grants avail pay u cs) \<subseteq> set cs"
  by (induction cs arbitrary: u) auto

lemma distinct_grants: "distinct cs \<Longrightarrow> distinct (grants avail pay u cs)"
  using set_grants by (induction cs arbitrary: u) fastforce+

lemma distinct_map_grants: "distinct (map f cs) \<Longrightarrow> distinct (map f (grants avail pay u cs))"
proof (induction cs arbitrary: u)
  case (Cons c cs)
  then have "f c \<notin> f ` set (grants avail pay u' cs)" for u'
    using set_grants [of avail pay u' cs] by auto
  with Cons show ?case by auto
qed simp

section \<open>One metered dimension\<close>

locale capacity_meter =
  fixes avail :: "'c \<Rightarrow> 'u \<Rightarrow> bool" and pay :: "'c \<Rightarrow> 'u \<Rightarrow> 'u"
    and counts :: "'c \<Rightarrow> bool" and level :: "'u \<Rightarrow> int" and ceiling :: int
  assumes room: "avail c u \<Longrightarrow> counts c \<Longrightarrow> level u < ceiling"
    and pay_level: "avail c u \<Longrightarrow> level (pay c u) = level u + (if counts c then 1 else 0)"
begin

lemma level_after:
  "level (usage_after avail pay u cs) = level u + int (length (filter counts (grants avail pay u cs)))"
  by (induction cs arbitrary: u) (auto simp: pay_level)

lemma level_mono: "level u \<le> level (usage_after avail pay u cs)"
  by (simp add: level_after)

lemma within_ceiling:
  "filter counts (grants avail pay u cs) \<noteq> [] \<Longrightarrow>
     level u + int (length (filter counts (grants avail pay u cs))) \<le> ceiling"
proof (induction cs arbitrary: u)
  case (Cons c cs)
  show ?case
  proof (cases "avail c u")
    case True
    show ?thesis
    proof (cases "filter counts (grants avail pay (pay c u) cs) = []")
      case empty: True
      with Cons.prems True show ?thesis
        using room [OF True] by (auto split: if_splits)
    next
      case False
      from Cons.IH [OF this] True show ?thesis by (auto simp: pay_level)
    qed
  qed (use Cons in auto)
qed simp

end

section \<open>Refusals that stay refusals\<close>

locale exhausting_capacity =
  fixes avail :: "'c \<Rightarrow> 'u \<Rightarrow> bool" and pay :: "'c \<Rightarrow> 'u \<Rightarrow> 'u"
  assumes stays_refused: "\<not> avail c u \<Longrightarrow> avail d u \<Longrightarrow> \<not> avail c (pay d u)"
begin

lemma refused_after: "\<not> avail c u \<Longrightarrow> \<not> avail c (usage_after avail pay u cs)"
  by (induction cs arbitrary: u) (auto simp: stays_refused)

lemma refused_in_the_end:
  "c \<in> set cs \<Longrightarrow> c \<notin> set (grants avail pay u cs) \<Longrightarrow> \<not> avail c (usage_after avail pay u cs)"
  by (induction cs arbitrary: u) (auto simp: refused_after split: if_splits)

end

end
