(* ===== verification/Scheduling.thy ===== *)
theory Scheduling
  imports Scheduler Allocation "HOL-Library.Multiset"
begin

text \<open>
  What the scheduler guarantees.  The allocation loop serves the candidates in turns; the ceilings are
  three meters over the usage, and what it leaves queued has no room in the end.
\<close>

section \<open>The ceilings as meters\<close>

abbreviation avail :: "InitiativeSchedulingLimits \<Rightarrow> schedulingCandidate \<Rightarrow> schedulingUsage \<Rightarrow> bool" where
  "avail limits c \<equiv> schedulingCapacityAvailable (cand_task c) limits"

abbreviation pay :: "schedulingCandidate \<Rightarrow> schedulingUsage \<Rightarrow> schedulingUsage" where
  "pay c \<equiv> charge (cand_task c)"

interpretation host: capacity_meter "avail limits" pay "\<lambda>_. True" "\<lambda>u. sint (use_host u)"
  "sint (lim_MaxConcurrentTasks limits)" for limits
  by unfold_locales (auto simp: schedulingCapacityAvailable_def charge_def dest: sint64_inc_less)

interpretation repository: capacity_meter "avail limits" pay "\<lambda>c. task_RepositoryID (cand_task c) = r"
  "\<lambda>u. sint (use_repositories u r)" "sint (lim_MaxConcurrentTasksPerRepository limits)" for limits r
  by unfold_locales (auto simp: schedulingCapacityAvailable_def charge_def dest: sint64_inc_less)

interpretation profile: capacity_meter "avail limits" pay "\<lambda>c. task_WorkerProfileID (cand_task c) = p"
  "\<lambda>u. sint (use_profiles u p)" "sint (map_count (lim_WorkerProfileLimits limits) p)" for limits p
  by unfold_locales (auto simp: schedulingCapacityAvailable_def charge_def dest: sint64_inc_less)

lemma not_avail_pay: "\<not> avail limits c u \<Longrightarrow> avail limits d u \<Longrightarrow> \<not> avail limits c (pay d u)"
  using host.pay_level [where limits = limits and c = d and u = u]
    repository.pay_level [where limits = limits and c = d and u = u and r = "task_RepositoryID (cand_task c)"]
    profile.pay_level [where limits = limits and c = d and u = u and p = "task_WorkerProfileID (cand_task c)"]
  by (auto simp: schedulingCapacityAvailable_def split: if_splits)

interpretation fleet: exhausting_capacity "avail limits" pay for limits
  by unfold_locales (rule not_avail_pay)

section \<open>Positions in the schedules\<close>

definition cand_pos :: "schedulingCandidate \<Rightarrow> nat \<times> nat" where
  "cand_pos c = (cand_scheduleIndex c, cand_decisionIndex c)"

definition has_pos :: "InitiativeSchedule list \<Rightarrow> nat \<times> nat \<Rightarrow> bool" where
  "has_pos S p \<longleftrightarrow> fst p < length S \<and> snd p < length (sch_Tasks (S ! fst p))"

definition decision_at :: "InitiativeSchedule list \<Rightarrow> nat \<times> nat \<Rightarrow> InitiativeTaskSchedule" where
  "decision_at S p = sch_Tasks (S ! fst p) ! snd p"

lemma update_decision_at:
  assumes "has_pos S (s, d)"
  shows "has_pos (update_decision s d f S) p \<longleftrightarrow> has_pos S p"
    and "has_pos S p \<Longrightarrow> decision_at (update_decision s d f S) p = (if p = (s, d) then f (decision_at S p) else decision_at S p)"
    and "length (update_decision s d f S) = length S"
    and "map sch_InitiativeHandle (update_decision s d f S) = map sch_InitiativeHandle S"
  using assms
  by (auto simp: has_pos_def decision_at_def update_decision_def nth_list_update map_update intro!: list_update_same_conv [THEN iffD2])

lemma decision_occurs:
  "(\<exists>s\<in>set S. d \<in> set (sch_Tasks s)) \<longleftrightarrow> (\<exists>p. has_pos S p \<and> decision_at S p = d)"
  by (fastforce simp: has_pos_def decision_at_def in_set_conv_nth)

section \<open>The allocation loop\<close>

definition settle :: "InitiativeSchedulingLimits \<Rightarrow> schedulingUsage \<Rightarrow> schedulingCandidate list \<Rightarrow> nat \<times> nat \<Rightarrow>
    InitiativeTaskSchedule \<Rightarrow> InitiativeTaskSchedule" where
  "settle limits u cs p d =
     (if p \<in> cand_pos ` set (grants (avail limits) pay u cs) then d\<lparr>dec_Launchable := True\<rparr>
      else if p \<in> cand_pos ` set cs then d\<lparr>dec_Reason := ScheduleResourceQueued\<rparr>
      else d)"

lemma allocate_fold:
  assumes "distinct (map cand_pos cs)" "\<forall>c\<in>set cs. has_pos S (cand_pos c)"
  shows "snd (fold (allocate_turn limits) cs (S, u)) = usage_after (avail limits) pay u cs"
    and "\<And>p. has_pos (fst (fold (allocate_turn limits) cs (S, u))) p \<longleftrightarrow> has_pos S p"
    and "\<And>p. has_pos S p \<Longrightarrow>
      decision_at (fst (fold (allocate_turn limits) cs (S, u))) p = settle limits u cs p (decision_at S p)"
    and "map sch_InitiativeHandle (fst (fold (allocate_turn limits) cs (S, u))) = map sch_InitiativeHandle S"
proof -
  have "snd (fold (allocate_turn limits) cs (S, u)) = usage_after (avail limits) pay u cs \<and>
    (\<forall>p. has_pos (fst (fold (allocate_turn limits) cs (S, u))) p \<longleftrightarrow> has_pos S p) \<and>
    (\<forall>p. has_pos S p \<longrightarrow>
      decision_at (fst (fold (allocate_turn limits) cs (S, u))) p = settle limits u cs p (decision_at S p)) \<and>
    map sch_InitiativeHandle (fst (fold (allocate_turn limits) cs (S, u))) = map sch_InitiativeHandle S"
    using assms
  proof (induction cs arbitrary: S u)
    case Nil
    then show ?case by (simp add: settle_def)
  next
    case (Cons c cs)
    let ?f = "if avail limits c u then dec_Launchable_update (\<lambda>_. True) else dec_Reason_update (\<lambda>_. ScheduleResourceQueued)"
    let ?u = "if avail limits c u then pay c u else u"
    let ?S = "update_decision (fst (cand_pos c)) (snd (cand_pos c)) ?f S"
    have step: "allocate_turn limits c (S, u) = (?S, ?u)"
      by (simp add: allocate_turn_def cand_pos_def)
    have c: "has_pos S (fst (cand_pos c), snd (cand_pos c))" using Cons.prems by simp
    note U = update_decision_at [OF c, where f = ?f]
    have IH: "snd (fold (allocate_turn limits) cs (?S, ?u)) = usage_after (avail limits) pay ?u cs"
      "\<forall>p. has_pos (fst (fold (allocate_turn limits) cs (?S, ?u))) p \<longleftrightarrow> has_pos ?S p"
      "\<forall>p. has_pos ?S p \<longrightarrow>
        decision_at (fst (fold (allocate_turn limits) cs (?S, ?u))) p = settle limits ?u cs p (decision_at ?S p)"
      "map sch_InitiativeHandle (fst (fold (allocate_turn limits) cs (?S, ?u))) = map sch_InitiativeHandle ?S"
      using Cons.IH [of ?S ?u] Cons.prems by (simp_all add: U(1))
    have fresh: "cand_pos c \<notin> cand_pos ` set cs" "cand_pos c \<notin> cand_pos ` set (grants (avail limits) pay ?u cs)"
      using Cons.prems(1) set_grants [of "avail limits" pay ?u cs] by auto
    have "settle limits ?u cs p (decision_at ?S p) = settle limits u (c # cs) p (decision_at S p)" if "has_pos S p" for p
    proof -
      have at: "decision_at ?S p = (if p = cand_pos c then ?f (decision_at S p) else decision_at S p)"
        using U(2) [OF that] by simp
      show ?thesis
        unfolding at settle_def using fresh by auto
    qed
    with IH U(1,4) show ?case
      by (simp add: step)
  qed
  then show "snd (fold (allocate_turn limits) cs (S, u)) = usage_after (avail limits) pay u cs"
    "\<And>p. has_pos (fst (fold (allocate_turn limits) cs (S, u))) p \<longleftrightarrow> has_pos S p"
    "\<And>p. has_pos S p \<Longrightarrow>
      decision_at (fst (fold (allocate_turn limits) cs (S, u))) p = settle limits u cs p (decision_at S p)"
    "map sch_InitiativeHandle (fst (fold (allocate_turn limits) cs (S, u))) = map sch_InitiativeHandle S"
    by blast+
qed

section \<open>Every candidate has exactly one turn\<close>

definition well_placed :: "schedulingCandidate list list \<Rightarrow> bool" where
  "well_placed candidates \<longleftrightarrow>
     (\<forall>i<length candidates. distinct (map cand_decisionIndex (candidates ! i)) \<and>
        (\<forall>c\<in>set (candidates ! i). cand_scheduleIndex c = i))"

lemma distinct_concat_map:
  assumes "distinct xs" "\<And>x. x \<in> set xs \<Longrightarrow> distinct (f x)"
    and "\<And>x y. x \<in> set xs \<Longrightarrow> y \<in> set xs \<Longrightarrow> x \<noteq> y \<Longrightarrow> set (f x) \<inter> set (f y) = {}"
  shows "distinct (concat (map f xs))"
  using assms
proof (induction xs)
  case (Cons x xs)
  have "set (f x) \<inter> (\<Union>y\<in>set xs. set (f y)) = {}"
    using Cons.prems(1) Cons.prems(3) [of x] by fastforce
  with Cons show ?case by simp
qed simp

lemma fold_max_ge: "(x::nat) \<in> set xs \<Longrightarrow> x \<le> fold max xs a"
proof (induction xs arbitrary: a)
  case (Cons y ys)
  have "b \<le> fold max ys b" for b :: nat
    by (induction ys arbitrary: b) (auto intro: order.trans [OF max.cobounded2])
  with Cons show ?case by (auto intro: order.trans [of _ "max y a"])
qed simp

lemma distinct_turns:
  assumes "well_placed candidates"
  shows "distinct (map cand_pos (allocation_turns schedules candidates))"
proof -
  let ?off = "map (\<lambda>s. initiativeRoundOffset (sch_Tasks s)) schedules"
  let ?t = "turn_candidates ?off candidates"
  have key: "x = y" if "x \<in> set (List.product rs [0..<length candidates])" "y \<in> set (List.product rs [0..<length candidates])"
    "c \<in> set (?t x)" "d \<in> set (?t y)" "cand_pos c = cand_pos d" for x y c d rs
  proof -
    obtain r i q j where xy: "x = (r, i)" "y = (q, j)" by (cases x; cases y) auto
    have ij: "i < length candidates" "j < length candidates" using that xy by auto
    have c: "r - ?off ! i < length (candidates ! i)" "c = candidates ! i ! (r - ?off ! i)" "?off ! i \<le> r"
      and d: "q - ?off ! j < length (candidates ! j)" "d = candidates ! j ! (q - ?off ! j)" "?off ! j \<le> q"
      using that(3,4) xy by (auto simp: turn_candidates_def split: if_splits)
    have "cand_scheduleIndex c = i" "cand_scheduleIndex d = j"
      using assms ij c d by (auto simp: well_placed_def)
    with that(5) have eq: "i = j" "cand_decisionIndex c = cand_decisionIndex d" by (auto simp: cand_pos_def)
    then have "r - ?off ! i = q - ?off ! i"
      using assms ij c d nth_eq_iff_index_eq [of "map cand_decisionIndex (candidates ! i)" "r - ?off ! i" "q - ?off ! i"]
      by (auto simp: well_placed_def)
    with eq c(3) d(3) xy show "x = y" by auto
  qed
  have "distinct (concat (map (\<lambda>x. map cand_pos (?t x)) (List.product rs [0..<length candidates])))" if "distinct rs" for rs
  proof (rule distinct_concat_map)
    show "distinct (List.product rs [0..<length candidates])" using that by (simp add: distinct_product)
    show "distinct (map cand_pos (?t x))" for x by (cases x) (simp add: turn_candidates_def)
    show "set (map cand_pos (?t x)) \<inter> set (map cand_pos (?t y)) = {}"
      if "x \<in> set (List.product rs [0..<length candidates])" "y \<in> set (List.product rs [0..<length candidates])" "x \<noteq> y" for x y
      using key [OF that(1,2)] that(3) unfolding set_map by blast
  qed
  then show ?thesis
    by (simp add: allocation_turns_def Let_def map_concat comp_def)
qed

lemma set_turns:
  assumes "length schedules = length candidates"
  shows "set (allocation_turns schedules candidates) = (\<Union>cs\<in>set candidates. set cs)"
proof
  let ?off = "map (\<lambda>s. initiativeRoundOffset (sch_Tasks s)) schedules"
  let ?max = "fold max (map2 (\<lambda>offset cs. offset + length cs) ?off candidates) 0"
  show "set (allocation_turns schedules candidates) \<subseteq> (\<Union>cs\<in>set candidates. set cs)"
    by (auto simp: allocation_turns_def Let_def turn_candidates_def split: if_splits)
       (metis not_le nth_mem)+
  show "(\<Union>cs\<in>set candidates. set cs) \<subseteq> set (allocation_turns schedules candidates)"
  proof
    fix c
    assume "c \<in> (\<Union>cs\<in>set candidates. set cs)"
    then obtain i k where ik: "i < length candidates" "k < length (candidates ! i)" "c = candidates ! i ! k"
      by (auto simp: in_set_conv_nth)
    have "?off ! i + length (candidates ! i) \<in> set (map2 (\<lambda>offset cs. offset + length cs) ?off candidates)"
      using ik(1) assms by (force simp: in_set_conv_nth)
    from fold_max_ge [OF this, of 0] ik(2) have "?off ! i + k < ?max" by linarith
    then have "(?off ! i + k, i) \<in> set (List.product [0..<?max] [0..<length candidates])"
      using ik(1) by simp
    moreover have "c \<in> set (turn_candidates ?off candidates (?off ! i + k, i))"
      using ik by (simp add: turn_candidates_def)
    ultimately show "c \<in> set (allocation_turns schedules candidates)"
      unfolding allocation_turns_def Let_def by (auto simp del: set_product)
  qed
qed

section \<open>When a member may start\<close>

definition pins_current_contract ::
  "Task \<Rightarrow> InitiativeEdge \<Rightarrow> (string \<rightharpoonup> ComponentContractArtifact) \<Rightarrow> string list \<Rightarrow> bool" where
  "pins_current_contract t e arts handles \<longleftrightarrow>
     (\<exists>pin\<in>set (task_ConsumedContracts t). \<exists>a. arts (pin_ArtifactHandle pin) = Some a \<and>
        pin_ArtifactHandle pin \<in> set handles \<and> cart_ProducerTaskHandle a = edge_From e \<and>
        pin_Kind pin = edge_RequiredArtifactKind e \<and> cart_Kind a = pin_Kind pin \<and>
        cart_ContentHash a = pin_ContentHash pin)"

definition predecessor_done :: "(string \<rightharpoonup> Task) \<Rightarrow> InitiativeEdge \<Rightarrow> bool" where
  "predecessor_done T e \<longleftrightarrow> (\<exists>t. T (edge_From e) = Some t \<and> SatisfiesInitiativeDependency (task_State t))"

definition may_start ::
  "DevelopmentInitiative \<Rightarrow> Task \<Rightarrow> (string \<rightharpoonup> Task) \<Rightarrow> (string \<rightharpoonup> ComponentContractArtifact) \<Rightarrow> bool" where
  "may_start i t T arts \<longleftrightarrow>
     (\<forall>e\<in>set (ini_Edges i). edge_To e = task_Handle t \<longrightarrow>
        (if edge_Kind e = EdgeConsumesArtifact then pins_current_contract t e arts (ini_ContractArtifacts i)
         else edge_Kind e = EdgeBlocksValidation \<or> predecessor_done T e))"

lemma pins_current_iff:
  "snd (pins_current b p k arts hs pins) \<longleftrightarrow>
     (\<exists>pin\<in>set pins. \<exists>a. arts (pin_ArtifactHandle pin) = Some a \<and> pin_ArtifactHandle pin \<in> set hs \<and>
        cart_ProducerTaskHandle a = p \<and> pin_Kind pin = k \<and> cart_Kind a = pin_Kind pin \<and>
        cart_ContentHash a = pin_ContentHash pin)"
  by (induction pins arbitrary: b) (auto split: option.splits)

lemma pins_current_pinned: "snd (pins_current b p k arts hs pins) \<Longrightarrow> fst (pins_current b p k arts hs pins)"
  by (induction pins arbitrary: b) (auto split: option.splits if_splits)

lemma taskPinsCurrentContract_iff:
  "snd (taskPinsCurrentContract t (edge_From e) (edge_RequiredArtifactKind e) arts hs) \<longleftrightarrow>
     pins_current_contract t e arts hs"
  by (simp add: taskPinsCurrentContract_def pins_current_iff pins_current_contract_def)

lemma artifact_edges_reason_None:
  "artifact_edges_reason t arts hs es = None \<longleftrightarrow>
     (\<forall>e\<in>set es. edge_To e = task_Handle t \<and> edge_Kind e = EdgeConsumesArtifact \<longrightarrow> pins_current_contract t e arts hs)"
proof (induction es)
  case (Cons e es)
  let ?r = "taskPinsCurrentContract t (edge_From e) (edge_RequiredArtifactKind e) arts hs"
  obtain p c where r: "?r = (p, c)" by force
  have "c \<longleftrightarrow> pins_current_contract t e arts hs" "c \<Longrightarrow> p"
    using taskPinsCurrentContract_iff [of t e arts hs] pins_current_pinned r
    by (auto simp: taskPinsCurrentContract_def dest: pins_current_pinned)
      (metis fst_conv pins_current_pinned snd_conv)
  with Cons show ?case by (auto simp: r)
qed simp

lemma artifact_edges_reason_values:
  "artifact_edges_reason t arts hs es = Some r \<Longrightarrow> r \<in> {ScheduleContractStale, ScheduleDependencyBlocked}"
  by (induction es) (auto split: if_splits prod.splits)

lemma start_edges_reason_values:
  "start_edges_reason i t T es \<in> {no_reason, ScheduleIntegrationHeld, ScheduleDependencyBlocked}"
  by (induction es) (auto simp: Let_def)

lemma start_edges_reason_none:
  "start_edges_reason i t T es = no_reason \<longleftrightarrow>
     (\<forall>e\<in>set es. edge_To e = task_Handle t \<and> edge_Kind e \<noteq> EdgeBlocksValidation \<and> edge_Kind e \<noteq> EdgeConsumesArtifact \<longrightarrow>
        predecessor_done T e)"
  by (induction es) (auto simp: Let_def predecessor_done_def taskDependencySatisfied_def split: option.splits)

lemma launchDependencyReason_none:
  "launchDependencyReason i t T arts (ini_ContractArtifacts i) = no_reason \<longleftrightarrow> may_start i t T arts"
proof (cases "artifact_edges_reason t arts (ini_ContractArtifacts i) (ini_Edges i)")
  case None
  then show ?thesis
    using artifact_edges_reason_None [of t arts "ini_ContractArtifacts i" "ini_Edges i"]
    by (auto simp: launchDependencyReason_def start_edges_reason_none may_start_def)
next
  case (Some r)
  moreover have "\<not> may_start i t T arts"
    using Some artifact_edges_reason_None [of t arts "ini_ContractArtifacts i" "ini_Edges i"]
    by (auto simp: may_start_def)
  ultimately show ?thesis
    using artifact_edges_reason_values [OF Some] by (auto simp: launchDependencyReason_def)
qed

lemma launchDependencyReason_not_queued:
  "launchDependencyReason i t T arts hs \<noteq> ScheduleResourceQueued"
  using start_edges_reason_values [of i t T "ini_Edges i"]
  by (auto simp: launchDependencyReason_def dest: artifact_edges_reason_values split: option.split)

section \<open>The decisions before allocation\<close>

definition startable :: "DevelopmentInitiative \<Rightarrow> Task \<Rightarrow> (string \<rightharpoonup> Task) \<Rightarrow> (string \<rightharpoonup> ComponentContractArtifact) \<Rightarrow> bool" where
  "startable i t T arts \<longleftrightarrow> task_State t = TaskReady \<and> ini_State i = InitiativeActive \<and> may_start i t T arts"

definition initial_decision ::
  "DevelopmentInitiative \<Rightarrow> (string \<rightharpoonup> Task) \<Rightarrow> (string \<rightharpoonup> ComponentContractArtifact) \<Rightarrow> InitiativeTaskSchedule \<Rightarrow> bool" where
  "initial_decision i T arts d \<longleftrightarrow>
     (\<exists>t. T (dec_TaskHandle d) = Some t \<and> dec_State d = task_State t \<and> \<not> dec_Launchable d \<and>
        dec_Reason d = (if task_State t = TaskReady \<and> ini_State i = InitiativeActive
          then launchDependencyReason i t T arts (ini_ContractArtifacts i) else no_reason))"

lemma collect_decisions_Inr:
  "collect_decisions u h T owner rts = Inr (ds, owners) \<Longrightarrow>
     map dec_TaskHandle ds = map snd rts \<and> distinct (map snd rts) \<and> dom owner \<inter> set (map snd rts) = {} \<and>
     dom owners = dom owner \<union> set (map snd rts) \<and>
     (\<forall>d\<in>set ds. \<not> dec_Launchable d \<and> dec_Reason d = no_reason \<and>
        (\<exists>t. T (dec_TaskHandle d) = Some t \<and> dec_State d = task_State t))"
proof (induction rts arbitrary: owner ds)
  case (Cons rt rts)
  obtain r hd where rt: "rt = (r, hd)" by force
  from Cons.prems obtain t ds' where t: "owner hd = None" "T hd = Some t"
    and rec: "collect_decisions u h T (owner(hd \<mapsto> h)) rts = Inr (ds', owners)"
    and ds: "ds = \<lparr>dec_TaskHandle = hd, dec_State = task_State t, dec_Launchable = False, dec_Reason = no_reason\<rparr> # ds'"
    by (auto simp: rt split: option.splits if_splits sum.splits)
  have dom: "dom (owner(hd \<mapsto> h)) = insert hd (dom owner)" "hd \<notin> dom owner" using t(1) by auto
  note IH = Cons.IH [OF rec, unfolded dom(1)]
  then have "hd \<notin> set (map snd rts)" by blast
  with IH t(2) dom(2) show ?case
    unfolding rt ds list.map list.set distinct.simps snd_conv by simp
qed simp

lemma map_snd_component_tasks: "map snd (component_tasks i) = task_members i"
  by (simp add: component_tasks_def task_members_def map_concat comp_def)

lemma ready_decision_handle [simp]:
  "dec_TaskHandle (ready_decision i T arts d) = dec_TaskHandle d" "dec_State (ready_decision i T arts d) = dec_State d"
  by (simp_all add: ready_decision_def split: option.split)

definition entry_ok ::
  "(string \<rightharpoonup> Task) \<Rightarrow> (string \<rightharpoonup> ComponentContractArtifact) \<Rightarrow> nat \<Rightarrow> DevelopmentInitiative \<Rightarrow>
     InitiativeSchedule \<times> schedulingCandidate list \<Rightarrow> bool" where
  "entry_ok T arts n i e \<longleftrightarrow>
     sch_InitiativeHandle (fst e) = ini_Handle i \<and>
     map dec_TaskHandle (sch_Tasks (fst e)) = sort (task_members i) \<and>
     (\<forall>d\<in>set (sch_Tasks (fst e)). initial_decision i T arts d) \<and>
     snd e = ready_candidates n i T (sch_Tasks (fst e))"

lemma scheduleOneInitiative_Inr:
  assumes "scheduleOneInitiative u n i T arts owner = Inr (s, cs, owners)"
  shows "entry_ok T arts n i (s, cs)" "distinct (task_members i)" "dom owner \<inter> set (task_members i) = {}"
    "dom owners = dom owner \<union> set (task_members i)"
proof -
  from assms obtain ds where c: "collect_decisions u (ini_Handle i) T owner (component_tasks i) = Inr (ds, owners)"
    and s: "s = \<lparr>sch_InitiativeHandle = ini_Handle i, sch_State = InitiativeStateOther [],
      sch_Tasks = map (ready_decision i T arts) (sort_key dec_TaskHandle ds)\<rparr>"
    and cs: "cs = ready_candidates n i T (sch_Tasks s)"
    by (auto simp: scheduleOneInitiative_def Let_def split: sum.splits)
  note d = collect_decisions_Inr [OF c, unfolded map_snd_component_tasks]
  have "map dec_TaskHandle (sort_key dec_TaskHandle ds) = sort (task_members i)"
  proof (rule properties_for_sort [symmetric])
    show "mset (map dec_TaskHandle (sort_key dec_TaskHandle ds)) = mset (task_members i)"
      using d by (metis mset_map mset_sort)
  qed simp
  then have h: "map dec_TaskHandle (sch_Tasks s) = sort (task_members i)" by (simp add: s comp_def)
  have "initial_decision i T arts (ready_decision i T arts x)" if "x \<in> set ds" for x
  proof -
    from d that obtain t where "T (dec_TaskHandle x) = Some t" "dec_State x = task_State t" "\<not> dec_Launchable x"
      "dec_Reason x = no_reason" by blast
    then show ?thesis
      unfolding initial_decision_def ready_decision_handle by (auto simp: ready_decision_def)
  qed
  then have "\<forall>x\<in>set (sch_Tasks s). initial_decision i T arts x" by (simp add: s)
  with h show "entry_ok T arts n i (s, cs)" by (simp add: entry_ok_def cs) (simp add: s)
  from d show "distinct (task_members i)" "dom owner \<inter> set (task_members i) = {}"
    "dom owners = dom owner \<union> set (task_members i)" by auto
qed

lemma schedule_each_Inr:
  "schedule_each u T arts owner n is = Inr each \<Longrightarrow>
     length each = length is \<and>
     (\<forall>j<length is. entry_ok T (arts (ini_Handle (is ! j))) (n + j) (is ! j) (each ! j)) \<and>
     (\<forall>i\<in>set is. Initiative_Validate i = None) \<and>
     distinct (concat (map task_members is)) \<and> dom owner \<inter> set (concat (map task_members is)) = {}"
proof (induction "is" arbitrary: owner n each)
  case (Cons i "is")
  from Cons.prems obtain s cs owners rest where v: "Initiative_Validate i = None"
    and one: "scheduleOneInitiative u n i T (arts (ini_Handle i)) owner = Inr (s, cs, owners)"
    and rec: "schedule_each u T arts owners (Suc n) is = Inr rest" and each: "each = (s, cs) # rest"
    by (auto split: option.splits sum.splits)
  note o = scheduleOneInitiative_Inr [OF one]
  note IH = Cons.IH [OF rec]
  have "entry_ok T (arts (ini_Handle ((i # is) ! j))) (n + j) ((i # is) ! j) (each ! j)" if "j < Suc (length is)" for j
    using that o(1) IH by (cases j) (auto simp: each)
  moreover have "distinct (concat (map task_members (i # is)))"
      "dom owner \<inter> set (concat (map task_members (i # is))) = {}"
    using o(2-4) IH unfolding list.map concat.simps distinct_append set_append by blast+
  ultimately show ?case
    using IH v by (simp add: each)
qed simp

section \<open>Candidates\<close>

lemma ready_candidates_index:
  "map cand_decisionIndex (ready_candidates n i T ds) =
     filter (\<lambda>j. \<exists>t. T (dec_TaskHandle (ds ! j)) = Some t \<and> task_State t = TaskReady \<and>
       ini_State i = InitiativeActive \<and> dec_Reason (ds ! j) = no_reason) [0..<length ds]"
proof -
  have "map cand_decisionIndex (concat (map (\<lambda>j. case T (dec_TaskHandle (ds ! j)) of None \<Rightarrow> []
         | Some task \<Rightarrow> (if task_State task \<noteq> TaskReady \<or> ini_State i \<noteq> InitiativeActive then []
              else if dec_Reason (ds ! j) = no_reason
              then [\<lparr>cand_scheduleIndex = n, cand_decisionIndex = j, cand_task = task\<rparr>] else [])) js)) =
     filter (\<lambda>j. \<exists>t. T (dec_TaskHandle (ds ! j)) = Some t \<and> task_State t = TaskReady \<and>
       ini_State i = InitiativeActive \<and> dec_Reason (ds ! j) = no_reason) js" for js
    by (induction js) (auto split: option.split)
  then show ?thesis by (simp add: ready_candidates_def)
qed

lemma ready_candidates_set:
  "c \<in> set (ready_candidates n i T ds) \<longleftrightarrow>
     cand_scheduleIndex c = n \<and> cand_decisionIndex c < length ds \<and>
     T (dec_TaskHandle (ds ! cand_decisionIndex c)) = Some (cand_task c) \<and> task_State (cand_task c) = TaskReady \<and>
     ini_State i = InitiativeActive \<and> dec_Reason (ds ! cand_decisionIndex c) = no_reason"
proof -
  have "c \<in> set (ready_candidates n i T ds) \<longleftrightarrow> (\<exists>j<length ds. \<exists>t. T (dec_TaskHandle (ds ! j)) = Some t \<and>
      task_State t = TaskReady \<and> ini_State i = InitiativeActive \<and> dec_Reason (ds ! j) = no_reason \<and>
      c = \<lparr>cand_scheduleIndex = n, cand_decisionIndex = j, cand_task = t\<rparr>)"
    unfolding ready_candidates_def set_concat set_map set_upt
    by (auto split: option.splits if_splits) force+
  then show ?thesis by (cases c) auto
qed

text \<open>The facts about one scheduling run, between the collected entries and the result.\<close>

definition run_entries ::
  "print_table \<Rightarrow> DevelopmentInitiative list \<Rightarrow> (string \<rightharpoonup> Task) \<Rightarrow> ComponentContractArtifact list \<Rightarrow> artifact_index \<Rightarrow>
     (InitiativeSchedule \<times> schedulingCandidate list) list \<Rightarrow> bool" where
  "run_entries u is T artifacts arts each \<longleftrightarrow>
     indexSchedulingArtifacts u (schedule_order is) artifacts = Inr arts \<and>
     schedule_each u T arts Map.empty 0 (schedule_order is) = Inr each"

definition run_turns :: "(InitiativeSchedule \<times> schedulingCandidate list) list \<Rightarrow> schedulingCandidate list" where
  "run_turns each = allocation_turns (map fst each) (map snd each)"

lemma scheduleInitiatives_Inr:
  assumes "scheduleInitiatives u is T artifacts limits usage = Inr S"
  obtains arts each where "run_entries u is T artifacts arts each"
    and "S = map2 (\<lambda>i s. s\<lparr>sch_State := deriveInitiativeState i (sch_Tasks s)\<rparr>) (schedule_order is)
      (fst (fold (allocate_turn limits) (run_turns each) (map fst each, usage)))"
  using assms that
  by (auto simp: scheduleInitiatives_def Let_def run_entries_def run_turns_def allocateInitiativeCandidates_def
      split: sum.splits)

lemma distinct_concat_nth:
  "distinct (concat xss) \<Longrightarrow> i < length xss \<Longrightarrow> j < length xss \<Longrightarrow> a < length (xss ! i) \<Longrightarrow> b < length (xss ! j) \<Longrightarrow>
     xss ! i ! a = xss ! j ! b \<Longrightarrow> i = j \<and> a = b"
proof (induction xss arbitrary: i j)
  case (Cons xs xss)
  have cross: "xs ! a \<noteq> xss ! k ! b" if "a < length xs" "k < length xss" "b < length (xss ! k)" for a b k
    using Cons.prems(1) that by (metis IntI concat.simps(2) distinct_append empty_iff nth_mem set_concat UN_I)
  show ?case
  proof (cases i; cases j)
    assume "i = 0" "j = 0"
    then show ?thesis using Cons.prems by (simp add: nth_eq_iff_index_eq)
  next
    fix k assume "i = 0" "j = Suc k"
    then show ?thesis using Cons.prems cross [of a k b] by simp
  next
    fix k assume "i = Suc k" "j = 0"
    then show ?thesis using Cons.prems cross [of b k a] by simp
  next
    fix k l assume "i = Suc k" "j = Suc l"
    then show ?thesis using Cons by simp
  qed
qed simp

lemma mset_concat_sort: "mset (concat (map (\<lambda>i. sort (f i)) xs)) = mset (concat (map f xs))"
  by (induction xs) simp_all

lemma run_turns_entry:
  assumes "c \<in> set (run_turns each)"
  obtains j where "j < length each" "c \<in> set (snd (each ! j))"
proof -
  have "c \<in> (\<Union>cs\<in>set (map snd each). set cs)"
    using assms unfolding run_turns_def by (subst (asm) set_turns) simp_all
  then show thesis using that by (auto simp: in_set_conv_nth [of _ each])
qed

lemma run_entries_facts:
  assumes "run_entries u is T artifacts arts each"
  shows "length each = length is"
    and "\<And>j. j < length is \<Longrightarrow> entry_ok T (arts (ini_Handle (schedule_order is ! j))) j (schedule_order is ! j) (each ! j)"
    and "well_placed (map snd each)"
    and "\<And>c. c \<in> set (run_turns each) \<Longrightarrow> has_pos (map fst each) (cand_pos c)"
    and "distinct (map cand_pos (run_turns each))"
    and "inj_on (\<lambda>p. dec_TaskHandle (decision_at (map fst each) p)) {p. has_pos (map fst each) p}"
proof -
  note e = assms [unfolded run_entries_def, THEN conjunct2, THEN schedule_each_Inr]
  have len: "length (schedule_order is) = length is" by (simp add: schedule_order_def)
  with e show l: "length each = length is" by simp
  show ok: "entry_ok T (arts (ini_Handle (schedule_order is ! j))) j (schedule_order is ! j) (each ! j)"
    if "j < length is" for j
    using e that len by simp
  show wp: "well_placed (map snd each)"
    unfolding well_placed_def
  proof (intro allI impI)
    fix j assume j: "j < length (map snd each)"
    then have "snd (each ! j) = ready_candidates j (schedule_order is ! j) T (sch_Tasks (fst (each ! j)))"
      using ok [of j] l by (simp add: entry_ok_def)
    then show "distinct (map cand_decisionIndex (map snd each ! j)) \<and> (\<forall>c\<in>set (map snd each ! j). cand_scheduleIndex c = j)"
      using j by (simp add: ready_candidates_index ready_candidates_set)
  qed
  show "distinct (map cand_pos (run_turns each))"
    unfolding run_turns_def by (rule distinct_turns [OF wp])
  show "has_pos (map fst each) (cand_pos c)" if "c \<in> set (run_turns each)" for c
  proof -
    from that obtain j where j: "j < length each" "c \<in> set (snd (each ! j))" by (rule run_turns_entry)
    then have "c \<in> set (ready_candidates j (schedule_order is ! j) T (sch_Tasks (fst (each ! j))))"
      using ok [of j] l by (simp add: entry_ok_def)
    with j show ?thesis by (simp add: ready_candidates_set has_pos_def cand_pos_def)
  qed
  let ?H = "map (\<lambda>x. map dec_TaskHandle (sch_Tasks (fst x))) each"
  have H: "?H = map (\<lambda>i. sort (task_members i)) (schedule_order is)"
    using ok l len by (intro nth_equalityI) (auto simp: entry_ok_def)
  have "mset (concat ?H) = mset (concat (map task_members (schedule_order is)))"
    unfolding H by (rule mset_concat_sort)
  moreover have "distinct (concat (map task_members (schedule_order is)))" using e by blast
  ultimately have d: "distinct (concat ?H)" by (metis mset_eq_imp_distinct_iff)
  show "inj_on (\<lambda>p. dec_TaskHandle (decision_at (map fst each) p)) {p. has_pos (map fst each) p}"
  proof (rule inj_onI, clarsimp simp: has_pos_def)
    fix a b a' b'
    assume h: "a < length each" "b < length (sch_Tasks (fst (each ! a)))" "a' < length each" "b' < length (sch_Tasks (fst (each ! a')))"
      "dec_TaskHandle (decision_at (map fst each) (a, b)) = dec_TaskHandle (decision_at (map fst each) (a', b'))"
    then show "a = a' \<and> b = b'"
      using distinct_concat_nth [OF d, of a a' b b'] by (simp add: decision_at_def)
  qed
qed

section \<open>The result of a run\<close>

lemma scheduleInitiatives_result:
  assumes "scheduleInitiatives u is T artifacts limits usage = Inr S"
  obtains arts each where "run_entries u is T artifacts arts each"
    and "\<And>p. has_pos S p \<longleftrightarrow> has_pos (map fst each) p"
    and "\<And>p. has_pos S p \<Longrightarrow> decision_at S p = settle limits usage (run_turns each) p (decision_at (map fst each) p)"
    and "map sch_InitiativeHandle S = map ini_Handle (schedule_order is)"
    and "\<And>j. j < length is \<Longrightarrow> sch_State (S ! j) = deriveInitiativeState (schedule_order is ! j) (sch_Tasks (S ! j))"
proof -
  from scheduleInitiatives_Inr [OF assms] obtain arts each where r: "run_entries u is T artifacts arts each"
    and S: "S = map2 (\<lambda>i s. s\<lparr>sch_State := deriveInitiativeState i (sch_Tasks s)\<rparr>) (schedule_order is)
      (fst (fold (allocate_turn limits) (run_turns each) (map fst each, usage)))" by blast
  let ?F = "fst (fold (allocate_turn limits) (run_turns each) (map fst each, usage))"
  note f = run_entries_facts [OF r]
  have pos: "\<forall>c\<in>set (run_turns each). has_pos (map fst each) (cand_pos c)" using f(4) by blast
  note a = allocate_fold [OF f(5) pos, where limits = limits and u = usage]
  have h: "map sch_InitiativeHandle ?F = map sch_InitiativeHandle (map fst each)" by (rule a(4))
  from arg_cong [OF h, of length] f(1) have len: "length ?F = length is" by simp
  have ord: "length (schedule_order is) = length is" by (simp add: schedule_order_def)
  have nth: "S ! j = (?F ! j)\<lparr>sch_State := deriveInitiativeState (schedule_order is ! j) (sch_Tasks (?F ! j))\<rparr>"
    if "j < length is" for j using that len ord by (simp add: S)
  have lS: "length S = length is" using len ord by (simp add: S)
  have p: "has_pos S p \<longleftrightarrow> has_pos ?F p" for p
    unfolding has_pos_def using nth [of "fst p"] lS len by auto
  have d: "decision_at S p = decision_at ?F p" if "has_pos S p" for p
    using that nth [of "fst p"] lS by (simp add: decision_at_def has_pos_def)
  show thesis
  proof (rule that [OF r])
    show hp: "has_pos S p \<longleftrightarrow> has_pos (map fst each) p" for p using p a(2) by simp
    show "decision_at S p = settle limits usage (run_turns each) p (decision_at (map fst each) p)" if "has_pos S p" for p
      using d [OF that] a(3) [of p] that hp by simp
    show "sch_State (S ! j) = deriveInitiativeState (schedule_order is ! j) (sch_Tasks (S ! j))" if "j < length is" for j
      using nth [OF that] by simp
    have "map sch_InitiativeHandle S = map sch_InitiativeHandle ?F"
      using nth lS len by (intro nth_equalityI) auto
    also have "\<dots> = map ini_Handle (schedule_order is)"
      unfolding h using f(1,2) ord by (intro nth_equalityI) (auto simp: entry_ok_def)
    finally show "map sch_InitiativeHandle S = map ini_Handle (schedule_order is)" .
  qed
qed

definition launched :: "(string \<rightharpoonup> Task) \<Rightarrow> InitiativeSchedule list \<Rightarrow> (Task \<Rightarrow> bool) \<Rightarrow> string set" where
  "launched T S P =
     {h. \<exists>s\<in>set S. \<exists>d\<in>set (sch_Tasks s). dec_TaskHandle d = h \<and> dec_Launchable d \<and> (\<exists>t. T h = Some t \<and> P t)}"

lemma settle_simps [simp]:
  "dec_TaskHandle (settle limits u cs p d) = dec_TaskHandle d" "dec_State (settle limits u cs p d) = dec_State d"
  by (simp_all add: settle_def)

lemma settle_launchable:
  "dec_Launchable (settle limits u cs p d) \<longleftrightarrow>
     p \<in> cand_pos ` set (grants (avail limits) pay u cs) \<or> dec_Launchable d"
  by (simp add: settle_def)

lemma settle_queued:
  "dec_Reason d \<noteq> ScheduleResourceQueued \<Longrightarrow> dec_Reason (settle limits u cs p d) = ScheduleResourceQueued \<longleftrightarrow>
     p \<notin> cand_pos ` set (grants (avail limits) pay u cs) \<and> p \<in> cand_pos ` set cs"
  by (simp add: settle_def)

lemma run_candidate:
  assumes "run_entries u is T artifacts arts each" "c \<in> set (run_turns each)"
  shows "T (dec_TaskHandle (decision_at (map fst each) (cand_pos c))) = Some (cand_task c)"
    and "cand_scheduleIndex c < length is"
    and "startable (schedule_order is ! cand_scheduleIndex c) (cand_task c) T
      (arts (ini_Handle (schedule_order is ! cand_scheduleIndex c)))"
proof -
  note f = run_entries_facts [OF assms(1)]
  from assms(2) obtain j where j: "j < length each" "c \<in> set (snd (each ! j))" by (rule run_turns_entry)
  have ok: "entry_ok T (arts (ini_Handle (schedule_order is ! j))) j (schedule_order is ! j) (each ! j)"
    using f(1,2) j by simp
  then have c: "cand_scheduleIndex c = j" "cand_decisionIndex c < length (sch_Tasks (fst (each ! j)))"
    "T (dec_TaskHandle (sch_Tasks (fst (each ! j)) ! cand_decisionIndex c)) = Some (cand_task c)"
    "task_State (cand_task c) = TaskReady" "ini_State (schedule_order is ! j) = InitiativeActive"
    "dec_Reason (sch_Tasks (fst (each ! j)) ! cand_decisionIndex c) = no_reason"
    using j(2) by (auto simp: entry_ok_def ready_candidates_set)
  show "T (dec_TaskHandle (decision_at (map fst each) (cand_pos c))) = Some (cand_task c)"
    "cand_scheduleIndex c < length is"
    using c j f(1) by (simp_all add: decision_at_def cand_pos_def)
  have "initial_decision (schedule_order is ! j) T (arts (ini_Handle (schedule_order is ! j)))
      (sch_Tasks (fst (each ! j)) ! cand_decisionIndex c)"
    using ok c(2) by (simp add: entry_ok_def)
  then have "launchDependencyReason (schedule_order is ! j) (cand_task c) T (arts (ini_Handle (schedule_order is ! j)))
      (ini_ContractArtifacts (schedule_order is ! j)) = no_reason"
    using c by (auto simp: initial_decision_def)
  then show "startable (schedule_order is ! cand_scheduleIndex c) (cand_task c) T
      (arts (ini_Handle (schedule_order is ! cand_scheduleIndex c)))"
    using c(1,4,5) launchDependencyReason_none by (simp add: startable_def)
qed

lemma launched_card:
  assumes "run_entries u is T artifacts arts each" and pos: "\<And>p. has_pos S p \<longleftrightarrow> has_pos (map fst each) p"
    and dec: "\<And>p. has_pos S p \<Longrightarrow> decision_at S p = settle limits usage (run_turns each) p (decision_at (map fst each) p)"
  shows "card (launched T S P) = length (filter (\<lambda>c. P (cand_task c)) (grants (avail limits) pay usage (run_turns each)))"
proof -
  note f = run_entries_facts [OF assms(1)]
  let ?G = "grants (avail limits) pay usage (run_turns each)"
  let ?h = "\<lambda>c. dec_TaskHandle (decision_at (map fst each) (cand_pos c))"
  have G: "set ?G \<subseteq> set (run_turns each)" by (rule set_grants)
  have init: "\<not> dec_Launchable (decision_at (map fst each) p)" if p: "has_pos (map fst each) p" for p
  proof -
    have "decision_at (map fst each) p \<in> set (sch_Tasks (fst (each ! fst p)))" "fst p < length is"
      using p f(1) by (auto simp: has_pos_def decision_at_def)
    then show ?thesis using f(2) [of "fst p"] by (auto simp: entry_ok_def initial_decision_def)
  qed
  have "launched T S P = ?h ` set (filter (\<lambda>c. P (cand_task c)) ?G)" (is "_ = ?R")
  proof
    show "launched T S P \<subseteq> ?R"
    proof
      fix h assume "h \<in> launched T S P"
      then obtain d t where d: "\<exists>s\<in>set S. d \<in> set (sch_Tasks s)" "dec_TaskHandle d = h" "dec_Launchable d" "T h = Some t" "P t"
        by (auto simp: launched_def)
      then obtain p where p: "has_pos S p" "decision_at S p = d" using decision_occurs by blast
      have "p \<in> cand_pos ` set ?G"
        using d(3) init [of p] p(1) pos unfolding p(2) [symmetric] dec [OF p(1)] settle_launchable by blast
      then obtain c where c: "c \<in> set ?G" "cand_pos c = p" by blast
      have "?h c = h" using c(2) p d(2) dec [OF p(1)] by auto
      moreover from this have "cand_task c = t"
        using run_candidate(1) [OF assms(1), of c] c(1) G d(4) by auto
      ultimately show "h \<in> ?R" using c(1) d(5) by auto
    qed
    show "?R \<subseteq> launched T S P"
    proof
      fix h assume "h \<in> ?R"
      then obtain c where c: "c \<in> set ?G" "P (cand_task c)" "h = ?h c" by auto
      then have ct: "c \<in> set (run_turns each)" using G by blast
      have p: "has_pos S (cand_pos c)" using f(4) [OF ct] pos by simp
      have "dec_Launchable (decision_at S (cand_pos c))" "dec_TaskHandle (decision_at S (cand_pos c)) = h"
        using dec [OF p] c by (auto simp: settle_def)
      moreover have "\<exists>s\<in>set S. decision_at S (cand_pos c) \<in> set (sch_Tasks s)" using decision_occurs p by blast
      moreover have "T h = Some (cand_task c)" using run_candidate(1) [OF assms(1) ct] c(3) by simp
      ultimately show "h \<in> launched T S P"
        unfolding launched_def using c(2) by blast
    qed
  qed
  moreover have "inj_on ?h (set ?G)"
  proof (rule inj_onI)
    fix c d assume cd: "c \<in> set ?G" "d \<in> set ?G" "?h c = ?h d"
    then have "c \<in> set (run_turns each)" "d \<in> set (run_turns each)" using G by auto
    moreover from this cd(3) have "cand_pos c = cand_pos d" using f(4,6) by (auto dest: inj_onD)
    ultimately show "c = d" using f(5) by (auto simp: distinct_map dest: inj_onD)
  qed
  moreover have "distinct ?G" using f(5) distinct_grants by (auto simp: distinct_map)
  ultimately show ?thesis
    by (simp add: card_image inj_on_subset [of _ "set ?G"] distinct_card [symmetric] del: set_filter)
qed

section \<open>Usage counted from the tasks\<close>

definition task_index :: "Task list \<Rightarrow> string \<rightharpoonup> Task" where
  "task_index tasks = map_of (map (\<lambda>t. (task_Handle t, t)) tasks)"

definition running :: "Task list \<Rightarrow> (Task \<Rightarrow> bool) \<Rightarrow> nat" where
  "running tasks P = length (filter (\<lambda>t. taskConsumesWorker (task_State t) \<and> P t) tasks)"

lemma index_task_set_Inr:
  "index_task_set u limits m ts = Inr idx \<Longrightarrow> idx = m ++ task_index ts \<and> distinct (map task_Handle ts) \<and>
     dom m \<inter> task_Handle ` set ts = {}"
proof (induction ts arbitrary: m)
  case Nil
  then show ?case by (simp add: task_index_def)
next
  case (Cons t ts)
  have rec: "index_task_set u limits (m(task_Handle t \<mapsto> t)) ts = Inr idx" and new: "task_Handle t \<notin> dom m"
    using Cons.prems by auto
  have dom: "dom (m(task_Handle t \<mapsto> t)) = insert (task_Handle t) (dom m)" by simp
  note IH = Cons.IH [OF rec, unfolded dom]
  then have fresh: "task_Handle t \<notin> task_Handle ` set ts" by blast
  have "task_Handle t \<notin> dom (task_index ts)" using fresh by (auto simp: task_index_def dom_map_of_conv_image_fst)
  then have "m(task_Handle t \<mapsto> t) ++ task_index ts = m ++ task_index (t # ts)"
    by (auto simp: task_index_def map_add_def fun_eq_iff split: option.split)
  with IH have "idx = m ++ task_index (t # ts)" by metis
  moreover have "distinct (map task_Handle (t # ts))" using IH fresh by simp
  moreover have "dom m \<inter> task_Handle ` set (t # ts) = {}" using IH new by auto
  ultimately show ?case by blast
qed

definition usage_fold :: "Task list \<Rightarrow> schedulingUsage" where
  "usage_fold tasks = fold (\<lambda>task usage. if taskConsumesWorker (task_State task) then charge task usage else usage) tasks no_usage"

lemma usage_fold_gen:
  fixes acc :: schedulingUsage and tasks :: "Task list"
  defines "r \<equiv> fold (\<lambda>task usage. if taskConsumesWorker (task_State task) then charge task usage else usage) tasks acc"
  shows "use_host r = use_host acc + word_of_nat (running tasks (\<lambda>_. True))"
    and "use_repositories r x = use_repositories acc x + word_of_nat (running tasks (\<lambda>t. task_RepositoryID t = x))"
    and "use_profiles r x = use_profiles acc x + word_of_nat (running tasks (\<lambda>t. task_WorkerProfileID t = x))"
  unfolding r_def by (induction tasks arbitrary: acc) (auto simp: running_def charge_def)

lemma sint_word_of_nat: "n < 2 ^ 63 \<Longrightarrow> sint (word_of_nat n :: int64) = int n"
  by (simp add: signed_of_nat signed_take_bit_int_eq_self)

lemma running_le: "running tasks P \<le> length tasks"
  by (simp add: running_def)

lemma indexSchedulingTasks_Inr:
  assumes "indexSchedulingTasks u tasks limits = Inr (T, usage)" "length tasks < 2 ^ 63"
  shows "T = task_index tasks"
    and "sint (use_host usage) = int (running tasks (\<lambda>_. True))"
    and "sint (use_repositories usage r) = int (running tasks (\<lambda>t. task_RepositoryID t = r))"
    and "sint (use_profiles usage p) = int (running tasks (\<lambda>t. task_WorkerProfileID t = p))"
proof -
  have "index_task_set u limits Map.empty tasks = Inr T" and us: "usage = usage_fold tasks"
    using assms(1) by (auto simp: indexSchedulingTasks_def indexSchedulingTaskSet_def usage_fold_def split: sum.splits)
  then show "T = task_index tasks" using index_task_set_Inr by fastforce
  have b: "running tasks P < 2 ^ 63" for P using running_le [of tasks P] assms(2) by linarith
  show "sint (use_host usage) = int (running tasks (\<lambda>_. True))"
    "sint (use_repositories usage r) = int (running tasks (\<lambda>t. task_RepositoryID t = r))"
    "sint (use_profiles usage p) = int (running tasks (\<lambda>t. task_WorkerProfileID t = p))"
    using b usage_fold_gen [of tasks no_usage] by (simp_all add: us usage_fold_def no_usage_def sint_word_of_nat)
qed

lemma ScheduleInitiatives_Inr:
  assumes "ScheduleInitiatives u is tasks artifacts limits = Inr S"
  obtains usage where "indexSchedulingTasks u tasks limits = Inr (task_index tasks, usage)"
    and "scheduleInitiatives u is (task_index tasks) artifacts limits usage = Inr S"
proof -
  from assms obtain T usage where i: "indexSchedulingTasks u tasks limits = Inr (T, usage)"
    and s: "scheduleInitiatives u is T artifacts limits usage = Inr S"
    by (auto simp: ScheduleInitiatives_def split: sum.splits)
  have "T = task_index tasks"
    using i index_task_set_Inr [of u limits Map.empty tasks T]
    by (auto simp: indexSchedulingTasks_def indexSchedulingTaskSet_def split: sum.splits)
  with i s that show thesis by blast
qed

section \<open>Ceilings, work conservation, justification\<close>

lemma schedule_within_limits:
  assumes "scheduleInitiatives u is T artifacts limits usage = Inr S"
  shows "launched T S (\<lambda>_. True) \<noteq> {} \<Longrightarrow>
      sint (use_host usage) + int (card (launched T S (\<lambda>_. True))) \<le> sint (lim_MaxConcurrentTasks limits)"
    and "launched T S (\<lambda>t. task_RepositoryID t = r) \<noteq> {} \<Longrightarrow>
      sint (use_repositories usage r) + int (card (launched T S (\<lambda>t. task_RepositoryID t = r)))
        \<le> sint (lim_MaxConcurrentTasksPerRepository limits)"
    and "launched T S (\<lambda>t. task_WorkerProfileID t = p) \<noteq> {} \<Longrightarrow>
      sint (use_profiles usage p) + int (card (launched T S (\<lambda>t. task_WorkerProfileID t = p)))
        \<le> sint (map_count (lim_WorkerProfileLimits limits) p)"
proof -
  from scheduleInitiatives_result [OF assms] obtain arts each where
    r: "run_entries u is T artifacts arts each" "\<And>p. has_pos S p \<longleftrightarrow> has_pos (map fst each) p"
      "\<And>p. has_pos S p \<Longrightarrow> decision_at S p = settle limits usage (run_turns each) p (decision_at (map fst each) p)"
    by metis
  note card = launched_card [OF r]
  have ne: "launched T S P \<noteq> {} \<Longrightarrow>
      filter (\<lambda>c. P (cand_task c)) (grants (avail limits) pay usage (run_turns each)) \<noteq> []" for P
  proof
    assume h: "launched T S P \<noteq> {}" "filter (\<lambda>c. P (cand_task c)) (grants (avail limits) pay usage (run_turns each)) = []"
    have "launched T S P \<subseteq> (\<Union>s\<in>set S. dec_TaskHandle ` set (sch_Tasks s))" by (auto simp: launched_def)
    then have "finite (launched T S P)" by (rule finite_subset) simp
    with h card [of P] show False by simp
  qed
  show "launched T S (\<lambda>_. True) \<noteq> {} \<Longrightarrow>
      sint (use_host usage) + int (card (launched T S (\<lambda>_. True))) \<le> sint (lim_MaxConcurrentTasks limits)"
    using host.within_ceiling [OF ne [of "\<lambda>_. True"]] by (simp add: card)
  show "launched T S (\<lambda>t. task_RepositoryID t = r) \<noteq> {} \<Longrightarrow>
      sint (use_repositories usage r) + int (card (launched T S (\<lambda>t. task_RepositoryID t = r)))
        \<le> sint (lim_MaxConcurrentTasksPerRepository limits)"
    using repository.within_ceiling [OF ne] by (simp add: card)
  show "launched T S (\<lambda>t. task_WorkerProfileID t = p) \<noteq> {} \<Longrightarrow>
      sint (use_profiles usage p) + int (card (launched T S (\<lambda>t. task_WorkerProfileID t = p)))
        \<le> sint (map_count (lim_WorkerProfileLimits limits) p)"
    using profile.within_ceiling [OF ne] by (simp add: card)
qed

lemma queued_means_full:
  assumes "scheduleInitiatives u is T artifacts limits usage = Inr S"
    and "s \<in> set S" "d \<in> set (sch_Tasks s)" "dec_Reason d = ScheduleResourceQueued"
  obtains t where "T (dec_TaskHandle d) = Some t" "\<not> dec_Launchable d"
    and "sint (lim_MaxConcurrentTasks limits) \<le> sint (use_host usage) + int (card (launched T S (\<lambda>_. True))) \<or>
      sint (lim_MaxConcurrentTasksPerRepository limits) \<le> sint (use_repositories usage (task_RepositoryID t)) +
        int (card (launched T S (\<lambda>x. task_RepositoryID x = task_RepositoryID t))) \<or>
      sint (map_count (lim_WorkerProfileLimits limits) (task_WorkerProfileID t)) \<le>
        sint (use_profiles usage (task_WorkerProfileID t)) +
        int (card (launched T S (\<lambda>x. task_WorkerProfileID x = task_WorkerProfileID t)))"
proof -
  from scheduleInitiatives_result [OF assms(1)] obtain arts each where
    r: "run_entries u is T artifacts arts each" "\<And>p. has_pos S p \<longleftrightarrow> has_pos (map fst each) p"
      "\<And>p. has_pos S p \<Longrightarrow> decision_at S p = settle limits usage (run_turns each) p (decision_at (map fst each) p)"
    by metis
  note f = run_entries_facts [OF r(1)]
  let ?G = "grants (avail limits) pay usage (run_turns each)"
  from assms(2,3) obtain p where p: "has_pos S p" "decision_at S p = d" using decision_occurs by blast
  have "decision_at (map fst each) p \<in> set (sch_Tasks (fst (each ! fst p)))" "fst p < length is"
    using p(1) r(2) f(1) by (auto simp: has_pos_def decision_at_def)
  then have "initial_decision (schedule_order is ! fst p) T (arts (ini_Handle (schedule_order is ! fst p)))
      (decision_at (map fst each) p)"
    using f(2) [of "fst p"] by (auto simp: entry_ok_def)
  then have i: "\<not> dec_Launchable (decision_at (map fst each) p)" "dec_Reason (decision_at (map fst each) p) \<noteq> ScheduleResourceQueued"
    using launchDependencyReason_not_queued by (auto simp: initial_decision_def split: if_splits)
  have np: "p \<notin> cand_pos ` set ?G" "p \<in> cand_pos ` set (run_turns each)" "\<not> dec_Launchable d"
    using assms(4) i(1) unfolding p(2) [symmetric] r(3) [OF p(1)] settle_queued [OF i(2)] settle_launchable by blast+
  then obtain c where c: "c \<in> set (run_turns each)" "cand_pos c = p" "c \<notin> set ?G" by auto
  have T: "T (dec_TaskHandle d) = Some (cand_task c)"
    using run_candidate(1) [OF r(1) c(1)] c(2) p(2) r(3) [OF p(1)] by auto
  have "\<not> avail limits c (usage_after (avail limits) pay usage (run_turns each))"
    by (rule fleet.refused_in_the_end [OF c(1,3)])
  then show thesis
    using that [OF T np(3)]
    by (auto simp: schedulingCapacityAvailable_def host.level_after repository.level_after profile.level_after
        launched_card [OF r] not_less)
qed

lemma decision_justified:
  assumes "scheduleInitiatives u is T artifacts limits usage = Inr S"
    and "s \<in> set S" "d \<in> set (sch_Tasks s)" "dec_Launchable d"
  obtains i t arts where "i \<in> set is" "T (dec_TaskHandle d) = Some t" "dec_State d = task_State t"
    "sch_InitiativeHandle s = ini_Handle i" "indexSchedulingArtifacts u (schedule_order is) artifacts = Inr arts"
    "startable i t T (arts (ini_Handle i))"
proof -
  from scheduleInitiatives_result [OF assms(1)] obtain arts each where
    r: "run_entries u is T artifacts arts each" "\<And>p. has_pos S p \<longleftrightarrow> has_pos (map fst each) p"
      "\<And>p. has_pos S p \<Longrightarrow> decision_at S p = settle limits usage (run_turns each) p (decision_at (map fst each) p)"
      "map sch_InitiativeHandle S = map ini_Handle (schedule_order is)"
    by metis
  note f = run_entries_facts [OF r(1)]
  from assms(2,3) obtain j k where jk: "j < length S" "s = S ! j" "k < length (sch_Tasks s)" "d = sch_Tasks s ! k"
    by (auto simp: in_set_conv_nth)
  then have p: "has_pos S (j, k)" "decision_at S (j, k) = d" by (simp_all add: has_pos_def decision_at_def)
  have pf: "has_pos (map fst each) (j, k)" using p(1) r(2) by simp
  then have "decision_at (map fst each) (j, k) \<in> set (sch_Tasks (fst (each ! j)))" and j: "j < length is"
    using f(1) by (auto simp: has_pos_def decision_at_def)
  then have "initial_decision (schedule_order is ! j) T (arts (ini_Handle (schedule_order is ! j))) (decision_at (map fst each) (j, k))"
    using f(2) [of j] by (auto simp: entry_ok_def)
  then obtain t where t: "T (dec_TaskHandle d) = Some t" "dec_State d = task_State t" "\<not> dec_Launchable (decision_at (map fst each) (j, k))"
    using p(2) r(3) [OF p(1)] by (auto simp: initial_decision_def)
  then have "(j, k) \<in> cand_pos ` set (grants (avail limits) pay usage (run_turns each))"
    using assms(4) unfolding p(2) [symmetric] r(3) [OF p(1)] settle_launchable by blast
  then obtain c where c: "c \<in> set (run_turns each)" "cand_pos c = (j, k)"
    using set_grants [of "avail limits" pay usage "run_turns each"] by (metis imageE subsetD)
  have "cand_task c = t" "cand_scheduleIndex c = j"
    using run_candidate(1) [OF r(1) c(1)] c(2) t(1) p(2) r(3) [OF p(1)] by (auto simp: cand_pos_def)
  moreover have "schedule_order is ! j \<in> set is"
    using j by (metis length_sort nth_mem schedule_order_def set_sort)
  moreover have "sch_InitiativeHandle s = ini_Handle (schedule_order is ! j)"
    using r(4) jk(1,2) j by (metis length_map nth_map)
  ultimately show thesis
    using that t run_candidate(3) [OF r(1) c(1)] r(1) by (auto simp: run_entries_def)
qed

section \<open>The derived state\<close>

definition live_initiative :: "DevelopmentInitiative \<Rightarrow> bool" where
  "live_initiative i \<longleftrightarrow> ini_State i \<notin> {InitiativePreparing, InitiativeUnknown, InitiativeDelivered, InitiativeFailed,
     InitiativeCancelled}"

text \<open>What a decision contributes to the aggregate: its state, whether it moves, whether it is held.\<close>

definition same_view :: "InitiativeTaskSchedule \<Rightarrow> InitiativeTaskSchedule \<Rightarrow> bool" where
  "same_view d e \<longleftrightarrow>
     dec_TaskHandle d = dec_TaskHandle e \<and> dec_State d = dec_State e \<and>
     (dec_Launchable d \<or> dec_Reason d = ScheduleResourceQueued \<longleftrightarrow> dec_Launchable e \<or> dec_Reason e = ScheduleResourceQueued) \<and>
     (dec_Reason d \<in> {ScheduleDependencyBlocked, ScheduleContractStale, ScheduleIntegrationHeld} \<longleftrightarrow>
      dec_Reason e \<in> {ScheduleDependencyBlocked, ScheduleContractStale, ScheduleIntegrationHeld})"

lemma same_view_aggregates:
  assumes "list_all2 same_view ds es"
  shows "state_count st ds = state_count st es" "allTaskStates ds sts = allTaskStates es sts"
    "taskStateInSchedule ds h = taskStateInSchedule es h" "hasInitiativeProgress ds = hasInitiativeProgress es"
    "initiativeScheduleHeld ds = initiativeScheduleHeld es"
proof -
  have st: "map dec_State ds = map dec_State es" "map dec_TaskHandle ds = map dec_TaskHandle es" "length ds = length es"
    using assms by (induction rule: list_all2_induct) (simp_all add: same_view_def)
  have "length (filter (\<lambda>x. x = st) (map dec_State ds)) = length (filter (\<lambda>x. x = st) (map dec_State es))"
    unfolding st(1) ..
  then show "state_count st ds = state_count st es" by (simp add: state_count_def filter_map comp_def)
  have "list_all (\<lambda>x. x \<in> set sts) (map dec_State ds) \<longleftrightarrow> list_all (\<lambda>x. x \<in> set sts) (map dec_State es)"
    unfolding st(1) ..
  then show "allTaskStates ds sts = allTaskStates es sts" using st(3) by (simp add: allTaskStates_def list.pred_map comp_def)
  show "taskStateInSchedule ds h = taskStateInSchedule es h"
    using assms by (induction rule: list_all2_induct) (simp_all add: same_view_def)
  show "hasInitiativeProgress ds = hasInitiativeProgress es"
    using assms unfolding hasInitiativeProgress_def
    by (induction rule: list_all2_induct) (simp_all add: same_view_def, blast)
  show "initiativeScheduleHeld ds = initiativeScheduleHeld es"
    using assms unfolding initiativeScheduleHeld_def
    by (induction rule: list_all2_induct) (simp_all add: same_view_def)
qed

lemma deriveInitiativeState_view:
  "list_all2 same_view ds es \<Longrightarrow> deriveInitiativeState i ds = deriveInitiativeState i es"
  by (simp add: deriveInitiativeState_def same_view_aggregates [of ds es])

lemma settle_same_view:
  assumes "p \<in> cand_pos ` set cs \<longrightarrow> dec_Reason d = no_reason"
  shows "same_view (settle limits u cs p d) (settle limits' u' cs p d)"
proof -
  have "cand_pos ` set (grants (avail l) pay v cs) \<subseteq> cand_pos ` set cs" for l v
    by (intro image_mono set_grants)
  then show ?thesis
    using assms by (auto simp: settle_def same_view_def)
qed

lemma run_candidate_reason:
  assumes "run_entries u is T artifacts arts each" "c \<in> set (run_turns each)"
  shows "dec_Reason (decision_at (map fst each) (cand_pos c)) = no_reason"
proof -
  note f = run_entries_facts [OF assms(1)]
  from assms(2) obtain j where j: "j < length each" "c \<in> set (snd (each ! j))" by (rule run_turns_entry)
  then have "c \<in> set (ready_candidates j (schedule_order is ! j) T (sch_Tasks (fst (each ! j))))"
    using f(1) f(2) [of j] by (simp add: entry_ok_def)
  then show ?thesis using j(1) by (simp add: ready_candidates_set decision_at_def cand_pos_def)
qed

lemma run_entries_unique:
  "run_entries u is T artifacts arts each \<Longrightarrow> run_entries u is T artifacts arts' each' \<Longrightarrow> each = each'"
  by (simp add: run_entries_def)

lemma capacity_keeps_state:
  assumes "scheduleInitiatives u is T artifacts limits usage = Inr S"
    and "scheduleInitiatives u is T artifacts limits' usage' = Inr S'"
  shows "map sch_State S = map sch_State S'"
proof -
  from scheduleInitiatives_result [OF assms(1)] obtain arts each where
    r: "run_entries u is T artifacts arts each" "\<And>p. has_pos S p \<longleftrightarrow> has_pos (map fst each) p"
      "\<And>p. has_pos S p \<Longrightarrow> decision_at S p = settle limits usage (run_turns each) p (decision_at (map fst each) p)"
      "map sch_InitiativeHandle S = map ini_Handle (schedule_order is)"
      "\<And>j. j < length is \<Longrightarrow> sch_State (S ! j) = deriveInitiativeState (schedule_order is ! j) (sch_Tasks (S ! j))"
    by metis
  from scheduleInitiatives_result [OF assms(2)] obtain arts' each' where
    e': "run_entries u is T artifacts arts' each'" and
    q: "\<And>p. has_pos S' p \<longleftrightarrow> has_pos (map fst each') p"
      "\<And>p. has_pos S' p \<Longrightarrow> decision_at S' p = settle limits' usage' (run_turns each') p (decision_at (map fst each') p)"
      "map sch_InitiativeHandle S' = map ini_Handle (schedule_order is)"
      "\<And>j. j < length is \<Longrightarrow> sch_State (S' ! j) = deriveInitiativeState (schedule_order is ! j) (sch_Tasks (S' ! j))"
    by metis
  note q = q [unfolded run_entries_unique [OF e' r(1)]]
  have len: "length S = length is" "length S' = length is"
    using arg_cong [OF r(4), of length] arg_cong [OF q(3), of length] by (simp_all add: schedule_order_def)
  have tasks: "length (sch_Tasks (S ! j)) = length (sch_Tasks (S' ! j))" if "j < length is" for j
  proof -
    have "has_pos S (j, k) \<longleftrightarrow> has_pos S' (j, k)" for k using r(2) q(1) by simp
    then have "k < length (sch_Tasks (S ! j)) \<longleftrightarrow> k < length (sch_Tasks (S' ! j))" for k
      using that len by (simp add: has_pos_def)
    then show ?thesis by (meson linorder_neqE_nat nat_less_le)
  qed
  have "list_all2 same_view (sch_Tasks (S ! j)) (sch_Tasks (S' ! j))" if j: "j < length is" for j
  proof (rule list_all2_all_nthI [OF tasks [OF j]])
    fix k assume k: "k < length (sch_Tasks (S ! j))"
    then have p: "has_pos S (j, k)" "has_pos S' (j, k)" using j len tasks [OF j] by (simp_all add: has_pos_def)
    have "(j, k) \<in> cand_pos ` set (run_turns each) \<longrightarrow> dec_Reason (decision_at (map fst each) (j, k)) = no_reason"
      using run_candidate_reason [OF r(1)] by auto
    then have "same_view (decision_at S (j, k)) (decision_at S' (j, k))"
      unfolding r(3) [OF p(1)] q(2) [OF p(2)] by (rule settle_same_view)
    then show "same_view (sch_Tasks (S ! j) ! k) (sch_Tasks (S' ! j) ! k)" by (simp add: decision_at_def)
  qed
  then show ?thesis
    using len r(5) q(4) by (intro nth_equalityI) (simp_all add: deriveInitiativeState_view)
qed

lemma aggregate_success_members:
  assumes "live_initiative i" "deriveInitiativeState i ds \<in> {InitiativeDelivered, InitiativeCandidateComplete}"
    and "d \<in> set ds"
  shows "SatisfiesInitiativeDependency (dec_State d)"
proof -
  have "allTaskStates ds [TaskDelivered, TaskCleaned] \<or>
      allTaskStates ds [TaskCandidateComplete, TaskDelivering, TaskDelivered, TaskCleanupHeld, TaskCleaned]"
    using assms(1,2) by (auto simp: deriveInitiativeState_def live_initiative_def Let_def split: if_splits)
  then show ?thesis
    using assms(3) by (auto simp: allTaskStates_def list_all_iff split: if_splits)
qed

lemma unknown_member_dominates:
  assumes "live_initiative i" "d \<in> set ds" "dec_State d \<in> {TaskUnknown, TaskReconciling}"
  shows "deriveInitiativeState i ds = InitiativeUnknown"
proof -
  have "state_count TaskUnknown ds + state_count TaskReconciling ds > 0"
    using assms(2,3) by (auto simp: state_count_def filter_empty_conv)
  then show ?thesis using assms(1) by (simp add: deriveInitiativeState_def live_initiative_def)
qed

section \<open>No overtaking\<close>

lemma overtaken_refusal:
  assumes "turns = xs @ c # ys @ d # zs" "c \<notin> set (grants (avail limits) pay u turns)"
    and "d \<in> set (grants (avail limits) pay u turns)" "distinct turns"
  defines "end_usage \<equiv> usage_after (avail limits) pay u turns"
  shows "sint (lim_MaxConcurrentTasksPerRepository limits) \<le> sint (use_repositories end_usage (task_RepositoryID (cand_task c))) \<or>
    sint (map_count (lim_WorkerProfileLimits limits) (task_WorkerProfileID (cand_task c))) \<le>
      sint (use_profiles end_usage (task_WorkerProfileID (cand_task c)))"
proof -
  let ?A = "usage_after (avail limits) pay u xs"
  let ?B = "usage_after (avail limits) pay ?A ys"
  have refused: "\<not> avail limits c ?A"
    using assms(1,2) by (auto simp: grants_append)
  then have e: "end_usage = usage_after (avail limits) pay ?A (ys @ d # zs)" "end_usage = usage_after (avail limits) pay ?B (d # zs)"
    by (simp_all add: end_usage_def assms(1) usage_after_append)
  have "avail limits d ?B"
  proof (rule ccontr)
    assume "\<not> avail limits d ?B"
    then have "grants (avail limits) pay u turns =
        grants (avail limits) pay u xs @ grants (avail limits) pay ?A ys @ grants (avail limits) pay ?B zs"
      using refused by (simp add: assms(1) grants_append)
    then have "d \<in> set xs \<union> set ys \<union> set zs" using assms(3) set_grants by fastforce
    then show False using assms(1,4) by auto
  qed
  then have "sint (use_host ?B) < sint (lim_MaxConcurrentTasks limits)" by (simp add: schedulingCapacityAvailable_def)
  moreover have "sint (use_host ?A) \<le> sint (use_host ?B)" by (rule host.level_mono)
  ultimately show ?thesis
    using refused repository.level_mono [where limits = limits and u = ?A and cs = "ys @ d # zs" and r = "task_RepositoryID (cand_task c)"]
      profile.level_mono [where limits = limits and u = ?A and cs = "ys @ d # zs" and p = "task_WorkerProfileID (cand_task c)"]
    unfolding e(1) schedulingCapacityAvailable_def by linarith
qed

section \<open>A concrete fleet\<close>

definition task_named :: "print_table \<Rightarrow> string \<Rightarrow> TaskState \<Rightarrow> Task" where
  "task_named u h s =
     (let d = draft_task\<lparr>task_Handle := h\<rparr>
      in d\<lparr>task_BriefRevisionHash := sha256_hex (brief_body u d), task_ManagedRunID := ''run-1'',
           task_WorkspaceLeaseID := ''lease-1'', task_State := s\<rparr>)"

lemma task_named_valid:
  assumes "opaqueIDPattern h" "TaskState_valid s"
  shows "Task_Validate u (task_named u h s) = None"
proof -
  let ?d = "draft_task\<lparr>task_Handle := h\<rparr>"
  have "validateBriefInputs (task_named u h s) = validateBriefInputs draft_task"
    by (simp add: validateBriefInputs_def validateConsumedContracts_def task_named_def Let_def)
  then have i: "validateBriefInputs (task_named u h s) = None" using draft_inputs by simp
  have "brief_body u (task_named u h s) = brief_body u ?d"
    by (simp add: task_named_def Let_def brief_body_def)
  then have "task_BriefRevisionHash (task_named u h s) = sha256_hex (brief_body u (task_named u h s))"
    by (simp add: task_named_def Let_def)
  with i have "contract_ok u (task_named u h s)"
    using assms(1) by (simp add: contract_ok_def) (simp add: task_named_def Let_def draft_defs draft_strings ValidForShape_def TaskShape_valid_def)
  moreover have "progress_ok (task_named u h s)"
    using assms(2) by (simp add: task_named_def Let_def progress_ok_def task_bound_def draft_defs validateTimes_def time_defs draft_strings)
  ultimately show ?thesis by (simp add: Task_Validate_iff)
qed

lemma task_named_sel [simp]:
  "task_Handle (task_named u h s) = h" "task_State (task_named u h s) = s" "task_RepositoryID (task_named u h s) = ''repo-1''"
  "task_WorkerProfileID (task_named u h s) = ''codex-worker''"
  by (simp_all add: task_named_def Let_def draft_defs)

definition solo_initiative :: DevelopmentInitiative where
  "solo_initiative = sample_initiative\<lparr>ini_Components := take 1 (ini_Components sample_initiative), ini_Edges := [],
     ini_IntegrationOwnerTask := []\<rparr>"

definition sample_limits :: InitiativeSchedulingLimits where
  "sample_limits = \<lparr>lim_MaxConcurrentTasks = 1, lim_MaxConcurrentTasksPerRepository = 1,
     lim_WorkerProfileLimits = fmupd ''codex-worker'' 1 fmempty\<rparr>"

definition sample_fleet :: "print_table \<Rightarrow> TaskState \<Rightarrow> Task list" where
  "sample_fleet u s = [task_named u ''task-1'' TaskReady, task_named u ''task-2'' s]"

lemma solo_sel [simp]:
  "ini_Handle solo_initiative = ''init-1''" "ini_State solo_initiative = InitiativeActive" "ini_Edges solo_initiative = []"
  "ini_ContractArtifacts solo_initiative = []" "ini_CreatedAt solo_initiative = utc_at 1"
  "component_tasks solo_initiative = [(''repo-1'', ''task-1'')]" "ini_IntegrationOwnerTask solo_initiative = []"
  by (simp_all add: solo_initiative_def sample_initiative_def component_tasks_def)

lemma solo_valid: "Initiative_Validate solo_initiative = None"
  by (simp add: Initiative_Validate_def solo_initiative_def sample_initiative_def validateBaseRevisions_def validateComponents_def
      validateEdges_def edge_check_def validateContractArtifacts_def field_check_defs initiative_strings draft_strings
      validateBoundedSafeText_ascii time_defs hasCycle_def visit_def adjacency_def)

lemma sample_limits_valid: "validateSchedulingLimits sample_limits = None"
proof -
  have "authorityPattern ''codex-worker''" by code_simp
  then show ?thesis
    by (simp add: validateSchedulingLimits_def sample_limits_def sorted_list_of_fmap_def field_check_defs
        fcard.rep_eq sorted_list_of_fset.rep_eq)
qed

definition solo_decision :: "bool \<Rightarrow> InitiativeScheduleReason \<Rightarrow> InitiativeTaskSchedule" where
  "solo_decision l r = \<lparr>dec_TaskHandle = ''task-1'', dec_State = TaskReady, dec_Launchable = l, dec_Reason = r\<rparr>"

definition solo_schedule :: "bool \<Rightarrow> InitiativeScheduleReason \<Rightarrow> InitiativeSchedule" where
  "solo_schedule l r = \<lparr>sch_InitiativeHandle = ''init-1'', sch_State = InitiativeActive, sch_Tasks = [solo_decision l r]\<rparr>"

lemma sample_index:
  assumes "TaskState_valid s"
  shows "indexSchedulingTasks u (sample_fleet u s) sample_limits =
    Inr (task_index (sample_fleet u s), usage_fold (sample_fleet u s))"
proof -
  have "index_task_set u sample_limits Map.empty (sample_fleet u s) =
      Inr (Map.empty(''task-1'' \<mapsto> task_named u ''task-1'' TaskReady, ''task-2'' \<mapsto> task_named u ''task-2'' s))"
    using assms by (simp add: sample_fleet_def task_named_valid draft_strings initiative_strings sample_limits_def)
  moreover from index_task_set_Inr [OF this] have
    "Map.empty(''task-1'' \<mapsto> task_named u ''task-1'' TaskReady, ''task-2'' \<mapsto> task_named u ''task-2'' s) = task_index (sample_fleet u s)"
    by simp
  ultimately show ?thesis
    by (simp add: indexSchedulingTasks_def indexSchedulingTaskSet_def usage_fold_def)
qed

lemma solo_schedule_run:
  fixes T :: "string \<Rightarrow> Task option"
  assumes T: "T ''task-1'' = Some (task_named u ''task-1'' TaskReady)"
  shows "scheduleInitiatives u [solo_initiative] T [] sample_limits usage =
    Inr [if schedulingCapacityAvailable (task_named u ''task-1'' TaskReady) sample_limits usage
      then solo_schedule True no_reason else solo_schedule False ScheduleResourceQueued]"
proof -
  let ?each = "[(\<lparr>sch_InitiativeHandle = ''init-1'', sch_State = InitiativeStateOther [], sch_Tasks = [solo_decision False no_reason]\<rparr>,
        [\<lparr>cand_scheduleIndex = 0, cand_decisionIndex = 0, cand_task = task_named u ''task-1'' TaskReady\<rparr>])]"
  have each: "schedule_each u T (\<lambda>_. Map.empty) Map.empty 0 [solo_initiative] = Inr ?each"
    by (simp add: solo_valid scheduleOneInitiative_def T ready_decision_def launchDependencyReason_def solo_decision_def
        ready_candidates_def)
  have arts: "indexSchedulingArtifacts u [solo_initiative] [] = Inr (\<lambda>_. Map.empty)"
    "schedule_order [solo_initiative] = [solo_initiative]"
    by (simp_all add: indexSchedulingArtifacts_def schedule_order_def)
  have turns: "allocation_turns (map fst ?each) (map snd ?each) =
      [\<lparr>cand_scheduleIndex = 0, cand_decisionIndex = 0, cand_task = task_named u ''task-1'' TaskReady\<rparr>]"
    by (simp add: allocation_turns_def initiativeRoundOffset_def solo_decision_def turn_candidates_def)
  have alloc: "fst (allocateInitiativeCandidates (map fst ?each) (map snd ?each) sample_limits usage) =
      [(if schedulingCapacityAvailable (task_named u ''task-1'' TaskReady) sample_limits usage
        then solo_schedule True no_reason else solo_schedule False ScheduleResourceQueued)
        \<lparr>sch_State := InitiativeStateOther []\<rparr>]"
    unfolding allocateInitiativeCandidates_def turns
    by (simp add: allocate_turn_def update_decision_def solo_schedule_def solo_decision_def)
  have "deriveInitiativeState solo_initiative [solo_decision l r] = InitiativeActive" if "l \<or> r = ScheduleResourceQueued" for l r
    using that by (auto simp: deriveInitiativeState_def solo_decision_def state_count_def allTaskStates_def
        hasInitiativeProgress_def Let_def)
  then show ?thesis
    unfolding scheduleInitiatives_def Let_def arts each sum.case alloc by (simp add: solo_schedule_def)
qed

lemma sample_run:
  assumes "TaskState_valid s"
  shows "ScheduleInitiatives u [solo_initiative] (sample_fleet u s) [] sample_limits =
    Inr [if taskConsumesWorker s then solo_schedule False ScheduleResourceQueued else solo_schedule True no_reason]"
proof -
  have T: "task_index (sample_fleet u s) ''task-1'' = Some (task_named u ''task-1'' TaskReady)"
    by (simp add: task_index_def sample_fleet_def)
  have usage: "use_host (usage_fold (sample_fleet u s)) = (if taskConsumesWorker s then 1 else 0)"
    "use_repositories (usage_fold (sample_fleet u s)) ''repo-1'' = (if taskConsumesWorker s then 1 else 0)"
    "use_profiles (usage_fold (sample_fleet u s)) ''codex-worker'' = (if taskConsumesWorker s then 1 else 0)"
    by (simp_all add: usage_fold_def sample_fleet_def no_usage_def charge_def)
  have "schedulingCapacityAvailable (task_named u ''task-1'' TaskReady) sample_limits (usage_fold (sample_fleet u s)) \<longleftrightarrow>
      \<not> taskConsumesWorker s"
    by (simp add: schedulingCapacityAvailable_def usage) (simp add: sample_limits_def map_count_def)
  then show ?thesis
    by (simp add: ScheduleInitiatives_def sample_limits_valid sample_index [OF assms] solo_schedule_run [where T = "task_index (sample_fleet u s)", OF T])
qed

text \<open>
  No overtaking: a candidate that is refused at its turn while a candidate of a later turn is
  launched was not refused for the host limit; its own repository or worker profile is at its limit.
\<close>

lemma no_overtaking:
  assumes "well_placed candidates" "allocation_turns schedules candidates = xs @ c # ys @ d # zs"
    and "c \<notin> set (grants (avail limits) pay usage (allocation_turns schedules candidates))"
    and "d \<in> set (grants (avail limits) pay usage (allocation_turns schedules candidates))"
    and "length schedules = length candidates"
    and "\<forall>c\<in>set (allocation_turns schedules candidates). has_pos schedules (cand_pos c)"
  defines "usage' \<equiv> snd (allocateInitiativeCandidates schedules candidates limits usage)"
  shows "sint (lim_MaxConcurrentTasksPerRepository limits) \<le> sint (use_repositories usage' (task_RepositoryID (cand_task c))) \<or>
    sint (map_count (lim_WorkerProfileLimits limits) (task_WorkerProfileID (cand_task c))) \<le>
      sint (use_profiles usage' (task_WorkerProfileID (cand_task c)))"
proof -
  note dp = distinct_turns [OF assms(1), of schedules]
  have "usage' = usage_after (avail limits) pay usage (allocation_turns schedules candidates)"
    unfolding usage'_def allocateInitiativeCandidates_def by (rule allocate_fold(1) [OF dp assms(6)])
  moreover have "distinct (allocation_turns schedules candidates)" using dp by (simp add: distinct_map)
  ultimately show ?thesis
    using overtaken_refusal [OF assms(2,3,4)] by simp
qed

section \<open>Properties\<close>

text \<open>
  C19.  The three concurrency ceilings hold over the whole fleet: whenever a run launches anything, the
  workers already running plus the tasks launched stay within the host limit, and the same holds in
  every repository and for every worker profile in which something is launched.
\<close>

theorem schedule_respects_ceilings:
  assumes "ScheduleInitiatives u is tasks artifacts limits = Inr S" "length tasks < 2 ^ 63"
  defines "new \<equiv> \<lambda>P. launched (task_index tasks) S P"
  shows "(new (\<lambda>_. True) \<noteq> {} \<longrightarrow>
      int (running tasks (\<lambda>_. True) + card (new (\<lambda>_. True))) \<le> sint (lim_MaxConcurrentTasks limits)) \<and>
    (new (\<lambda>t. task_RepositoryID t = r) \<noteq> {} \<longrightarrow>
      int (running tasks (\<lambda>t. task_RepositoryID t = r) + card (new (\<lambda>t. task_RepositoryID t = r)))
        \<le> sint (lim_MaxConcurrentTasksPerRepository limits)) \<and>
    (new (\<lambda>t. task_WorkerProfileID t = p) \<noteq> {} \<longrightarrow>
      int (running tasks (\<lambda>t. task_WorkerProfileID t = p) + card (new (\<lambda>t. task_WorkerProfileID t = p)))
        \<le> sint (map_count (lim_WorkerProfileLimits limits) p))"
proof -
  from assms(1) obtain usage where i: "indexSchedulingTasks u tasks limits = Inr (task_index tasks, usage)"
    and s: "scheduleInitiatives u is (task_index tasks) artifacts limits usage = Inr S" by (rule ScheduleInitiatives_Inr)
  show ?thesis
    using schedule_within_limits [OF s] indexSchedulingTasks_Inr(2-4) [OF i assms(2)] by (simp add: new_def)
qed

theorem schedule_respects_ceilings_witness:
  "card (launched (task_index (sample_fleet (\<lambda>_. True) TaskCleaned)) [solo_schedule True no_reason] (\<lambda>_. True)) = 1"
proof -
  let ?T = "task_index (sample_fleet (\<lambda>_. True) TaskCleaned)"
  have "?T ''task-1'' \<noteq> None" by (simp add: task_index_def sample_fleet_def)
  then have l: "launched ?T [solo_schedule True no_reason] (\<lambda>_. True) = {''task-1''}"
    by (auto simp: launched_def solo_schedule_def solo_decision_def)
  have "ScheduleInitiatives (\<lambda>_. True) [solo_initiative] (sample_fleet (\<lambda>_. True) TaskCleaned) [] sample_limits =
      Inr [solo_schedule True no_reason]" using sample_run [of TaskCleaned] by simp
  from schedule_respects_ceilings [OF this, of "[]" "[]"] show ?thesis
    unfolding l by (simp add: sample_fleet_def)
qed

text \<open>
  C24.  Nothing waits for capacity that is there: a member left queued for resources is not launched, and
  when the run ends the host, its repository or its worker profile is at its limit.
\<close>

theorem queued_only_when_full:
  assumes "ScheduleInitiatives u is tasks artifacts limits = Inr S" "length tasks < 2 ^ 63"
    and "s \<in> set S" "d \<in> set (sch_Tasks s)" "dec_Reason d = ScheduleResourceQueued"
  defines "level \<equiv> \<lambda>P. int (running tasks P + card (launched (task_index tasks) S P))"
  shows "\<not> dec_Launchable d \<and> (\<exists>t. task_index tasks (dec_TaskHandle d) = Some t \<and>
    (sint (lim_MaxConcurrentTasks limits) \<le> level (\<lambda>_. True) \<or>
     sint (lim_MaxConcurrentTasksPerRepository limits) \<le> level (\<lambda>x. task_RepositoryID x = task_RepositoryID t) \<or>
     sint (map_count (lim_WorkerProfileLimits limits) (task_WorkerProfileID t)) \<le>
       level (\<lambda>x. task_WorkerProfileID x = task_WorkerProfileID t)))"
proof -
  from assms(1) obtain usage where i: "indexSchedulingTasks u tasks limits = Inr (task_index tasks, usage)"
    and s: "scheduleInitiatives u is (task_index tasks) artifacts limits usage = Inr S" by (rule ScheduleInitiatives_Inr)
  from s assms(3-5) show ?thesis
    by (rule queued_means_full) (use indexSchedulingTasks_Inr(2-4) [OF i assms(2)] in \<open>auto simp: level_def\<close>)
qed

theorem queued_only_when_full_witness:
  "\<not> dec_Launchable (solo_decision False ScheduleResourceQueued)"
proof -
  have "ScheduleInitiatives (\<lambda>_. True) [solo_initiative] (sample_fleet (\<lambda>_. True) TaskWorking) [] sample_limits =
      Inr [solo_schedule False ScheduleResourceQueued]" using sample_run [of TaskWorking] by simp
  from queued_only_when_full [OF this, of "solo_schedule False ScheduleResourceQueued"
      "solo_decision False ScheduleResourceQueued"] show ?thesis
    by (simp add: sample_fleet_def solo_schedule_def) (simp add: solo_decision_def)
qed

text \<open>
  C23.  Whatever is launched may start: it is a ready member of an active initiative, every artifact edge
  into it is met by a pin of the producer's current artifact of that kind and content, and the task
  behind every other launch-blocking edge has reached a state that satisfies dependencies.
\<close>

theorem launch_is_justified:
  assumes "ScheduleInitiatives u is tasks artifacts limits = Inr S"
    and "s \<in> set S" "d \<in> set (sch_Tasks s)" "dec_Launchable d"
  shows "\<exists>i\<in>set is. \<exists>t arts. sch_InitiativeHandle s = ini_Handle i \<and> task_index tasks (dec_TaskHandle d) = Some t \<and>
    indexSchedulingArtifacts u (schedule_order is) artifacts = Inr arts \<and>
    task_State t = TaskReady \<and> ini_State i = InitiativeActive \<and> may_start i t (task_index tasks) (arts (ini_Handle i))"
proof -
  from assms(1) obtain usage where "scheduleInitiatives u is (task_index tasks) artifacts limits usage = Inr S"
    by (rule ScheduleInitiatives_Inr)
  from this assms(2-4) show ?thesis
    by (rule decision_justified) (auto simp: startable_def)
qed

theorem launch_is_justified_witness:
  "\<exists>i\<in>{solo_initiative}. ini_State i = InitiativeActive"
proof -
  have "ScheduleInitiatives (\<lambda>_. True) [solo_initiative] (sample_fleet (\<lambda>_. True) TaskCleaned) [] sample_limits =
      Inr [solo_schedule True no_reason]" using sample_run [of TaskCleaned] by simp
  from launch_is_justified [OF this, of "solo_schedule True no_reason" "solo_decision True no_reason"] show ?thesis
    by (auto simp: solo_schedule_def solo_decision_def)
qed

text \<open>
  Capacity decides when work starts, never what an initiative is: two runs over the same
  initiatives, tasks and artifacts derive the same initiative states whatever the limits and the usage.
\<close>

lemma aggregate_state_ignores_capacity:
  assumes "scheduleInitiatives u is T artifacts limits usage = Inr S"
    and "scheduleInitiatives u is T artifacts limits' usage' = Inr S'"
  shows "map sch_State S = map sch_State S'"
  by (rule capacity_keeps_state [OF assms])

text \<open>
  The aggregate is never better than its members: for an initiative that is not already settled, an
  unknown or reconciling member makes it unknown, and delivered or candidate-complete requires every
  member to satisfy the dependency rule.
\<close>

lemma aggregate_no_better_than_members:
  assumes "live_initiative i" "d \<in> set ds"
  shows "(dec_State d \<in> {TaskUnknown, TaskReconciling} \<longrightarrow> deriveInitiativeState i ds = InitiativeUnknown) \<and>
    (deriveInitiativeState i ds \<in> {InitiativeDelivered, InitiativeCandidateComplete} \<longrightarrow>
       SatisfiesInitiativeDependency (dec_State d))"
  using unknown_member_dominates [OF assms] aggregate_success_members [OF assms(1) _ assms(2)] by blast

end
