(* ===== verification/Decisions.thy ===== *)
theory Decisions
  imports Task "HOL-Library.Signed_Division"
begin

text \<open>
  Open decisions and how often they are put back in front of a human: the cadence
  (\<open>application/decision_surfacing.go\<close>), the durable ledger behind it
  (\<open>store/sqlite/decision_surfacing.go\<close>), the supervised round that raises what is due
  (\<open>service/decision_surfacing_supervisor.go\<close>) and the published schedule
  (\<open>application/decision_inventory_query.go\<close>).

  The rows the SQL join selects are an argument (the query text runs in SQLite), with the delivery
  time already decoded or \<open>None\<close> when its text does not parse; the ledger's own times are kept as
  times.  What the outside world answers during a round, the raiser, the context, the database write
  and the clock, is an argument too, per decision.
\<close>

section \<open>The cadence\<close>

record DecisionSurfacingPolicy =
  pol_Initial :: int64
  pol_Maximum :: int64

definition DefaultDecisionSurfacingPolicy :: DecisionSurfacingPolicy where
  "DefaultDecisionSurfacingPolicy = \<lparr>pol_Initial = 1800000000000, pol_Maximum = 14400000000000\<rparr>"

definition Policy_Validate :: "DecisionSurfacingPolicy \<Rightarrow> go_error option" where
  "Policy_Validate policy = first_error
     [fail_if (sint (pol_Initial policy) \<le> 0 \<or> sint (pol_Maximum policy) \<le> 0)
        (PlainError ''decision surfacing cadence requires a positive initial and maximum interval''),
      fail_if (sint (pol_Maximum policy) < sint (pol_Initial policy))
        (PlainError ''decision surfacing maximum interval is shorter than its initial interval'')]"

text \<open>The loop of \<open>Interval\<close>, with the number of passes left.\<close>

fun interval_loop :: "nat \<Rightarrow> int64 \<Rightarrow> int64 \<Rightarrow> int64" where
  "interval_loop 0 maximum interval = (if sint interval > sint maximum then maximum else interval)"
| "interval_loop (Suc n) maximum interval =
     (if sint interval \<ge> sint maximum sdiv 2 then maximum else interval_loop n maximum (interval * 2))"

definition Interval :: "DecisionSurfacingPolicy \<Rightarrow> int64 \<Rightarrow> int64" where
  "Interval policy surfaceCount =
     (if sint surfaceCount \<le> 0 then 0
      else interval_loop (nat (sint surfaceCount - 1)) (pol_Maximum policy) (pol_Initial policy))"

record OpenDecision =
  open_TaskHandle :: string
  open_ManagedRunID :: string
  open_ExternalKey :: string
  open_Summary :: string
  open_Details :: string
  open_SurfaceCount :: int64
  open_LastSurfacedAt :: time

definition Add :: "time \<Rightarrow> int64 \<Rightarrow> time" where
  "Add t d = t\<lparr>instant := instant t + sint d\<rparr>"

definition Due :: "DecisionSurfacingPolicy \<Rightarrow> OpenDecision \<Rightarrow> time \<Rightarrow> bool" where
  "Due policy decision now \<longleftrightarrow>
     (if sint (open_SurfaceCount decision) \<le> 0 then True
      else \<not> Before now (Add (open_LastSurfacedAt decision) (Interval policy (open_SurfaceCount decision))))"

section \<open>The ledger\<close>

record surfacing_row =
  row_FirstSurfacedAt :: time
  row_LastSurfacedAt :: time
  row_SurfaceCount :: int64

type_synonym ledger = "string \<times> string \<rightharpoonup> surfacing_row"

record DecisionSurfacedMutation =
  dsm_TaskHandle :: string
  dsm_ExternalKey :: string
  dsm_At :: time

datatype go_context = NilContext | Context "go_error option"

definition RecordDecisionSurfaced ::
  "go_context \<Rightarrow> go_error option \<Rightarrow> ledger \<Rightarrow> DecisionSurfacedMutation \<Rightarrow> ledger \<times> go_error option" where
  "RecordDecisionSurfaced ctx write ledger mutation =
     (case ctx of
        NilContext \<Rightarrow> (ledger, Some (PlainError ''record surfaced decision: context is required''))
      | Context (Some e) \<Rightarrow> (ledger, Some e)
      | Context None \<Rightarrow>
          (case write of
             Some e \<Rightarrow> (ledger, Some (WrapError ''record surfaced decision'' e))
           | None \<Rightarrow>
               (let key = (dsm_TaskHandle mutation, dsm_ExternalKey mutation) in
                (ledger(key \<mapsto>
                   (case ledger key of
                      None \<Rightarrow> \<lparr>row_FirstSurfacedAt = dsm_At mutation, row_LastSurfacedAt = dsm_At mutation,
                               row_SurfaceCount = 1\<rparr>
                    | Some row \<Rightarrow> row\<lparr>row_LastSurfacedAt := dsm_At mutation,
                                      row_SurfaceCount := row_SurfaceCount row + 1\<rparr>)), None))))"

record open_row =
  orow_TaskHandle :: string
  orow_ManagedRunID :: string
  orow_ExternalKey :: string
  orow_Summary :: string
  orow_Details :: string
  orow_DeliveredAt :: "time option"

definition orow_key :: "open_row \<Rightarrow> string \<times> string" where
  "orow_key row = (orow_TaskHandle row, orow_ExternalKey row)"

text \<open>One row of the result set: the left join with the ledger, and what the loop makes of it.\<close>

definition scan_open_row :: "ledger \<Rightarrow> open_row \<Rightarrow> OpenDecision result" where
  "scan_open_row ledger row =
     (if validateAuthorityReference ''managedRunId'' (orow_ManagedRunID row) \<noteq> None
      then Inl (PlainError ''read open decisions: managed run identity is unavailable'')
      else
        (case orow_DeliveredAt row of
           None \<Rightarrow> Inl (PlainError ''decode decision delivery time'')
         | Some asked \<Rightarrow>
             (let count = (case ledger (orow_key row) of None \<Rightarrow> 0 | Some s \<Rightarrow> row_SurfaceCount s);
                  last_at = (case ledger (orow_key row) of
                            None \<Rightarrow> asked
                          | Some s \<Rightarrow> if After (row_LastSurfacedAt s) asked then row_LastSurfacedAt s else asked)
              in Inr \<lparr>open_TaskHandle = orow_TaskHandle row, open_ManagedRunID = orow_ManagedRunID row,
                      open_ExternalKey = orow_ExternalKey row, open_Summary = orow_Summary row,
                      open_Details = orow_Details row, open_SurfaceCount = count + 1, open_LastSurfacedAt = last_at\<rparr>)))"

fun scan_open_rows :: "ledger \<Rightarrow> open_row list \<Rightarrow> OpenDecision list result" where
  "scan_open_rows ledger [] = Inr []"
| "scan_open_rows ledger (row # rows) =
     (case scan_open_row ledger row of
        Inl e \<Rightarrow> Inl e
      | Inr decision \<Rightarrow>
          (case scan_open_rows ledger rows of Inl e \<Rightarrow> Inl e | Inr decisions \<Rightarrow> Inr (decision # decisions)))"

definition OpenDecisionsAwaitingHuman ::
  "go_context \<Rightarrow> ledger \<Rightarrow> go_error + open_row list \<Rightarrow> OpenDecision list result" where
  "OpenDecisionsAwaitingHuman ctx ledger query =
     (case ctx of
        NilContext \<Rightarrow> Inl (PlainError ''read open decisions: context is required'')
      | Context (Some e) \<Rightarrow> Inl e
      | Context None \<Rightarrow>
          (case query of Inl e \<Rightarrow> Inl (WrapError ''read open decisions'' e) | Inr rows \<Rightarrow> scan_open_rows ledger rows))"

section \<open>The surfacer and its supervised round\<close>

definition mutationValidationFailure :: "string \<Rightarrow> go_error" where
  "mutationValidationFailure message =
     (case NewFailure ErrorInvalidArgument False message ''correct the bounded command fields'' None of
        Inl _ \<Rightarrow> PlainError ''mutation validation failed'' | Inr failure \<Rightarrow> failure)"

definition DueDecisions ::
  "DecisionSurfacingPolicy \<Rightarrow> go_context \<Rightarrow> ledger \<Rightarrow> go_error + open_row list \<Rightarrow> time \<Rightarrow> OpenDecision list result" where
  "DueDecisions policy ctx ledger query now =
     (case ctx of
        NilContext \<Rightarrow> Inl (PlainError ''read due decisions: context is required'')
      | Context (Some e) \<Rightarrow> Inl e
      | Context None \<Rightarrow>
          (case OpenDecisionsAwaitingHuman ctx ledger query of
             Inl e \<Rightarrow> Inl e
           | Inr decisions \<Rightarrow> Inr (filter (\<lambda>decision. Due policy decision now) decisions)))"

definition RecordSurfaced ::
  "go_context \<Rightarrow> go_error option \<Rightarrow> time \<Rightarrow> ledger \<Rightarrow> OpenDecision \<Rightarrow> ledger \<times> go_error option" where
  "RecordSurfaced ctx write now ledger decision =
     (case ctx of
        NilContext \<Rightarrow> (ledger, Some (PlainError ''record surfaced decision: context is required''))
      | Context (Some e) \<Rightarrow> (ledger, Some e)
      | Context None \<Rightarrow>
          (if ValidateTaskHandle (open_TaskHandle decision) \<noteq> None \<or> ValidateDecisionKey (open_ExternalKey decision) \<noteq> None
           then (ledger, Some (mutationValidationFailure ''surfaced decision identity is invalid''))
           else RecordDecisionSurfaced ctx write ledger
             \<lparr>dsm_TaskHandle = open_TaskHandle decision, dsm_ExternalKey = open_ExternalKey decision, dsm_At = now\<rparr>))"

text \<open>What the world answers while a round runs, per decision.\<close>

record surfacing_world =
  world_raise :: "OpenDecision \<Rightarrow> go_error option"
  world_context :: "OpenDecision \<Rightarrow> go_context"
  world_write :: "OpenDecision \<Rightarrow> go_error option"
  world_clock :: "OpenDecision \<Rightarrow> time"

datatype round_failure = decisionRaisingError go_error | RoundFailed go_error

fun raise_each :: "surfacing_world \<Rightarrow> ledger \<Rightarrow> OpenDecision list \<Rightarrow> ledger \<times> round_failure option" where
  "raise_each world ledger [] = (ledger, None)"
| "raise_each world ledger (decision # decisions) =
     (case world_raise world decision of
        Some e \<Rightarrow> (ledger, Some (decisionRaisingError e))
      | None \<Rightarrow>
          (case RecordSurfaced (world_context world decision) (world_write world decision) (world_clock world decision)
                  ledger decision of
             (ledger', Some e) \<Rightarrow>
               (ledger', Some (RoundFailed (WrapError ''run decision surfacing supervisor: record surfaced decision'' e)))
           | (ledger', None) \<Rightarrow> raise_each world ledger' decisions))"

definition raiseDueDecisions ::
  "DecisionSurfacingPolicy \<Rightarrow> surfacing_world \<Rightarrow> go_context \<Rightarrow> ledger \<Rightarrow> go_error + open_row list \<Rightarrow> time \<Rightarrow>
     ledger \<times> round_failure option" where
  "raiseDueDecisions policy world ctx ledger query now =
     (case DueDecisions policy ctx ledger query now of
        Inl e \<Rightarrow> (ledger, Some (RoundFailed (WrapError ''run decision surfacing supervisor: read due decisions'' e)))
      | Inr due \<Rightarrow> raise_each world ledger due)"

section \<open>The published schedule\<close>

datatype DecisionStatus = DecisionAwaitingHost | DecisionAwaitingHuman | DecisionStatusOther string

fun DecisionStatus_Valid :: "DecisionStatus \<Rightarrow> bool" where
  "DecisionStatus_Valid (DecisionStatusOther _) = False"
| "DecisionStatus_Valid _ = True"

record TaskDecision =
  td_StateVersion :: int64
  td_TaskHandle :: string
  td_ExternalKey :: string
  td_Status :: DecisionStatus
  td_Question :: string
  td_Detail :: string
  td_ReportedAt :: time
  td_AskedAt :: "time option"
  td_Airings :: int64
  td_LastAiringAt :: "time option"
  td_NextAiringAt :: "time option"

definition attach_airing :: "DecisionSurfacingPolicy \<Rightarrow> int64 \<Rightarrow> TaskDecision \<Rightarrow> TaskDecision" where
  "attach_airing configured stateVersion decision =
     (let policy = (if configured = \<lparr>pol_Initial = 0, pol_Maximum = 0\<rparr> then DefaultDecisionSurfacingPolicy else configured);
          versioned = decision\<lparr>td_StateVersion := stateVersion\<rparr>
      in (case td_LastAiringAt decision of
            None \<Rightarrow> versioned
          | Some last_at \<Rightarrow>
              (if td_Status decision \<noteq> DecisionAwaitingHuman then versioned
               else versioned\<lparr>td_NextAiringAt := Some (Add last_at (Interval policy (td_Airings decision)))\<rparr>)))"

section \<open>Interval in closed form\<close>

lemma sdiv2: "0 \<le> (m :: int) \<Longrightarrow> m sdiv 2 = m div 2"
  by (cases "m = 0") (simp_all add: signed_divide_int_def)

lemma sint64_double:
  fixes x :: int64
  assumes "0 \<le> sint x" "2 * sint x < 2 ^ 63"
  shows "sint (x * 2) = 2 * sint x"
proof -
  have "sint (x * 2) = signed_take_bit 63 (sint x * 2)"
    by (simp add: sint_word_ariths)
  also have "\<dots> = sint x * 2"
    by (rule signed_take_bit_int_eq_self) (use assms in simp_all)
  finally show ?thesis by simp
qed

text \<open>
  The interval owed after \<open>n\<close> airings: the first one is \<open>i\<close>, every further one doubles it, and it stops
  at \<open>m\<close> as soon as the doubling comes within one nanosecond of it.
\<close>

definition doubled :: "int \<Rightarrow> int \<Rightarrow> nat \<Rightarrow> int" where
  "doubled i m n = (if 0 < n \<and> m - m mod 2 \<le> i * 2 ^ n then m else i * 2 ^ n)"

lemma interval_loop_doubled:
  assumes "0 < sint interval" "sint interval \<le> sint maximum"
  shows "sint (interval_loop n maximum interval) = doubled (sint interval) (sint maximum) n"
  using assms
proof (induction n arbitrary: interval)
  case (Suc n)
  let ?i = "sint interval" and ?m = "sint maximum"
  have m: "2 * (?m div 2) = ?m - ?m mod 2" "?m sdiv 2 = ?m div 2"
    using Suc.prems by (simp_all add: sdiv2 minus_mod_eq_mult_div [symmetric])
  show ?case
  proof (cases "?m div 2 \<le> ?i")
    case True
    have "2 * ?i \<le> ?i * 2 ^ Suc n" using Suc.prems by simp
    moreover from True m(1) have "?m - ?m mod 2 \<le> 2 * ?i" by linarith
    ultimately have "?m - ?m mod 2 \<le> ?i * 2 ^ Suc n" by linarith
    with True show ?thesis by (simp add: m(2) doubled_def)
  next
    case False
    then have le: "2 * ?i + 2 \<le> ?m - ?m mod 2" using m(1) by linarith
    have "0 \<le> ?m mod 2" by simp
    with le have "2 * ?i < ?m" by linarith
    with sint64_bounds(2) [of maximum] have d: "sint (interval * 2) = 2 * ?i"
      using Suc.prems by (intro sint64_double) linarith+
    have "sint (interval_loop n maximum (interval * 2)) = doubled (2 * ?i) ?m n"
      using Suc.IH [of "interval * 2"] Suc.prems d \<open>2 * ?i < ?m\<close> by simp
    also have "\<dots> = doubled ?i ?m (Suc n)"
      using le by (cases n) (auto simp: doubled_def mult_ac)
    finally show ?thesis using False by (simp add: m(2))
  qed
qed (simp add: doubled_def)

lemma Policy_Validate_None:
  "Policy_Validate policy = None \<longleftrightarrow>
     0 < sint (pol_Initial policy) \<and> sint (pol_Initial policy) \<le> sint (pol_Maximum policy)"
  by (auto simp: Policy_Validate_def)

lemma Interval_doubled:
  assumes "Policy_Validate policy = None" "0 < sint c"
  shows "sint (Interval policy c) = doubled (sint (pol_Initial policy)) (sint (pol_Maximum policy)) (nat (sint c) - 1)"
  using assms by (simp add: Interval_def Policy_Validate_None interval_loop_doubled nat_diff_distrib)

lemma doubled_bounds:
  assumes "0 < i" "i \<le> m"
  shows "i \<le> doubled i m n" "doubled i m n \<le> m"
proof -
  have "i * 1 \<le> i * 2 ^ n" using assms by (intro mult_left_mono) simp_all
  then show "i \<le> doubled i m n" using assms by (simp add: doubled_def)
  have "0 \<le> m mod 2" by simp
  with assms show "doubled i m n \<le> m" by (cases "n = 0") (auto simp: doubled_def)
qed

lemma doubled_mono:
  assumes "0 < i" "i \<le> m" "k \<le> n"
  shows "doubled i m k \<le> doubled i m n"
proof (cases "0 < n \<and> m - m mod 2 \<le> i * 2 ^ n")
  case True
  then show ?thesis using doubled_bounds(2) [OF assms(1,2), of k] by (simp add: doubled_def)
next
  case False
  have "i * 2 ^ k \<le> i * 2 ^ n" using assms by simp
  with False assms(3) show ?thesis by (auto simp: doubled_def)
qed

lemma Interval_bounds:
  assumes "Policy_Validate policy = None" "0 < sint c"
  shows "sint (pol_Initial policy) \<le> sint (Interval policy c)" "sint (Interval policy c) \<le> sint (pol_Maximum policy)"
  using assms doubled_bounds by (auto simp: Interval_doubled Policy_Validate_None)

section \<open>What a round does to the ledger\<close>

text \<open>Airings so far, the delivery of the report being the first, and the instant of the last one.\<close>

definition airings :: "ledger \<Rightarrow> string \<times> string \<Rightarrow> int64" where
  "airings ledger key = (case ledger key of None \<Rightarrow> 0 | Some s \<Rightarrow> row_SurfaceCount s) + 1"

definition last_airing :: "ledger \<Rightarrow> string \<times> string \<Rightarrow> time \<Rightarrow> int" where
  "last_airing ledger key asked =
     (case ledger key of None \<Rightarrow> instant asked | Some s \<Rightarrow> max (instant asked) (instant (row_LastSurfacedAt s)))"

definition open_key :: "OpenDecision \<Rightarrow> string \<times> string" where
  "open_key decision = (open_TaskHandle decision, open_ExternalKey decision)"

lemma scan_open_row_Inr:
  assumes "scan_open_row ledger row = Inr d"
  shows "open_key d = orow_key row" "open_SurfaceCount d = airings ledger (orow_key row)"
    "\<exists>asked. orow_DeliveredAt row = Some asked \<and> instant (open_LastSurfacedAt d) = last_airing ledger (orow_key row) asked"
  using assms
  by (auto simp: scan_open_row_def open_key_def orow_key_def airings_def last_airing_def Let_def After_def
      split: if_splits option.splits)

lemma scan_open_rows_Inr:
  "scan_open_rows ledger rows = Inr ds \<Longrightarrow> list_all2 (\<lambda>row d. scan_open_row ledger row = Inr d) rows ds"
  by (induction rows arbitrary: ds) (auto split: sum.splits)

lemma list_all2_rightE:
  assumes "list_all2 P xs ys" "y \<in> set ys"
  obtains x where "x \<in> set xs" "P x y"
  using assms by (induction rule: list_all2_induct) auto

lemma list_all2_leftE:
  assumes "list_all2 P xs ys" "x \<in> set xs"
  obtains y where "y \<in> set ys" "P x y"
  using assms by (induction rule: list_all2_induct) auto

lemma scan_open_rows_key:
  assumes "scan_open_rows ledger rows = Inr ds"
  shows "map open_key ds = map orow_key rows"
  using scan_open_rows_Inr [OF assms] by (induction rule: list_all2_induct) (simp_all add: scan_open_row_Inr)

lemma RecordSurfaced_None:
  assumes "RecordSurfaced ctx write now ledger d = (ledger', None)"
  shows "ledger' = ledger(open_key d \<mapsto>
    (case ledger (open_key d) of
       None \<Rightarrow> \<lparr>row_FirstSurfacedAt = now, row_LastSurfacedAt = now, row_SurfaceCount = 1\<rparr>
     | Some row \<Rightarrow> row\<lparr>row_LastSurfacedAt := now, row_SurfaceCount := row_SurfaceCount row + 1\<rparr>))"
  using assms
  by (auto simp: RecordSurfaced_def RecordDecisionSurfaced_def open_key_def Let_def
      split: go_context.splits option.splits if_splits)

lemma RecordSurfaced_Some: "RecordSurfaced ctx write now ledger d = (ledger', Some e) \<Longrightarrow> ledger' = ledger"
  by (auto simp: RecordSurfaced_def RecordDecisionSurfaced_def Let_def split: go_context.splits option.splits if_splits)

lemma RecordSurfaced_other:
  "RecordSurfaced ctx write now ledger d = (ledger', r) \<Longrightarrow> open_key d \<noteq> key \<Longrightarrow> ledger' key = ledger key"
  by (cases r) (auto dest!: RecordSurfaced_Some RecordSurfaced_None)

text \<open>Raising a list of decisions with distinct keys touches each of its keys at most once.\<close>

lemma raise_each_other:
  "raise_each world ledger ds = (ledger', r) \<Longrightarrow> key \<notin> open_key ` set ds \<Longrightarrow> ledger' key = ledger key"
proof (induction ds arbitrary: ledger)
  case (Cons d ds)
  show ?case
  proof (cases "world_raise world d")
    case None
    obtain l q where rec: "RecordSurfaced (world_context world d) (world_write world d) (world_clock world d) ledger d = (l, q)"
      by fastforce
    then have "l key = ledger key" by (rule RecordSurfaced_other) (use Cons.prems(2) in auto)
    with rec None Cons show ?thesis by (cases q) auto
  qed (use Cons in auto)
qed simp

definition aired :: "ledger \<Rightarrow> ledger \<Rightarrow> string \<times> string \<Rightarrow> time \<Rightarrow> bool" where
  "aired ledger ledger' key at \<longleftrightarrow> (\<exists>row. ledger' key = Some row \<and> row_LastSurfacedAt row = at \<and>
     row_SurfaceCount row = airings ledger key)"

lemma raise_each_effect:
  assumes "raise_each world ledger ds = (ledger', r)" "distinct (map open_key ds)" "d \<in> set ds"
  shows "ledger' (open_key d) = ledger (open_key d) \<and> r \<noteq> None \<or> aired ledger ledger' (open_key d) (world_clock world d)"
  using assms
proof (induction ds arbitrary: ledger)
  case (Cons e ds)
  show ?case
  proof (cases "world_raise world e")
    case (Some x)
    with Cons.prems show ?thesis by auto
  next
    case None
    obtain l q where rec: "RecordSurfaced (world_context world e) (world_write world e) (world_clock world e) ledger e = (l, q)"
      by fastforce
    show ?thesis
    proof (cases q)
      case (Some x)
      with rec None Cons.prems(1) RecordSurfaced_Some [of _ _ _ ledger e l x] show ?thesis by auto
    next
      case ok: None
      then have rest: "raise_each world l ds = (ledger', r)" using rec None Cons.prems(1) by simp
      have l: "l = ledger(open_key e \<mapsto>
          (case ledger (open_key e) of
             None \<Rightarrow> \<lparr>row_FirstSurfacedAt = world_clock world e, row_LastSurfacedAt = world_clock world e, row_SurfaceCount = 1\<rparr>
           | Some row \<Rightarrow> row\<lparr>row_LastSurfacedAt := world_clock world e, row_SurfaceCount := row_SurfaceCount row + 1\<rparr>))"
        using RecordSurfaced_None rec ok by blast
      show ?thesis
      proof (cases "d = e")
        case True
        then have "ledger' (open_key d) = l (open_key d)"
          using raise_each_other [OF rest] Cons.prems(2) by (metis distinct.simps(2) list.set_map list.simps(9))
        with l True show ?thesis by (auto simp: aired_def airings_def split: option.splits)
      next
        case False
        with Cons.prems have d: "d \<in> set ds" "open_key d \<noteq> open_key e" by (auto simp: image_iff)
        then have same: "l (open_key d) = ledger (open_key d)" using l by simp
        show ?thesis using Cons.IH [OF rest _ d(1)] Cons.prems(2) same by (auto simp: aired_def airings_def)
      qed
    qed
  qed
qed simp

lemma raiseDueDecisions_due:
  assumes "raiseDueDecisions policy world ctx ledger (Inr rows) now = (ledger', r)"
    "DueDecisions policy ctx ledger (Inr rows) now = Inr due" "distinct (map orow_key rows)"
  obtains ds where "scan_open_rows ledger rows = Inr ds" "due = filter (\<lambda>d. Due policy d now) ds"
    "distinct (map open_key due)" "raise_each world ledger due = (ledger', r)"
proof -
  from assms(2) obtain ds where ds: "scan_open_rows ledger rows = Inr ds" "due = filter (\<lambda>d. Due policy d now) ds"
    by (auto simp: DueDecisions_def OpenDecisionsAwaitingHuman_def split: go_context.splits option.splits sum.splits)
  have "distinct (map open_key ds)" using scan_open_rows_key [OF ds(1)] assms(3) by simp
  then have "distinct (map open_key due)" unfolding ds(2) by (rule distinct_map_filter)
  moreover have "raise_each world ledger due = (ledger', r)"
    using assms(1) unfolding raiseDueDecisions_def assms(2) by simp
  ultimately show thesis by (rule that [OF ds])
qed

lemma raiseDueDecisions_changed:
  assumes "raiseDueDecisions policy world ctx ledger (Inr rows) now = (ledger', r)"
    "distinct (map orow_key rows)" "ledger' key \<noteq> ledger key"
  obtains d row where "row \<in> set rows" "scan_open_row ledger row = Inr d" "orow_key row = key" "Due policy d now"
    "aired ledger ledger' key (world_clock world d)"
proof -
  obtain due where due: "DueDecisions policy ctx ledger (Inr rows) now = Inr due"
    using assms(1,3) unfolding raiseDueDecisions_def by (cases "DueDecisions policy ctx ledger (Inr rows) now") simp_all
  from raiseDueDecisions_due [OF assms(1) due assms(2)] obtain ds where
    ds: "scan_open_rows ledger rows = Inr ds" "due = filter (\<lambda>d. Due policy d now) ds"
    "distinct (map open_key due)" "raise_each world ledger due = (ledger', r)" by blast
  have "key \<in> open_key ` set due" using raise_each_other [OF ds(4), of key] assms(3) by metis
  then obtain d where d: "d \<in> set due" "open_key d = key" by blast
  from d(1) ds(2) have "d \<in> set ds" by simp
  with scan_open_rows_Inr [OF ds(1)] obtain row where "row \<in> set rows" "scan_open_row ledger row = Inr d"
    by (rule list_all2_rightE)
  moreover from this d(2) have "orow_key row = key" by (simp add: scan_open_row_Inr(1))
  moreover have "aired ledger ledger' key (world_clock world d)"
    using raise_each_effect [OF ds(4,3) d(1)] assms(3) unfolding d(2) by blast
  moreover have "Due policy d now" using d(1) ds(2) by simp
  ultimately show thesis using that by blast
qed

lemma raiseDueDecisions_complete:
  assumes "raiseDueDecisions policy world ctx ledger (Inr rows) now = (ledger', None)"
    "distinct (map orow_key rows)" "row \<in> set rows"
  obtains d where "scan_open_row ledger row = Inr d" "Due policy d now \<longrightarrow> aired ledger ledger' (orow_key row) (world_clock world d)"
proof -
  obtain due where due: "DueDecisions policy ctx ledger (Inr rows) now = Inr due"
    using assms(1) by (auto simp: raiseDueDecisions_def split: sum.splits)
  from raiseDueDecisions_due [OF assms(1) due assms(2)] obtain ds where
    ds: "scan_open_rows ledger rows = Inr ds" "due = filter (\<lambda>d. Due policy d now) ds"
    "distinct (map open_key due)" "raise_each world ledger due = (ledger', None)" by blast
  from scan_open_rows_Inr [OF ds(1)] assms(3) obtain d where d: "d \<in> set ds" "scan_open_row ledger row = Inr d"
    by (rule list_all2_leftE)
  have "aired ledger ledger' (orow_key row) (world_clock world d)" if "Due policy d now"
    using raise_each_effect [OF ds(4,3), of d] d that ds(2) scan_open_row_Inr(1) [OF d(2)] by auto
  with d(2) show thesis by (intro that) blast+
qed

lemma Due_iff:
  assumes "0 < sint (open_SurfaceCount d)"
  shows "Due policy d now \<longleftrightarrow>
    instant (open_LastSurfacedAt d) + sint (Interval policy (open_SurfaceCount d)) \<le> instant now"
  using assms by (auto simp: Due_def Before_def Add_def)

section \<open>Samples\<close>

definition ada_row :: open_row where
  "ada_row = \<lparr>orow_TaskHandle = ''task-1'', orow_ManagedRunID = ''run-1'', orow_ExternalKey = ''key-1'',
     orow_Summary = ''which port?'', orow_Details = [], orow_DeliveredAt = Some \<lparr>instant = 1000, in_utc = True\<rparr>\<rparr>"

definition willing_world :: "time \<Rightarrow> surfacing_world" where
  "willing_world at = \<lparr>world_raise = (\<lambda>_. None), world_context = (\<lambda>_. Context None), world_write = (\<lambda>_. None),
     world_clock = (\<lambda>_. at)\<rparr>"

definition short_policy :: DecisionSurfacingPolicy where
  "short_policy = \<lparr>pol_Initial = 10, pol_Maximum = 45\<rparr>"

lemma decision_strings [simp]:
  "authorityPattern ''run-1''" "opaqueIDPattern ''task-1''" "opaqueIDPattern ''key-1''"
  by code_simp+

lemma short_policy_valid [simp]: "Policy_Validate short_policy = None"
  by (simp add: Policy_Validate_None short_policy_def)

section \<open>Properties\<close>

text \<open>
  The cadence doubles and is bounded: under a valid policy the interval owed after any positive
  number of airings never overflows, is the initial interval doubled that often until it comes within
  a nanosecond of the maximum and the maximum from then on, lies between the two, and never shrinks.
\<close>

lemma surfacing_interval_exact:
  assumes "Policy_Validate policy = None" "0 < sint c" "sint c \<le> sint c'"
  defines "i \<equiv> sint (pol_Initial policy)" and "m \<equiv> sint (pol_Maximum policy)"
  shows "sint (Interval policy c) = (if 1 < sint c \<and> m - m mod 2 \<le> i * 2 ^ (nat (sint c) - 1) then m
      else i * 2 ^ (nat (sint c) - 1)) \<and>
    i \<le> sint (Interval policy c) \<and> sint (Interval policy c) \<le> m \<and>
    sint (Interval policy c) \<le> sint (Interval policy c')"
proof -
  have "sint (Interval policy c) \<le> sint (Interval policy c')"
    using assms by (simp add: Interval_doubled Policy_Validate_None doubled_mono)
  then show ?thesis
    using Interval_bounds [OF assms(1,2)] assms(2) by (simp add: Interval_doubled [OF assms(1,2)] doubled_def i_def m_def)
qed

text \<open>
  C31.  The cadence belongs to the question, not to the polling: in any round of the supervisor, whatever
  fails on the way, a ledger entry changes only for an open decision whose interval since its last
  airing has elapsed, and then by exactly one airing stamped with the clock.  In a round that ends
  without failure every open decision past the maximum interval is aired.
\<close>

theorem surfacing_cadence:
  assumes "raiseDueDecisions policy world ctx ledger (Inr rows) now = (ledger', failure)"
    and "distinct (map orow_key rows)" "row \<in> set rows" "orow_DeliveredAt row = Some asked"
    and "Policy_Validate policy = None" "0 < sint (airings ledger (orow_key row))"
  defines "key \<equiv> orow_key row"
  shows "(ledger' key \<noteq> ledger key \<longrightarrow>
      last_airing ledger key asked + sint (Interval policy (airings ledger key)) \<le> instant now \<and>
      (\<exists>d s. ledger' key = Some s \<and> row_SurfaceCount s = airings ledger key \<and> row_LastSurfacedAt s = world_clock world d)) \<and>
    (failure = None \<and> last_airing ledger key asked + sint (pol_Maximum policy) \<le> instant now \<longrightarrow>
      (\<exists>s. ledger' key = Some s \<and> row_SurfaceCount s = airings ledger key))"
proof (intro conjI impI)
  have row_unique: "row' = row" if "row' \<in> set rows" "orow_key row' = orow_key row" for row'
    using that assms(2,3) by (auto simp: distinct_map dest: inj_onD)
  assume "ledger' key \<noteq> ledger key"
  from raiseDueDecisions_changed [OF assms(1,2) this] obtain d where
    d: "scan_open_row ledger row = Inr d" "Due policy d now" "aired ledger ledger' key (world_clock world d)"
    by (metis key_def row_unique)
  then show "last_airing ledger key asked + sint (Interval policy (airings ledger key)) \<le> instant now"
    using scan_open_row_Inr(2,3) [OF d(1)] Due_iff [of d policy now] assms(4,6) by (auto simp: key_def)
  from d(3) show "\<exists>d s. ledger' key = Some s \<and> row_SurfaceCount s = airings ledger key \<and> row_LastSurfacedAt s = world_clock world d"
    by (auto simp: aired_def)
next
  assume late: "failure = None \<and> last_airing ledger key asked + sint (pol_Maximum policy) \<le> instant now"
  with assms(1) have "raiseDueDecisions policy world ctx ledger (Inr rows) now = (ledger', None)" by simp
  from raiseDueDecisions_complete [OF this assms(2,3)] obtain d where
    d: "scan_open_row ledger row = Inr d" "Due policy d now \<longrightarrow> aired ledger ledger' key (world_clock world d)"
    by (auto simp: key_def)
  moreover have "Due policy d now"
    using late scan_open_row_Inr(2,3) [OF d(1)] Due_iff [of d policy now] Interval_bounds(2) [OF assms(5,6)] assms(4,6)
    by (auto simp: key_def)
  ultimately show "\<exists>s. ledger' key = Some s \<and> row_SurfaceCount s = airings ledger key"
    by (auto simp: aired_def)
qed

theorem surfacing_cadence_witness:
  "\<exists>s. fst (raiseDueDecisions short_policy (willing_world \<lparr>instant = 1050, in_utc = True\<rparr>) (Context None) Map.empty
      (Inr [ada_row]) \<lparr>instant = 1050, in_utc = True\<rparr>) (''task-1'', ''key-1'') = Some s \<and> row_SurfaceCount s = 1"
proof -
  let ?now = "\<lparr>instant = 1050, in_utc = True\<rparr>"
  let ?d = "\<lparr>open_TaskHandle = ''task-1'', open_ManagedRunID = ''run-1'', open_ExternalKey = ''key-1'',
    open_Summary = ''which port?'', open_Details = [], open_SurfaceCount = 1,
    open_LastSurfacedAt = \<lparr>instant = 1000, in_utc = True\<rparr>\<rparr>"
  have "scan_open_row Map.empty ada_row = Inr ?d"
    by (simp add: scan_open_row_def ada_row_def field_check_defs)
  moreover have "Due short_policy ?d ?now"
    by (simp add: Due_def Before_def Add_def Interval_def short_policy_def)
  ultimately have due: "DueDecisions short_policy (Context None) Map.empty (Inr [ada_row]) ?now = Inr [?d]"
    by (simp add: DueDecisions_def OpenDecisionsAwaitingHuman_def)
  obtain l where run: "raiseDueDecisions short_policy (willing_world ?now) (Context None) Map.empty (Inr [ada_row]) ?now = (l, None)"
    unfolding raiseDueDecisions_def due
    by (simp add: field_check_defs ValidateDecisionKey_def willing_world_def RecordSurfaced_def RecordDecisionSurfaced_def Let_def)
  have "orow_key ada_row = (''task-1'', ''key-1'')" "orow_DeliveredAt ada_row = Some \<lparr>instant = 1000, in_utc = True\<rparr>"
    by (simp_all add: ada_row_def orow_key_def)
  with surfacing_cadence [OF run, of ada_row "\<lparr>instant = 1000, in_utc = True\<rparr>"] run show ?thesis
    by (simp add: airings_def last_airing_def) (simp add: short_policy_def)
qed

text \<open>
  The published schedule is the one that runs: for a question already asked, the next airing the
  inventory publishes is the exact instant from which the supervisor's due check raises it again, under
  the configured cadence, or the default one when none is configured.
\<close>

lemma published_airing_is_due_time:
  fixes configured :: DecisionSurfacingPolicy
  assumes "td_Status t = DecisionAwaitingHuman" "td_LastAiringAt t = Some at" "0 < sint (td_Airings t)"
    and "open_SurfaceCount d = td_Airings t" "open_LastSurfacedAt d = at"
  defines "policy \<equiv> if configured = \<lparr>pol_Initial = 0, pol_Maximum = 0\<rparr> then DefaultDecisionSurfacingPolicy else configured"
  shows "\<exists>next. td_NextAiringAt (attach_airing configured v t) = Some next \<and>
    (Due policy d now \<longleftrightarrow> instant next \<le> instant now)"
  using assms by (auto simp: attach_airing_def Let_def Due_iff Add_def)

definition asked_decision :: TaskDecision where
  "asked_decision = \<lparr>td_StateVersion = 0, td_TaskHandle = ''task-1'', td_ExternalKey = ''key-1'',
     td_Status = DecisionAwaitingHuman, td_Question = ''which port?'', td_Detail = [],
     td_ReportedAt = \<lparr>instant = 1000, in_utc = True\<rparr>, td_AskedAt = Some \<lparr>instant = 1000, in_utc = True\<rparr>,
     td_Airings = 1, td_LastAiringAt = Some \<lparr>instant = 1000, in_utc = True\<rparr>, td_NextAiringAt = None\<rparr>"

text \<open>
  The control characters an answer may not carry stop at the ASCII ones: a response holding U+009B,
  the one-character control sequence introducer, is accepted, although \<open>unicode.IsControl\<close> (which the
  other text validators ask) counts it as a control character.
\<close>

lemma decision_response_accepts_csi:
  "ValidateDecisionResponse [CHR 0xC2, CHR 0x9B, CHR 0x41] = None \<and>
   runes [CHR 0xC2, CHR 0x9B, CHR 0x41] = [0x9B, 0x41] \<and> IsControl 0x9B"
  by (simp add: ValidateDecisionResponse_def ValidString_def runes_def MaximumDecisionResponseBytes_def IsControl_def
      go_text_eval cont_byte_def RuneError_def)

end
