(* ===== verification/Failures.thy ===== *)
theory Failures
  imports Validation
begin

text \<open>
  The application's sentinel errors (\<open>application/repository.go\<close>), how a chain of causes is matched
  (\<open>errors.Is\<close>), and the failures the queries show a caller (\<open>application/queries.go\<close>).
\<close>

section \<open>Failures safe to show\<close>

definition ErrNotFound :: go_error where
  "ErrNotFound = PlainError ''record not found''"

definition ErrConflict :: go_error where
  "ErrConflict = PlainError ''record identity conflict''"

definition ErrPrecondition :: go_error where
  "ErrPrecondition = PlainError ''durable precondition failed''"

definition context_Canceled :: go_error where
  "context_Canceled = PlainError ''context canceled''"

definition context_DeadlineExceeded :: go_error where
  "context_DeadlineExceeded = PlainError ''context deadline exceeded''"

definition ErrInvalidInput :: go_error where
  "ErrInvalidInput = PlainError ''mutation input is invalid''"

definition ErrInvalidTransition :: go_error where
  "ErrInvalidTransition = PlainError ''invalid task transition''"

text \<open>\<open>errors.Is\<close> walks the chain of causes; a transition error unwraps to \<open>ErrInvalidTransition\<close>.\<close>

fun errors_Is :: "go_error \<Rightarrow> go_error \<Rightarrow> bool" where
  "errors_Is (WrapError context cause) target = (WrapError context cause = target \<or> errors_Is cause target)"
| "errors_Is (Failure code retryable message hint (Some cause)) target =
     (Failure code retryable message hint (Some cause) = target \<or> errors_Is cause target)"
| "errors_Is (TransitionError from transition reason) target =
     (TransitionError from transition reason = target \<or> ErrInvalidTransition = target)"
| "errors_Is e target = (e = target)"

definition newSafeFailure :: "ErrorCode \<Rightarrow> bool \<Rightarrow> string \<Rightarrow> string \<Rightarrow> go_error option \<Rightarrow> go_error" where
  "newSafeFailure code retryable message hint cause =
     (case NewFailure code retryable message hint cause of
        Inl e \<Rightarrow> WrapError ''construct safe application failure'' e | Inr failure \<Rightarrow> failure)"

definition invalidReferenceFailure :: "string \<Rightarrow> go_error \<Rightarrow> go_error" where
  "invalidReferenceFailure subject cause =
     newSafeFailure ErrorInvalidArgument False (''invalid '' @ subject) ''use a bounded opaque identifier'' (Some cause)"

definition translateReadError :: "go_error \<Rightarrow> string \<Rightarrow> go_error" where
  "translateReadError err subject =
     (if errors_Is err context_Canceled \<or> errors_Is err context_DeadlineExceeded
      then newSafeFailure ErrorDeadlineExceeded True ''query did not complete'' ''retry the read request'' (Some err)
      else if errors_Is err ErrNotFound
      then newSafeFailure ErrorNotFound False (subject @ '' not found'') ''verify the opaque reference and retry'' (Some err)
      else newSafeFailure ErrorInternal True ''durable state is unavailable'' ''inspect service health before retrying'' (Some err))"

end
