(* ===== verification/Views.thy ===== *)
theory Views
  imports Failures Scheduler Lifecycle "HOL-Library.Multiset" "HOL-Library.Signed_Division"
begin

text \<open>
  The read side of the fleet: the capacity snapshot
  (\<open>application/fleet_capacity.go\<close>), the initiative graph (\<open>application/initiative_graph.go\<close>,
  \<open>application/initiative_queries.go\<close>), the task rows with their evidence (\<open>application/queries.go\<close>,
  \<open>application/task_evidence.go\<close>) and the reading of a candidate judgment
  (\<open>application/query_candidate_posture.go\<close>, \<open>application/query_explain.go\<close>).

  What the repository answers is an argument: an optional reader is \<open>None\<close> when the repository does not
  implement that interface.
\<close>

section \<open>Fleet capacity\<close>

datatype CandidateEvidenceStatus = CandidateEvidenceNone | CandidateEvidenceReconciled | CandidateEvidenceJudged
  | CandidateEvidenceStatusOther string

datatype ActivityEvidenceStatus = ActivityEvidenceNone | ActivityEvidenceAuthenticatedReport | ActivityEvidenceOther string

datatype DecisionEvidenceStatus = DecisionEvidenceNone | DecisionEvidenceOpen | DecisionEvidenceResolved
  | DecisionEvidenceOther string

datatype ValidationEvidenceStatus = ValidationEvidenceNotStarted | ValidationEvidenceRunning | ValidationEvidenceAccepted
  | ValidationEvidenceRejected | ValidationEvidenceUnknown | ValidationEvidenceOther string

datatype DeliveryEvidenceStatus = DeliveryEvidenceNotStarted | DeliveryEvidencePending | DeliveryEvidenceDelivered
  | DeliveryEvidenceUnknown | DeliveryEvidenceOther string

datatype CleanupEvidenceStatus = CleanupEvidenceNotStarted | CleanupEvidenceHeld | CleanupEvidencePrepared
  | CleanupEvidenceHostReleased | CleanupEvidenceRemovalAuthorized | CleanupEvidenceCompleted | CleanupEvidenceUnknown
  | CleanupEvidenceOther string

record CandidateEvidenceView =
  cev_Status :: CandidateEvidenceStatus
  cev_HeadRevision :: string
  cev_EvidenceDigest :: string
  cev_ReconciliationOperationID :: string

record ActivityEvidenceView =
  aev_Status :: ActivityEvidenceStatus
  aev_ReportID :: string
  aev_ReportKind :: WorkerReportKind
  aev_AcceptedAtMs :: int64

record DecisionEvidenceView =
  dev_Status :: DecisionEvidenceStatus
  dev_DecisionReportID :: string
  dev_ResolutionReportID :: string

record ValidationEvidenceView =
  vev_Status :: ValidationEvidenceStatus
  vev_EvidenceDigest :: string
  vev_ProcessOperationID :: string

record DeliveryEvidenceView =
  dlv_Status :: DeliveryEvidenceStatus
  dlv_EvidenceOperationID :: string
  dlv_EvidenceRef :: string
  dlv_PullRequestID :: string

record CleanupEvidenceView =
  clv_Status :: CleanupEvidenceStatus
  clv_OperationID :: string
  clv_OpenHoldCount :: int64

record TaskAuthorityView =
  tav_ManagedRunID :: string
  tav_WorkspaceLeaseID :: string
  tav_ExecutionAttachmentID :: string
  tav_PreparationOperationID :: string

record TaskEvidenceView =
  tev_Candidate :: CandidateEvidenceView
  tev_Activity :: ActivityEvidenceView
  tev_Decision :: DecisionEvidenceView
  tev_Validation :: ValidationEvidenceView
  tev_Delivery :: DeliveryEvidenceView
  tev_Cleanup :: CleanupEvidenceView
  tev_Authority :: TaskAuthorityView

record TaskObservation =
  obs_Task :: Task
  obs_Evidence :: TaskEvidenceView

datatype FleetCapacityKind = CapacityHost | CapacityRepository | CapacityWorkerProfile | CapacityKindOther string

record FleetCapacityDimension =
  dim_Kind :: FleetCapacityKind
  dim_ID :: string
  dim_Used :: int64
  dim_Limit :: int64
  dim_Available :: int64
  dim_Saturated :: bool

record FleetCapacitySnapshot =
  snap_Known :: bool
  snap_Dimensions :: "FleetCapacityDimension list"

definition newFleetCapacityDimension :: "FleetCapacityKind \<Rightarrow> string \<Rightarrow> int64 \<Rightarrow> int64 \<Rightarrow> FleetCapacityDimension" where
  "newFleetCapacityDimension kind ident used limit =
     (let available = (if sint (limit - used) < 0 then 0 else limit - used)
      in \<lparr>dim_Kind = kind, dim_ID = ident, dim_Used = used, dim_Limit = limit, dim_Available = available,
          dim_Saturated = (sint used \<ge> sint limit)\<rparr>)"

definition validateFleetCapacityDimension :: "FleetCapacityDimension \<Rightarrow> go_error option" where
  "validateFleetCapacityDimension dimension = first_error
     [(case dim_Kind dimension of
         CapacityHost \<Rightarrow> fail_if (dim_ID dimension \<noteq> []) (PlainError ''fleet host capacity must not carry an ID'')
       | CapacityKindOther _ \<Rightarrow> Some (PlainError ''fleet capacity kind is invalid'')
       | _ \<Rightarrow> fail_if (validateAuthorityReference ''capacityId'' (dim_ID dimension) \<noteq> None)
               (PlainError ''fleet scoped capacity ID is invalid'')),
      fail_if (sint (dim_Used dimension) < 0 \<or> sint (dim_Limit dimension) < 1 \<or> sint (dim_Available dimension) < 0 \<or>
               sint (dim_Available dimension) \<noteq> max (sint (dim_Limit dimension - dim_Used dimension)) 0 \<or>
               dim_Saturated dimension \<noteq> (sint (dim_Used dimension) \<ge> sint (dim_Limit dimension)))
        (PlainError ''fleet capacity values are inconsistent'')]"

text \<open>The loop over the observations: the counters it keeps, and the repositories it has seen.\<close>

fun count_capacity ::
  "print_table \<Rightarrow> InitiativeSchedulingLimits \<Rightarrow> TaskObservation list \<Rightarrow> schedulingUsage \<times> string list \<Rightarrow>
     (schedulingUsage \<times> string list) result" where
  "count_capacity u limits [] state = Inr state"
| "count_capacity u limits (observation # tasks) (usage, repositories) =
     (let task = obs_Task observation in
      if fmlookup (lim_WorkerProfileLimits limits) (task_WorkerProfileID task) = None
      then Inl (PlainError (''project fleet capacity: task '' @ Quote u (task_Handle task) @ '' names an unconfigured worker profile''))
      else count_capacity u limits tasks
        (if taskConsumesWorker (task_State task) then charge task usage else usage,
         List.insert (task_RepositoryID task) repositories))"

definition capacity_dimensions ::
  "InitiativeSchedulingLimits \<Rightarrow> schedulingUsage \<Rightarrow> string list \<Rightarrow> FleetCapacityDimension list" where
  "capacity_dimensions limits usage repositories =
     newFleetCapacityDimension CapacityHost [] (use_host usage) (lim_MaxConcurrentTasks limits) #
     map (\<lambda>repositoryID. newFleetCapacityDimension CapacityRepository repositoryID (use_repositories usage repositoryID)
            (lim_MaxConcurrentTasksPerRepository limits)) (sort repositories) @
     map (\<lambda>(profileID, limit). newFleetCapacityDimension CapacityWorkerProfile profileID (use_profiles usage profileID) limit)
       (sorted_list_of_fmap (lim_WorkerProfileLimits limits))"

definition projectFleetCapacity ::
  "print_table \<Rightarrow> TaskObservation list \<Rightarrow> InitiativeSchedulingLimits option \<Rightarrow> FleetCapacitySnapshot result" where
  "projectFleetCapacity u tasks configured =
     (case configured of
        None \<Rightarrow> Inr \<lparr>snap_Known = False, snap_Dimensions = []\<rparr>
      | Some limits \<Rightarrow>
          (case count_capacity u limits tasks (no_usage, []) of
             Inl e \<Rightarrow> Inl e
           | Inr (usage, repositories) \<Rightarrow>
               (let dimensions = capacity_dimensions limits usage repositories
                in ensure (first_error (map validateFleetCapacityDimension dimensions))
                     (Inr \<lparr>snap_Known = True, snap_Dimensions = dimensions\<rparr>))))"

section \<open>The graph of one initiative\<close>

datatype Completeness = CompletenessComplete | CompletenessPartial | CompletenessUnknown
datatype Confidence = ConfidenceVerified | ConfidenceUnknown
datatype StateSource = StateSourceStore

record InitiativeGraphNode =
  node_TaskHandle :: string
  node_ComponentHandle :: string
  node_RepositoryID :: string
  node_State :: TaskState
  node_DependencyReady :: bool
  node_IntegrationOwner :: bool

record InitiativeGraphEdge =
  gedge_From :: string
  gedge_To :: string
  gedge_Kind :: InitiativeEdgeKind
  gedge_RequiredArtifactKind :: ContractArtifactKind

record InitiativeGraphView =
  graph_InitiativeHandle :: string
  graph_ManagedRunGroupID :: string
  graph_State :: InitiativeState
  graph_StateVersion :: int64
  graph_IntegrationOwnerTask :: string
  graph_Nodes :: "InitiativeGraphNode list"
  graph_Edges :: "InitiativeGraphEdge list"
  graph_Source :: StateSource
  graph_Confidence :: Confidence
  graph_Completeness :: Completeness
  graph_ObservedAt :: time

definition graph_node ::
  "DevelopmentInitiative \<Rightarrow> (string \<rightharpoonup> TaskState) \<Rightarrow> string list \<Rightarrow> InitiativeComponent \<Rightarrow> string \<Rightarrow> InitiativeGraphNode" where
  "graph_node initiative states ready component handle =
     \<lparr>node_TaskHandle = handle, node_ComponentHandle = comp_ComponentHandle component,
      node_RepositoryID = comp_RepositoryID component,
      node_State = (case states handle of Some state \<Rightarrow> state | None \<Rightarrow> TaskUnknown),
      node_DependencyReady = (handle \<in> set ready),
      node_IntegrationOwner = (handle = ini_IntegrationOwnerTask initiative)\<rparr>"

definition ProjectInitiativeGraph ::
  "DevelopmentInitiative \<Rightarrow> (string \<rightharpoonup> TaskState) \<Rightarrow> time \<Rightarrow> InitiativeGraphView" where
  "ProjectInitiativeGraph initiative states observedAt =
     (let satisfied = (\<lambda>handle. case states handle of Some state \<Rightarrow> SatisfiesInitiativeDependency state | None \<Rightarrow> False);
          ready = DependencyReadyTasks initiative satisfied;
          known = list_all (\<lambda>handle. states handle \<noteq> None) (task_members initiative)
      in \<lparr>graph_InitiativeHandle = ini_Handle initiative, graph_ManagedRunGroupID = ini_ManagedRunGroupID initiative,
          graph_State = ini_State initiative, graph_StateVersion = ini_StateVersion initiative,
          graph_IntegrationOwnerTask = ini_IntegrationOwnerTask initiative,
          graph_Nodes = sort_key node_TaskHandle
            (concat (map (\<lambda>component. map (graph_node initiative states ready component) (comp_TaskHandles component))
              (ini_Components initiative))),
          graph_Edges = sort_key (\<lambda>edge. (gedge_From edge, gedge_To edge))
            (map (\<lambda>edge. \<lparr>gedge_From = edge_From edge, gedge_To = edge_To edge, gedge_Kind = edge_Kind edge,
                   gedge_RequiredArtifactKind = edge_RequiredArtifactKind edge\<rparr>) (ini_Edges initiative)),
          graph_Source = StateSourceStore,
          graph_Confidence = (if known then ConfidenceVerified else ConfidenceUnknown),
          graph_Completeness = (if known then CompletenessComplete else CompletenessPartial),
          graph_ObservedAt = observedAt\<rparr>)"

section \<open>Rows and explanations\<close>

datatype NextAction = ActionInspectTask | ActionStartTask | ActionResolveBlock | ActionInspectHealth
  | ActionReconcileTask | ActionPrepareTask | ActionNone

datatype Freshness = FreshnessCurrent | FreshnessUnknown

fun TaskState_string :: "TaskState \<Rightarrow> string" where
  "TaskState_string TaskPrepared = ''prepared''"
| "TaskState_string TaskReady = ''ready''"
| "TaskState_string TaskLaunching = ''launching''"
| "TaskState_string TaskWorking = ''working''"
| "TaskState_string TaskAwaitingDecision = ''awaiting_decision''"
| "TaskState_string TaskBlocked = ''blocked''"
| "TaskState_string TaskPaused = ''paused''"
| "TaskState_string TaskReconciling = ''reconciling''"
| "TaskState_string TaskValidating = ''validating''"
| "TaskState_string TaskCandidateComplete = ''candidate_complete''"
| "TaskState_string TaskDelivering = ''delivering''"
| "TaskState_string TaskDelivered = ''delivered''"
| "TaskState_string TaskFailed = ''failed''"
| "TaskState_string TaskCancelled = ''cancelled''"
| "TaskState_string TaskUnknown = ''unknown''"
| "TaskState_string TaskCleanupHeld = ''cleanup_held''"
| "TaskState_string TaskCleaned = ''cleaned''"
| "TaskState_string (TaskStateOther s) = s"

definition explainState :: "TaskState \<Rightarrow> string \<times> string \<times> string \<times> NextAction list" where
  "explainState state =
     (case state of
        TaskPrepared \<Rightarrow> (''task_prepared'', ''Task is prepared and has not started.'',
          ''No worker has been started for this task.'', [ActionInspectTask, ActionStartTask])
      | TaskBlocked \<Rightarrow> (''task_blocked'', ''Task progress is blocked.'',
          ''A required input or external condition is unresolved.'', [ActionInspectTask, ActionResolveBlock])
      | TaskUnknown \<Rightarrow> (''task_unknown'', ''Task posture cannot be proven from current evidence.'',
          ''One or more authoritative observations are missing or contradictory.'', [ActionInspectHealth, ActionReconcileTask])
      | TaskReconciling \<Rightarrow> (''reconciliation_in_progress'', ''Task reconciliation is already in progress.'',
          ''A durable recovery operation owns the current transition.'', [ActionInspectTask])
      | _ \<Rightarrow>
          (if state \<in> {TaskFailed, TaskCancelled, TaskCleanupHeld}
           then (''task_'' @ TaskState_string state, ''Task requires operator review.'',
             ''The durable state records a terminal or safety-held posture.'', [ActionInspectTask])
           else if state \<in> {TaskDelivered, TaskCleaned}
           then (''task_'' @ TaskState_string state, ''Task reached a completed durable posture.'',
             ''The durable state records successful completion of this stage.'', [ActionNone])
           else (''task_'' @ TaskState_string state, ''Task is progressing through its durable lifecycle.'',
             ''No durable blocking reason is recorded.'', [ActionInspectTask])))"

record TaskSummary =
  sum_TaskHandle :: string
  sum_State :: TaskState
  sum_StateReason :: string
  sum_StateSource :: StateSource
  sum_StateConfidence :: Confidence
  sum_Freshness :: Freshness
  sum_Custody :: string
  sum_WorkerProfileID :: string
  sum_RepositoryID :: string
  sum_Head :: string
  sum_Activity :: string
  sum_Processes :: string
  sum_Validation :: string
  sum_BlockedBy :: string
  sum_Attention :: string
  sum_StateVersion :: int64
  sum_ElapsedMs :: int64
  sum_LastActivityAtMs :: int64
  sum_NextSafeActions :: "NextAction list"

text \<open>\<open>UnixMilli\<close>: milliseconds since 1970, from nanoseconds since year 1.\<close>

definition UnixMilli :: "time \<Rightarrow> int64" where
  "UnixMilli t = of_int ((instant t - 62135596800000000000) div 1000000)"

definition reportActivity :: "Task \<Rightarrow> string" where
  "reportActivity task = (if sint (task_ReportCursor task) > 0 then ''authenticated_report'' else ''none'')"

definition taskBlocker :: "Task \<Rightarrow> string" where
  "taskBlocker task = (if task_State task = TaskAwaitingDecision then ''open_decision'' else ''none'')"

definition taskAttention :: "Task \<Rightarrow> string" where
  "taskAttention task = (if task_State task = TaskCleanupHeld then ''cleanup_hold'' else ''none'')"

fun ActivityEvidenceStatus_string :: "ActivityEvidenceStatus \<Rightarrow> string" where
  "ActivityEvidenceStatus_string ActivityEvidenceNone = ''none''"
| "ActivityEvidenceStatus_string ActivityEvidenceAuthenticatedReport = ''authenticated_report''"
| "ActivityEvidenceStatus_string (ActivityEvidenceOther s) = s"

fun ValidationEvidenceStatus_string :: "ValidationEvidenceStatus \<Rightarrow> string" where
  "ValidationEvidenceStatus_string ValidationEvidenceNotStarted = ''not_started''"
| "ValidationEvidenceStatus_string ValidationEvidenceRunning = ''running''"
| "ValidationEvidenceStatus_string ValidationEvidenceAccepted = ''accepted''"
| "ValidationEvidenceStatus_string ValidationEvidenceRejected = ''rejected''"
| "ValidationEvidenceStatus_string ValidationEvidenceUnknown = ''unknown''"
| "ValidationEvidenceStatus_string (ValidationEvidenceOther s) = s"

fun CandidateOutcome_string :: "CandidateOutcome \<Rightarrow> string" where
  "CandidateOutcome_string CandidateAccepted = ''accepted''"
| "CandidateOutcome_string CandidateRejected = ''rejected''"
| "CandidateOutcome_string CandidateUnknown = ''unknown''"
| "CandidateOutcome_string (CandidateOutcomeOther s) = s"

definition applyTaskEvidence :: "TaskSummary \<Rightarrow> TaskEvidenceView \<Rightarrow> TaskSummary" where
  "applyTaskEvidence summary evidence =
     summary\<lparr>
       sum_Head := (if cev_HeadRevision (tev_Candidate evidence) \<noteq> [] then cev_HeadRevision (tev_Candidate evidence)
         else sum_Head summary),
       sum_Activity := ActivityEvidenceStatus_string (aev_Status (tev_Activity evidence)),
       sum_LastActivityAtMs := (if sint (aev_AcceptedAtMs (tev_Activity evidence)) > 0
         then aev_AcceptedAtMs (tev_Activity evidence) else sum_LastActivityAtMs summary),
       sum_Validation := ValidationEvidenceStatus_string (vev_Status (tev_Validation evidence)),
       sum_BlockedBy := (if dev_Status (tev_Decision evidence) = DecisionEvidenceOpen then ''open_decision'' else ''none''),
       sum_Attention := (if clv_Status (tev_Cleanup evidence) = CleanupEvidenceHeld then ''cleanup_hold'' else ''none'')\<rparr>"

text \<open>The optional readers of the repository.\<close>

record query_ports =
  read_evidence :: "(string \<Rightarrow> TaskEvidenceView result) option"
  candidate_evidence :: "(string \<Rightarrow> (SealedDeliveryEvidence option \<times> CandidateJudgment) result) option"

definition no_candidate :: "TaskEvidenceView \<Rightarrow> bool" where
  "no_candidate evidence \<longleftrightarrow> cev_Status (tev_Candidate evidence) = CandidateEvidenceStatusOther []"

definition zero_evidence_view :: TaskEvidenceView where
  "zero_evidence_view =
     \<lparr>tev_Candidate = \<lparr>cev_Status = CandidateEvidenceStatusOther [], cev_HeadRevision = [], cev_EvidenceDigest = [],
        cev_ReconciliationOperationID = []\<rparr>,
      tev_Activity = \<lparr>aev_Status = ActivityEvidenceOther [], aev_ReportID = [], aev_ReportKind = ReportKindOther [], aev_AcceptedAtMs = 0\<rparr>,
      tev_Decision = \<lparr>dev_Status = DecisionEvidenceOther [], dev_DecisionReportID = [], dev_ResolutionReportID = []\<rparr>,
      tev_Validation = \<lparr>vev_Status = ValidationEvidenceOther [], vev_EvidenceDigest = [], vev_ProcessOperationID = []\<rparr>,
      tev_Delivery = \<lparr>dlv_Status = DeliveryEvidenceOther [], dlv_EvidenceOperationID = [], dlv_EvidenceRef = [],
        dlv_PullRequestID = []\<rparr>,
      tev_Cleanup = \<lparr>clv_Status = CleanupEvidenceOther [], clv_OperationID = [], clv_OpenHoldCount = 0\<rparr>,
      tev_Authority = \<lparr>tav_ManagedRunID = [], tav_WorkspaceLeaseID = [], tav_ExecutionAttachmentID = [],
        tav_PreparationOperationID = []\<rparr>\<rparr>"

definition readTaskEvidence :: "query_ports \<Rightarrow> string \<Rightarrow> TaskEvidenceView option result" where
  "readTaskEvidence ports taskHandle =
     (case read_evidence ports of
        None \<Rightarrow> Inr None
      | Some reader \<Rightarrow>
          (case reader taskHandle of
             Inl e \<Rightarrow> (if errors_Is e ErrNotFound then Inr None else Inl (translateReadError e ''task evidence''))
           | Inr evidence \<Rightarrow> (if no_candidate evidence then Inr None else Inr (Some evidence))))"

definition base_summary :: "Task \<Rightarrow> time \<Rightarrow> TaskSummary" where
  "base_summary task now =
     (let (reason, _, _, actions) = explainState (task_State task);
          elapsed = (of_int (Sub now (task_CreatedAt task) sdiv 1000000) :: int64)
      in \<lparr>sum_TaskHandle = task_Handle task, sum_State = task_State task, sum_StateReason = reason,
          sum_StateSource = StateSourceStore, sum_StateConfidence = ConfidenceVerified, sum_Freshness = FreshnessCurrent,
          sum_Custody = ''unknown'', sum_WorkerProfileID = task_WorkerProfileID task,
          sum_RepositoryID = task_RepositoryID task, sum_Head = ''unknown'', sum_Activity = reportActivity task,
          sum_Processes = ''unknown'', sum_Validation = ''unknown'', sum_BlockedBy = taskBlocker task,
          sum_Attention = taskAttention task, sum_StateVersion = task_StateVersion task,
          sum_ElapsedMs = (if sint elapsed < 0 then 0 else elapsed), sum_LastActivityAtMs = UnixMilli (task_UpdatedAt task),
          sum_NextSafeActions = actions\<rparr>)"

definition candidate_row ::
  "Task \<Rightarrow> TaskSummary \<Rightarrow> SealedDeliveryEvidence \<Rightarrow> CandidateJudgment \<Rightarrow> (TaskSummary \<times> TaskEvidenceView) result" where
  "candidate_row task summary sealed judgment =
     (let bundle = Bundle sealed in
      if ev_TaskHandle bundle \<noteq> task_Handle task \<or> ev_RepositoryIdentity bundle \<noteq> task_RepositoryID task \<or>
         ev_BaseRevision bundle \<noteq> task_BaseRevision task
      then Inl (translateReadError ErrPrecondition ''candidate evidence identity'')
      else Inr (summary\<lparr>sum_Head := (if ev_HeadRevision bundle \<noteq> [] then ev_HeadRevision bundle else sum_Head summary),
                        sum_Validation := CandidateOutcome_string (judgment_Outcome judgment)\<rparr>, zero_evidence_view))"

definition projectTask :: "query_ports \<Rightarrow> TaskObservation \<Rightarrow> time \<Rightarrow> (TaskSummary \<times> TaskEvidenceView) result" where
  "projectTask ports observation now =
     (let task = obs_Task observation; summary = base_summary task now in
      case (if no_candidate (obs_Evidence observation) then readTaskEvidence ports (task_Handle task)
            else Inr (Some (obs_Evidence observation))) of
        Inl e \<Rightarrow> Inl e
      | Inr (Some evidence) \<Rightarrow> Inr (applyTaskEvidence summary evidence, evidence)
      | Inr None \<Rightarrow>
          (case candidate_evidence ports of
             None \<Rightarrow> Inr (summary, zero_evidence_view)
           | Some reader \<Rightarrow>
               (case reader (task_Handle task) of
                  Inl e \<Rightarrow> (if errors_Is e ErrNotFound then Inr (summary, zero_evidence_view)
                           else Inl (translateReadError e ''candidate evidence''))
                | Inr (None, judgment) \<Rightarrow> Inr (summary, zero_evidence_view)
                | Inr (Some sealed, judgment) \<Rightarrow> candidate_row task summary sealed judgment)))"

section \<open>Reading a candidate judgment\<close>

record candidatePosture =
  post_reason :: string
  post_explanation :: string
  post_rootCause :: string
  post_actions :: "NextAction list"

definition posture :: "string \<Rightarrow> string \<Rightarrow> string \<Rightarrow> NextAction list \<Rightarrow> candidatePosture" where
  "posture reason explanation rootCause actions =
     \<lparr>post_reason = reason, post_explanation = explanation, post_rootCause = rootCause, post_actions = actions\<rparr>"

fun candidatePostures :: "CandidateReason \<Rightarrow> candidatePosture option" where
  "candidatePostures CandidateEvidenceInvalid = Some (posture ''candidate_evidence_invalid''
     ''Candidate evidence cannot be read as a valid bundle.''
     ''The sealed evidence failed domain validation, so no acceptance verdict can rest on it.'' [])"
| "candidatePostures CandidateEvidenceStale = Some (posture ''candidate_evidence_stale''
     ''Candidate evidence expired before it could be accepted.''
     ''The evidence lifetime recorded in the bundle has elapsed; a fresh validation pass is required.'' [])"
| "candidatePostures CandidateEvidenceConflicting = Some (posture ''candidate_evidence_conflicting''
     ''Candidate evidence does not match the durable task authority.''
     ''The sealed bundle names a different task, repository or base revision than the task record.'' [])"
| "candidatePostures CandidateDecisionUnresolved = Some (posture ''candidate_decision_unresolved''
     ''Candidate acceptance is waiting on unresolved human decisions.''
     ''The evidence records open decisions, and acceptance requires every one of them to be closed first.''
     [ActionInspectTask, ActionResolveBlock])"
| "candidatePostures CandidateValidationMissing = Some (posture ''candidate_validation_missing''
     ''Required local validation receipts are absent from candidate evidence.''
     ''At least one reviewed required local check has no receipt recorded at the candidate head.'' [])"
| "candidatePostures CandidateValidationUnknown = Some (posture ''candidate_validation_unknown''
     ''Required local validation has not concluded.''
     ''At least one required local check is still pending or reported an unknown outcome.'' [])"
| "candidatePostures CandidateValidationFailed = Some (posture ''candidate_validation_failed''
     ''Candidate evidence was rejected by local validation.''
     ''At least one required local validation check failed.'' [])"
| "candidatePostures CandidateForgeMissing = Some (posture ''candidate_forge_missing''
     ''Required forge evidence is absent from candidate evidence.''
     ''The pull request evidence or a required forge check conclusion is not recorded at the candidate head.'' [])"
| "candidatePostures CandidateForgeUnknown = Some (posture ''candidate_forge_unknown''
     ''Required forge checks have not concluded.''
     ''At least one required forge check is still pending or reported an unknown conclusion.'' [])"
| "candidatePostures CandidateForgeFailed = Some (posture ''candidate_forge_failed''
     ''Candidate evidence was rejected by forge validation.''
     ''At least one required forge check failed.'' [])"
| "candidatePostures CandidateReportMissing = Some (posture ''candidate_report_missing''
     ''The scout report artifact is absent from candidate evidence.''
     ''Acceptance requires a bounded report artifact, and the bundle records none.'' [])"
| "candidatePostures _ = None"

definition unrecognizedCandidatePosture :: candidatePosture where
  "unrecognizedCandidatePosture = posture ''candidate_posture_unrecognized''
     ''A durable candidate judgment was recorded that this build cannot interpret.''
     ''The stored judgment reason is outside the vocabulary this service knows.''
     [ActionInspectHealth, ActionInspectTask]"

definition readCandidatePosture :: "CandidateJudgment \<Rightarrow> candidatePosture option" where
  "readCandidatePosture judgment =
     (if judgment_Reason judgment = CandidateEvidenceAccepted then None
      else (case candidatePostures (judgment_Reason judgment) of
              None \<Rightarrow> Some unrecognizedCandidatePosture
            | Some p \<Rightarrow> Some (if post_actions p = [] then p\<lparr>post_actions := [ActionInspectTask]\<rparr> else p)))"

definition unverifiedCandidateRootCause :: "Task \<Rightarrow> DeliveryEvidenceBundle \<Rightarrow> string" where
  "unverifiedCandidateRootCause task bundle =
     (case ev_UnverifiedReason bundle of
        CandidateReconciliationMismatch \<Rightarrow>
          ''The observed clean candidate head differs from the durable reconciliation authority.''
      | CandidateValidationDrift \<Rightarrow>
          ''The observed clean candidate head changed while required local validation was running.''
      | _ \<Rightarrow>
          (if ev_WorktreeCleanliness bundle = WorktreeUnknown
           then ''The exact registered worktree Git posture is unknown; no clean candidate head was observed.''
           else
             (let dirty = (ev_WorktreeCleanliness bundle \<noteq> WorktreeClean);
                  baseEqual = (ev_HeadRevision bundle = task_BaseRevision task)
              in if dirty \<and> baseEqual
                 then ''The exact registered worktree is not clean and its candidate head still equals the pinned base revision.''
                 else if dirty then ''The exact registered worktree is not clean.''
                 else if baseEqual then ''The candidate head still equals the pinned base revision.''
                 else ''The exact registered worktree does not satisfy clean non-base candidate authority.'')))"

definition explainCandidatePosture :: "query_ports \<Rightarrow> Task \<Rightarrow> candidatePosture option result" where
  "explainCandidatePosture ports task =
     (case candidate_evidence ports of
        None \<Rightarrow> Inr None
      | Some reader \<Rightarrow>
          (case reader (task_Handle task) of
             Inl e \<Rightarrow> (if errors_Is e ErrNotFound then Inr None else Inl e)
           | Inr (evidence, judgment) \<Rightarrow>
               (case evidence of
                  Some sealed \<Rightarrow>
                    (if judgment_Reason judgment = CandidateWorktreeUnverified
                     then Inr (Some (posture ''candidate_worktree_unverified''
                       ''Candidate validation is waiting because current Git truth is unverified.''
                       (unverifiedCandidateRootCause task (Bundle sealed)) [ActionInspectTask]))
                     else Inr (readCandidatePosture judgment))
                | None \<Rightarrow> Inr (readCandidatePosture judgment))))"

section \<open>What the graph shows\<close>

definition graph_satisfied :: "(string \<rightharpoonup> TaskState) \<Rightarrow> string \<Rightarrow> bool" where
  "graph_satisfied states handle =
     (case states handle of Some state \<Rightarrow> SatisfiesInitiativeDependency state | None \<Rightarrow> False)"

lemma sort_key_image: "map f (sort_key f xs) = sort (map f xs)"
  by (rule properties_for_sort [symmetric]) simp_all

lemma map_handle_graph_nodes:
  "map node_TaskHandle (concat (map (\<lambda>c. map (graph_node i states ready c) (comp_TaskHandles c)) cs)) =
     concat (map comp_TaskHandles cs)"
  by (simp add: map_concat comp_def graph_node_def)

lemma graph_nodes_ready:
  "n \<in> set (graph_Nodes (ProjectInitiativeGraph i states at)) \<Longrightarrow>
     node_DependencyReady n \<longleftrightarrow> start_ready i (graph_satisfied states) (node_TaskHandle n)"
  by (auto simp: ProjectInitiativeGraph_def Let_def graph_node_def set_DependencyReadyTasks graph_satisfied_def [abs_def])

section \<open>Properties\<close>

text \<open>
  The graph of an initiative shows every member exactly once, in handle order, with the state the
  caller supplied or unknown; a node is marked ready exactly when the domain's rule calls it ready under
  those states; every edge is kept; and the view is complete and verified exactly when every member's
  state was supplied.
\<close>

lemma graph_view_exact:
  "map node_TaskHandle (graph_Nodes (ProjectInitiativeGraph i states at)) = sort (task_members i) \<and>
   list_all (\<lambda>n. node_State n = (case states (node_TaskHandle n) of Some s \<Rightarrow> s | None \<Rightarrow> TaskUnknown) \<and>
       (node_DependencyReady n \<longleftrightarrow> start_ready i (graph_satisfied states) (node_TaskHandle n)))
     (graph_Nodes (ProjectInitiativeGraph i states at)) \<and>
   mset (map (\<lambda>e. (gedge_From e, gedge_To e, gedge_Kind e)) (graph_Edges (ProjectInitiativeGraph i states at))) =
     mset (map (\<lambda>e. (edge_From e, edge_To e, edge_Kind e)) (ini_Edges i)) \<and>
   (graph_Completeness (ProjectInitiativeGraph i states at) = CompletenessComplete \<longleftrightarrow> set (task_members i) \<subseteq> dom states) \<and>
   (graph_Confidence (ProjectInitiativeGraph i states at) = ConfidenceVerified \<longleftrightarrow> set (task_members i) \<subseteq> dom states)"
proof (intro conjI)
  show "map node_TaskHandle (graph_Nodes (ProjectInitiativeGraph i states at)) = sort (task_members i)"
    by (simp add: ProjectInitiativeGraph_def Let_def sort_key_image map_handle_graph_nodes task_members_def)
  show "list_all (\<lambda>n. node_State n = (case states (node_TaskHandle n) of Some s \<Rightarrow> s | None \<Rightarrow> TaskUnknown) \<and>
       (node_DependencyReady n \<longleftrightarrow> start_ready i (graph_satisfied states) (node_TaskHandle n)))
     (graph_Nodes (ProjectInitiativeGraph i states at))"
    using graph_nodes_ready
    by (auto simp: list_all_iff) (auto simp: ProjectInitiativeGraph_def Let_def graph_node_def)
qed (auto simp: ProjectInitiativeGraph_def Let_def comp_def list_all_iff image_mset.compositionality)

text \<open>
  No verdict of the judge is unreadable: with the sealed evidence at hand, whatever the judge
  returned is explained by its own posture with at least one safe action, never by the unrecognized
  one, except that an acceptance, which blocks nothing, leaves the lifecycle text in place.
\<close>

lemma every_judgment_explained:
  assumes "candidate_evidence ports = Some reader"
    and "reader (task_Handle task) = Inr (Some sealed, JudgeCandidate u input)"
  shows "if judgment_Reason (JudgeCandidate u input) = CandidateEvidenceAccepted
    then explainCandidatePosture ports task = Inr None
    else (\<exists>p. explainCandidatePosture ports task = Inr (Some p) \<and> p \<noteq> unrecognizedCandidatePosture \<and> post_actions p \<noteq> [])"
proof -
  let ?j = "JudgeCandidate u input"
  have known: "known_reason (judgment_Reason ?j)" using JudgeCandidate_consistent [of u input] by (simp add: consistent_def)
  have "readCandidatePosture ?j = None" if "judgment_Reason ?j = CandidateEvidenceAccepted"
    using that by (simp add: readCandidatePosture_def)
  moreover have "\<exists>p. readCandidatePosture ?j = Some p \<and> p \<noteq> unrecognizedCandidatePosture \<and> post_actions p \<noteq> []"
    if "judgment_Reason ?j \<noteq> CandidateEvidenceAccepted" "judgment_Reason ?j \<noteq> CandidateWorktreeUnverified"
    using that known
    by (cases "judgment_Reason ?j") (simp_all add: readCandidatePosture_def unrecognizedCandidatePosture_def posture_def)
  ultimately show ?thesis
    using assms by (auto simp: explainCandidatePosture_def unrecognizedCandidatePosture_def posture_def)
qed

text \<open>
  The table itself has no entry for the unverified worktree, which the judge does return; only the
  sealed evidence handed along keeps it from reading as unrecognized.
\<close>

lemma posture_table_incomplete:
  "candidatePostures CandidateWorktreeUnverified = None \<and>
   readCandidatePosture (candidateJudgment CandidateUnknown CandidateWorktreeUnverified) = Some unrecognizedCandidatePosture"
  by (simp add: readCandidatePosture_def candidateJudgment_def)

end
