(* ===== verification/Timestamps.thy ===== *)
theory Timestamps
  imports Go_Text
begin

text \<open>
  How the durable store writes a time (\<open>store/sqlite/repository.go\<close>: \<open>formatTime\<close>, \<open>parseTime\<close>): the
  RFC 3339 text with nanoseconds of Go's \<open>time\<close> package, whose fraction loses its trailing zeros, and
  its parser.  The proleptic Gregorian calendar is Go's: years of 365 or 366 days in cycles of 400.

  Every time the store writes is in UTC; \<open>formatTime\<close> is the text of a UTC time.  The parser is the fast
  path of \<open>time.Parse\<close>, which takes every text \<open>formatTime\<close> writes for the years 0 to 9999.
\<close>

section \<open>The calendar\<close>

definition isLeap :: "int \<Rightarrow> bool" where
  "isLeap year \<longleftrightarrow> year mod 4 = 0 \<and> (year mod 100 \<noteq> 0 \<or> year mod 400 = 0)"

fun daysIn :: "nat \<Rightarrow> bool \<Rightarrow> nat" where
  "daysIn month leap =
     (if month = 2 then (if leap then 29 else 28) else if month \<in> {4, 6, 9, 11} then 30 else 31)"

definition daysBefore :: "nat \<Rightarrow> bool \<Rightarrow> nat" where
  "daysBefore month leap =
     [0, 31, 59, 90, 120, 151, 181, 212, 243, 273, 304, 334] ! (month - 1) + (if leap \<and> 3 \<le> month then 1 else 0)"

text \<open>Days from the first of January of year 1 to the first of January of the year.\<close>

definition days_before_year :: "int \<Rightarrow> int" where
  "days_before_year year = 365 * (year - 1) + (year - 1) div 4 - (year - 1) div 100 + (year - 1) div 400"

text \<open>The year of a day and the day's place in it: 400-year cycles, then centuries, then fours, then years.\<close>

definition year_yday :: "int \<Rightarrow> int \<times> int" where
  "year_yday d =
     (let n400 = d div 146097; r400 = d mod 146097;
          n100 = min 3 (r400 div 36524); r100 = r400 - 36524 * n100;
          n4 = r100 div 1461; r4 = r100 mod 1461;
          n1 = min 3 (r4 div 365)
      in (400 * n400 + 100 * n100 + 4 * n4 + n1 + 1, r4 - 365 * n1))"

fun month_from :: "nat \<Rightarrow> nat \<Rightarrow> bool \<Rightarrow> nat \<Rightarrow> nat \<times> nat" where
  "month_from 0 m leap yday = (m, yday + 1)"
| "month_from (Suc k) m leap yday =
     (if yday < daysIn m leap then (m, yday + 1) else month_from k (m + 1) leap (yday - daysIn m leap))"

text \<open>Month and day of the month.\<close>

definition month_day :: "nat \<Rightarrow> bool \<Rightarrow> nat \<times> nat" where
  "month_day yday leap = month_from 11 1 leap yday"

lemma year_yday_days:
  assumes "year_yday d = (y, k)"
  shows "days_before_year y + k = d" "0 \<le> k" "k < (if isLeap y then 366 else 365)"
proof -
  define a where "a = d div 146097"
  define r where "r = d mod 146097"
  define b where "b = min 3 (r div 36524)"
  define s where "s = r - 36524 * b"
  define c where "c = s div 1461"
  define q where "q = s mod 1461"
  define e where "e = min 3 (q div 365)"
  have r: "0 \<le> r" "r < 146097" "d = 146097 * a + r" by (simp_all add: r_def a_def)
  have b: "0 \<le> b" "b \<le> 3" "0 \<le> s" "s < (if b = 3 then 36525 else 36524)"
  proof -
    have "0 \<le> r div 36524" "r div 36524 \<le> 4" "36524 * (r div 36524) \<le> r" "r < 36524 * (r div 36524) + 36524"
      using r by auto
    then show "0 \<le> b" "b \<le> 3" "0 \<le> s" "s < (if b = 3 then 36525 else 36524)"
      using r by (auto simp: b_def s_def min_def split: if_splits)
  qed
  have q: "0 \<le> q" "q < 1461" "s = 1461 * c + q" by (simp_all add: q_def c_def)
  have c: "0 \<le> c" "c \<le> 24" using b q by (auto split: if_splits)
  have e: "0 \<le> e" "e \<le> 3" "0 \<le> q - 365 * e" "q - 365 * e < (if e = 3 then 366 else 365)"
  proof -
    have "0 \<le> q div 365" "q div 365 \<le> 4" "365 * (q div 365) \<le> q" "q < 365 * (q div 365) + 365"
      using q by auto
    then show "0 \<le> e" "e \<le> 3" "0 \<le> q - 365 * e" "q - 365 * e < (if e = 3 then 366 else 365)"
      using q by (auto simp: e_def min_def split: if_splits)
  qed
  have y: "y = 400 * a + 100 * b + 4 * c + e + 1" "k = q - 365 * e"
    using assms unfolding year_yday_def Let_def a_def [symmetric] r_def [symmetric] b_def [symmetric]
      s_def [symmetric] c_def [symmetric] q_def [symmetric] e_def [symmetric] by (simp_all only: prod.inject)
  have div4: "(y - 1) div 4 = 100 * a + 25 * b + c" "(y - 1) div 100 = 4 * a + b" "(y - 1) div 400 = a"
    using y c e b
    by (auto intro: int_div_pos_eq [of _ _ _ e] int_div_pos_eq [of _ _ _ "4 * c + e"] int_div_pos_eq [of _ _ _ "100 * b + 4 * c + e"])
  show "days_before_year y + k = d"
    unfolding days_before_year_def div4 using y r(3) s_def q(3) by simp
  show "0 \<le> k" using e y by simp
  show "k < (if isLeap y then 366 else 365)"
  proof (cases "k = 365")
    case True
    then have e3: "e = 3" and q3: "q = 1460" using e y q by (auto split: if_splits)
    have cb: "c \<noteq> 24 \<or> b = 3"
      using b(4) q(3) q3 by (auto split: if_splits)
    have y4: "y = 400 * a + 100 * b + 4 * (c + 1)" using y e3 by simp
    have "y mod 4 = 0" using y4 by (intro int_mod_pos_eq [of _ _ "100 * a + 25 * b + c + 1"]) auto
    moreover have "y mod 100 \<noteq> 0 \<or> y mod 400 = 0"
    proof (cases "c = 24")
      case True
      with cb y4 have "y = 400 * (a + 1)" by simp
      then show ?thesis by simp
    next
      case False
      have "y mod 100 = 4 * (c + 1)"
        using y4 c False by (intro int_mod_pos_eq [of _ _ "4 * a + b"]) auto
      with c show ?thesis by simp
    qed
    ultimately show ?thesis using True by (simp add: isLeap_def)
  next
    case False
    then show ?thesis using e y by (auto split: if_splits)
  qed
qed

lemma daysBefore_Suc:
  assumes "1 \<le> m" "m \<le> 11"
  shows "daysBefore (Suc m) leap = daysBefore m leap + daysIn m leap"
proof -
  have "m = 1 \<or> m = 2 \<or> m = 3 \<or> m = 4 \<or> m = 5 \<or> m = 6 \<or> m = 7 \<or> m = 8 \<or> m = 9 \<or> m = 10 \<or> m = 11"
    using assms by presburger
  then show ?thesis by (elim disjE) (simp_all add: daysBefore_def)
qed

lemma month_from_days:
  assumes "month_from k m leap yday = (m', d)" "1 \<le> m" "m + k = 12"
    and "daysBefore m leap + yday < (if leap then 366 else 365)"
  shows "1 \<le> m' \<and> m' \<le> 12 \<and> 1 \<le> d \<and> d \<le> daysIn m' leap \<and> daysBefore m' leap + d = daysBefore m leap + yday + 1"
  using assms
proof (induction k arbitrary: m yday)
  case 0
  then show ?case by (auto simp: daysBefore_def split: if_splits)
next
  case (Suc k)
  show ?case
  proof (cases "yday < daysIn m leap")
    case True
    with Suc.prems show ?thesis by auto
  next
    case False
    have m: "daysBefore (Suc m) leap = daysBefore m leap + daysIn m leap"
      using Suc.prems(2,3) by (intro daysBefore_Suc) auto
    show ?thesis
      using Suc.IH [of "Suc m" "yday - daysIn m leap"] Suc.prems False m by (simp del: daysIn.simps)
  qed
qed

lemma month_day_days:
  assumes "month_day yday leap = (m, d)" "yday < (if leap then 366 else 365)"
  shows "1 \<le> m \<and> m \<le> 12 \<and> 1 \<le> d \<and> d \<le> daysIn m leap \<and> daysBefore m leap + d = yday + 1"
  using month_from_days [of 11 1 leap yday m d] assms by (simp add: month_day_def daysBefore_def)

section \<open>The text of a time\<close>

text \<open>The low \<open>k\<close> decimal digits, most significant first; \<open>appendInt\<close> pads to the width and never cuts.\<close>

fun digits :: "nat \<Rightarrow> nat \<Rightarrow> string" where
  "digits 0 n = []"
| "digits (Suc k) n = digits k (n div 10) @ [char_of (48 + n mod 10)]"

definition appendInt :: "int \<Rightarrow> nat \<Rightarrow> string" where
  "appendInt x width =
     (if x < 0 then [CHR ''-''] else []) @
     (if nat \<bar>x\<bar> < 10 ^ width then digits width (nat \<bar>x\<bar>) else dec_nat (nat \<bar>x\<bar>))"

definition trim_zeros :: "string \<Rightarrow> string" where
  "trim_zeros s = rev (dropWhile (\<lambda>c. c = CHR ''0'') (rev s))"

definition appendNano :: "nat \<Rightarrow> string" where
  "appendNano ns = (let frac = trim_zeros (digits 9 ns) in if frac = [] then [] else CHR ''.'' # frac)"

definition second :: int where
  "second = 1000000000"

definition day_seconds :: int where
  "day_seconds = 86400"

text \<open>Seconds since year 1 and the nanosecond within the second.\<close>

definition unix_sec :: "time \<Rightarrow> int" where
  "unix_sec t = instant t div second"

definition Nanosecond :: "time \<Rightarrow> nat" where
  "Nanosecond t = nat (instant t mod second)"

definition civil_text :: "int \<Rightarrow> string" where
  "civil_text sec =
     (let (year, yday) = year_yday (sec div day_seconds);
          (month, day) = month_day (nat yday) (isLeap year);
          sod = nat (sec mod day_seconds)
      in appendInt year 4 @ ''-'' @ appendInt (int month) 2 @ ''-'' @ appendInt (int day) 2 @ ''T'' @
         appendInt (int (sod div 3600)) 2 @ '':'' @ appendInt (int (sod div 60 mod 60)) 2 @ '':'' @
         appendInt (int (sod mod 60)) 2)"

definition formatTime :: "time \<Rightarrow> string" where
  "formatTime t = civil_text (unix_sec t) @ appendNano (Nanosecond t) @ ''Z''"

section \<open>The parser\<close>

definition is_digit :: "char \<Rightarrow> bool" where
  "is_digit c \<longleftrightarrow> CHR ''0'' \<le> c \<and> c \<le> CHR ''9''"

definition digits_value :: "string \<Rightarrow> nat" where
  "digits_value s = foldl (\<lambda>x c. x * 10 + (byte c - 48)) 0 s"

definition parseUint :: "string \<Rightarrow> nat \<Rightarrow> nat \<Rightarrow> nat option" where
  "parseUint s least most =
     (if list_all is_digit s \<and> least \<le> digits_value s \<and> digits_value s \<le> most
      then Some (digits_value s) else None)"

definition time_Date :: "int \<Rightarrow> nat \<Rightarrow> nat \<Rightarrow> nat \<Rightarrow> nat \<Rightarrow> nat \<Rightarrow> nat \<Rightarrow> time" where
  "time_Date year month day hour minute sec nsec =
     \<lparr>instant =
        ((days_before_year year + int (daysBefore month (isLeap year)) + int day - 1) * day_seconds +
          int hour * 3600 + int minute * 60 + int sec) * second + int nsec,
      in_utc = True\<rparr>"

text \<open>The fraction after the dot, at most nine digits of it read.\<close>

definition parse_fraction :: "string \<Rightarrow> nat \<times> string" where
  "parse_fraction s =
     (if 2 \<le> length s \<and> s ! 0 = CHR ''.'' \<and> is_digit (s ! 1)
      then (let frac = takeWhile is_digit (tl s); read = take 9 frac
            in (digits_value read * 10 ^ (9 - length read), drop (length frac) (tl s)))
      else (0, s))"

text \<open>The zone: \<open>Z\<close>, or an offset \<open>+hh:mm\<close> or \<open>-hh:mm\<close> in seconds east.\<close>

definition parse_zone :: "string \<Rightarrow> int option" where
  "parse_zone s =
     (if s = ''Z'' then Some 0
      else if length s = 6 \<and> (s ! 0 = CHR ''+'' \<or> s ! 0 = CHR ''-'') \<and> s ! 3 = CHR '':''
      then (case (parseUint (take 2 (drop 1 s)) 0 23, parseUint (drop 4 s) 0 59) of
              (Some hr, Some mm) \<Rightarrow>
                Some ((if s ! 0 = CHR ''-'' then -1 else 1) * (int hr * 3600 + int mm * 60))
            | _ \<Rightarrow> None)
      else None)"

definition parseRFC3339 :: "string \<Rightarrow> time option" where
  "parseRFC3339 s =
     (if length s < 19 then None
      else case parseUint (take 4 s) 0 9999 of None \<Rightarrow> None | Some year \<Rightarrow>
        (case parseUint (take 2 (drop 5 s)) 1 12 of None \<Rightarrow> None | Some month \<Rightarrow>
        (case parseUint (take 2 (drop 8 s)) 1 (daysIn month (isLeap (int year))) of None \<Rightarrow> None | Some day \<Rightarrow>
        (case parseUint (take 2 (drop 11 s)) 0 23 of None \<Rightarrow> None | Some hour \<Rightarrow>
        (case parseUint (take 2 (drop 14 s)) 0 59 of None \<Rightarrow> None | Some minute \<Rightarrow>
        (case parseUint (take 2 (drop 17 s)) 0 59 of None \<Rightarrow> None | Some sec \<Rightarrow>
           if \<not> (s ! 4 = CHR ''-'' \<and> s ! 7 = CHR ''-'' \<and> s ! 10 = CHR ''T'' \<and> s ! 13 = CHR '':'' \<and> s ! 16 = CHR '':'')
           then None
           else (let (nsec, rest) = parse_fraction (drop 19 s); t = time_Date (int year) month day hour minute sec nsec
                 in map_option (\<lambda>offset. t\<lparr>instant := instant t - offset * second\<rparr>) (parse_zone rest))))))))"

definition parseTime :: "string \<Rightarrow> time option" where
  "parseTime value = map_option (\<lambda>parsed. parsed\<lparr>in_utc := True\<rparr>) (parseRFC3339 value)"

section \<open>A written time reads back\<close>

lemma length_digits [simp]: "length (digits k n) = k"
  by (induction k arbitrary: n) auto

lemma byte_digit [simp]: "(n::nat) < 10 \<Longrightarrow> byte (char_of (48 + n)) = 48 + n"
  by (simp add: of_char_of)

lemma is_digit_char_of [simp]: "(n::nat) < 10 \<Longrightarrow> is_digit (char_of (48 + n))"
  by (simp add: is_digit_def less_eq_char_def)

lemma digits_all [simp]: "list_all is_digit (digits k n)"
  by (induction k arbitrary: n) auto

lemma digits_value_append: "digits_value (s @ [c]) = digits_value s * 10 + (byte c - 48)"
  by (simp add: digits_value_def)

lemma digits_value_digits: "n < 10 ^ k \<Longrightarrow> digits_value (digits k n) = n"
proof (induction k arbitrary: n)
  case 0
  then show ?case by (simp add: digits_value_def)
next
  case (Suc k)
  then have "n div 10 < 10 ^ k" by (simp add: less_mult_imp_div_less mult.commute)
  with Suc.IH show ?case by (simp add: digits_value_append)
qed

lemma parseUint_digits:
  "n < 10 ^ k \<Longrightarrow> least \<le> n \<Longrightarrow> n \<le> most \<Longrightarrow> parseUint (digits k n) least most = Some n"
  by (simp add: parseUint_def digits_value_digits)

lemma digits_value_zeros: "digits_value (s @ replicate j (CHR ''0'')) = digits_value s * 10 ^ j"
  by (induction j arbitrary: s)
     (simp_all add: digits_value_append flip: replicate_append_same append_assoc)

lemma trim_zeros_split: "\<exists>j. s = trim_zeros s @ replicate j (CHR ''0'')"
proof -
  let ?z = "takeWhile (\<lambda>c. c = CHR ''0'') (rev s)"
  have "rev s = ?z @ dropWhile (\<lambda>c. c = CHR ''0'') (rev s)" by simp
  then have "s = trim_zeros s @ rev ?z" unfolding trim_zeros_def by (metis rev_append rev_rev_ident)
  moreover have "replicate (length (rev ?z)) (CHR ''0'') = rev ?z"
    by (rule replicate_length_same) (auto dest: set_takeWhileD)
  ultimately show ?thesis by (metis (no_types))
qed

lemma parse_fraction_nano:
  assumes "ns < 1000000000"
  shows "parse_fraction (appendNano ns @ ''Z'') = (ns, ''Z'')"
proof -
  obtain j where j: "digits 9 ns = trim_zeros (digits 9 ns) @ replicate j (CHR ''0'')"
    using trim_zeros_split by blast
  let ?t = "trim_zeros (digits 9 ns)"
  have len: "length ?t + j = 9" using arg_cong [OF j, of length] by simp
  have all: "list_all is_digit ?t" using digits_all [of 9 ns] by (subst (asm) j) simp
  have val: "ns = digits_value ?t * 10 ^ j"
    using digits_value_digits [of ns 9] assms digits_value_zeros [of ?t j] j by simp
  have z: "\<not> is_digit (CHR ''Z'')" by (simp add: is_digit_def less_eq_char_def)
  show ?thesis
  proof (cases "?t = []")
    case True
    then show ?thesis using val by (simp add: appendNano_def parse_fraction_def digits_value_def)
  next
    case False
    then obtain c cs where t: "?t = c # cs" by (cases ?t) auto
    have tw: "takeWhile is_digit (?t @ ''Z'') = ?t"
      using all z by (simp add: takeWhile_append2 list_all_iff)
    have j: "9 - length ?t = j" using len by simp
    have "take 9 ?t = ?t" using len by simp
    with t tw val all j False show ?thesis
      by (simp add: appendNano_def parse_fraction_def Let_def del: diff_Suc_Suc)
  qed
qed

lemma parse_layout:
  assumes "y \<le> 9999" "1 \<le> mo" "mo \<le> 12" "1 \<le> d" "d \<le> daysIn mo (isLeap (int y))" "h \<le> 23" "mi \<le> 59" "sc \<le> 59"
    and "parse_fraction rest = (ns, ''Z'')"
  shows "parseRFC3339 (digits 4 y @ ''-'' @ digits 2 mo @ ''-'' @ digits 2 d @ ''T'' @ digits 2 h @ '':'' @ digits 2 mi @
           '':'' @ digits 2 sc @ rest) = Some (time_Date (int y) mo d h mi sc ns)"
proof -
  have d: "d < 10 ^ 2" using assms(5) by (auto split: if_splits)
  show ?thesis
    unfolding parseRFC3339_def using assms d
    by (simp add: parseUint_digits nth_append parse_zone_def Let_def del: daysIn.simps)
qed

definition time_Year :: "time \<Rightarrow> int" where
  "time_Year t = fst (year_yday (unix_sec t div day_seconds))"

lemma appendInt_digits: "0 \<le> x \<Longrightarrow> x < 10 ^ k \<Longrightarrow> appendInt x k = digits k (nat x)"
  by (simp add: appendInt_def nat_less_iff)

lemma sod_split:
  fixes sec :: int
  defines "sod \<equiv> nat (sec mod day_seconds)"
  shows "sod div 3600 \<le> 23" "sod div 60 mod 60 \<le> 59" "sod mod 60 \<le> 59"
    "int (sod div 3600) * 3600 + int (sod div 60 mod 60) * 60 + int (sod mod 60) = sec mod day_seconds"
proof -
  have b: "sod < 86400" by (simp add: sod_def day_seconds_def nat_less_iff)
  then show "sod div 3600 \<le> 23" "sod div 60 mod 60 \<le> 59" "sod mod 60 \<le> 59" by simp_all
  have "sod div 3600 = sod div 60 div 60" by (simp flip: div_mult2_eq)
  then have "sod div 3600 * 3600 + sod div 60 mod 60 * 60 + sod mod 60 = sod"
    using div_mult_mod_eq [of "sod div 60" 60] div_mult_mod_eq [of sod 60] by linarith
  then have "int (sod div 3600 * 3600 + sod div 60 mod 60 * 60 + sod mod 60) = int sod" by simp
  then show "int (sod div 3600) * 3600 + int (sod div 60 mod 60) * 60 + int (sod mod 60) = sec mod day_seconds"
    by (simp add: sod_def day_seconds_def)
qed

text \<open>
  C39.  A UTC time of the years 0 to 9999 reads back from the store exactly as it was written, to the
  nanosecond.
\<close>

theorem stored_time_roundtrip:
  assumes "in_utc t" "0 \<le> time_Year t" "time_Year t \<le> 9999"
  shows "parseTime (formatTime t) = Some t"
proof -
  let ?sec = "unix_sec t"
  obtain y k where yk: "year_yday (?sec div day_seconds) = (y, k)" by fastforce
  obtain mo d where md: "month_day (nat k) (isLeap y) = (mo, d)" by fastforce
  define sod where "sod = nat (?sec mod day_seconds)"
  note Y = year_yday_days [OF yk]
  have y: "0 \<le> y" "y \<le> 9999" using assms yk by (simp_all add: time_Year_def)
  have "nat k < (if isLeap y then 366 else 365)" using Y(2,3) by (auto split: if_splits)
  note M = month_day_days [OF md this]
  note S = sod_split [of ?sec, folded sod_def]
  have ns: "Nanosecond t < 1000000000" by (simp add: Nanosecond_def second_def nat_less_iff)
  have dle: "d < 100" using M by (auto split: if_splits)
  have layout: "formatTime t =
      digits 4 (nat y) @ ''-'' @ digits 2 mo @ ''-'' @ digits 2 d @ ''T'' @ digits 2 (sod div 3600) @ '':'' @
      digits 2 (sod div 60 mod 60) @ '':'' @ digits 2 (sod mod 60) @ appendNano (Nanosecond t) @ ''Z''"
    using y M S dle by (simp add: formatTime_def civil_text_def yk md appendInt_digits flip: sod_def)
  have "parseRFC3339 (formatTime t) =
      Some (time_Date (int (nat y)) mo d (sod div 3600) (sod div 60 mod 60) (sod mod 60) (Nanosecond t))"
    unfolding layout using y M S ns by (intro parse_layout parse_fraction_nano) simp_all
  moreover have "instant (time_Date y mo d (sod div 3600) (sod div 60 mod 60) (sod mod 60) (Nanosecond t)) = instant t"
  proof -
    have days: "days_before_year y + int (daysBefore mo (isLeap y)) + int d - 1 = ?sec div day_seconds"
      using Y M by linarith
    have "(?sec div day_seconds) * day_seconds + int (sod div 3600) * 3600 + int (sod div 60 mod 60) * 60 + int (sod mod 60) = ?sec"
      using S(4) div_mult_mod_eq [of ?sec day_seconds] by linarith
    moreover have "?sec * second + int (Nanosecond t) = instant t"
      by (simp add: unix_sec_def Nanosecond_def second_def)
    ultimately show ?thesis by (simp add: time_Date_def days)
  qed
  ultimately show ?thesis
    using y assms(1) by (simp add: parseTime_def time_Date_def)
qed

theorem stored_time_roundtrip_witness:
  "parseTime (formatTime \<lparr>instant = 63900000000123000000, in_utc = True\<rparr>) = Some \<lparr>instant = 63900000000123000000, in_utc = True\<rparr>"
  by (rule stored_time_roundtrip) (simp_all add: time_Year_def unix_sec_def second_def day_seconds_def year_yday_def)

section \<open>The order of the texts\<close>

lemma lexord_common_prefix: "(p @ xs :: string) < p @ ys \<longleftrightarrow> xs < ys"
  by (induction p) simp_all

lemma trim_zeros_nonempty:
  assumes "0 < n" "n < 10 ^ k"
  shows "trim_zeros (digits k n) \<noteq> []"
proof
  assume "trim_zeros (digits k n) = []"
  then obtain j where "digits k n = replicate j (CHR ''0'')" using trim_zeros_split [of "digits k n"] by auto
  then have "digits_value (digits k n) = 0" using digits_value_zeros [of "[]" j] by (simp add: digits_value_def)
  with digits_value_digits [OF assms(2)] assms(1) show False by simp
qed

lemma digits_zero: "digits k 0 = replicate k (CHR ''0'')"
proof (induction k)
  case (Suc k)
  have "char_of (48::nat) = CHR ''0''" by code_simp
  with Suc show ?case by (simp add: replicate_append_same)
qed simp

lemma appendNano_zero: "appendNano 0 = []"
  by (simp add: appendNano_def trim_zeros_def digits_zero)

text \<open>
  C40.  The store orders rows by the text of their times, and the text order is not the time order: a
  time on a whole second is sorted after every later time of the same second, because the shortened
  text has \<open>Z\<close> where the others have a dot.
\<close>

theorem whole_second_sorts_last:
  assumes "instant t mod second = 0" "instant t < instant later" "instant later < instant t + second"
  shows "Before t later \<and> formatTime later < formatTime t"
proof -
  define q where "q = instant t div second"
  define n where "n = instant later - instant t"
  have t: "instant t = second * q" using assms(1) mult_div_mod_eq [of second "instant t"] by (simp add: q_def)
  have later: "instant later = second * q + n" "0 \<le> n" "n < second" using assms t by (simp_all add: n_def)
  have sec: "unix_sec later = unix_sec t"
    unfolding unix_sec_def using int_div_pos_eq [OF later] q_def by simp
  have zero: "Nanosecond t = 0" using assms(1) by (simp add: Nanosecond_def)
  have "instant later mod second = instant later - instant t"
    using int_mod_pos_eq [OF later] n_def by simp
  then have ns: "0 < Nanosecond later" "Nanosecond later < 10 ^ 9"
    using assms by (simp_all add: Nanosecond_def second_def nat_less_iff)
  obtain c cs where frac: "trim_zeros (digits 9 (Nanosecond later)) = c # cs"
    using trim_zeros_nonempty [OF ns] by (cases "trim_zeros (digits 9 (Nanosecond later))") auto
  have "appendNano (Nanosecond later) = CHR ''.'' # c # cs" by (simp add: appendNano_def frac)
  then show ?thesis
    using assms(2)
    by (simp add: formatTime_def sec zero appendNano_zero lexord_common_prefix Before_def less_char_def)
qed

theorem whole_second_sorts_last_witness:
  "Before \<lparr>instant = 63900000000000000000, in_utc = True\<rparr> \<lparr>instant = 63900000000500000000, in_utc = True\<rparr> \<and>
   formatTime \<lparr>instant = 63900000000500000000, in_utc = True\<rparr> < formatTime \<lparr>instant = 63900000000000000000, in_utc = True\<rparr>"
  by (rule whole_second_sorts_last) (simp_all add: second_def)

end
