(* ===== verification/Preparation.thy ===== *)
theory Preparation
  imports Failures Lifecycle
begin

text \<open>
  The private half of the two-phase join with the host (\<open>application/mutation_types.go\<close> and the
  validators of \<open>application/mutations.go\<close>), the paths it carries (\<open>path/filepath\<close> on Unix), and the
  recovery of a task whose worker vanished (\<open>application/task_reconciliation.go\<close>).

  The ports of \<open>ReconcileTask\<close> are arguments, and so is the digest of a command, the SHA-256 of its JSON
  encoding.
\<close>

section \<open>Paths\<close>

definition IsAbs :: "string \<Rightarrow> bool" where
  "IsAbs path \<longleftrightarrow> path \<noteq> [] \<and> hd path = CHR ''/''"

fun split_slash :: "string \<Rightarrow> string list" where
  "split_slash [] = [[]]"
| "split_slash (c # cs) =
     (if c = CHR ''/'' then [] # split_slash cs
      else (case split_slash cs of part # parts \<Rightarrow> (c # part) # parts | [] \<Rightarrow> [[c]]))"

fun join_slash :: "string list \<Rightarrow> string" where
  "join_slash [] = []"
| "join_slash [part] = part"
| "join_slash (part # parts) = part @ CHR ''/'' # join_slash parts"

text \<open>
  \<open>filepath.Clean\<close>: empty and \<open>.\<close> elements go, \<open>..\<close> takes back the element before it, and at the root
  it goes too.  The elements kept so far are held in reverse.
\<close>

fun clean_parts :: "bool \<Rightarrow> string list \<Rightarrow> string list \<Rightarrow> string list" where
  "clean_parts rooted kept [] = rev kept"
| "clean_parts rooted kept (part # parts) =
     (if part = [] \<or> part = ''.'' then clean_parts rooted kept parts
      else if part = ''..'' then
        (case kept of
           [] \<Rightarrow> clean_parts rooted (if rooted then [] else [''..'']) parts
         | k # ks \<Rightarrow> clean_parts rooted (if k = ''..'' then ''..'' # kept else ks) parts)
      else clean_parts rooted (part # kept) parts)"

definition Clean :: "string \<Rightarrow> string" where
  "Clean path =
     (let parts = clean_parts (IsAbs path) [] (split_slash path) in
      if IsAbs path then CHR ''/'' # join_slash parts
      else if parts = [] then ''.'' else join_slash parts)"

definition Base :: "string \<Rightarrow> string" where
  "Base path =
     (if path = [] then ''.''
      else (let stripped = rev (dropWhile (\<lambda>c. c = CHR ''/'') (rev path))
            in if stripped = [] then ''/'' else last (split_slash stripped)))"

section \<open>Hexadecimal identities\<close>

definition hex_value :: "char \<Rightarrow> nat option" where
  "hex_value c =
     (if CHR ''0'' \<le> c \<and> c \<le> CHR ''9'' then Some (byte c - 48)
      else if CHR ''a'' \<le> c \<and> c \<le> CHR ''f'' then Some (byte c - 87)
      else if CHR ''A'' \<le> c \<and> c \<le> CHR ''F'' then Some (byte c - 55)
      else None)"

fun hex_DecodeString :: "string \<Rightarrow> nat list option" where
  "hex_DecodeString [] = Some []"
| "hex_DecodeString [c] = None"
| "hex_DecodeString (c # d # cs) =
     (case (hex_value c, hex_value d, hex_DecodeString cs) of
        (Some high, Some low, Some bytes) \<Rightarrow> Some ((16 * high + low) # bytes)
      | _ \<Rightarrow> None)"

definition hex_EncodeToString :: "nat list \<Rightarrow> string" where
  "hex_EncodeToString bytes = concat (map (\<lambda>b. [hex_digit (b div 16), hex_digit (b mod 16)]) bytes)"

definition ValidateRuntimeRelayIdentity :: "string \<Rightarrow> go_error option" where
  "ValidateRuntimeRelayIdentity value =
     fail_if (case hex_DecodeString value of
                None \<Rightarrow> True
              | Some decoded \<Rightarrow>
                  length decoded \<noteq> 32 \<or> hex_EncodeToString decoded \<noteq> value \<or> list_all (\<lambda>b. b = 0) decoded)
       (PlainError ''runtime relay identity is invalid'')"

section \<open>The preparation\<close>

datatype RuntimeAttachmentKind = RuntimeAttachmentUnixSocket | RuntimeAttachmentKindOther string

record PreparedRuntimeAttachment =
  att_Kind :: RuntimeAttachmentKind
  att_SourcePath :: string
  att_RelayIdentity :: string

definition Attachment_Validate :: "PreparedRuntimeAttachment \<Rightarrow> go_error option" where
  "Attachment_Validate attachment =
     fail_if (att_Kind attachment \<noteq> RuntimeAttachmentUnixSocket \<or> \<not> IsAbs (att_SourcePath attachment) \<or>
              Clean (att_SourcePath attachment) \<noteq> att_SourcePath attachment \<or>
              Base (att_SourcePath attachment) \<noteq> ''attachment.sock'' \<or> length (att_SourcePath attachment) > 4096 \<or>
              ContainsAny (att_SourcePath attachment) [CHR 0x00, CHR 0x0D, CHR 0x0A] \<or>
              ValidateRuntimeRelayIdentity (att_RelayIdentity attachment) \<noteq> None)
       (PlainError ''prepared runtime attachment is invalid'')"

datatype PreparationState = PreparationOpen | PreparationAbandoned | PreparationStateOther string

datatype AbandonReason = AbandonReasonActivationRejected | AbandonReasonOwnerCancelled
  | AbandonReasonRegistrationExpired | AbandonReasonServiceUnavailable | AbandonReasonOther string

datatype AbandonDisposition = AbandonDispositionReapSafe | AbandonDispositionPreserve | AbandonDispositionOther string

fun AbandonReason_valid :: "AbandonReason \<Rightarrow> bool" where
  "AbandonReason_valid (AbandonReasonOther _) = False"
| "AbandonReason_valid _ = True"

fun AbandonDisposition_valid :: "AbandonDisposition \<Rightarrow> bool" where
  "AbandonDisposition_valid (AbandonDispositionOther _) = False"
| "AbandonDisposition_valid _ = True"

record ManagedRunPreparation =
  prep_ExternalRunRef :: string
  prep_RegistrationNonce :: string
  prep_RequestedWorkspaceRoot :: string
  prep_RequestedAttachment :: PreparedRuntimeAttachment
  prep_ExpiresAt :: time
  prep_State :: PreparationState
  prep_AbandonReason :: AbandonReason
  prep_Disposition :: AbandonDisposition
  prep_ClosedAt :: "time option"

definition registrationNoncePattern :: "string \<Rightarrow> bool" where
  "registrationNoncePattern =
     matches_head_body (\<lambda>c. upper c \<or> lower_digit c) (\<lambda>c. upper c \<or> lower_digit c \<or> c \<in> set ''._~-'') 15 255"

definition Preparation_Validate :: "ManagedRunPreparation \<Rightarrow> time \<Rightarrow> go_error option" where
  "Preparation_Validate preparation createdAt = first_error
     [ValidateTaskHandle (prep_ExternalRunRef preparation),
      fail_if (\<not> registrationNoncePattern (prep_RegistrationNonce preparation)) (PlainError ''registration nonce is invalid''),
      fail_if (\<not> in_utc (prep_ExpiresAt preparation) \<or> \<not> After (prep_ExpiresAt preparation) createdAt)
        (PlainError ''preparation expiry is invalid''),
      fail_if (prep_RequestedWorkspaceRoot preparation \<noteq> [] \<and>
               (\<not> IsAbs (prep_RequestedWorkspaceRoot preparation) \<or>
                Clean (prep_RequestedWorkspaceRoot preparation) \<noteq> prep_RequestedWorkspaceRoot preparation))
        (PlainError ''requested workspace root is invalid''),
      fail_if (Attachment_Validate (prep_RequestedAttachment preparation) \<noteq> None)
        (PlainError ''requested runtime attachment is invalid''),
      (case prep_State preparation of
         PreparationOpen \<Rightarrow>
           fail_if (prep_AbandonReason preparation \<noteq> AbandonReasonOther [] \<or>
                    prep_Disposition preparation \<noteq> AbandonDispositionOther [] \<or> prep_ClosedAt preparation \<noteq> None)
             (PlainError ''open preparation carries terminal fields'')
       | PreparationAbandoned \<Rightarrow>
           fail_if (\<not> AbandonReason_valid (prep_AbandonReason preparation) \<or>
                    \<not> AbandonDisposition_valid (prep_Disposition preparation) \<or>
                    (case prep_ClosedAt preparation of
                       None \<Rightarrow> True | Some closed \<Rightarrow> \<not> in_utc closed \<or> Before closed createdAt))
             (PlainError ''abandoned preparation closure is invalid'')
       | PreparationStateOther _ \<Rightarrow> Some (PlainError ''preparation state is invalid''))]"

section \<open>Reconciling a task whose worker is gone\<close>

datatype WorkspaceCleanliness = WorkspaceClean | WorkspaceDirty | WorkspaceCleanlinessOther string

record WorkspaceSnapshot =
  ws_TaskHandle :: string
  ws_RepositoryID :: string
  ws_WorktreePath :: string
  ws_Branch :: string
  ws_HeadRevision :: string
  ws_Cleanliness :: WorkspaceCleanliness

definition WorkspaceSnapshot_Validate :: "WorkspaceSnapshot \<Rightarrow> go_error option" where
  "WorkspaceSnapshot_Validate snapshot =
     fail_if (ValidateTaskHandle (ws_TaskHandle snapshot) \<noteq> None \<or>
              validateAuthorityReference ''repositoryId'' (ws_RepositoryID snapshot) \<noteq> None \<or>
              validateRevision (ws_HeadRevision snapshot) \<noteq> None \<or>
              \<not> IsAbs (ws_WorktreePath snapshot) \<or> Clean (ws_WorktreePath snapshot) \<noteq> ws_WorktreePath snapshot \<or>
              ws_Branch snapshot = [] \<or> length (ws_Branch snapshot) > 255 \<or>
              ContainsAny (ws_Branch snapshot) [CHR 0x00, CHR 0x0D, CHR 0x0A, CHR 0x09, CHR '' ''] \<or>
              (ws_Cleanliness snapshot \<noteq> WorkspaceClean \<and> ws_Cleanliness snapshot \<noteq> WorkspaceDirty))
       (PlainError ''workspace snapshot is invalid'')"

datatype TerminalTransition = TerminalCreated | TerminalRunning | TerminalInputNeeded | TerminalStuck
  | TerminalExited | TerminalLost | TerminalRecovered | TerminalReleased | TerminalTransitionOther string

fun TerminalTransition_Valid :: "TerminalTransition \<Rightarrow> bool" where
  "TerminalTransition_Valid (TerminalTransitionOther _) = False"
| "TerminalTransition_Valid _ = True"

datatype ReconcileTaskAction = ReconcileValidateCleanCandidate | ReconcileTaskActionOther string

record ReconcileTaskCommand =
  rec_OperationID :: string
  rec_TaskHandle :: string
  rec_Action :: ReconcileTaskAction

record TaskReconciliationAuthority =
  auth_Task :: Task
  auth_Preparation :: ManagedRunPreparation
  auth_PreparationOperationID :: string
  auth_TerminalSessionID :: string
  auth_TerminalTransition :: TerminalTransition
  auth_TerminalObservedAt :: time

record ReconciliationWorkspaceRequest =
  rwr_PreparationOperationID :: string
  rwr_TaskHandle :: string
  rwr_RepositoryID :: string
  rwr_WorktreePath :: string
  rwr_BaseRevision :: string

record TaskCandidateReconciliationMutation =
  tcr_OperationID :: string
  tcr_SubjectDigest :: string
  tcr_TaskHandle :: string
  tcr_Action :: ReconcileTaskAction
  tcr_PreparationOperationID :: string
  tcr_Snapshot :: WorkspaceSnapshot
  tcr_TerminalSessionID :: string
  tcr_TerminalTransition :: TerminalTransition
  tcr_TerminalObservedAt :: time
  tcr_ExpectedTaskVersion :: int64
  tcr_At :: time

record MutationResult =
  res_Task :: Task
  res_Operation :: OperationRecord
  res_Preparation :: "ManagedRunPreparation option"

end
