(* ===== verification/Transactions.thy ===== *)
theory Transactions
  imports Validation
begin

text \<open>
  A database transaction as the store's functions write it: statements that read or change a view of
  the database, any of which the driver may refuse, then a commit that makes the view durable.  A
  transaction that ends without a commit is rolled back, whatever it returns.

  The driver is a list of outcomes, one per statement, of which \<open>Some e\<close> is a failure; past its end every
  statement goes through.  The connection pool has one connection, so transactions run one after another.
\<close>

section \<open>Statements\<close>

record 'db tx_state =
  tx_durable :: 'db
  tx_view :: 'db
  tx_faults :: "go_error option list"

type_synonym ('db, 'a) tx = "'db tx_state \<Rightarrow> (go_error + 'a) \<times> 'db tx_state"

definition give :: "'a \<Rightarrow> ('db, 'a) tx" where
  "give x s = (Inr x, s)"

definition refuse :: "go_error \<Rightarrow> ('db, 'a) tx" where
  "refuse e s = (Inl e, s)"

definition andThen :: "('db, 'a) tx \<Rightarrow> ('a \<Rightarrow> ('db, 'b) tx) \<Rightarrow> ('db, 'b) tx" where
  "andThen m f s = (case m s of (Inl e, s') \<Rightarrow> (Inl e, s') | (Inr x, s') \<Rightarrow> f x s')"

definition attempt :: "('db, 'a) tx \<Rightarrow> ('db, go_error + 'a) tx" where
  "attempt m s = (case m s of (r, s') \<Rightarrow> (Inr r, s'))"

definition within :: "string \<Rightarrow> ('db, 'a) tx \<Rightarrow> ('db, 'a) tx" where
  "within context m s = (case m s of (Inl e, s') \<Rightarrow> (Inl (WrapError context e), s') | (Inr x, s') \<Rightarrow> (Inr x, s'))"

definition require :: "go_error option \<Rightarrow> ('db, unit) tx" where
  "require c s = (case c of Some e \<Rightarrow> (Inl e, s) | None \<Rightarrow> (Inr (), s))"

definition yield :: "go_error + 'a \<Rightarrow> ('db, 'a) tx" where
  "yield r s = (r, s)"

definition statement :: "('db \<Rightarrow> go_error + 'a \<times> 'db) \<Rightarrow> ('db, 'a) tx" where
  "statement f s =
     (let rest = s\<lparr>tx_faults := tl (tx_faults s)\<rparr> in
      case tx_faults s of
        Some e # _ \<Rightarrow> (Inl e, rest)
      | _ \<Rightarrow> (case f (tx_view s) of
               Inl e \<Rightarrow> (Inl e, rest)
             | Inr (x, db) \<Rightarrow> (Inr x, rest\<lparr>tx_view := db\<rparr>)))"

definition select :: "('db \<Rightarrow> 'a) \<Rightarrow> ('db, 'a) tx" where
  "select query = statement (\<lambda>db. Inr (query db, db))"

definition execute :: "('db \<Rightarrow> 'db) \<Rightarrow> ('db, unit) tx" where
  "execute change = statement (\<lambda>db. Inr ((), change db))"

definition commit :: "('db, unit) tx" where
  "commit s =
     (let rest = s\<lparr>tx_faults := tl (tx_faults s)\<rparr> in
      case tx_faults s of
        Some e # _ \<Rightarrow> (Inl e, rest)
      | _ \<Rightarrow> (Inr (), rest\<lparr>tx_durable := tx_view s\<rparr>))"

fun each :: "('c \<Rightarrow> ('db, 'a) tx) \<Rightarrow> 'c list \<Rightarrow> ('db, 'a list) tx" where
  "each f [] = give []"
| "each f (c # cs) = andThen (f c) (\<lambda>x. andThen (each f cs) (\<lambda>xs. give (x # xs)))"

definition transaction :: "string \<Rightarrow> ('db, 'a) tx \<Rightarrow> 'db \<Rightarrow> go_error option list \<Rightarrow> (go_error + 'a) \<times> 'db" where
  "transaction label body db faults =
     (case faults of
        Some e # _ \<Rightarrow> (Inl (WrapError label e), db)
      | _ \<Rightarrow> (case body \<lparr>tx_durable = db, tx_view = db, tx_faults = tl faults\<rparr> of (r, s) \<Rightarrow> (r, tx_durable s)))"

text \<open>A function that uses the pool outside a transaction: every statement of it is durable at once.\<close>

definition outside_transaction :: "('db, 'a) tx \<Rightarrow> 'db \<Rightarrow> go_error option list \<Rightarrow> (go_error + 'a) \<times> 'db" where
  "outside_transaction body db faults =
     (case body \<lparr>tx_durable = db, tx_view = db, tx_faults = faults\<rparr> of (r, s) \<Rightarrow> (r, tx_view s))"

section \<open>Without driver failures\<close>

named_theorems tx_run \<open>what a step does on a given state\<close>

definition calm :: "'db tx_state \<Rightarrow> bool" where
  "calm s \<longleftrightarrow> tx_faults s = []"

lemma tx_run_basic [tx_run]:
  "give x s = (Inr x, s)"
  "refuse e s = (Inl e, s)"
  "yield r s = (r, s)"
  "require None s = (Inr (), s)"
  "require (Some e) s = (Inl e, s)"
  by (simp_all add: give_def refuse_def require_def yield_def)

lemma tx_run_statement [tx_run]:
  "calm s \<Longrightarrow> select q s = (Inr (q (tx_view s)), s)"
  "calm s \<Longrightarrow> execute w s = (Inr (), s\<lparr>tx_view := w (tx_view s)\<rparr>)"
  "calm s \<Longrightarrow> commit s = (Inr (), s\<lparr>tx_durable := tx_view s\<rparr>)"
  "calm s \<Longrightarrow> statement f s =
     (case f (tx_view s) of Inl e \<Rightarrow> (Inl e, s) | Inr (x, db) \<Rightarrow> (Inr x, s\<lparr>tx_view := db\<rparr>))"
  by (cases s; simp add: calm_def select_def execute_def statement_def commit_def split: sum.splits)+

lemma calm_update [simp]: "calm (s\<lparr>tx_view := db\<rparr>) = calm s" "calm (s\<lparr>tx_durable := db\<rparr>) = calm s"
  by (simp_all add: calm_def)

lemma calm_make [simp]: "calm \<lparr>tx_durable = d, tx_view = v, tx_faults = f\<rparr> \<longleftrightarrow> f = []"
  by (simp add: calm_def)

lemma andThen_run:
  "m s = (Inr x, s') \<Longrightarrow> andThen m f s = f x s'"
  "m s = (Inl e, s') \<Longrightarrow> andThen m f s = (Inl e, s')"
  by (simp_all add: andThen_def)

lemma within_run:
  "m s = (Inr x, s') \<Longrightarrow> within c m s = (Inr x, s')"
  "m s = (Inl e, s') \<Longrightarrow> within c m s = (Inl (WrapError c e), s')"
  by (simp_all add: within_def)

lemma attempt_run: "m s = (r, s') \<Longrightarrow> attempt m s = (Inr r, s')"
  by (simp add: attempt_def)

section \<open>Successful steps\<close>

text \<open>What is known when a step went through, whichever statements the driver was asked to run.\<close>

named_theorems tx_ok \<open>inversion of a successful step\<close>

lemma give_ok [tx_ok]: "give x s = (Inr y, s') \<longleftrightarrow> y = x \<and> s' = s"
  by (auto simp: give_def)

lemma refuse_ok [tx_ok]: "refuse e s = (Inr y, s') \<longleftrightarrow> False"
  by (simp add: refuse_def)

lemma yield_ok [tx_ok]: "yield r s = (Inr y, s') \<longleftrightarrow> r = Inr y \<and> s' = s"
  by (auto simp: yield_def)

lemma require_ok [tx_ok]: "require c s = (Inr y, s') \<longleftrightarrow> c = None \<and> s' = s"
  by (auto simp: require_def split: option.splits)

lemma andThen_ok [tx_ok]:
  "andThen m f s = (Inr y, s') \<longleftrightarrow> (\<exists>x t. m s = (Inr x, t) \<and> f x t = (Inr y, s'))"
  by (auto simp: andThen_def split: prod.splits sum.splits)

lemma within_ok [tx_ok]: "within c m s = (Inr y, s') \<longleftrightarrow> m s = (Inr y, s')"
  by (auto simp: within_def split: prod.splits sum.splits)

lemma attempt_ok [tx_ok]: "attempt m s = (Inr r, s') \<longleftrightarrow> m s = (r, s')"
  by (auto simp: attempt_def split: prod.splits)

lemma attempt_never_Inl [tx_ok]: "attempt m s = (Inl e, s') \<longleftrightarrow> False"
  by (auto simp: attempt_def split: prod.splits)

lemma statement_ok:
  "statement f s = (Inr x, s') \<Longrightarrow>
     \<exists>db. f (tx_view s) = Inr (x, db) \<and> s' = s\<lparr>tx_faults := tl (tx_faults s), tx_view := db\<rparr>"
  by (auto simp: statement_def Let_def split: list.splits option.splits sum.splits)

lemma statement_refused: "statement f s = (Inl e, s') \<Longrightarrow> s' = s\<lparr>tx_faults := tl (tx_faults s)\<rparr>"
  by (auto simp: statement_def Let_def split: list.splits option.splits sum.splits)

lemma select_ok [dest!]: "select q s = (Inr x, s') \<Longrightarrow> x = q (tx_view s) \<and> s' = s\<lparr>tx_faults := tl (tx_faults s)\<rparr>"
  unfolding select_def by (drule statement_ok) auto

lemma select_refused: "select q s = (Inl e, s') \<Longrightarrow> s' = s\<lparr>tx_faults := tl (tx_faults s)\<rparr>"
  unfolding select_def by (rule statement_refused)

lemma execute_ok [dest!]:
  "execute w s = (Inr x, s') \<Longrightarrow> s' = s\<lparr>tx_faults := tl (tx_faults s), tx_view := w (tx_view s)\<rparr>"
  unfolding execute_def by (drule statement_ok) auto

lemma commit_ok [dest!]:
  "commit s = (Inr x, s') \<Longrightarrow> s' = s\<lparr>tx_faults := tl (tx_faults s), tx_durable := tx_view s\<rparr>"
  by (auto simp: commit_def Let_def split: list.splits option.splits)

lemma commit_refused: "commit s = (Inl e, s') \<Longrightarrow> s' = s\<lparr>tx_faults := tl (tx_faults s)\<rparr>"
  by (auto simp: commit_def Let_def split: list.splits option.splits)

section \<open>What a step may touch\<close>

text \<open>A step that only reads, and a step that leaves the durable state alone.\<close>

definition reads :: "('db, 'a) tx \<Rightarrow> bool" where
  "reads m \<longleftrightarrow> (\<forall>s r s'. m s = (r, s') \<longrightarrow> tx_view s' = tx_view s \<and> tx_durable s' = tx_durable s)"

definition uncommitted :: "('db, 'a) tx \<Rightarrow> bool" where
  "uncommitted m \<longleftrightarrow> (\<forall>s r s'. m s = (r, s') \<longrightarrow> tx_durable s' = tx_durable s)"

named_theorems tx_reads \<open>steps that only read\<close>
named_theorems tx_uncommitted \<open>steps that leave the durable state alone\<close>

lemma readsD: "reads m \<Longrightarrow> m s = (r, s') \<Longrightarrow> tx_view s' = tx_view s \<and> tx_durable s' = tx_durable s"
  by (simp add: reads_def)

lemma uncommittedD: "uncommitted m \<Longrightarrow> m s = (r, s') \<Longrightarrow> tx_durable s' = tx_durable s"
  by (simp add: uncommitted_def)

lemma reads_uncommitted: "reads m \<Longrightarrow> uncommitted m"
  by (simp add: reads_def uncommitted_def)

lemma reads_basic [tx_reads]: "reads (give x)" "reads (refuse e)" "reads (require c)" "reads (yield r)"
  by (auto simp: reads_def give_def refuse_def require_def yield_def split: option.splits)

lemma reads_select [tx_reads]: "reads (select q)"
  unfolding reads_def
proof (intro allI impI)
  fix s r s'
  assume "select q s = (r, s')"
  then show "tx_view s' = tx_view s \<and> tx_durable s' = tx_durable s"
    by (cases r) (auto dest: select_refused)
qed

lemma reads_andThen [tx_reads]: "reads m \<Longrightarrow> (\<And>x. reads (f x)) \<Longrightarrow> reads (andThen m f)"
  unfolding reads_def andThen_def by (auto split: prod.splits sum.splits)

lemma reads_within [tx_reads]: "reads m \<Longrightarrow> reads (within c m)"
  unfolding reads_def within_def by (auto split: prod.splits sum.splits)

lemma reads_attempt [tx_reads]: "reads m \<Longrightarrow> reads (attempt m)"
  unfolding reads_def attempt_def by (auto split: prod.splits)

lemma reads_each [tx_reads]: "(\<And>c. reads (f c)) \<Longrightarrow> reads (each f cs)"
  by (induction cs) (auto intro: tx_reads)

lemma uncommitted_basic [tx_uncommitted]:
  "uncommitted (give x)" "uncommitted (refuse e)" "uncommitted (require c)" "uncommitted (yield r)" "uncommitted (select q)"
  by (intro reads_uncommitted tx_reads)+

lemma uncommitted_statement [tx_uncommitted]: "uncommitted (statement f)"
  unfolding uncommitted_def
proof (intro allI impI)
  fix s r s'
  assume "statement f s = (r, s')"
  then show "tx_durable s' = tx_durable s"
    by (cases r) (auto dest: statement_refused statement_ok)
qed

lemma uncommitted_execute [tx_uncommitted]: "uncommitted (execute w)"
  unfolding execute_def by (rule uncommitted_statement)

lemma uncommitted_andThen [tx_uncommitted]: "uncommitted m \<Longrightarrow> (\<And>x. uncommitted (f x)) \<Longrightarrow> uncommitted (andThen m f)"
  unfolding uncommitted_def andThen_def by (auto split: prod.splits sum.splits)

lemma uncommitted_within [tx_uncommitted]: "uncommitted m \<Longrightarrow> uncommitted (within c m)"
  unfolding uncommitted_def within_def by (auto split: prod.splits sum.splits)

lemma uncommitted_attempt [tx_uncommitted]: "uncommitted m \<Longrightarrow> uncommitted (attempt m)"
  unfolding uncommitted_def attempt_def by (auto split: prod.splits)

lemma uncommitted_each [tx_uncommitted]: "(\<And>c. uncommitted (f c)) \<Longrightarrow> uncommitted (each f cs)"
  by (induction cs) (auto intro: tx_uncommitted)

text \<open>\<open>leaves f m\<close>: whatever \<open>m\<close> returns, the part \<open>f\<close> of the view is as it was.\<close>

definition leaves :: "('db \<Rightarrow> 'p) \<Rightarrow> ('db, 'a) tx \<Rightarrow> bool" where
  "leaves f m \<longleftrightarrow> (\<forall>s r s'. m s = (r, s') \<longrightarrow> f (tx_view s') = f (tx_view s))"

named_theorems tx_leaves \<open>steps that leave a part of the view alone\<close>

lemma leavesD: "leaves f m \<Longrightarrow> m s = (r, s') \<Longrightarrow> f (tx_view s') = f (tx_view s)"
  by (simp add: leaves_def)

lemma leaves_reads: "reads m \<Longrightarrow> leaves f m"
  by (simp add: reads_def leaves_def)

lemma leaves_basic [tx_leaves]:
  "leaves f (give x)" "leaves f (refuse e)" "leaves f (require c)" "leaves f (yield r)" "leaves f (select q)"
  by (intro leaves_reads tx_reads)+

lemma leaves_statement: "(\<And>db x db'. w db = Inr (x, db') \<Longrightarrow> f db' = f db) \<Longrightarrow> leaves f (statement w)"
  unfolding leaves_def
proof (intro allI impI)
  fix s r s'
  assume w: "\<And>db x db'. w db = Inr (x, db') \<Longrightarrow> f db' = f db" and s: "statement w s = (r, s')"
  show "f (tx_view s') = f (tx_view s)"
  proof (cases r)
    case (Inl e)
    with s have "statement w s = (Inl e, s')" by simp
    from statement_refused [OF this] show ?thesis by simp
  next
    case (Inr x)
    with s have "statement w s = (Inr x, s')" by simp
    from statement_ok [OF this] w show ?thesis by auto
  qed
qed

lemma leaves_execute: "(\<And>db. f (w db) = f db) \<Longrightarrow> leaves f (execute w)"
  unfolding execute_def by (rule leaves_statement) auto

lemma leaves_commit [tx_leaves]: "leaves f commit"
  by (auto simp: leaves_def commit_def Let_def split: list.splits option.splits)

lemma leaves_andThen [tx_leaves]: "leaves f m \<Longrightarrow> (\<And>x. leaves f (g x)) \<Longrightarrow> leaves f (andThen m g)"
  unfolding leaves_def andThen_def by (auto split: prod.splits sum.splits)

lemma leaves_within [tx_leaves]: "leaves f m \<Longrightarrow> leaves f (within c m)"
  unfolding leaves_def within_def by (auto split: prod.splits sum.splits)

lemma leaves_attempt [tx_leaves]: "leaves f m \<Longrightarrow> leaves f (attempt m)"
  unfolding leaves_def attempt_def by (auto split: prod.splits)

lemma leaves_each [tx_leaves]: "(\<And>c. leaves f (g c)) \<Longrightarrow> leaves f (each g cs)"
  by (induction cs) (auto intro: tx_leaves)

text \<open>\<open>commits_last m\<close>: nothing of \<open>m\<close> is durable when it fails, and all of it when it succeeds.\<close>

definition commits_last :: "('db, 'a) tx \<Rightarrow> bool" where
  "commits_last m \<longleftrightarrow> (\<forall>s r s'. m s = (r, s') \<longrightarrow>
     (case r of Inl _ \<Rightarrow> tx_durable s' = tx_durable s | Inr _ \<Rightarrow> tx_durable s' = tx_view s'))"

named_theorems tx_commits \<open>steps that end in their only commit\<close>

lemma commits_lastD:
  "commits_last m \<Longrightarrow> m s = (Inl e, s') \<Longrightarrow> tx_durable s' = tx_durable s"
  "commits_last m \<Longrightarrow> m s = (Inr x, s') \<Longrightarrow> tx_durable s' = tx_view s'"
  by (fastforce simp: commits_last_def)+

lemma commits_last_refuse [tx_commits]: "commits_last (refuse e)"
  by (simp add: commits_last_def refuse_def)

lemma commits_last_give [tx_commits]: "commits_last (andThen (within c commit) (\<lambda>_. give x))"
  unfolding commits_last_def
proof (intro allI impI)
  fix s r s'
  assume run: "andThen (within c commit) (\<lambda>_. give x) s = (r, s')"
  show "case r of Inl _ \<Rightarrow> tx_durable s' = tx_durable s | Inr _ \<Rightarrow> tx_durable s' = tx_view s'"
  proof (cases "commit s")
    case (Pair q t)
    with run show ?thesis
      by (cases q) (auto simp: andThen_def within_def give_def dest: commit_refused commit_ok)
  qed
qed

lemma commits_last_andThen [tx_commits]:
  "uncommitted m \<Longrightarrow> (\<And>x. commits_last (f x)) \<Longrightarrow> commits_last (andThen m f)"
  unfolding commits_last_def
proof (intro allI impI)
  fix s r s'
  assume m: "uncommitted m" and f: "\<And>x. \<forall>s r s'. f x s = (r, s') \<longrightarrow>
      (case r of Inl _ \<Rightarrow> tx_durable s' = tx_durable s | Inr _ \<Rightarrow> tx_durable s' = tx_view s')"
    and run: "andThen m f s = (r, s')"
  obtain q t where q: "m s = (q, t)" by fastforce
  with m have "tx_durable t = tx_durable s" by (rule uncommittedD)
  show "case r of Inl _ \<Rightarrow> tx_durable s' = tx_durable s | Inr _ \<Rightarrow> tx_durable s' = tx_view s'"
  proof (cases q)
    case (Inl e)
    with run q have "r = Inl e" "s' = t" by (simp_all add: andThen_def)
    then show ?thesis using \<open>tx_durable t = tx_durable s\<close> by simp
  next
    case (Inr x)
    with run q have "f x t = (r, s')" by (simp add: andThen_def)
    with f [rule_format, of x t r s'] \<open>tx_durable t = tx_durable s\<close> show ?thesis by (cases r) simp_all
  qed
qed

section \<open>Preserved predicates\<close>

text \<open>\<open>keeps I m\<close>: a successful \<open>m\<close> keeps the predicate on the view.\<close>

definition keeps :: "('db \<Rightarrow> bool) \<Rightarrow> ('db, 'a) tx \<Rightarrow> bool" where
  "keeps I m \<longleftrightarrow> (\<forall>s x s'. I (tx_view s) \<longrightarrow> m s = (Inr x, s') \<longrightarrow> I (tx_view s'))"

named_theorems tx_keeps \<open>steps that keep a predicate on the view\<close>

lemma keepsD: "keeps I m \<Longrightarrow> m s = (Inr x, s') \<Longrightarrow> I (tx_view s) \<Longrightarrow> I (tx_view s')"
  by (simp add: keeps_def)

lemma keeps_reads: "reads m \<Longrightarrow> keeps I m"
  by (auto simp: keeps_def reads_def)

lemma keeps_execute: "(\<And>db. I db \<Longrightarrow> I (w db)) \<Longrightarrow> keeps I (execute w)"
  by (auto simp: keeps_def)

lemma keeps_statement: "(\<And>db x db'. I db \<Longrightarrow> f db = Inr (x, db') \<Longrightarrow> I db') \<Longrightarrow> keeps I (statement f)"
  by (fastforce simp: keeps_def dest: statement_ok)

lemma keeps_andThen [tx_keeps]: "keeps I m \<Longrightarrow> (\<And>x. keeps I (f x)) \<Longrightarrow> keeps I (andThen m f)"
  unfolding keeps_def andThen_ok by metis

lemma keeps_within [tx_keeps]: "keeps I m \<Longrightarrow> keeps I (within c m)"
  unfolding keeps_def within_ok .

lemma keeps_each [tx_keeps]: "(\<And>c. keeps I (f c)) \<Longrightarrow> keeps I (each f cs)"
  by (induction cs) (auto intro: tx_keeps keeps_reads tx_reads)

section \<open>Branches\<close>

lemma reads_case [tx_reads]:
  "(b \<Longrightarrow> reads m) \<Longrightarrow> (\<not> b \<Longrightarrow> reads n) \<Longrightarrow> reads (if b then m else n)"
  "reads m \<Longrightarrow> (\<And>y. x = Some y \<Longrightarrow> reads (g y)) \<Longrightarrow> reads (case x of None \<Rightarrow> m | Some y \<Rightarrow> g y)"
  "(\<And>e. reads (h e)) \<Longrightarrow> (\<And>y. reads (k y)) \<Longrightarrow> reads (case r of Inl e \<Rightarrow> h e | Inr y \<Rightarrow> k y)"
  "(\<And>y z. reads (p y z)) \<Longrightarrow> reads (case q of (y, z) \<Rightarrow> p y z)"
  "reads m \<Longrightarrow> (\<And>y ys. reads (l y ys)) \<Longrightarrow> reads (case xs of [] \<Rightarrow> m | y # ys \<Rightarrow> l y ys)"
  "(\<And>y. reads (g y)) \<Longrightarrow> reads (let y = v in g y)"
  by (auto split: option.split sum.split prod.split list.split)

lemma uncommitted_case [tx_uncommitted]:
  "(b \<Longrightarrow> uncommitted m) \<Longrightarrow> (\<not> b \<Longrightarrow> uncommitted n) \<Longrightarrow> uncommitted (if b then m else n)"
  "uncommitted m \<Longrightarrow> (\<And>y. x = Some y \<Longrightarrow> uncommitted (g y)) \<Longrightarrow> uncommitted (case x of None \<Rightarrow> m | Some y \<Rightarrow> g y)"
  "(\<And>e. uncommitted (h e)) \<Longrightarrow> (\<And>y. uncommitted (k y)) \<Longrightarrow> uncommitted (case r of Inl e \<Rightarrow> h e | Inr y \<Rightarrow> k y)"
  "(\<And>y z. uncommitted (p y z)) \<Longrightarrow> uncommitted (case q of (y, z) \<Rightarrow> p y z)"
  "uncommitted m \<Longrightarrow> (\<And>y ys. uncommitted (l y ys)) \<Longrightarrow> uncommitted (case xs of [] \<Rightarrow> m | y # ys \<Rightarrow> l y ys)"
  "(\<And>y. uncommitted (g y)) \<Longrightarrow> uncommitted (let y = v in g y)"
  by (auto split: option.split sum.split prod.split list.split)

lemma leaves_case [tx_leaves]:
  "(b \<Longrightarrow> leaves f m) \<Longrightarrow> (\<not> b \<Longrightarrow> leaves f n) \<Longrightarrow> leaves f (if b then m else n)"
  "leaves f m \<Longrightarrow> (\<And>y. x = Some y \<Longrightarrow> leaves f (g y)) \<Longrightarrow> leaves f (case x of None \<Rightarrow> m | Some y \<Rightarrow> g y)"
  "(\<And>e. leaves f (h e)) \<Longrightarrow> (\<And>y. leaves f (k y)) \<Longrightarrow> leaves f (case r of Inl e \<Rightarrow> h e | Inr y \<Rightarrow> k y)"
  "(\<And>y z. leaves f (p y z)) \<Longrightarrow> leaves f (case q of (y, z) \<Rightarrow> p y z)"
  "leaves f m \<Longrightarrow> (\<And>y ys. leaves f (l y ys)) \<Longrightarrow> leaves f (case xs of [] \<Rightarrow> m | y # ys \<Rightarrow> l y ys)"
  "(\<And>y. leaves f (g y)) \<Longrightarrow> leaves f (let y = v in g y)"
  by (auto split: option.split sum.split prod.split list.split)

lemma commits_last_case [tx_commits]:
  "(b \<Longrightarrow> commits_last m) \<Longrightarrow> (\<not> b \<Longrightarrow> commits_last n) \<Longrightarrow> commits_last (if b then m else n)"
  "commits_last m \<Longrightarrow> (\<And>y. x = Some y \<Longrightarrow> commits_last (g y)) \<Longrightarrow> commits_last (case x of None \<Rightarrow> m | Some y \<Rightarrow> g y)"
  "(\<And>e. commits_last (h e)) \<Longrightarrow> (\<And>y. commits_last (k y)) \<Longrightarrow> commits_last (case r of Inl e \<Rightarrow> h e | Inr y \<Rightarrow> k y)"
  "(\<And>y z. commits_last (p y z)) \<Longrightarrow> commits_last (case q of (y, z) \<Rightarrow> p y z)"
  "commits_last m \<Longrightarrow> (\<And>y ys. commits_last (l y ys)) \<Longrightarrow> commits_last (case xs of [] \<Rightarrow> m | y # ys \<Rightarrow> l y ys)"
  "(\<And>y. commits_last (g y)) \<Longrightarrow> commits_last (let y = v in g y)"
  by (auto split: option.split sum.split prod.split list.split)

lemma keeps_case [tx_keeps]:
  "(b \<Longrightarrow> keeps I m) \<Longrightarrow> (\<not> b \<Longrightarrow> keeps I n) \<Longrightarrow> keeps I (if b then m else n)"
  "keeps I m \<Longrightarrow> (\<And>y. x = Some y \<Longrightarrow> keeps I (g y)) \<Longrightarrow> keeps I (case x of None \<Rightarrow> m | Some y \<Rightarrow> g y)"
  "(\<And>e. keeps I (h e)) \<Longrightarrow> (\<And>y. keeps I (k y)) \<Longrightarrow> keeps I (case r of Inl e \<Rightarrow> h e | Inr y \<Rightarrow> k y)"
  "(\<And>y z. keeps I (p y z)) \<Longrightarrow> keeps I (case q of (y, z) \<Rightarrow> p y z)"
  "keeps I m \<Longrightarrow> (\<And>y ys. keeps I (l y ys)) \<Longrightarrow> keeps I (case xs of [] \<Rightarrow> m | y # ys \<Rightarrow> l y ys)"
  "(\<And>y. keeps I (g y)) \<Longrightarrow> keeps I (let y = v in g y)"
  by (auto split: option.split sum.split prod.split list.split)

section \<open>Transactions\<close>

lemma transaction_cases [consumes 1, case_names begun refused]:
  assumes "transaction label body db faults = (r, db')"
  obtains fs s where "body \<lparr>tx_durable = db, tx_view = db, tx_faults = fs\<rparr> = (r, s)" "db' = tx_durable s"
  | e where "r = Inl (WrapError label e)" "db' = db"
proof (cases "\<exists>e fs. faults = Some e # fs")
  case True
  with assms that(2) show ?thesis by (auto simp: transaction_def)
next
  case False
  then have "transaction label body db faults =
      (case body \<lparr>tx_durable = db, tx_view = db, tx_faults = tl faults\<rparr> of (r, s) \<Rightarrow> (r, tx_durable s))"
    by (auto simp: transaction_def split: list.split option.split)
  with assms that(1) show ?thesis by (auto split: prod.splits)
qed

lemma transaction_run [tx_run]:
  "transaction label body db [] = (case body \<lparr>tx_durable = db, tx_view = db, tx_faults = []\<rparr> of (r, s) \<Rightarrow> (r, tx_durable s))"
  by (simp add: transaction_def)

lemma outside_transaction_reads:
  "reads body \<Longrightarrow> outside_transaction body db faults = (r, db') \<Longrightarrow> db' = db"
  by (auto simp: outside_transaction_def dest: readsD split: prod.splits)

end
