(* ===== verification/Store.thy ===== *)
theory Store
  imports Preparation Scheduler Transactions Timestamps
begin

text \<open>
  The durable store (\<open>store/sqlite\<close>): its tables, the statements its functions run on them, and the
  transaction every command shares (\<open>commit_skeleton.go\<close>, \<open>mutation_helpers.go\<close>, the read and write
  helpers of \<open>mutations.go\<close>, \<open>repository.go\<close>, \<open>initiative_aggregate.go\<close>, \<open>initiative_membership.go\<close>,
  \<open>initiative_launch_facts.go\<close>, \<open>initiative_launch_resource_heads.go\<close>, \<open>integration_reservation_guard.go\<close>).

  A table is the list of its rows in insertion order; a column group that the code reads into a record is
  that record.  Slices are written as JSON and read back as they were, and a UTC time reads back exactly
  (\<open>Timestamps\<close>).  A primary key or unique index refuses a second row with the driver's constraint error.
\<close>

section \<open>Tables\<close>

record TaskRow =
  row_task :: Task
  row_pause_requested_operation_id :: string
  row_pause_requested_at :: "time option"

record PreparationRow =
  prow_task_handle :: string
  prow_preparation :: ManagedRunPreparation
  prow_created_at :: time

record TaskPreparationIntent =
  intent_OperationID :: string
  intent_TaskHandle :: string
  intent_SubjectDigest :: string
  intent_CreatedAt :: time

record ReplayConflictRow =
  conflict_operation_id :: string
  conflict_original_command :: string
  conflict_original_subject_digest :: string
  conflict_presented_command :: string
  conflict_presented_subject_digest :: string

datatype ServiceEventKind =
    EventTaskStateChanged | EventDecisionOpened | EventDecisionResolved | EventDecisionAnswered
  | ServiceEventKindOther string

record ServiceEvent =
  ev_OccurredAt :: time
  ev_Kind :: ServiceEventKind
  ev_TaskHandle :: string
  ev_State :: TaskState
  ev_Reason :: string
  ev_StateVersion :: int64

record IntegrationApplicationRow =
  app_status :: string
  app_initiative_handle :: string
  app_integration_task_handle :: string
  app_candidate_task_handle :: string

record initiativeLaunchFact =
  fact_taskHandle :: string
  fact_initiativeHandle :: string
  fact_createdAt :: string
  fact_round :: nat
  fact_repositoryID :: string
  fact_workerProfileID :: string

record storedTerminalBinding =
  tb_taskHandle :: string
  tb_managedRunID :: string
  tb_workspaceLeaseID :: string
  tb_terminalSessionID :: string
  tb_latestTransition :: TerminalTransition
  tb_runningObserved :: bool
  tb_updatedAt :: time

record TerminalEventRow =
  te_operation_id :: string
  te_task_handle :: string
  te_managed_run_id :: string
  te_workspace_lease_id :: string
  te_terminal_session_id :: string
  te_transition :: TerminalTransition
  te_observed_at :: time

record LaunchAcknowledgementRow =
  la_operation_id :: string
  la_task_handle :: string
  la_managed_run_id :: string
  la_workspace_lease_id :: string
  la_working_directory :: string
  la_brief_revision :: int64
  la_brief_revision_hash :: string
  la_launch_state_version :: int64
  la_acknowledged_at :: time

record ValidationProcessRow =
  vp_task_handle :: string
  vp_state :: string

record ResumeLaunchRow =
  rl_operation_id :: string
  rl_task_handle :: string
  rl_head_revision :: string
  rl_observed_at :: time
  rl_state_version :: int64

record SteeringRow =
  st_operation_id :: string
  st_task_handle :: string
  st_instruction :: string
  st_queued_at :: time
  st_delivered_at :: "time option"
  st_state_version :: int64

record ReplacementRow =
  rp_operation_id :: string
  rp_task_handle :: string
  rp_previous_worker_profile_id :: string
  rp_worker_profile_id :: string
  rp_snapshot :: WorkspaceSnapshot
  rp_brief_revision :: int64
  rp_observed_at :: time
  rp_state_version :: int64

record durable =
  db_tasks :: "TaskRow list"
  db_operations :: "OperationRecord list"
  db_preparations :: "PreparationRow list"
  db_relay_upgrades :: "string list"
  db_intents :: "TaskPreparationIntent list"
  db_conflicts :: "ReplayConflictRow list"
  db_events :: "ServiceEvent list"
  db_initiatives :: "DevelopmentInitiative list"
  db_members :: "(string \<times> string) list"
  db_artifacts :: "ContractArtifactContent list"
  db_applications :: "IntegrationApplicationRow list"
  db_launch_facts :: "initiativeLaunchFact list"
  db_launch_heads :: "initiativeLaunchFact list"
  db_terminal_bindings :: "storedTerminalBinding list"
  db_terminal_events :: "TerminalEventRow list"
  db_launch_acks :: "LaunchAcknowledgementRow list"
  db_validation_processes :: "ValidationProcessRow list"
  db_resume_launches :: "ResumeLaunchRow list"
  db_steering :: "SteeringRow list"
  db_replacements :: "ReplacementRow list"
  db_report_versions :: "int64 list"
  db_evidence_versions :: "int64 list"

type_synonym 'a store_tx = "(durable, 'a) tx"

text \<open>The driver's constraint failure, which \<open>isConstraintError\<close> recognises by its code.\<close>

definition sqlite_constraint :: go_error where
  "sqlite_constraint = PlainError ''constraint failed''"

definition isConstraintError :: "go_error \<Rightarrow> bool" where
  "isConstraintError e = errors_Is e sqlite_constraint"

definition insert_unless :: "(durable \<Rightarrow> bool) \<Rightarrow> (durable \<Rightarrow> durable) \<Rightarrow> unit store_tx" where
  "insert_unless taken insertion = statement (\<lambda>db. if taken db then Inl sqlite_constraint else Inr ((), insertion db))"

section \<open>Versions\<close>

definition state_versions :: "durable \<Rightarrow> int64 list" where
  "state_versions db =
     map (task_StateVersion \<circ> row_task) (db_tasks db) @ map op_StateVersion (db_operations db) @
     map ini_StateVersion (db_initiatives db) @ db_report_versions db @ db_evidence_versions db"

fun max_version :: "int64 list \<Rightarrow> int64" where
  "max_version [] = 0"
| "max_version [v] = v"
| "max_version (v # vs) = (let m = max_version vs in if sint m < sint v then v else m)"

definition currentStateVersion :: "int64 store_tx" where
  "currentStateVersion = within ''read current state version'' (select (\<lambda>db. max_version (state_versions db)))"

definition nextMutationStateVersion :: "int64 store_tx" where
  "nextMutationStateVersion =
     andThen currentStateVersion (\<lambda>current.
       if current = MaxInt64 then refuse (PlainError ''state version is exhausted'') else give (current + 1))"

definition completedMutationOperation :: "string \<Rightarrow> string \<Rightarrow> string \<Rightarrow> string \<Rightarrow> int64 \<Rightarrow> time \<Rightarrow> OperationRecord" where
  "completedMutationOperation opid command digest resultRef stateVersion at =
     \<lparr>op_SchemaVersion = 1, op_ID = opid, op_Command = command, op_SubjectDigest = digest,
      op_Status = OperationCompleted, op_ErrorCode = ErrorCodeOther [], op_ResultRef = resultRef,
      op_StateVersion = stateVersion, op_CreatedAt = at, op_UpdatedAt = at\<rparr>"

section \<open>Tasks and operations\<close>

definition insertTask :: "print_table \<Rightarrow> Task \<Rightarrow> unit store_tx" where
  "insertTask u task =
     andThen (require (Task_Validate u task)) (\<lambda>_.
     andThen (attempt (insert_unless (\<lambda>db. \<exists>r\<in>set (db_tasks db). task_Handle (row_task r) = task_Handle task)
       (\<lambda>db. db\<lparr>db_tasks := db_tasks db @ [\<lparr>row_task = task, row_pause_requested_operation_id = [],
                                            row_pause_requested_at = None\<rparr>]\<rparr>))) (\<lambda>r.
     case r of
       Inl e \<Rightarrow> refuse (if isConstraintError e then ErrConflict else e)
     | Inr _ \<Rightarrow> give ()))"

definition insertOperation :: "OperationRecord \<Rightarrow> unit store_tx" where
  "insertOperation operation =
     andThen (require (OperationRecord_Validate operation)) (\<lambda>_.
     insert_unless (\<lambda>db. \<exists>o'\<in>set (db_operations db). op_ID o' = op_ID operation)
       (\<lambda>db. db\<lparr>db_operations := db_operations db @ [operation]\<rparr>))"

definition scanTask :: "print_table \<Rightarrow> TaskRow \<Rightarrow> Task result" where
  "scanTask u row = ensure (map_option (WrapError ''validate stored task'') (Task_Validate u (row_task row))) (Inr (row_task row))"

definition find_task_row :: "string \<Rightarrow> durable \<Rightarrow> TaskRow option" where
  "find_task_row handle db = find (\<lambda>r. task_Handle (row_task r) = handle) (db_tasks db)"

definition getTask :: "print_table \<Rightarrow> string \<Rightarrow> Task store_tx" where
  "getTask u handle = within ''get task''
     (andThen (select (find_task_row handle)) (\<lambda>found.
      case found of None \<Rightarrow> refuse ErrNotFound | Some row \<Rightarrow> yield (scanTask u row)))"

definition find_operation :: "string \<Rightarrow> durable \<Rightarrow> OperationRecord option" where
  "find_operation opid db = find (\<lambda>o'. op_ID o' = opid) (db_operations db)"

definition getOperation :: "string \<Rightarrow> OperationRecord store_tx" where
  "getOperation opid =
     andThen (within ''get operation'' (andThen (select (find_operation opid)) (\<lambda>found.
       case found of None \<Rightarrow> refuse ErrNotFound | Some operation \<Rightarrow> give operation))) (\<lambda>operation.
     within ''validate stored operation'' (andThen (require (OperationRecord_Validate operation)) (\<lambda>_. give operation)))"

section \<open>Replay\<close>

definition insertReplayConflict :: "OperationRecord \<Rightarrow> string \<Rightarrow> string \<Rightarrow> unit store_tx" where
  "insertReplayConflict original presentedCommand presentedDigest =
     execute (\<lambda>db. db\<lparr>db_conflicts := db_conflicts db @
       [\<lparr>conflict_operation_id = op_ID original, conflict_original_command = op_Command original,
         conflict_original_subject_digest = op_SubjectDigest original,
         conflict_presented_command = presentedCommand, conflict_presented_subject_digest = presentedDigest\<rparr>]\<rparr>)"

definition mutationReplay :: "string \<Rightarrow> string \<Rightarrow> string \<Rightarrow> OperationRecord option store_tx" where
  "mutationReplay operationID command subjectDigest =
     andThen (attempt (getOperation operationID)) (\<lambda>r.
     case r of
       Inl e \<Rightarrow> if errors_Is e ErrNotFound then give None else refuse e
     | Inr existing \<Rightarrow>
         if op_Command existing \<noteq> command \<or> op_SubjectDigest existing \<noteq> subjectDigest then
           andThen (within ''audit operation altered replay'' (insertReplayConflict existing command subjectDigest)) (\<lambda>_.
           refuse (WrapError ''operation altered replay'' ErrConflict))
         else if op_ResultRef existing = [] then refuse (PlainError ''operation replay has no result reference'')
         else give (Some existing))"

definition commitReplayConflict :: "go_error \<Rightarrow> 'a store_tx" where
  "commitReplayConflict cause =
     (if \<not> errors_Is cause ErrConflict then refuse cause
      else andThen (within ''commit replay-conflict audit'' commit) (\<lambda>_. refuse cause))"

definition getManagedRunPreparation :: "Task \<Rightarrow> ManagedRunPreparation store_tx" where
  "getManagedRunPreparation task =
     andThen (select (\<lambda>db. (find (\<lambda>p. prow_task_handle p = task_Handle task) (db_preparations db),
                            task_Handle task \<in> set (db_relay_upgrades db)))) (\<lambda>(found, relayUpgradePending).
     case found of
       None \<Rightarrow> refuse (PlainError ''sql: no rows in result set'')
     | Some row \<Rightarrow>
         (let preparation = prow_preparation row in
          if Preparation_Validate preparation (task_CreatedAt task) \<noteq> None \<or>
             prep_ExternalRunRef preparation \<noteq> task_Handle task \<or> relayUpgradePending
          then refuse (PlainError ''stored managed-run preparation is invalid'')
          else give preparation))"

definition mutationResult :: "print_table \<Rightarrow> OperationRecord \<Rightarrow> MutationResult store_tx" where
  "mutationResult u operation =
     andThen (within ''read operation replay task'' (getTask u (op_ResultRef operation))) (\<lambda>task.
     if op_Command operation \<noteq> ''PrepareTask'' \<and> op_Command operation \<noteq> ''AbandonManagedRun''
     then give \<lparr>res_Task = task, res_Operation = operation, res_Preparation = None\<rparr>
     else andThen (within ''read operation replay preparation'' (getManagedRunPreparation task)) (\<lambda>preparation.
       give \<lparr>res_Task = task, res_Operation = operation, res_Preparation = Some preparation\<rparr>))"

text \<open>
  The opening of every command: the replay check under the transaction, its conflict made durable, its
  finding answered, and the rest only for a new operation.
\<close>

definition replay_first :: "string \<Rightarrow> string \<Rightarrow> string \<Rightarrow> (OperationRecord \<Rightarrow> 'r store_tx) \<Rightarrow> 'r store_tx \<Rightarrow> 'r store_tx" where
  "replay_first operationID command subjectDigest answer rest =
     andThen (attempt (mutationReplay operationID command subjectDigest)) (\<lambda>r.
     case r of
       Inl e \<Rightarrow> commitReplayConflict e
     | Inr (Some operation) \<Rightarrow> answer operation
     | Inr None \<Rightarrow> rest)"

section \<open>Reservations of an integration\<close>

fun integrationOwnerMutationState :: "TaskState \<Rightarrow> bool" where
  "integrationOwnerMutationState TaskReady = True"
| "integrationOwnerMutationState TaskWorking = True"
| "integrationOwnerMutationState TaskAwaitingDecision = True"
| "integrationOwnerMutationState TaskBlocked = True"
| "integrationOwnerMutationState _ = False"

definition integrationCandidateMutationState :: "TaskState \<Rightarrow> bool" where
  "integrationCandidateMutationState state \<longleftrightarrow> state = TaskCandidateComplete \<or> state = TaskDelivered"

definition integrationInitiativeMutationState :: "InitiativeState \<Rightarrow> bool" where
  "integrationInitiativeMutationState state \<longleftrightarrow>
     state = InitiativeActive \<or> state = InitiativeBlocked \<or> state = InitiativeIntegrating \<or> state = InitiativeValidating"

definition reserved_application :: "(IntegrationApplicationRow \<Rightarrow> bool) \<Rightarrow> durable \<Rightarrow> bool" where
  "reserved_application names db \<longleftrightarrow> (\<exists>a\<in>set (db_applications db). app_status a = ''reserved'' \<and> names a)"

definition refuseAnyReservedIntegrationTaskMutation :: "string \<Rightarrow> unit store_tx" where
  "refuseAnyReservedIntegrationTaskMutation handle =
     andThen (within ''inspect task integration reservation''
       (select (reserved_application (\<lambda>a. app_integration_task_handle a = handle \<or> app_candidate_task_handle a = handle))))
     (\<lambda>reserved. if reserved then refuse (WrapError ''task has a reserved integration application'' ErrPrecondition)
                else give ())"

definition reservedIntegrationTaskRole :: "bool \<Rightarrow> string \<Rightarrow> bool store_tx" where
  "reservedIntegrationTaskRole owner handle =
     within ''inspect task integration reservation'' (select (reserved_application
       (\<lambda>a. (if owner then app_integration_task_handle a else app_candidate_task_handle a) = handle)))"

definition refuseReservedIntegrationTaskTransition :: "string \<Rightarrow> TaskState \<Rightarrow> TaskState \<Rightarrow> unit store_tx" where
  "refuseReservedIntegrationTaskTransition handle previous next =
     (if previous = next then give ()
      else andThen
        (if integrationOwnerMutationState previous \<and> \<not> integrationOwnerMutationState next
         then andThen (reservedIntegrationTaskRole True handle) (\<lambda>reserved.
                if reserved then refuse (WrapError ''integration owner has a reserved application'' ErrPrecondition)
                else give ())
         else give ()) (\<lambda>_.
        if integrationCandidateMutationState previous \<and> \<not> integrationCandidateMutationState next
        then andThen (reservedIntegrationTaskRole False handle) (\<lambda>reserved.
               if reserved then refuse (WrapError ''integration candidate has a reserved application'' ErrPrecondition)
               else give ())
        else give ()))"

definition refuseReservedIntegrationInitiativeTransition ::
  "string \<Rightarrow> InitiativeState \<Rightarrow> InitiativeState \<Rightarrow> unit store_tx" where
  "refuseReservedIntegrationInitiativeTransition handle previous next =
     (if \<not> integrationInitiativeMutationState previous \<or> integrationInitiativeMutationState next then give ()
      else andThen (within ''inspect initiative integration reservation''
             (select (reserved_application (\<lambda>a. app_initiative_handle a = handle)))) (\<lambda>reserved.
           if reserved then refuse (WrapError ''initiative has a reserved integration application'' ErrPrecondition)
           else give ()))"

section \<open>Initiatives of a task\<close>

definition initiativeTaskHandles :: "DevelopmentInitiative \<Rightarrow> string list" where
  "initiativeTaskHandles initiative = sort (concat (map comp_TaskHandles (ini_Components initiative)))"

definition scanInitiative :: "DevelopmentInitiative \<Rightarrow> DevelopmentInitiative result" where
  "scanInitiative initiative =
     ensure (map_option (WrapError ''validate stored initiative'') (Initiative_Validate initiative)) (Inr initiative)"

definition containing_initiatives :: "string \<Rightarrow> durable \<Rightarrow> DevelopmentInitiative list" where
  "containing_initiatives handle db =
     sort_key ini_Handle (filter (\<lambda>i. (handle, ini_Handle i) \<in> set (db_members db)) (db_initiatives db))"

definition initiativeForTask :: "string \<Rightarrow> DevelopmentInitiative option store_tx" where
  "initiativeForTask handle =
     andThen (within ''read initiative membership'' (select (containing_initiatives handle))) (\<lambda>rows.
     case rows of
       [] \<Rightarrow> give None
     | initiative # others \<Rightarrow>
         andThen (within ''read initiative membership'' (yield (scanInitiative initiative))) (\<lambda>initiative.
         if others \<noteq> [] then refuse (PlainError ''read initiative membership: task belongs to multiple initiatives'')
         else give (Some initiative)))"

definition artifact_rows :: "string \<Rightarrow> durable \<Rightarrow> ContractArtifactContent list" where
  "artifact_rows handle db =
     sort_key (\<lambda>c. (cart_InitiativeHandle (content_Artifact c), cart_ArtifactHandle (content_Artifact c)))
       (filter (\<lambda>c. handle = [] \<or> cart_InitiativeHandle (content_Artifact c) = handle) (db_artifacts db))"

definition listInitiativeContractArtifacts :: "string \<Rightarrow> ComponentContractArtifact list store_tx" where
  "listInitiativeContractArtifacts handle =
     andThen (within ''list initiative contract artifacts'' (select (artifact_rows handle))) (\<lambda>rows.
     if \<exists>c\<in>set rows. ContractArtifact_Validate (content_Artifact c) \<noteq> None \<or>
          int (length (content_Content c)) \<noteq> sint (cart_Size (content_Artifact c)) \<or>
          sha256_hex (content_Content c) \<noteq> cart_ContentHash (content_Artifact c)
     then refuse (PlainError ''stored initiative contract artifact is invalid'')
     else give (map content_Artifact rows))"

definition listInitiativeContractArtifactMetadata :: "string \<Rightarrow> ComponentContractArtifact list store_tx" where
  "listInitiativeContractArtifactMetadata handle =
     andThen (within ''list initiative contract artifact metadata'' (select (artifact_rows handle))) (\<lambda>rows.
     if \<exists>c\<in>set rows. ContractArtifact_Validate (content_Artifact c) \<noteq> None
     then refuse (PlainError ''stored initiative contract artifact metadata is invalid'')
     else give (map content_Artifact rows))"

section \<open>Launch facts\<close>

text \<open>
  The launchable ready members of every active initiative, with the round they take part in, and the
  first of them for every (round, repository, worker profile).
\<close>

type_synonym initiativeLaunchResourceKey = "nat \<times> string \<times> string"

definition maximumInitiativeSchedulingFrontier :: int64 where
  "maximumInitiativeSchedulingFrontier = 1024"

definition fact_key :: "initiativeLaunchFact \<Rightarrow> initiativeLaunchResourceKey" where
  "fact_key l = (fact_round l, fact_repositoryID l, fact_workerProfileID l)"

definition fact_order :: "initiativeLaunchFact \<Rightarrow> string \<times> string \<times> string" where
  "fact_order l = (fact_createdAt l, fact_initiativeHandle l, fact_taskHandle l)"

fun validInitiativeLaunchResourceKey :: "initiativeLaunchResourceKey \<Rightarrow> bool" where
  "validInitiativeLaunchResourceKey (turn, repositoryID, workerProfileID) \<longleftrightarrow>
     turn < MaximumInitiativeMembers \<and> ValidateRepositoryID repositoryID = None \<and>
     validateAuthorityReference ''workerProfileId'' workerProfileID = None"

definition initiativeLaunchResourceKeys :: "string \<Rightarrow> initiativeLaunchResourceKey list store_tx" where
  "initiativeLaunchResourceKeys handle =
     andThen (select (\<lambda>db. sort (remdups (map fact_key
       (filter (\<lambda>f. fact_initiativeHandle f = handle) (db_launch_facts db)))))) (\<lambda>keys.
     if list_all validInitiativeLaunchResourceKey keys then give keys
     else refuse (PlainError ''stored initiative launch resource key is invalid''))"

definition first_fact :: "initiativeLaunchResourceKey \<Rightarrow> initiativeLaunchFact list \<Rightarrow> initiativeLaunchFact list" where
  "first_fact key facts = take 1 (sort_key fact_order (filter (\<lambda>f. fact_key f = key) facts))"

definition refreshInitiativeLaunchResourceHead :: "initiativeLaunchResourceKey \<Rightarrow> unit store_tx" where
  "refreshInitiativeLaunchResourceHead key =
     andThen (require (fail_if (\<not> validInitiativeLaunchResourceKey key)
       (PlainError ''initiative launch resource key is invalid''))) (\<lambda>_.
     andThen (execute (\<lambda>db. db\<lparr>db_launch_heads := filter (\<lambda>h. fact_key h \<noteq> key) (db_launch_heads db)\<rparr>)) (\<lambda>_.
     execute (\<lambda>db. db\<lparr>db_launch_heads := db_launch_heads db @ first_fact key (db_launch_facts db)\<rparr>)))"

text \<open>Go visits the affected keys in no fixed order; the keys are distinct, so the heads do not depend on it.\<close>

definition refreshInitiativeLaunchResourceKeys :: "initiativeLaunchResourceKey list \<Rightarrow> unit store_tx" where
  "refreshInitiativeLaunchResourceKeys keys =
     andThen (each refreshInitiativeLaunchResourceHead (remdups keys)) (\<lambda>_. give ())"

definition launch_member :: "print_table \<Rightarrow> string \<Rightarrow> Task store_tx" where
  "launch_member u handle =
     andThen (within ''inspect initiative launch membership''
       (select (\<lambda>db. length (filter (\<lambda>m. fst m = handle) (db_members db))))) (\<lambda>memberships.
     if memberships \<noteq> 1 then refuse (PlainError ''initiative launch task membership is ambiguous'')
     else within ''read initiative launch task'' (getTask u handle))"

definition insert_launch_fact :: "DevelopmentInitiative \<Rightarrow> Task list \<Rightarrow> nat \<Rightarrow> nat \<times> InitiativeTaskSchedule \<Rightarrow> unit store_tx" where
  "insert_launch_fact initiative tasks first = (\<lambda>(candidateIndex, decision).
     case find (\<lambda>t. task_Handle t = dec_TaskHandle decision) tasks of
       None \<Rightarrow> refuse (PlainError ''initiative launch candidate task is unavailable'')
     | Some task \<Rightarrow>
         within ''insert initiative launch fact'' (insert_unless
           (\<lambda>db. \<exists>f\<in>set (db_launch_facts db). fact_taskHandle f = task_Handle task)
           (\<lambda>db. db\<lparr>db_launch_facts := db_launch_facts db @
              [\<lparr>fact_taskHandle = task_Handle task, fact_initiativeHandle = ini_Handle initiative,
                fact_createdAt = formatTime (ini_CreatedAt initiative), fact_round = first + candidateIndex,
                fact_repositoryID = task_RepositoryID task, fact_workerProfileID = task_WorkerProfileID task\<rparr>]\<rparr>)))"

definition launch_decisions :: "InitiativeSchedule \<Rightarrow> InitiativeTaskSchedule list" where
  "launch_decisions schedule = filter (\<lambda>d. dec_State d = TaskReady \<and> dec_Launchable d) (sch_Tasks schedule)"

definition replaceInitiativeLaunchFacts :: "print_table \<Rightarrow> DevelopmentInitiative \<Rightarrow> bool \<Rightarrow> unit store_tx" where
  "replaceInitiativeLaunchFacts u initiative refreshResourceHeads =
     andThen (if refreshResourceHeads then initiativeLaunchResourceKeys (ini_Handle initiative) else give []) (\<lambda>before.
     andThen (within ''clear initiative launch facts'' (execute (\<lambda>db. db\<lparr>db_launch_facts :=
       filter (\<lambda>f. fact_initiativeHandle f \<noteq> ini_Handle initiative) (db_launch_facts db)\<rparr>))) (\<lambda>_.
     if ini_State initiative \<noteq> InitiativeActive then refreshInitiativeLaunchResourceKeys before
     else
       andThen (each (launch_member u) (initiativeTaskHandles initiative)) (\<lambda>tasks.
       andThen (within ''read initiative launch artifacts''
         (listInitiativeContractArtifactMetadata (ini_Handle initiative))) (\<lambda>artifacts.
       andThen (yield
         (case ScheduleInitiativesWithUsage u [initiative] tasks artifacts
            \<lparr>lim_MaxConcurrentTasks = maximumInitiativeSchedulingFrontier,
             lim_MaxConcurrentTasksPerRepository = maximumInitiativeSchedulingFrontier,
             lim_WorkerProfileLimits =
               fmap_of_list (map (\<lambda>t. (task_WorkerProfileID t, maximumInitiativeSchedulingFrontier)) tasks)\<rparr>
            \<lparr>given_Host = 0, given_Repositories = fmempty, given_WorkerProfiles = fmempty\<rparr> of
            Inr [schedule] \<Rightarrow> Inr schedule
          | Inr _ \<Rightarrow> Inl (PlainError ''initiative launch schedule is unavailable'')
          | Inl e \<Rightarrow> Inl (WrapError ''initiative launch schedule is unavailable'' e))) (\<lambda>schedule.
       andThen (each (insert_launch_fact initiative tasks
           (length (filter (\<lambda>t. task_State t \<noteq> TaskPrepared \<and> task_State t \<noteq> TaskReady) tasks)))
         (enumerate 0 (launch_decisions schedule))) (\<lambda>_.
       andThen (if refreshResourceHeads then initiativeLaunchResourceKeys (ini_Handle initiative) else give []) (\<lambda>after.
       refreshInitiativeLaunchResourceKeys (before @ after))))))))"

definition refreshInitiativeLaunchFacts :: "print_table \<Rightarrow> DevelopmentInitiative \<Rightarrow> unit store_tx" where
  "refreshInitiativeLaunchFacts u initiative = replaceInitiativeLaunchFacts u initiative True"

definition refreshInitiativeLaunchFactsForTask :: "print_table \<Rightarrow> string \<Rightarrow> unit store_tx" where
  "refreshInitiativeLaunchFactsForTask u handle =
     andThen (initiativeForTask handle) (\<lambda>found.
     case found of None \<Rightarrow> give () | Some initiative \<Rightarrow> refreshInitiativeLaunchFacts u initiative)"

section \<open>Moving a task\<close>

definition updateInitiativeRecord :: "print_table \<Rightarrow> DevelopmentInitiative \<Rightarrow> unit store_tx" where
  "updateInitiativeRecord u initiative =
     andThen (within ''read initiative state before update''
       (andThen (select (\<lambda>db. find (\<lambda>i. ini_Handle i = ini_Handle initiative) (db_initiatives db))) (\<lambda>found.
        case found of None \<Rightarrow> refuse (PlainError ''sql: no rows in result set'') | Some i \<Rightarrow> give (ini_State i)))) (\<lambda>previous.
     andThen (refuseReservedIntegrationInitiativeTransition (ini_Handle initiative) previous (ini_State initiative)) (\<lambda>_.
     andThen (within ''update initiative record'' (statement (\<lambda>db. Inr
       (length (filter (\<lambda>i. ini_Handle i = ini_Handle initiative) (db_initiatives db)),
        db\<lparr>db_initiatives := map (\<lambda>i. if ini_Handle i = ini_Handle initiative
             then i\<lparr>ini_ManagedRunGroupID := ini_ManagedRunGroupID initiative, ini_State := ini_State initiative,
                    ini_StateVersion := ini_StateVersion initiative, ini_UpdatedAt := ini_UpdatedAt initiative\<rparr>
             else i) (db_initiatives db)\<rparr>)))) (\<lambda>rows.
     if rows \<noteq> 1 then refuse (PlainError ''update initiative record: exact initiative was not updated'')
     else refreshInitiativeLaunchFacts u initiative)))"

definition refreshInitiativeAggregate :: "print_table \<Rightarrow> string \<Rightarrow> int64 \<Rightarrow> time \<Rightarrow> unit store_tx" where
  "refreshInitiativeAggregate u handle stateVersion at =
     andThen (within ''refresh initiative aggregate'' (initiativeForTask handle)) (\<lambda>found.
     case found of
       None \<Rightarrow> give ()
     | Some containing \<Rightarrow>
         andThen (within ''refresh initiative aggregate member'' (each (getTask u) (initiativeTaskHandles containing))) (\<lambda>members.
         andThen (within ''refresh initiative aggregate artifacts''
           (listInitiativeContractArtifacts (ini_Handle containing))) (\<lambda>artifacts.
         andThen (within ''refresh initiative aggregate state''
           (yield (DeriveInitiativeState u containing members artifacts))) (\<lambda>state.
         if state = ini_State containing then refreshInitiativeLaunchFacts u containing
         else if sint stateVersion < sint (ini_StateVersion containing) \<or> \<not> in_utc at \<or> Before at (ini_UpdatedAt containing)
         then refuse (PlainError ''refresh initiative aggregate: member version or time precedes the initiative'')
         else
           (let moved = containing\<lparr>ini_State := state, ini_StateVersion := stateVersion, ini_UpdatedAt := at\<rparr> in
            andThen (require (map_option (WrapError ''refresh initiative aggregate validation'') (Initiative_Validate moved))) (\<lambda>_.
            within ''refresh initiative aggregate record'' (updateInitiativeRecord u moved)))))))"

definition appendServiceEvent :: "ServiceEvent \<Rightarrow> unit store_tx" where
  "appendServiceEvent event =
     andThen (require (first_error
       [fail_if (case ev_Kind event of ServiceEventKindOther _ \<Rightarrow> True | _ \<Rightarrow> False)
          (PlainError ''append service event: kind is invalid''),
        fail_if (IsZero (ev_OccurredAt event)) (PlainError ''append service event: observation time is required'')])) (\<lambda>_.
     within ''append service event'' (execute (\<lambda>db. db\<lparr>db_events := db_events db @ [event]\<rparr>)))"

definition appendTaskStateEvent :: "Task \<Rightarrow> unit store_tx" where
  "appendTaskStateEvent task = appendServiceEvent
     \<lparr>ev_OccurredAt = task_UpdatedAt task, ev_Kind = EventTaskStateChanged, ev_TaskHandle = task_Handle task,
      ev_State = task_State task, ev_Reason = [], ev_StateVersion = task_StateVersion task\<rparr>"

definition write_state :: "Task \<Rightarrow> durable \<Rightarrow> durable" where
  "write_state task db = db\<lparr>db_tasks := map (\<lambda>r. if task_Handle (row_task r) = task_Handle task
     then r\<lparr>row_task := (row_task r)\<lparr>task_State := task_State task, task_StateVersion := task_StateVersion task,
                                   task_UpdatedAt := task_UpdatedAt task\<rparr>\<rparr>
     else r) (db_tasks db)\<rparr>"

definition rows_of_task :: "string \<Rightarrow> durable \<Rightarrow> nat" where
  "rows_of_task handle db = length (filter (\<lambda>r. task_Handle (row_task r) = handle) (db_tasks db))"

definition updateTaskStateWithReservationGuard :: "print_table \<Rightarrow> Task \<Rightarrow> bool \<Rightarrow> unit store_tx" where
  "updateTaskStateWithReservationGuard u task guardReservation =
     andThen (require (map_option (WrapError ''validate task state update'') (Task_Validate u task))) (\<lambda>_.
     andThen (within ''read task state before update''
       (andThen (select (find_task_row (task_Handle task))) (\<lambda>found.
        case found of None \<Rightarrow> refuse (PlainError ''sql: no rows in result set'')
                    | Some row \<Rightarrow> give (task_State (row_task row))))) (\<lambda>previous.
     andThen (if guardReservation
              then refuseReservedIntegrationTaskTransition (task_Handle task) previous (task_State task) else give ()) (\<lambda>_.
     andThen (within ''update task state''
       (statement (\<lambda>db. Inr (rows_of_task (task_Handle task) db, write_state task db)))) (\<lambda>rows.
     if rows \<noteq> 1 then refuse (PlainError ''update task state: exact task was not updated'')
     else if previous = task_State task then give ()
     else andThen (appendTaskStateEvent task) (\<lambda>_.
          refreshInitiativeAggregate u (task_Handle task) (task_StateVersion task) (task_UpdatedAt task))))))"

definition updateTaskState :: "print_table \<Rightarrow> Task \<Rightarrow> unit store_tx" where
  "updateTaskState u task = updateTaskStateWithReservationGuard u task True"

section \<open>The transaction every command shares\<close>

text \<open>
  A command's body may assign variables of the function around it, which \<open>Record\<close> and the caller read
  afterwards; they are the \<open>'x\<close> the body returns with the task, and keep their initial value on a replay.
\<close>

record 'x taskMutationSpec =
  spec_Command :: string
  spec_OperationID :: string
  spec_SubjectDigest :: string
  spec_At :: time
  spec_Label :: string
  spec_Record :: "'x \<Rightarrow> Task \<Rightarrow> unit store_tx"

definition no_record :: "'x \<Rightarrow> Task \<Rightarrow> unit store_tx" where
  "no_record captured persisted = give ()"

definition insert_operation_labelled :: "string \<Rightarrow> OperationRecord \<Rightarrow> unit store_tx" where
  "insert_operation_labelled label operation =
     andThen (attempt (insertOperation operation)) (\<lambda>r.
     case r of
       Inl e \<Rightarrow> refuse (WrapError (''insert '' @ label @ '' operation'') (if isConstraintError e then ErrConflict else e))
     | Inr _ \<Rightarrow> give ())"

text \<open>What follows the replay check: the body, one version for the task and its operation, the trail, the commit.\<close>

definition commit_new_mutation ::
  "print_table \<Rightarrow> 'x taskMutationSpec \<Rightarrow> (Task \<times> 'x) store_tx \<Rightarrow> (MutationResult \<times> 'x) store_tx" where
  "commit_new_mutation u spec body =
     andThen body (\<lambda>(moved, captured).
     andThen nextMutationStateVersion (\<lambda>stateVersion.
     let updated = moved\<lparr>task_StateVersion := stateVersion\<rparr>;
         operation = completedMutationOperation (spec_OperationID spec) (spec_Command spec) (spec_SubjectDigest spec)
                       (task_Handle updated) stateVersion (spec_At spec)
     in andThen (updateTaskState u updated) (\<lambda>_.
        andThen (insert_operation_labelled (spec_Label spec) operation) (\<lambda>_.
        andThen (spec_Record spec captured updated) (\<lambda>_.
        andThen (within (''commit '' @ spec_Label spec) commit) (\<lambda>_.
        give (\<lparr>res_Task = updated, res_Operation = operation, res_Preparation = None\<rparr>, captured)))))))"

definition commitTaskMutation ::
  "print_table \<Rightarrow> 'x taskMutationSpec \<Rightarrow> 'x \<Rightarrow> (Task \<times> 'x) store_tx \<Rightarrow>
     durable \<Rightarrow> go_error option list \<Rightarrow> (MutationResult \<times> 'x) result \<times> durable" where
  "commitTaskMutation u spec unset body db faults =
     (if \<not> in_utc (spec_At spec) then (Inl (WrapError (spec_Label spec @ '' time'') ErrPrecondition), db)
      else transaction (''begin '' @ spec_Label spec)
        (replay_first (spec_OperationID spec) (spec_Command spec) (spec_SubjectDigest spec)
           (\<lambda>operation. andThen (mutationResult u operation) (\<lambda>result. give (result, unset)))
           (commit_new_mutation u spec body)) db faults)"

definition plain_outcome :: "(MutationResult \<times> 'x) result \<times> durable \<Rightarrow> MutationResult result \<times> durable" where
  "plain_outcome = map_prod (map_sum id fst) id"

text \<open>\<open>Store.ReplayMutation\<close> runs outside a transaction: the audit row of an altered replay is durable at once.\<close>

definition ReplayMutation ::
  "print_table \<Rightarrow> string \<Rightarrow> string \<Rightarrow> string \<Rightarrow> durable \<Rightarrow> go_error option list \<Rightarrow> MutationResult option result \<times> durable" where
  "ReplayMutation u operationID command subjectDigest = outside_transaction
     (andThen (mutationReplay operationID command subjectDigest) (\<lambda>found.
      case found of
        None \<Rightarrow> give None
      | Some operation \<Rightarrow> andThen (mutationResult u operation) (\<lambda>result. give (Some result))))"

end
