(* ===== verification/Store_Commands.thy ===== *)
theory Store_Commands
  imports Store
begin

text \<open>
  The commands of the durable store: the two-phase join with the host (\<open>mutations.go\<close>,
  \<open>preparation_intents.go\<close>), cancellation (\<open>cancel_task.go\<close>, \<open>cancel.go\<close>), pause requests (\<open>pause.go\<close>),
  resumption (\<open>resume.go\<close>), steering (\<open>steer.go\<close>), verification (\<open>verify.go\<close>, \<open>initiative_validation.go\<close>),
  worker replacement (\<open>replace.go\<close>) and the terminal's lifecycle (\<open>terminal_lifecycle.go\<close>).
\<close>

section \<open>Preparation intents\<close>

definition Intent_Validate :: "TaskPreparationIntent \<Rightarrow> go_error option" where
  "Intent_Validate intent =
     fail_if (ValidateOperationID (intent_OperationID intent) \<noteq> None \<or> ValidateTaskHandle (intent_TaskHandle intent) \<noteq> None \<or>
              (case hex_DecodeString (intent_SubjectDigest intent) of
                 None \<Rightarrow> True
               | Some digest \<Rightarrow> length digest \<noteq> 32 \<or> hex_EncodeToString digest \<noteq> intent_SubjectDigest intent) \<or>
              IsZero (intent_CreatedAt intent) \<or> \<not> in_utc (intent_CreatedAt intent))
       (PlainError ''task preparation intent is invalid'')"

definition readTaskPreparationIntent :: "string \<Rightarrow> TaskPreparationIntent store_tx" where
  "readTaskPreparationIntent operationID =
     andThen (select (\<lambda>db. find (\<lambda>i. intent_OperationID i = operationID) (db_intents db))) (\<lambda>found.
     case found of
       None \<Rightarrow> refuse ErrNotFound
     | Some intent \<Rightarrow>
         if Intent_Validate intent \<noteq> None then refuse (PlainError ''task preparation intent is invalid'') else give intent)"

definition record_new_intent :: "TaskPreparationIntent \<Rightarrow> TaskPreparationIntent store_tx" where
  "record_new_intent intent =
     andThen (attempt (insert_unless
       (\<lambda>db. \<exists>i\<in>set (db_intents db). intent_OperationID i = intent_OperationID intent \<or> intent_TaskHandle i = intent_TaskHandle intent)
       (\<lambda>db. db\<lparr>db_intents := db_intents db @ [intent]\<rparr>))) (\<lambda>r.
     case r of
       Inr _ \<Rightarrow> andThen (within ''commit task preparation intent'' commit) (\<lambda>_. give intent)
     | Inl e \<Rightarrow>
         if \<not> isConstraintError e then refuse (WrapError ''record task preparation intent'' e)
         else
           andThen (attempt (readTaskPreparationIntent (intent_OperationID intent))) (\<lambda>r.
           case r of
             Inl e \<Rightarrow> refuse (if errors_Is e ErrNotFound then WrapError ''record task preparation intent'' ErrConflict else e)
           | Inr existing \<Rightarrow>
               if intent_SubjectDigest existing \<noteq> intent_SubjectDigest intent
               then refuse (WrapError ''record task preparation altered replay'' ErrConflict)
               else andThen (within ''commit task preparation replay'' commit) (\<lambda>_. give existing)))"

definition replayed_intent :: "print_table \<Rightarrow> OperationRecord \<Rightarrow> TaskPreparationIntent store_tx" where
  "replayed_intent u operation =
     andThen (getTask u (op_ResultRef operation)) (\<lambda>task.
     let replayed = \<lparr>intent_OperationID = op_ID operation, intent_TaskHandle = task_Handle task,
                     intent_SubjectDigest = op_SubjectDigest operation, intent_CreatedAt = task_CreatedAt task\<rparr>
     in if Intent_Validate replayed \<noteq> None then refuse (PlainError ''replay task preparation intent is invalid'')
        else andThen (within ''commit task preparation operation replay'' commit) (\<lambda>_. give replayed))"

definition RecordTaskPreparationIntent ::
  "print_table \<Rightarrow> TaskPreparationIntent \<Rightarrow> durable \<Rightarrow> go_error option list \<Rightarrow> TaskPreparationIntent result \<times> durable" where
  "RecordTaskPreparationIntent u intent db faults =
     (case Intent_Validate intent of
        Some e \<Rightarrow> (Inl e, db)
      | None \<Rightarrow> transaction ''begin task preparation intent''
          (replay_first (intent_OperationID intent) ''PrepareTask'' (intent_SubjectDigest intent)
             (replayed_intent u) (record_new_intent intent)) db faults)"

section \<open>CommitPreparedTask\<close>

record PreparedTaskMutation =
  pm_Task :: Task
  pm_Preparation :: ManagedRunPreparation
  pm_OperationID :: string
  pm_SubjectDigest :: string
  pm_At :: time

definition consumeTaskPreparationIntent :: "PreparedTaskMutation \<Rightarrow> unit store_tx" where
  "consumeTaskPreparationIntent mutation =
     andThen (attempt (readTaskPreparationIntent (pm_OperationID mutation))) (\<lambda>r.
     case r of
       Inl e \<Rightarrow> if errors_Is e ErrNotFound then give () else refuse e
     | Inr intent \<Rightarrow>
         if intent_TaskHandle intent \<noteq> task_Handle (pm_Task mutation) \<or>
            intent_SubjectDigest intent \<noteq> pm_SubjectDigest mutation \<or> intent_CreatedAt intent \<noteq> pm_At mutation
         then refuse (WrapError ''consume task preparation intent'' ErrConflict)
         else andThen (within ''consume task preparation intent'' (statement (\<lambda>db. Inr
             (length (filter (\<lambda>i. intent_OperationID i = intent_OperationID intent) (db_intents db)),
              db\<lparr>db_intents := filter (\<lambda>i. intent_OperationID i \<noteq> intent_OperationID intent) (db_intents db)\<rparr>)))) (\<lambda>removed.
           if removed \<noteq> 1 then refuse (PlainError ''consume task preparation intent: durable intent changed'')
           else give ()))"

definition insertManagedRunPreparation :: "string \<Rightarrow> ManagedRunPreparation \<Rightarrow> time \<Rightarrow> unit store_tx" where
  "insertManagedRunPreparation handle preparation createdAt = insert_unless
     (\<lambda>db. \<exists>p\<in>set (db_preparations db). prow_task_handle p = handle \<or>
             prep_ExternalRunRef (prow_preparation p) = prep_ExternalRunRef preparation)
     (\<lambda>db. db\<lparr>db_preparations := db_preparations db @
        [\<lparr>prow_task_handle = handle, prow_preparation = preparation\<lparr>prep_ClosedAt := None\<rparr>, prow_created_at = createdAt\<rparr>]\<rparr>)"

definition commit_new_prepared :: "print_table \<Rightarrow> PreparedTaskMutation \<Rightarrow> MutationResult store_tx" where
  "commit_new_prepared u mutation =
     andThen (consumeTaskPreparationIntent mutation) (\<lambda>_.
     andThen nextMutationStateVersion (\<lambda>stateVersion.
     let task = (pm_Task mutation)\<lparr>task_StateVersion := stateVersion\<rparr>;
         operation = completedMutationOperation (pm_OperationID mutation) ''PrepareTask'' (pm_SubjectDigest mutation)
                       (task_Handle task) stateVersion (pm_At mutation)
     in andThen (require (map_option (WrapError ''validate versioned prepared task'') (Task_Validate u task))) (\<lambda>_.
        andThen (within ''insert prepared task'' (insertTask u task)) (\<lambda>_.
        andThen (within ''insert managed-run preparation''
          (insertManagedRunPreparation (task_Handle task) (pm_Preparation mutation) (pm_At mutation))) (\<lambda>_.
        andThen (insert_operation_labelled ''prepare'' operation) (\<lambda>_.
        andThen (within ''commit prepared task mutation'' commit) (\<lambda>_.
        give \<lparr>res_Task = task, res_Operation = operation, res_Preparation = Some (pm_Preparation mutation)\<rparr>)))))))"

definition CommitPreparedTask ::
  "print_table \<Rightarrow> PreparedTaskMutation \<Rightarrow> durable \<Rightarrow> go_error option list \<Rightarrow> MutationResult result \<times> durable" where
  "CommitPreparedTask u mutation db faults =
     (if Task_Validate u (pm_Task mutation) \<noteq> None \<or> task_State (pm_Task mutation) \<noteq> TaskPrepared
      then (Inl (PlainError ''commit prepared task: invalid prepared record''), db)
      else if Preparation_Validate (pm_Preparation mutation) (pm_At mutation) \<noteq> None \<or>
              prep_ExternalRunRef (pm_Preparation mutation) \<noteq> task_Handle (pm_Task mutation)
      then (Inl (PlainError ''commit prepared task: invalid managed-run preparation''), db)
      else transaction ''begin prepared task mutation''
        (replay_first (pm_OperationID mutation) ''PrepareTask'' (pm_SubjectDigest mutation)
           (mutationResult u) (commit_new_prepared u mutation)) db faults)"

section \<open>CommitManagedRunActivation\<close>

record ManagedRunActivationMutation =
  act_ServiceInstanceID :: string
  act_ExternalRunRef :: string
  act_RegistrationNonce :: string
  act_Binding :: TaskBinding
  act_ExecutionAttachmentID :: string
  act_AttachmentTargetName :: string
  act_OperationID :: string
  act_SubjectDigest :: string
  act_At :: time

text \<open>\<open>task.Method(..)\<close> results: the changed task, or the error in its context.\<close>

definition applied :: "string \<Rightarrow> Task \<times> go_error option \<Rightarrow> Task store_tx" where
  "applied context r = (case snd r of Some e \<Rightarrow> refuse (WrapError context e) | None \<Rightarrow> give (fst r))"

definition write_binding :: "Task \<Rightarrow> durable \<Rightarrow> durable" where
  "write_binding bound db = db\<lparr>db_tasks := map (\<lambda>r. if task_Handle (row_task r) = task_Handle bound
     then r\<lparr>row_task := (row_task r)\<lparr>task_ManagedRunID := task_ManagedRunID bound,
         task_WorkspaceLeaseID := task_WorkspaceLeaseID bound, task_ExecutionAttachmentID := task_ExecutionAttachmentID bound,
         task_AttachmentTargetName := task_AttachmentTargetName bound, task_State := task_State bound,
         task_StateVersion := task_StateVersion bound, task_UpdatedAt := task_UpdatedAt bound\<rparr>\<rparr>
     else r) (db_tasks db)\<rparr>"

definition activation_guard :: "ManagedRunActivationMutation \<Rightarrow> Task \<Rightarrow> ManagedRunPreparation \<Rightarrow> go_error option" where
  "activation_guard mutation task preparation = first_error
     [fail_if (task_ServiceInstanceID task \<noteq> act_ServiceInstanceID mutation \<or>
               prep_ExternalRunRef preparation \<noteq> act_ExternalRunRef mutation \<or>
               prep_RegistrationNonce preparation \<noteq> act_RegistrationNonce mutation \<or>
               prep_State preparation \<noteq> PreparationOpen \<or> \<not> in_utc (act_At mutation) \<or>
               \<not> Before (act_At mutation) (prep_ExpiresAt preparation))
        (WrapError ''managed-run activation join'' ErrPrecondition),
      fail_if ((prep_RequestedWorkspaceRoot preparation \<noteq> []) \<noteq> (bind_WorkspaceLeaseID (act_Binding mutation) \<noteq> []))
        (WrapError ''managed-run activation lease invariant'' ErrInvalidInput),
      fail_if (prep_RequestedWorkspaceRoot preparation = [])
        (WrapError ''managed-run activation requires a DevCrew workspace'' ErrPrecondition),
      fail_if (Attachment_Validate (prep_RequestedAttachment preparation) \<noteq> None \<or>
               validateAuthorityReference ''executionAttachmentId'' (act_ExecutionAttachmentID mutation) \<noteq> None \<or>
               ValidateAttachmentTargetName (act_AttachmentTargetName mutation) \<noteq> None)
        (WrapError ''managed-run activation attachment invariant'' ErrInvalidInput),
      fail_if (task_State task \<noteq> TaskPrepared \<or> task_ManagedRunID task \<noteq> [] \<or> task_WorkspaceLeaseID task \<noteq> [] \<or>
               task_ExecutionAttachmentID task \<noteq> [] \<or> task_AttachmentTargetName task \<noteq> [])
        (WrapError ''managed-run activation task state'' ErrPrecondition)]"

definition commit_new_activation :: "print_table \<Rightarrow> ManagedRunActivationMutation \<Rightarrow> MutationResult store_tx" where
  "commit_new_activation u mutation =
     andThen (getTask u (act_ExternalRunRef mutation)) (\<lambda>task.
     andThen (within ''read managed-run activation preparation'' (getManagedRunPreparation task)) (\<lambda>preparation.
     andThen (require (activation_guard mutation task preparation)) (\<lambda>_.
     andThen (applied ''apply managed-run activation'' (AcknowledgeBinding u task (act_Binding mutation) (act_At mutation))) (\<lambda>acknowledged.
     andThen nextMutationStateVersion (\<lambda>stateVersion.
     let bound = acknowledged\<lparr>task_ExecutionAttachmentID := act_ExecutionAttachmentID mutation,
                              task_AttachmentTargetName := act_AttachmentTargetName mutation,
                              task_StateVersion := stateVersion\<rparr>;
         operation = completedMutationOperation (act_OperationID mutation) ''ActivateManagedRun'' (act_SubjectDigest mutation)
                       (task_Handle bound) stateVersion (act_At mutation)
     in andThen (require (map_option (WrapError ''validate bound task'') (Task_Validate u bound))) (\<lambda>_.
        andThen (within ''update bound task'' (statement (\<lambda>db. Inr (rows_of_task (task_Handle bound) db, write_binding bound db)))) (\<lambda>rows.
        if rows \<noteq> 1 then refuse (PlainError ''update bound task: exact task was not updated'')
        else
        andThen (insert_operation_labelled ''activation'' operation) (\<lambda>_.
        andThen (within ''commit managed-run activation'' commit) (\<lambda>_.
        give \<lparr>res_Task = bound, res_Operation = operation, res_Preparation = None\<rparr>)))))))))"

definition CommitManagedRunActivation ::
  "print_table \<Rightarrow> ManagedRunActivationMutation \<Rightarrow> durable \<Rightarrow> go_error option list \<Rightarrow> MutationResult result \<times> durable" where
  "CommitManagedRunActivation u mutation = transaction ''begin managed-run activation''
     (replay_first (act_OperationID mutation) ''ActivateManagedRun'' (act_SubjectDigest mutation)
        (mutationResult u) (commit_new_activation u mutation))"

section \<open>CommitManagedRunAbandon\<close>

record ManagedRunAbandonMutation =
  aba_ServiceInstanceID :: string
  aba_ExternalRunRef :: string
  aba_RegistrationNonce :: string
  aba_Reason :: AbandonReason
  aba_Disposition :: AbandonDisposition
  aba_OperationID :: string
  aba_SubjectDigest :: string
  aba_At :: time

text \<open>The zero value of the struct: the zero time is in UTC.\<close>

definition zero_preparation :: ManagedRunPreparation where
  "zero_preparation =
     \<lparr>prep_ExternalRunRef = [], prep_RegistrationNonce = [], prep_RequestedWorkspaceRoot = [],
      prep_RequestedAttachment = \<lparr>att_Kind = RuntimeAttachmentKindOther [], att_SourcePath = [], att_RelayIdentity = []\<rparr>,
      prep_ExpiresAt = \<lparr>instant = 0, in_utc = True\<rparr>, prep_State = PreparationStateOther [],
      prep_AbandonReason = AbandonReasonOther [], prep_Disposition = AbandonDispositionOther [], prep_ClosedAt = None\<rparr>"

definition updateManagedRunPreparation :: "Task \<Rightarrow> ManagedRunPreparation \<Rightarrow> unit store_tx" where
  "updateManagedRunPreparation task preparation =
     andThen (require (fail_if (Preparation_Validate preparation (task_CreatedAt task) \<noteq> None \<or>
         prep_ExternalRunRef preparation \<noteq> task_Handle task \<or> prep_ClosedAt preparation = None)
       (PlainError ''update managed-run preparation: invalid closure''))) (\<lambda>_.
     andThen (within ''update managed-run preparation'' (statement (\<lambda>db. Inr
       (length (filter (\<lambda>p. prow_task_handle p = task_Handle task \<and> prep_State (prow_preparation p) = PreparationOpen)
          (db_preparations db)),
        db\<lparr>db_preparations := map (\<lambda>p.
             if prow_task_handle p = task_Handle task \<and> prep_State (prow_preparation p) = PreparationOpen
             then p\<lparr>prow_preparation := (prow_preparation p)\<lparr>prep_State := prep_State preparation,
                 prep_AbandonReason := prep_AbandonReason preparation, prep_Disposition := prep_Disposition preparation,
                 prep_ClosedAt := prep_ClosedAt preparation\<rparr>\<rparr>
             else p) (db_preparations db)\<rparr>)))) (\<lambda>rows.
     if rows \<noteq> 1 then refuse (WrapError ''update managed-run preparation'' ErrPrecondition) else give ()))"

definition abandon_body :: "print_table \<Rightarrow> ManagedRunAbandonMutation \<Rightarrow> (Task \<times> ManagedRunPreparation) store_tx" where
  "abandon_body u mutation =
     andThen (getTask u (aba_ExternalRunRef mutation)) (\<lambda>task.
     andThen (within ''read managed-run abandon preparation'' (getManagedRunPreparation task)) (\<lambda>preparation.
     andThen (require (first_error
       [fail_if (task_ServiceInstanceID task \<noteq> aba_ServiceInstanceID mutation \<or>
                 prep_ExternalRunRef preparation \<noteq> aba_ExternalRunRef mutation \<or>
                 prep_RegistrationNonce preparation \<noteq> aba_RegistrationNonce mutation \<or>
                 prep_State preparation \<noteq> PreparationOpen \<or> \<not> in_utc (aba_At mutation))
          (WrapError ''managed-run abandon join'' ErrPrecondition),
        fail_if (aba_Disposition mutation \<noteq> AbandonDispositionReapSafe \<and> aba_Disposition mutation \<noteq> AbandonDispositionPreserve)
          (WrapError ''managed-run abandon disposition'' ErrInvalidInput)])) (\<lambda>_.
     andThen (applied ''apply managed-run abandon'' (ApplyTransition u task
       (if aba_Disposition mutation = AbandonDispositionReapSafe then TransitionPreparationAbandoned
        else TransitionPreparationPreserved) (aba_At mutation))) (\<lambda>updated.
     let closed = preparation\<lparr>prep_State := PreparationAbandoned, prep_AbandonReason := aba_Reason mutation,
                              prep_Disposition := aba_Disposition mutation, prep_ClosedAt := Some (aba_At mutation)\<rparr>
     in andThen (updateManagedRunPreparation updated closed) (\<lambda>_. give (updated, closed))))))"

text \<open>
  The returned preparation is the function's local variable \<open>closed\<close>, which only the body assigns.
\<close>

definition CommitManagedRunAbandon ::
  "print_table \<Rightarrow> ManagedRunAbandonMutation \<Rightarrow> durable \<Rightarrow> go_error option list \<Rightarrow> MutationResult result \<times> durable" where
  "CommitManagedRunAbandon u mutation db faults = map_prod (map_sum id
       (\<lambda>(result, closed). result\<lparr>res_Preparation := Some closed\<rparr>)) id
     (commitTaskMutation u
       \<lparr>spec_Command = ''AbandonManagedRun'', spec_OperationID = aba_OperationID mutation,
        spec_SubjectDigest = aba_SubjectDigest mutation, spec_At = aba_At mutation,
        spec_Label = ''managed-run abandon'', spec_Record = no_record\<rparr>
       zero_preparation (abandon_body u mutation) db faults)"

section \<open>Commands on a task by its handle\<close>

record TaskCommandMutation =
  tm_TaskHandle :: string
  tm_OperationID :: string
  tm_SubjectDigest :: string
  tm_At :: time

definition task_spec :: "string \<Rightarrow> string \<Rightarrow> TaskCommandMutation \<Rightarrow> ('x \<Rightarrow> Task \<Rightarrow> unit store_tx) \<Rightarrow> 'x taskMutationSpec" where
  "task_spec command label mutation recorder =
     \<lparr>spec_Command = command, spec_OperationID = tm_OperationID mutation, spec_SubjectDigest = tm_SubjectDigest mutation,
      spec_At = tm_At mutation, spec_Label = label, spec_Record = recorder\<rparr>"

fun taskHoldsAWorker :: "TaskState \<Rightarrow> bool" where
  "taskHoldsAWorker TaskLaunching = True"
| "taskHoldsAWorker TaskWorking = True"
| "taskHoldsAWorker TaskAwaitingDecision = True"
| "taskHoldsAWorker TaskBlocked = True"
| "taskHoldsAWorker _ = False"

definition set_pause :: "string \<Rightarrow> string \<Rightarrow> time option \<Rightarrow> durable \<Rightarrow> durable" where
  "set_pause handle operationID at db = db\<lparr>db_tasks := map (\<lambda>r. if task_Handle (row_task r) = handle
     then r\<lparr>row_pause_requested_operation_id := operationID, row_pause_requested_at := at\<rparr> else r) (db_tasks db)\<rparr>"

definition clearPauseRequest :: "string \<Rightarrow> unit store_tx" where
  "clearPauseRequest handle = within ''clear task pause request'' (execute (set_pause handle [] None))"

definition PauseRequest :: "string \<Rightarrow> durable \<Rightarrow> go_error option list \<Rightarrow> bool result \<times> durable" where
  "PauseRequest handle = outside_transaction (within ''read task pause request''
     (andThen (select (find_task_row handle)) (\<lambda>found.
      case found of None \<Rightarrow> refuse (PlainError ''sql: no rows in result set'')
                  | Some row \<Rightarrow> give (row_pause_requested_operation_id row \<noteq> []))))"

definition pause_body :: "print_table \<Rightarrow> TaskCommandMutation \<Rightarrow> (Task \<times> unit) store_tx" where
  "pause_body u mutation =
     andThen (getTask u (tm_TaskHandle mutation)) (\<lambda>task.
     if \<not> taskHoldsAWorker (task_State task) then refuse (WrapError ''task pause request state'' ErrPrecondition)
     else andThen (within ''record task pause request'' (execute
            (set_pause (task_Handle task) (tm_OperationID mutation) (Some (tm_At mutation))))) (\<lambda>_.
          give (task, ())))"

definition CommitTaskPauseRequest ::
  "print_table \<Rightarrow> TaskCommandMutation \<Rightarrow> durable \<Rightarrow> go_error option list \<Rightarrow> MutationResult result \<times> durable" where
  "CommitTaskPauseRequest u mutation db faults = plain_outcome
     (commitTaskMutation u (task_spec ''PauseTask'' ''task pause request'' mutation no_record) () (pause_body u mutation) db faults)"

section \<open>Nothing is still running\<close>

definition findTerminalBinding :: "string \<Rightarrow> storedTerminalBinding option store_tx" where
  "findTerminalBinding handle = within ''read terminal binding''
     (select (\<lambda>db. find (\<lambda>b. tb_taskHandle b = handle) (db_terminal_bindings db)))"

definition terminal_settled :: "TerminalTransition \<Rightarrow> bool" where
  "terminal_settled transition \<longleftrightarrow> transition = TerminalExited \<or> transition = TerminalReleased"

definition binding_proof :: "string \<Rightarrow> bool \<Rightarrow> Task \<Rightarrow> storedTerminalBinding option \<Rightarrow> go_error option" where
  "binding_proof label requireBinding task found =
     (case found of
        None \<Rightarrow> fail_if requireBinding (WrapError (label @ '' terminal is unsettled'') ErrPrecondition)
      | Some binding \<Rightarrow> first_error
          [fail_if (tb_managedRunID binding \<noteq> task_ManagedRunID task \<or> tb_workspaceLeaseID binding \<noteq> task_WorkspaceLeaseID task)
             (WrapError (label @ '' terminal authority differs'') ErrPrecondition),
           fail_if (\<not> terminal_settled (tb_latestTransition binding))
             (WrapError (label @ '' terminal is unsettled'') ErrPrecondition)])"

definition active_processes :: "string \<Rightarrow> durable \<Rightarrow> nat" where
  "active_processes handle db = length (filter (\<lambda>p. vp_task_handle p = handle \<and>
     vp_state p \<noteq> ''exited'' \<and> vp_state p \<noteq> ''absent'') (db_validation_processes db))"

definition proveNothingIsStillRunning :: "Task \<Rightarrow> string \<Rightarrow> bool \<Rightarrow> unit store_tx" where
  "proveNothingIsStillRunning task label requireBinding =
     andThen (findTerminalBinding (task_Handle task)) (\<lambda>found.
     andThen (require (binding_proof label requireBinding task found)) (\<lambda>_.
     andThen (within (''inspect '' @ label @ '' validation processes'') (select (active_processes (task_Handle task)))) (\<lambda>active.
     if active \<noteq> 0 then refuse (WrapError (label @ '' validation process remains'') ErrPrecondition) else give ())))"

section \<open>Cancellation\<close>

text \<open>\<open>task.Method(..)\<close> where the code returns the error as it is.\<close>

definition applied_bare :: "Task \<times> go_error option \<Rightarrow> Task store_tx" where
  "applied_bare r = (case snd r of Some e \<Rightarrow> refuse e | None \<Rightarrow> give (fst r))"

definition cancelTaskState :: "print_table \<Rightarrow> Task \<Rightarrow> time \<Rightarrow> Task store_tx" where
  "cancelTaskState u task at =
     (if task_State task \<noteq> TaskUnknown then applied_bare (ApplyTransition u task TransitionCancelRequested at)
      else andThen (proveNothingIsStillRunning task ''task cancel'' True) (\<lambda>_.
           andThen (applied_bare (ApplyTransition u task TransitionReconcileRequired at)) (\<lambda>reconciling.
           applied_bare (ApplyTransition u reconciling TransitionReconciledCancelled at))))"

definition cancel_body :: "print_table \<Rightarrow> TaskCommandMutation \<Rightarrow> (Task \<times> unit) store_tx" where
  "cancel_body u mutation =
     andThen (getTask u (tm_TaskHandle mutation)) (\<lambda>task.
     andThen (refuseAnyReservedIntegrationTaskMutation (task_Handle task)) (\<lambda>_.
     if task_State task = TaskCancelled then give (task, ())
     else andThen (within ''apply task cancel'' (cancelTaskState u task (tm_At mutation))) (\<lambda>updated.
          andThen (clearPauseRequest (task_Handle task)) (\<lambda>_. give (updated, ())))))"

definition CommitTaskCancel ::
  "print_table \<Rightarrow> TaskCommandMutation \<Rightarrow> durable \<Rightarrow> go_error option list \<Rightarrow> MutationResult result \<times> durable" where
  "CommitTaskCancel u mutation db faults = plain_outcome
     (commitTaskMutation u (task_spec ''CancelTask'' ''task cancel'' mutation no_record) () (cancel_body u mutation) db faults)"

datatype CancelReason = CancelReasonOwnerCancelled | CancelReasonAuthorityRevoked | CancelReasonBudgetExhausted
  | CancelReasonOther string

record ManagedRunCancelMutation =
  mrc_ServiceInstanceID :: string
  mrc_ManagedRunID :: string
  mrc_Reason :: CancelReason
  mrc_OperationID :: string
  mrc_SubjectDigest :: string
  mrc_At :: time

definition scan_tasks_of :: "print_table \<Rightarrow> string \<Rightarrow> string \<Rightarrow> (TaskRow \<Rightarrow> bool) \<Rightarrow> Task store_tx" where
  "scan_tasks_of u label absent matches =
     andThen (within label (andThen (select (\<lambda>db. filter matches (db_tasks db)))
       (each (\<lambda>row. yield (scanTask u row))))) (\<lambda>found.
     case found of [task] \<Rightarrow> give task | _ \<Rightarrow> refuse (WrapError absent ErrPrecondition))"

definition getTaskByManagedRun :: "print_table \<Rightarrow> string \<Rightarrow> Task store_tx" where
  "getTaskByManagedRun u managedRunID = scan_tasks_of u ''get task by managed run'' ''get task by managed run''
     (\<lambda>r. task_ManagedRunID (row_task r) = managedRunID)"

definition managed_run_cancel_body :: "print_table \<Rightarrow> ManagedRunCancelMutation \<Rightarrow> (Task \<times> unit) store_tx" where
  "managed_run_cancel_body u mutation =
     andThen (getTaskByManagedRun u (mrc_ManagedRunID mutation)) (\<lambda>task.
     if task_ServiceInstanceID task \<noteq> mrc_ServiceInstanceID mutation \<or> \<not> in_utc (mrc_At mutation)
     then refuse (WrapError ''managed-run cancel join'' ErrPrecondition)
     else
     andThen (refuseAnyReservedIntegrationTaskMutation (task_Handle task)) (\<lambda>_.
     if task_State task = TaskCancelled then give (task, ())
     else andThen (applied ''apply managed-run cancel'' (ApplyTransition u task TransitionCancelRequested (mrc_At mutation)))
          (\<lambda>updated. give (updated, ()))))"

definition CommitManagedRunCancel ::
  "print_table \<Rightarrow> ManagedRunCancelMutation \<Rightarrow> durable \<Rightarrow> go_error option list \<Rightarrow> MutationResult result \<times> durable" where
  "CommitManagedRunCancel u mutation db faults = plain_outcome
     (commitTaskMutation u
       \<lparr>spec_Command = ''CancelManagedRun'', spec_OperationID = mrc_OperationID mutation,
        spec_SubjectDigest = mrc_SubjectDigest mutation, spec_At = mrc_At mutation,
        spec_Label = ''managed-run cancel'', spec_Record = no_record\<rparr>
       () (managed_run_cancel_body u mutation) db faults)"

section \<open>Resumption\<close>

record TaskResumeMutation = TaskCommandMutation +
  rm_ObservedHeadRevision :: string

definition resume_record :: "TaskResumeMutation \<Rightarrow> unit \<Rightarrow> Task \<Rightarrow> unit store_tx" where
  "resume_record mutation captured persisted =
     within ''insert task resume launch'' (insert_unless
       (\<lambda>db. \<exists>r\<in>set (db_resume_launches db). rl_operation_id r = tm_OperationID mutation)
       (\<lambda>db. db\<lparr>db_resume_launches := db_resume_launches db @
          [\<lparr>rl_operation_id = tm_OperationID mutation, rl_task_handle = task_Handle persisted,
            rl_head_revision = rm_ObservedHeadRevision mutation, rl_observed_at = tm_At mutation,
            rl_state_version = task_StateVersion persisted\<rparr>]\<rparr>))"

definition resume_body :: "print_table \<Rightarrow> TaskResumeMutation \<Rightarrow> (Task \<times> unit) store_tx" where
  "resume_body u mutation =
     andThen (getTask u (tm_TaskHandle mutation)) (\<lambda>task.
     andThen (require (first_error
       [fail_if (Before (tm_At mutation) (task_UpdatedAt task)) (WrapError ''task resume time'' ErrPrecondition),
        fail_if (task_State task \<noteq> TaskPaused) (WrapError ''task resume state'' ErrPrecondition),
        fail_if (rm_ObservedHeadRevision mutation = [] \<or> validateRevision (rm_ObservedHeadRevision mutation) \<noteq> None)
          (WrapError ''task resume head'' ErrPrecondition)])) (\<lambda>_.
     andThen (proveNothingIsStillRunning task ''task resume'' True) (\<lambda>_.
     andThen (applied ''apply task resume'' (ApplyTransition u task TransitionResumed (tm_At mutation))) (\<lambda>updated.
     give (updated, ())))))"

definition CommitTaskResume ::
  "print_table \<Rightarrow> TaskResumeMutation \<Rightarrow> durable \<Rightarrow> go_error option list \<Rightarrow> MutationResult result \<times> durable" where
  "CommitTaskResume u mutation db faults = plain_outcome
     (commitTaskMutation u (task_spec ''ResumeTask'' ''task resume'' (TaskCommandMutation.truncate mutation)
        (resume_record mutation)) () (resume_body u mutation) db faults)"

section \<open>Steering\<close>

record TaskSteerMutation = TaskCommandMutation +
  sm_Instruction :: string

definition steer_record :: "TaskSteerMutation \<Rightarrow> unit \<Rightarrow> Task \<Rightarrow> unit store_tx" where
  "steer_record mutation captured persisted =
     within ''queue task steering instruction'' (insert_unless
       (\<lambda>db. \<exists>r\<in>set (db_steering db). st_operation_id r = tm_OperationID mutation)
       (\<lambda>db. db\<lparr>db_steering := db_steering db @
          [\<lparr>st_operation_id = tm_OperationID mutation, st_task_handle = task_Handle persisted,
            st_instruction = sm_Instruction mutation, st_queued_at = tm_At mutation, st_delivered_at = None,
            st_state_version = task_StateVersion persisted\<rparr>]\<rparr>))"

definition steer_body :: "print_table \<Rightarrow> TaskSteerMutation \<Rightarrow> (Task \<times> unit) store_tx" where
  "steer_body u mutation =
     andThen (getTask u (tm_TaskHandle mutation)) (\<lambda>task.
     if \<not> taskHoldsAWorker (task_State task) then refuse (WrapError ''task steer state'' ErrPrecondition)
     else give (task, ()))"

definition CommitTaskSteer ::
  "print_table \<Rightarrow> TaskSteerMutation \<Rightarrow> durable \<Rightarrow> go_error option list \<Rightarrow> MutationResult result \<times> durable" where
  "CommitTaskSteer u mutation db faults =
     (if ValidateSteeringInstruction (sm_Instruction mutation) \<noteq> None
      then (Inl (WrapError ''task steer instruction'' ErrPrecondition), db)
      else plain_outcome
        (commitTaskMutation u (task_spec ''SteerTask'' ''task steer'' (TaskCommandMutation.truncate mutation)
           (steer_record mutation)) () (steer_body u mutation) db faults))"

text \<open>The oldest instruction the worker has not seen, marked delivered in the same transaction.\<close>

definition consumeSteeringInstruction :: "string \<Rightarrow> time \<Rightarrow> string store_tx" where
  "consumeSteeringInstruction handle deliveredAt =
     andThen (within ''read task steering instruction'' (select (\<lambda>db. take 1
       (sort_key (\<lambda>r. (sint (st_state_version r), st_operation_id r))
         (filter (\<lambda>r. st_task_handle r = handle \<and> st_delivered_at r = None) (db_steering db)))))) (\<lambda>oldest.
     case oldest of
       [] \<Rightarrow> give []
     | row # _ \<Rightarrow>
         andThen (within ''mark task steering instruction delivered'' (execute (\<lambda>db. db\<lparr>db_steering :=
           map (\<lambda>r. if st_operation_id r = st_operation_id row then r\<lparr>st_delivered_at := Some deliveredAt\<rparr> else r)
             (db_steering db)\<rparr>))) (\<lambda>_.
         give (st_instruction row)))"

definition PendingSteeringInstructions :: "string \<Rightarrow> durable \<Rightarrow> go_error option list \<Rightarrow> nat result \<times> durable" where
  "PendingSteeringInstructions handle = outside_transaction (within ''count task steering instructions''
     (select (\<lambda>db. length (filter (\<lambda>r. st_task_handle r = handle \<and> st_delivered_at r = None) (db_steering db)))))"

section \<open>Verification\<close>

definition validation_predecessor :: "print_table \<Rightarrow> InitiativeEdge \<Rightarrow> unit store_tx" where
  "validation_predecessor u edge =
     andThen (within ''read initiative validation predecessor'' (getTask u (edge_From edge))) (\<lambda>predecessor.
     if \<not> SatisfiesInitiativeDependency (task_State predecessor)
     then refuse (WrapError ''initiative validation dependency is incomplete'' ErrPrecondition) else give ())"

definition requireInitiativeValidationDependencies :: "print_table \<Rightarrow> string \<Rightarrow> unit store_tx" where
  "requireInitiativeValidationDependencies u handle =
     andThen (within ''read initiative validation dependencies'' (initiativeForTask handle)) (\<lambda>found.
     case found of
       None \<Rightarrow> give ()
     | Some containing \<Rightarrow>
         andThen (each (validation_predecessor u)
           (filter (\<lambda>e. edge_Kind e = EdgeBlocksValidation \<and> edge_To e = handle) (ini_Edges containing))) (\<lambda>_. give ()))"

definition verify_body :: "print_table \<Rightarrow> TaskCommandMutation \<Rightarrow> (Task \<times> unit) store_tx" where
  "verify_body u mutation =
     andThen (getTask u (tm_TaskHandle mutation)) (\<lambda>task.
     if Before (tm_At mutation) (task_UpdatedAt task) then refuse (WrapError ''task verify time'' ErrPrecondition)
     else if task_State task = TaskValidating then give (task, ())
     else andThen (requireInitiativeValidationDependencies u (task_Handle task)) (\<lambda>_.
          andThen (applied ''apply task verify'' (ApplyTransition u task TransitionValidationStarted (tm_At mutation))) (\<lambda>updated.
          give (updated, ()))))"

definition CommitTaskVerify ::
  "print_table \<Rightarrow> TaskCommandMutation \<Rightarrow> durable \<Rightarrow> go_error option list \<Rightarrow> MutationResult result \<times> durable" where
  "CommitTaskVerify u mutation db faults = plain_outcome
     (commitTaskMutation u (task_spec ''VerifyTask'' ''task verify'' mutation no_record) () (verify_body u mutation) db faults)"

section \<open>Worker replacement\<close>

record TaskReplaceMutation = TaskCommandMutation +
  rpm_WorkerProfileID :: string
  rpm_Snapshot :: WorkspaceSnapshot

definition validateTaskReplaceMutation :: "TaskReplaceMutation \<Rightarrow> go_error option" where
  "validateTaskReplaceMutation mutation =
     fail_if (ValidateOperationID (tm_OperationID mutation) \<noteq> None \<or> length (tm_SubjectDigest mutation) \<noteq> 64 \<or>
              ValidateTaskHandle (tm_TaskHandle mutation) \<noteq> None \<or>
              validateAuthorityReference ''workerProfileId'' (rpm_WorkerProfileID mutation) \<noteq> None \<or>
              WorkspaceSnapshot_Validate (rpm_Snapshot mutation) \<noteq> None \<or> IsZero (tm_At mutation))
       (PlainError ''commit worker replacement: invalid mutation'')"

definition proveReplacementSafety :: "Task \<Rightarrow> TaskReplaceMutation \<Rightarrow> unit store_tx" where
  "proveReplacementSafety task mutation =
     (if task_State task \<noteq> TaskPaused \<or> Before (tm_At mutation) (task_UpdatedAt task)
      then refuse (WrapError ''worker replacement state'' ErrPrecondition)
      else
      andThen (within ''read worker replacement workspace'' (getManagedRunPreparation task)) (\<lambda>preparation.
      if ws_TaskHandle (rpm_Snapshot mutation) \<noteq> task_Handle task \<or>
         ws_RepositoryID (rpm_Snapshot mutation) \<noteq> task_RepositoryID task \<or>
         ws_WorktreePath (rpm_Snapshot mutation) \<noteq> prep_RequestedWorkspaceRoot preparation
      then refuse (WrapError ''worker replacement authority differs'' ErrPrecondition)
      else proveNothingIsStillRunning task ''worker replacement'' True))"

definition write_brief_and_worker :: "Task \<Rightarrow> durable \<Rightarrow> durable" where
  "write_brief_and_worker task db = db\<lparr>db_tasks := map (\<lambda>r. if task_Handle (row_task r) = task_Handle task
     then r\<lparr>row_task := (row_task r)\<lparr>task_WorkerProfileID := task_WorkerProfileID task,
         task_BriefRevision := task_BriefRevision task, task_BriefRevisionHash := task_BriefRevisionHash task\<rparr>\<rparr>
     else r) (db_tasks db)\<rparr>"

definition updateTaskBriefAndWorker :: "print_table \<Rightarrow> Task \<Rightarrow> unit store_tx" where
  "updateTaskBriefAndWorker u task =
     andThen (within ''update task brief and worker''
       (statement (\<lambda>db. Inr (rows_of_task (task_Handle task) db, write_brief_and_worker task db)))) (\<lambda>rows.
     if rows \<noteq> 1 then refuse (PlainError ''update task brief and worker: exact task was not updated'')
     else refreshInitiativeLaunchFactsForTask u (task_Handle task))"

definition recordTaskReplacement :: "TaskReplaceMutation \<Rightarrow> string \<Rightarrow> int64 \<Rightarrow> int64 \<Rightarrow> unit store_tx" where
  "recordTaskReplacement mutation previousWorkerProfileID briefRevision stateVersion =
     within ''insert worker replacement'' (insert_unless
       (\<lambda>db. \<exists>r\<in>set (db_replacements db). rp_operation_id r = tm_OperationID mutation)
       (\<lambda>db. db\<lparr>db_replacements := db_replacements db @
          [\<lparr>rp_operation_id = tm_OperationID mutation, rp_task_handle = tm_TaskHandle mutation,
            rp_previous_worker_profile_id = previousWorkerProfileID, rp_worker_profile_id = rpm_WorkerProfileID mutation,
            rp_snapshot = rpm_Snapshot mutation, rp_brief_revision = briefRevision, rp_observed_at = tm_At mutation,
            rp_state_version = stateVersion\<rparr>]\<rparr>))"

definition replace_record :: "print_table \<Rightarrow> TaskReplaceMutation \<Rightarrow> string \<Rightarrow> Task \<Rightarrow> unit store_tx" where
  "replace_record u mutation previousWorkerProfileID persisted =
     andThen (updateTaskBriefAndWorker u persisted) (\<lambda>_.
     recordTaskReplacement mutation previousWorkerProfileID (task_BriefRevision persisted) (task_StateVersion persisted))"

definition replace_body :: "print_table \<Rightarrow> TaskReplaceMutation \<Rightarrow> (Task \<times> string) store_tx" where
  "replace_body u mutation =
     andThen (getTask u (tm_TaskHandle mutation)) (\<lambda>task.
     andThen (proveReplacementSafety task mutation) (\<lambda>_.
     andThen (applied ''reconcile task for replacement'' (ApplyTransition u task TransitionReconcileRequired (tm_At mutation))) (\<lambda>reconciling.
     andThen (applied ''ready task for replacement'' (ApplyTransition u reconciling TransitionReconciledReady (tm_At mutation))) (\<lambda>ready.
     andThen (within ''pin replacement brief'' (yield (PinBriefRevision u
       (ready\<lparr>task_WorkerProfileID := rpm_WorkerProfileID mutation, task_BriefRevision := task_BriefRevision task + 1\<rparr>)))) (\<lambda>pinned.
     give (pinned, task_WorkerProfileID task))))))"

definition CommitTaskReplace ::
  "print_table \<Rightarrow> TaskReplaceMutation \<Rightarrow> durable \<Rightarrow> go_error option list \<Rightarrow> MutationResult result \<times> durable" where
  "CommitTaskReplace u mutation db faults =
     (case validateTaskReplaceMutation mutation of
        Some e \<Rightarrow> (Inl e, db)
      | None \<Rightarrow> plain_outcome
          (commitTaskMutation u (task_spec ''ReplaceWorker'' ''worker replacement'' (TaskCommandMutation.truncate mutation)
             (replace_record u mutation)) [] (replace_body u mutation) db faults))"

end
