(* ===== verification/Store_Terminal.thy ===== *)
theory Store_Terminal
  imports Store_Commands
begin

text \<open>
  The terminal's lifecycle (\<open>store/sqlite/terminal_lifecycle.go\<close>): one authenticated host event at a time is
  joined to the task it binds, and the launch becomes work only when the terminal is known to run and the
  wrapper of the same launch generation has acknowledged its mount (\<open>LaunchAcknowledgement\<close> of
  \<open>application/worker_harness.go\<close>).
\<close>

section \<open>Records\<close>

record TerminalEventMutation =
  tem_OperationID :: string
  tem_SubjectDigest :: string
  tem_ManagedRunID :: string
  tem_WorkspaceLeaseID :: string
  tem_TerminalSessionID :: string
  tem_Transition :: TerminalTransition
  tem_At :: time

record LaunchAcknowledgement =
  ack_TaskHandle :: string
  ack_ManagedRunID :: string
  ack_WorkspaceLeaseID :: string
  ack_WorkingDirectory :: string
  ack_BriefRevision :: int64
  ack_BriefRevisionHash :: string

record WorkerLaunchAcknowledgementMutation =
  wam_OperationID :: string
  wam_SubjectDigest :: string
  wam_Acknowledgement :: LaunchAcknowledgement
  wam_At :: time

definition LaunchAcknowledgement_Validate :: "LaunchAcknowledgement \<Rightarrow> go_error option" where
  "LaunchAcknowledgement_Validate a = first_error
     [fail_if (ValidateTaskHandle (ack_TaskHandle a) \<noteq> None) (PlainError ''launch acknowledgement task is invalid''),
      fail_if (validateAuthorityReference ''managedRunId'' (ack_ManagedRunID a) \<noteq> None)
        (PlainError ''launch acknowledgement managed run is invalid''),
      fail_if (validateAuthorityReference ''workspaceLeaseId'' (ack_WorkspaceLeaseID a) \<noteq> None)
        (PlainError ''launch acknowledgement workspace lease is invalid''),
      fail_if (\<not> IsAbs (ack_WorkingDirectory a) \<or> Clean (ack_WorkingDirectory a) \<noteq> ack_WorkingDirectory a)
        (PlainError ''launch acknowledgement working directory is invalid''),
      fail_if (sint (ack_BriefRevision a) < 1 \<or> validateSHA256 ''briefRevisionHash'' (ack_BriefRevisionHash a) \<noteq> None)
        (PlainError ''launch acknowledgement brief pin is invalid'')]"

definition validateTerminalEventMutation :: "TerminalEventMutation \<Rightarrow> go_error option" where
  "validateTerminalEventMutation m =
     fail_if (ValidateOperationID (tem_OperationID m) \<noteq> None \<or>
              validateAuthorityReference ''managedRunId'' (tem_ManagedRunID m) \<noteq> None \<or>
              validateAuthorityReference ''workspaceLeaseId'' (tem_WorkspaceLeaseID m) \<noteq> None \<or>
              validateAuthorityReference ''terminalSessionId'' (tem_TerminalSessionID m) \<noteq> None \<or>
              \<not> TerminalTransition_Valid (tem_Transition m) \<or> IsZero (tem_At m) \<or> \<not> in_utc (tem_At m))
       (PlainError ''commit terminal event: invalid mutation'')"

definition validateWorkerLaunchAcknowledgementMutation :: "WorkerLaunchAcknowledgementMutation \<Rightarrow> go_error option" where
  "validateWorkerLaunchAcknowledgementMutation m =
     fail_if (ValidateOperationID (wam_OperationID m) \<noteq> None \<or>
              LaunchAcknowledgement_Validate (wam_Acknowledgement m) \<noteq> None \<or> IsZero (wam_At m) \<or> \<not> in_utc (wam_At m))
       (PlainError ''commit worker launch acknowledgement: invalid mutation'')"

section \<open>Reads\<close>

definition getTaskByBinding :: "print_table \<Rightarrow> string \<Rightarrow> string \<Rightarrow> Task store_tx" where
  "getTaskByBinding u managedRunID workspaceLeaseID =
     scan_tasks_of u ''get task by terminal binding'' ''get task by terminal binding is absent or ambiguous''
       (\<lambda>r. task_ManagedRunID (row_task r) = managedRunID \<and> task_WorkspaceLeaseID (row_task r) = workspaceLeaseID)"

fun terminalLossChangesTask :: "TaskState \<Rightarrow> bool" where
  "terminalLossChangesTask TaskLaunching = True"
| "terminalLossChangesTask TaskWorking = True"
| "terminalLossChangesTask TaskAwaitingDecision = True"
| "terminalLossChangesTask TaskBlocked = True"
| "terminalLossChangesTask _ = False"

definition terminalUnavailable :: "TerminalTransition \<Rightarrow> bool" where
  "terminalUnavailable transition \<longleftrightarrow>
     transition = TerminalExited \<or> transition = TerminalLost \<or> transition = TerminalReleased"

text \<open>The last recorded transition of the session other than a loss, when it settled the terminal.\<close>

definition last_known_event :: "string \<Rightarrow> string \<Rightarrow> durable \<Rightarrow> TerminalEventRow option" where
  "last_known_event handle session db = find (\<lambda>e. te_task_handle e = handle \<and> te_terminal_session_id e = session \<and>
     te_transition e \<noteq> TerminalLost) (rev (db_terminal_events db))"

definition lastSettledTerminalPosture :: "string \<Rightarrow> string \<Rightarrow> (TerminalTransition \<times> time) option store_tx" where
  "lastSettledTerminalPosture handle session =
     andThen (within ''read terminal posture before loss'' (select (last_known_event handle session))) (\<lambda>found.
     give (case found of
             None \<Rightarrow> None
           | Some e \<Rightarrow> if terminal_settled (te_transition e) then Some (te_transition e, te_observed_at e) else None))"

text \<open>The version of the latest completed launch of the task.\<close>

definition launch_operations :: "string \<Rightarrow> durable \<Rightarrow> OperationRecord list" where
  "launch_operations handle db = filter (\<lambda>o'. op_Command o' = ''StartTask'' \<and> op_Status o' = OperationCompleted \<and>
     op_ResultRef o' = handle) (db_operations db)"

definition currentTaskLaunchStateVersion :: "string \<Rightarrow> int64 store_tx" where
  "currentTaskLaunchStateVersion handle =
     andThen (within ''inspect task launch generation'' (andThen (select (launch_operations handle)) (\<lambda>launches.
       if launches = [] then refuse (PlainError ''sql: no rows in result set'')
       else give (max_version (map op_StateVersion launches))))) (\<lambda>stateVersion.
     if sint stateVersion < 1 then refuse (WrapError ''inspect task launch generation'' ErrPrecondition)
     else give stateVersion)"

definition hasLaunchAcknowledgement :: "string \<Rightarrow> bool store_tx" where
  "hasLaunchAcknowledgement handle =
     andThen (currentTaskLaunchStateVersion handle) (\<lambda>launchStateVersion.
     within ''inspect launch acknowledgement'' (select (\<lambda>db.
       length (filter (\<lambda>a. la_task_handle a = handle \<and> la_launch_state_version a = launchStateVersion)
         (db_launch_acks db)) = 1)))"

section \<open>Writes\<close>

definition terminalConstraintFailure :: "string \<Rightarrow> unit store_tx \<Rightarrow> unit store_tx" where
  "terminalConstraintFailure action m =
     andThen (attempt m) (\<lambda>r.
     case r of Inl e \<Rightarrow> refuse (WrapError action (if isConstraintError e then ErrConflict else e)) | Inr _ \<Rightarrow> give ())"

definition update_terminal_bindings ::
  "string \<Rightarrow> (storedTerminalBinding \<Rightarrow> storedTerminalBinding) \<Rightarrow> string \<Rightarrow> string \<Rightarrow> unit store_tx" where
  "update_terminal_bindings label change handle session =
     andThen (within label (statement (\<lambda>db.
       let matches = \<lambda>b. tb_taskHandle b = handle \<and> tb_terminalSessionID b = session;
           changed = map (\<lambda>b. if matches b then change b else b) (db_terminal_bindings db)
       in if \<not> distinct (map tb_terminalSessionID changed) then Inl sqlite_constraint
          else Inr (length (filter matches (db_terminal_bindings db)), db\<lparr>db_terminal_bindings := changed\<rparr>)))) (\<lambda>rows.
     if rows \<noteq> 1 then refuse (WrapError label ErrPrecondition) else give ())"

definition putTerminalBinding :: "storedTerminalBinding \<Rightarrow> bool \<Rightarrow> unit store_tx" where
  "putTerminalBinding binding present =
     (if \<not> present then terminalConstraintFailure ''insert terminal binding'' (insert_unless
        (\<lambda>db. \<exists>b\<in>set (db_terminal_bindings db). tb_taskHandle b = tb_taskHandle binding \<or>
                tb_terminalSessionID b = tb_terminalSessionID binding)
        (\<lambda>db. db\<lparr>db_terminal_bindings := db_terminal_bindings db @ [binding]\<rparr>))
      else update_terminal_bindings ''update terminal binding''
        (\<lambda>b. b\<lparr>tb_latestTransition := tb_latestTransition binding, tb_runningObserved := tb_runningObserved binding,
               tb_updatedAt := tb_updatedAt binding\<rparr>) (tb_taskHandle binding) (tb_terminalSessionID binding))"

definition rotateTerminalBinding :: "storedTerminalBinding \<Rightarrow> string \<Rightarrow> unit store_tx" where
  "rotateTerminalBinding binding previousTerminalSessionID =
     update_terminal_bindings ''rotate terminal binding''
       (\<lambda>b. b\<lparr>tb_terminalSessionID := tb_terminalSessionID binding, tb_latestTransition := tb_latestTransition binding,
              tb_runningObserved := tb_runningObserved binding, tb_updatedAt := tb_updatedAt binding\<rparr>)
       (tb_taskHandle binding) previousTerminalSessionID"

section \<open>CommitTerminalEvent\<close>

text \<open>
  The binding the event speaks for: a new one, the known one, or, for a launching task whose previous
  terminal settled, the known one rotated to a new session.  The flag says it was rotated.
\<close>

definition event_binding :: "TerminalEventMutation \<Rightarrow> Task \<Rightarrow> storedTerminalBinding option \<Rightarrow> (storedTerminalBinding \<times> bool) result" where
  "event_binding m task found =
     (case found of
        None \<Rightarrow> Inr (\<lparr>tb_taskHandle = task_Handle task, tb_managedRunID = tem_ManagedRunID m,
            tb_workspaceLeaseID = tem_WorkspaceLeaseID m, tb_terminalSessionID = tem_TerminalSessionID m,
            tb_latestTransition = TerminalTransitionOther [], tb_runningObserved = False,
            tb_updatedAt = \<lparr>instant = 0, in_utc = True\<rparr>\<rparr>, False)
      | Some binding \<Rightarrow>
          if tb_managedRunID binding \<noteq> tem_ManagedRunID m \<or> tb_workspaceLeaseID binding \<noteq> tem_WorkspaceLeaseID m
          then Inl (WrapError ''terminal event binding differs'' ErrPrecondition)
          else if tb_terminalSessionID binding = tem_TerminalSessionID m then Inr (binding, False)
          else if task_State task \<noteq> TaskLaunching \<or> tem_Transition m \<noteq> TerminalCreated \<or>
                  \<not> terminal_settled (tb_latestTransition binding)
          then Inl (WrapError ''terminal event binding differs'' ErrPrecondition)
          else Inr (binding\<lparr>tb_terminalSessionID := tem_TerminalSessionID m, tb_runningObserved := False\<rparr>, True))"

definition observe :: "TerminalEventMutation \<Rightarrow> (TerminalTransition \<times> time) option \<Rightarrow> storedTerminalBinding \<Rightarrow> storedTerminalBinding" where
  "observe m posture binding =
     (let (transition, at) = (case posture of Some p \<Rightarrow> p | None \<Rightarrow> (tem_Transition m, tem_At m))
      in binding\<lparr>tb_latestTransition := transition, tb_updatedAt := at,
                 tb_runningObserved := tb_runningObserved binding \<or> tem_Transition m = TerminalRunning\<rparr>)"

definition event_transition :: "print_table \<Rightarrow> TerminalEventMutation \<Rightarrow> Task \<Rightarrow> storedTerminalBinding \<Rightarrow> Task store_tx" where
  "event_transition u m task binding =
     (if terminalUnavailable (tem_Transition m) \<and> terminalLossChangesTask (task_State task)
      then applied ''apply terminal loss'' (ApplyTransition u task TransitionTerminalUnavailable (tem_At m))
      else if task_State task = TaskLaunching \<and> tb_runningObserved binding
      then andThen (hasLaunchAcknowledgement (task_Handle task)) (\<lambda>acknowledged.
           if acknowledged
           then applied ''apply joined launch evidence'' (ApplyTransition u task TransitionWorkerAcknowledged (tem_At m))
           else give task)
      else give task)"

definition commit_new_terminal_event :: "print_table \<Rightarrow> TerminalEventMutation \<Rightarrow> MutationResult store_tx" where
  "commit_new_terminal_event u m =
     andThen (getTaskByBinding u (tem_ManagedRunID m) (tem_WorkspaceLeaseID m)) (\<lambda>task.
     if task_State task = TaskReady \<or> Before (tem_At m) (task_UpdatedAt task)
     then refuse (WrapError ''terminal event task posture'' ErrPrecondition)
     else
     andThen (findTerminalBinding (task_Handle task)) (\<lambda>found.
     andThen (yield (event_binding m task found)) (\<lambda>(speaking, rotated).
     andThen (if found \<noteq> None \<and> tem_Transition m = TerminalLost
              then lastSettledTerminalPosture (task_Handle task) (tem_TerminalSessionID m) else give None) (\<lambda>posture.
     let binding = observe m posture speaking in
     andThen (event_transition u m task binding) (\<lambda>moved.
     andThen nextMutationStateVersion (\<lambda>stateVersion.
     let updated = (if task_State moved = task_State task then moved\<lparr>task_UpdatedAt := tem_At m\<rparr> else moved)
                     \<lparr>task_StateVersion := stateVersion\<rparr>;
         operation = completedMutationOperation (tem_OperationID m) ''RecordTerminalEvent'' (tem_SubjectDigest m)
                       (task_Handle updated) stateVersion (tem_At m)
     in andThen (updateTaskState u updated) (\<lambda>_.
        andThen (terminalConstraintFailure ''insert terminal event operation'' (insertOperation operation)) (\<lambda>_.
        andThen (if rotated
                 then rotateTerminalBinding binding (case found of Some b \<Rightarrow> tb_terminalSessionID b | None \<Rightarrow> [])
                 else putTerminalBinding binding (found \<noteq> None)) (\<lambda>_.
        andThen (terminalConstraintFailure ''insert terminal event'' (insert_unless
          (\<lambda>db. \<exists>e\<in>set (db_terminal_events db). te_operation_id e = tem_OperationID m)
          (\<lambda>db. db\<lparr>db_terminal_events := db_terminal_events db @
             [\<lparr>te_operation_id = tem_OperationID m, te_task_handle = task_Handle task,
               te_managed_run_id = tem_ManagedRunID m, te_workspace_lease_id = tem_WorkspaceLeaseID m,
               te_terminal_session_id = tem_TerminalSessionID m, te_transition = tem_Transition m,
               te_observed_at = tem_At m\<rparr>]\<rparr>))) (\<lambda>_.
        andThen (within ''commit terminal event mutation'' commit) (\<lambda>_.
        give \<lparr>res_Task = updated, res_Operation = operation, res_Preparation = None\<rparr>)))))))))))"

definition CommitTerminalEvent ::
  "print_table \<Rightarrow> TerminalEventMutation \<Rightarrow> durable \<Rightarrow> go_error option list \<Rightarrow> MutationResult result \<times> durable" where
  "CommitTerminalEvent u m db faults =
     (case validateTerminalEventMutation m of
        Some e \<Rightarrow> (Inl e, db)
      | None \<Rightarrow> transaction ''begin terminal event mutation''
          (replay_first (tem_OperationID m) ''RecordTerminalEvent'' (tem_SubjectDigest m)
             (mutationResult u) (commit_new_terminal_event u m)) db faults)"

section \<open>CommitWorkerLaunchAcknowledgement\<close>

definition echo_matches :: "LaunchAcknowledgement \<Rightarrow> Task \<Rightarrow> ManagedRunPreparation \<Rightarrow> bool" where
  "echo_matches a task preparation \<longleftrightarrow>
     task_ManagedRunID task = ack_ManagedRunID a \<and> task_WorkspaceLeaseID task = ack_WorkspaceLeaseID a \<and>
     task_BriefRevision task = ack_BriefRevision a \<and> task_BriefRevisionHash task = ack_BriefRevisionHash a \<and>
     prep_RequestedWorkspaceRoot preparation = ack_WorkingDirectory a"

definition commit_new_acknowledgement :: "print_table \<Rightarrow> WorkerLaunchAcknowledgementMutation \<Rightarrow> MutationResult store_tx" where
  "commit_new_acknowledgement u m =
     (let acknowledgement = wam_Acknowledgement m in
     andThen (getTask u (ack_TaskHandle acknowledgement)) (\<lambda>task.
     andThen (within ''read launch workspace'' (getManagedRunPreparation task)) (\<lambda>preparation.
     if task_State task \<noteq> TaskLaunching \<or> Before (wam_At m) (task_UpdatedAt task) \<or>
        \<not> echo_matches acknowledgement task preparation
     then refuse (WrapError ''worker launch acknowledgement differs'' ErrPrecondition)
     else
     andThen (findTerminalBinding (task_Handle task)) (\<lambda>found.
     if (case found of Some b \<Rightarrow> tb_managedRunID b \<noteq> task_ManagedRunID task \<or> tb_workspaceLeaseID b \<noteq> task_WorkspaceLeaseID task
                     | None \<Rightarrow> False)
     then refuse (WrapError ''worker launch terminal binding differs'' ErrPrecondition)
     else
     let terminalReady = (case found of Some b \<Rightarrow> tb_runningObserved b | None \<Rightarrow> False) \<or>
                         task_WorkerProfileID task = ''fixture-worker'' in
     andThen (currentTaskLaunchStateVersion (task_Handle task)) (\<lambda>launchStateVersion.
     andThen (if terminalReady
              then applied ''apply worker launch acknowledgement'' (ApplyTransition u task TransitionWorkerAcknowledged (wam_At m))
              else give (task\<lparr>task_UpdatedAt := wam_At m\<rparr>)) (\<lambda>moved.
     andThen nextMutationStateVersion (\<lambda>stateVersion.
     let updated = moved\<lparr>task_StateVersion := stateVersion\<rparr>;
         operation = completedMutationOperation (wam_OperationID m) ''AcknowledgeWorkerLaunch'' (wam_SubjectDigest m)
                       (task_Handle updated) stateVersion (wam_At m)
     in andThen (updateTaskState u updated) (\<lambda>_.
        andThen (terminalConstraintFailure ''insert launch acknowledgement operation'' (insertOperation operation)) (\<lambda>_.
        andThen (terminalConstraintFailure ''insert launch acknowledgement'' (insert_unless
          (\<lambda>db. \<exists>a\<in>set (db_launch_acks db). la_operation_id a = wam_OperationID m)
          (\<lambda>db. db\<lparr>db_launch_acks := db_launch_acks db @
             [\<lparr>la_operation_id = wam_OperationID m, la_task_handle = task_Handle task,
               la_managed_run_id = ack_ManagedRunID acknowledgement, la_workspace_lease_id = ack_WorkspaceLeaseID acknowledgement,
               la_working_directory = ack_WorkingDirectory acknowledgement, la_brief_revision = ack_BriefRevision acknowledgement,
               la_brief_revision_hash = ack_BriefRevisionHash acknowledgement,
               la_launch_state_version = launchStateVersion, la_acknowledged_at = wam_At m\<rparr>]\<rparr>))) (\<lambda>_.
        andThen (within ''commit worker launch acknowledgement'' commit) (\<lambda>_.
        give \<lparr>res_Task = updated, res_Operation = operation, res_Preparation = None\<rparr>)))))))))))"

definition CommitWorkerLaunchAcknowledgement ::
  "print_table \<Rightarrow> WorkerLaunchAcknowledgementMutation \<Rightarrow> durable \<Rightarrow> go_error option list \<Rightarrow> MutationResult result \<times> durable" where
  "CommitWorkerLaunchAcknowledgement u m db faults =
     (case validateWorkerLaunchAcknowledgementMutation m of
        Some e \<Rightarrow> (Inl e, db)
      | None \<Rightarrow> transaction ''begin worker launch acknowledgement''
          (replay_first (wam_OperationID m) ''AcknowledgeWorkerLaunch'' (wam_SubjectDigest m)
             (mutationResult u) (commit_new_acknowledgement u m)) db faults)"

end
