(* ===== verification/Launch_Authority.thy ===== *)
theory Launch_Authority
  imports Store_Terminal
begin

text \<open>
  The authority to start a task (\<open>store/sqlite/initiative_launch.go\<close>, \<open>initiative_launch_facts.go\<close> and
  \<open>CommitTaskStart\<close> of \<open>mutations.go\<close>): the fleet schedule is computed again, inside the transaction that
  moves the task, from the launch facts of every initiative, read in pages and merged in order.
\<close>

section \<open>Launch facts as they are read\<close>

definition scanInitiativeLaunchFact :: "initiativeLaunchFact \<Rightarrow> initiativeLaunchFact result" where
  "scanInitiativeLaunchFact l =
     ensure (first_error
       [fail_if (ValidateTaskHandle (fact_taskHandle l) \<noteq> None \<or> ValidateTaskHandle (fact_initiativeHandle l) \<noteq> None \<or>
                 ValidateRepositoryID (fact_repositoryID l) \<noteq> None \<or>
                 validateAuthorityReference ''workerProfileId'' (fact_workerProfileID l) \<noteq> None \<or>
                 MaximumInitiativeMembers \<le> fact_round l)
          (PlainError ''stored initiative launch fact is invalid''),
        fail_if (parseTime (fact_createdAt l) = None) (PlainError ''stored initiative launch fact time is invalid'')])
     (Inr l)"

definition initiativeLaunchFactForTask :: "Task \<Rightarrow> initiativeLaunchFact option store_tx" where
  "initiativeLaunchFactForTask task =
     andThen (select (\<lambda>db. find (\<lambda>l. fact_taskHandle l = task_Handle task) (db_launch_facts db))) (\<lambda>found.
     case found of
       None \<Rightarrow> give None
     | Some row \<Rightarrow> andThen (yield (scanInitiativeLaunchFact row)) (\<lambda>l.
         if fact_repositoryID l \<noteq> task_RepositoryID task \<or> fact_workerProfileID l \<noteq> task_WorkerProfileID task
         then refuse (PlainError ''initiative launch fact task authority differs'')
         else give (Some l)))"

definition initiativeSchedulingPageSize :: nat where
  "initiativeSchedulingPageSize = 64"

text \<open>The heads a page selects from: of the round, after the cursor, of a profile and a repository with capacity.\<close>

definition free_profiles :: "InitiativeSchedulingLimits \<Rightarrow> InitiativeSchedulingUsage \<Rightarrow> string list" where
  "free_profiles limits usage = map fst (filter
     (\<lambda>(profileID, capacity). sint (map_count (given_WorkerProfiles usage) profileID) < sint capacity)
     (sorted_list_of_fmap (lim_WorkerProfileLimits limits)))"

definition capped_repository :: "InitiativeSchedulingLimits \<Rightarrow> InitiativeSchedulingUsage \<Rightarrow> string \<Rightarrow> bool" where
  "capped_repository limits usage repositoryID \<longleftrightarrow>
     (case fmlookup (given_Repositories usage) repositoryID of
        None \<Rightarrow> False
      | Some used \<Rightarrow> sint (lim_MaxConcurrentTasksPerRepository limits) \<le> sint used)"

definition page_rows ::
  "nat \<Rightarrow> string \<times> string \<times> string \<Rightarrow> InitiativeSchedulingLimits \<Rightarrow> InitiativeSchedulingUsage \<Rightarrow> nat \<Rightarrow>
     durable \<Rightarrow> initiativeLaunchFact list" where
  "page_rows turn cursor limits usage limit db = take limit (sort_key fact_order (filter
     (\<lambda>l. fact_round l = turn \<and> cursor < fact_order l \<and>
          fact_workerProfileID l \<in> set (free_profiles limits usage) \<and>
          \<not> capped_repository limits usage (fact_repositoryID l)) (db_launch_heads db)))"

definition page_fact :: "nat \<Rightarrow> initiativeLaunchFact \<Rightarrow> initiativeLaunchFact store_tx" where
  "page_fact turn row =
     andThen (yield (scanInitiativeLaunchFact row)) (\<lambda>l.
     if fact_round l \<noteq> turn then refuse (PlainError ''stored initiative launch fact round differs'') else give l)"

definition initiativeLaunchFactPage ::
  "nat \<Rightarrow> string \<times> string \<times> string \<Rightarrow> InitiativeSchedulingLimits \<Rightarrow> InitiativeSchedulingUsage \<Rightarrow> nat \<Rightarrow>
     initiativeLaunchFact list store_tx" where
  "initiativeLaunchFactPage turn cursor limits usage limit =
     (if free_profiles limits usage = [] then give []
      else andThen (select (page_rows turn cursor limits usage limit)) (each (page_fact turn)))"

definition facts_after :: "initiativeLaunchFact \<Rightarrow> durable \<Rightarrow> initiativeLaunchFact list" where
  "facts_after l db = sort_key fact_order (filter
     (\<lambda>f. fact_key f = fact_key l \<and> fact_order l < fact_order f) (db_launch_facts db))"

definition initiativeLaunchFactAfterResource :: "initiativeLaunchFact \<Rightarrow> initiativeLaunchFact option store_tx" where
  "initiativeLaunchFactAfterResource l =
     andThen (select (\<lambda>db. take 1 (facts_after l db))) (\<lambda>rows.
     case rows of
       [] \<Rightarrow> give None
     | row # _ \<Rightarrow> andThen (yield (scanInitiativeLaunchFact row)) (\<lambda>f.
         if fact_key f \<noteq> fact_key l then refuse (PlainError ''stored initiative resource frontier differs'')
         else give (Some f)))"

section \<open>What is in use\<close>

definition scheduling_states :: "TaskState list" where
  "scheduling_states = [TaskLaunching, TaskWorking, TaskAwaitingDecision, TaskBlocked, TaskPaused, TaskReconciling, TaskUnknown]"

definition usage_rows :: "durable \<Rightarrow> (string \<times> string \<times> nat) list" where
  "usage_rows db =
     (let used = map (\<lambda>t. (task_RepositoryID t, task_WorkerProfileID t))
                   (filter (\<lambda>t. task_State t \<in> set scheduling_states) (map row_task (db_tasks db)))
      in map (\<lambda>(repositoryID, profileID). (repositoryID, profileID, count_list used (repositoryID, profileID)))
           (sort (remdups used)))"

definition add_usage :: "string \<Rightarrow> int64 \<Rightarrow> (string, int64) fmap \<Rightarrow> (string, int64) fmap" where
  "add_usage k n m = fmupd k (map_count m k + n) m"

fun sum_usage :: "(string \<times> string \<times> nat) list \<Rightarrow> InitiativeSchedulingUsage \<Rightarrow> InitiativeSchedulingUsage result" where
  "sum_usage [] usage = Inr usage"
| "sum_usage ((repositoryID, profileID, n) # rows) usage =
     (let used = of_nat n :: int64 in
      if ValidateRepositoryID repositoryID \<noteq> None \<or> validateAuthorityReference ''workerProfileId'' profileID \<noteq> None \<or> sint used < 1
      then Inl (PlainError ''stored scheduling capacity is invalid'')
      else sum_usage rows \<lparr>given_Host = given_Host usage + used,
             given_Repositories = add_usage repositoryID used (given_Repositories usage),
             given_WorkerProfiles = add_usage profileID used (given_WorkerProfiles usage)\<rparr>)"

definition initiativeSchedulingUsage :: "InitiativeSchedulingUsage store_tx" where
  "initiativeSchedulingUsage =
     andThen (select usage_rows) (\<lambda>rows.
     yield (sum_usage rows \<lparr>given_Host = 0, given_Repositories = fmempty, given_WorkerProfiles = fmempty\<rparr>))"

section \<open>What the task's own initiative decides\<close>

record initiativeLaunchCandidate =
  lcand_task :: Task
  lcand_round :: nat

fun launch_candidates ::
  "Task list \<Rightarrow> nat \<Rightarrow> InitiativeTaskSchedule list \<Rightarrow> initiativeLaunchCandidate list result" where
  "launch_candidates tasks turn [] = Inr []"
| "launch_candidates tasks turn (decision # decisions) =
     (if dec_State decision \<noteq> TaskReady \<or> \<not> dec_Launchable decision \<and> dec_Reason decision \<noteq> ScheduleResourceQueued
      then launch_candidates tasks turn decisions
      else case find (\<lambda>t. task_Handle t = dec_TaskHandle decision) tasks of
             None \<Rightarrow> Inl (PlainError ''initiative scheduling task is unavailable'')
           | Some task \<Rightarrow> map_sum id ((#) \<lparr>lcand_task = task, lcand_round = turn\<rparr>) (launch_candidates tasks (turn + 1) decisions))"

definition target_reason :: "string \<Rightarrow> InitiativeTaskSchedule list \<Rightarrow> InitiativeScheduleReason" where
  "target_reason target decisions = fold (\<lambda>d reason. if dec_TaskHandle d = target then dec_Reason d else reason) decisions no_reason"

definition initiativeSchedulingCandidates ::
  "print_table \<Rightarrow> DevelopmentInitiative \<Rightarrow> string \<Rightarrow> InitiativeSchedulingLimits \<Rightarrow> InitiativeSchedulingUsage \<Rightarrow>
     (initiativeLaunchCandidate list \<times> InitiativeScheduleReason) store_tx" where
  "initiativeSchedulingCandidates u initiative targetHandle limits usage =
     andThen (each (getTask u) (initiativeTaskHandles initiative)) (\<lambda>tasks.
     andThen (listInitiativeContractArtifactMetadata (ini_Handle initiative)) (\<lambda>artifacts.
     andThen (yield (case ScheduleInitiativesWithUsage u [initiative] tasks artifacts limits usage of
         Inr [schedule] \<Rightarrow> Inr schedule
       | Inr _ \<Rightarrow> Inl (PlainError ''initiative scheduling decision is unavailable'')
       | Inl e \<Rightarrow> Inl (WrapError ''initiative scheduling decision is unavailable'' e))) (\<lambda>schedule.
     andThen (yield (launch_candidates tasks
         (length (filter (\<lambda>t. task_State t \<noteq> TaskPrepared \<and> task_State t \<noteq> TaskReady) tasks)) (sch_Tasks schedule))) (\<lambda>candidates.
     give (candidates, target_reason targetHandle (sch_Tasks schedule))))))"

section \<open>The frontier\<close>

text \<open>
  The loops of \<open>initiativeSchedulingFrontier\<close>.  A loop may in principle run for ever, so it is a partial
  function on the transaction; \<open>frontier_returns\<close> below shows that it always returns.  \<open>container/heap\<close> keeps
  the queue ordered by \<open>compareInitiativeLaunchFacts\<close>, which is the order of \<open>fact_order\<close>: the queue is a
  sorted list, with its least element at the head.
\<close>

type_synonym 'a store_loop = "durable tx_state \<Rightarrow> ('a result \<times> durable tx_state) option"

definition step :: "'a store_tx \<Rightarrow> ('a \<Rightarrow> 'b store_loop) \<Rightarrow> 'b store_loop" where
  "step m f s = (case m s of (Inl e, s') \<Rightarrow> Some (Inl e, s') | (Inr x, s') \<Rightarrow> f x s')"

definition proceed :: "'a store_loop \<Rightarrow> ('a \<Rightarrow> 'b store_loop) \<Rightarrow> 'b store_loop" where
  "proceed m f s = Option.bind (m s) (\<lambda>(r, s'). case r of Inl e \<Rightarrow> Some (Inl e, s') | Inr x \<Rightarrow> f x s')"

lemma step_mono [partial_function_mono]:
  assumes "\<And>x s. mono_option (\<lambda>g. F g x s)"
  shows "mono_option (\<lambda>g. step m (F g) s)"
  unfolding step_def
  by (cases "m s"; cases "fst (m s)") (auto intro: assms option.const_mono)

lemma proceed_mono [partial_function_mono]:
  assumes "mono_option (\<lambda>g. M g s)" "\<And>x s. mono_option (\<lambda>g. F g x s)"
  shows "mono_option (\<lambda>g. proceed (M g) (F g) s)"
proof -
  have "mono_option (\<lambda>g. case p of (r, s') \<Rightarrow> case r of Inl e \<Rightarrow> Some (Inl e, s') | Inr x \<Rightarrow> F g x s')" for p
    by (cases p; cases "fst p") (auto intro: assms option.const_mono)
  then show ?thesis unfolding proceed_def by (intro bind_mono assms)
qed

record frontier =
  fr_queue :: "initiativeLaunchFact list"
  fr_cursor :: "string \<times> string \<times> string"
  fr_moreHeads :: bool
  fr_usage :: InitiativeSchedulingUsage
  fr_selected :: int64

definition push :: "initiativeLaunchFact \<Rightarrow> initiativeLaunchFact list \<Rightarrow> initiativeLaunchFact list" where
  "push l queue = insort_key fact_order l queue"

text \<open>After a page the cursor and \<open>boundary\<close> are the place of its last fact.\<close>

definition absorb :: "initiativeLaunchFact list \<Rightarrow> frontier \<Rightarrow> frontier" where
  "absorb page fr =
     (if page = [] then fr\<lparr>fr_moreHeads := False\<rparr>
      else fr\<lparr>fr_queue := fold push page (fr_queue fr), fr_cursor := fact_order (List.last page),
              fr_moreHeads := (length page = initiativeSchedulingPageSize)\<rparr>)"

definition loadHeads :: "nat \<Rightarrow> InitiativeSchedulingLimits \<Rightarrow> frontier \<Rightarrow> frontier store_tx" where
  "loadHeads turn limits fr =
     andThen (initiativeLaunchFactPage turn (fr_cursor fr) limits (fr_usage fr) initiativeSchedulingPageSize) (\<lambda>page.
     give (absorb page fr))"

partial_function (option) refill :: "nat \<Rightarrow> InitiativeSchedulingLimits \<Rightarrow> frontier \<Rightarrow> frontier store_loop" where
  "refill turn limits fr s =
     (if fr_moreHeads fr \<and> fr_cursor fr < fact_order (hd (fr_queue fr))
      then step (loadHeads turn limits fr) (refill turn limits) s
      else Some (Inr fr, s))"

definition resource_free :: "InitiativeSchedulingLimits \<Rightarrow> InitiativeSchedulingUsage \<Rightarrow> initiativeLaunchFact \<Rightarrow> bool" where
  "resource_free limits usage l \<longleftrightarrow>
     sint (map_count (given_Repositories usage) (fact_repositoryID l)) < sint (lim_MaxConcurrentTasksPerRepository limits) \<and>
     sint (map_count (given_WorkerProfiles usage) (fact_workerProfileID l)) <
       sint (map_count (lim_WorkerProfileLimits limits) (fact_workerProfileID l))"

definition take_resource :: "initiativeLaunchFact \<Rightarrow> InitiativeSchedulingUsage \<Rightarrow> InitiativeSchedulingUsage" where
  "take_resource l usage = \<lparr>given_Host = given_Host usage + 1,
     given_Repositories = add_usage (fact_repositoryID l) 1 (given_Repositories usage),
     given_WorkerProfiles = add_usage (fact_workerProfileID l) 1 (given_WorkerProfiles usage)\<rparr>"

datatype frontier_end = Decided bool InitiativeScheduleReason | RoundOver frontier

text \<open>What the code calls while it decides: the target's handle and reason, the limits, the free places on the host.\<close>

record frontier_goal =
  goal_target :: string
  goal_reason :: InitiativeScheduleReason
  goal_limits :: InitiativeSchedulingLimits
  goal_available :: int64

definition full_reason :: "frontier_goal \<Rightarrow> InitiativeScheduleReason" where
  "full_reason goal =
     (if goal_reason goal \<noteq> no_reason \<and> goal_reason goal \<noteq> ScheduleResourceQueued then goal_reason goal else ScheduleResourceQueued)"

text \<open>What the head of the queue leads to: the end, the next fact, or the next fact of its resource first.\<close>

datatype head_outcome = Finish frontier_end | Continue frontier | Follow initiativeLaunchFact frontier

definition serve_head :: "frontier_goal \<Rightarrow> frontier \<Rightarrow> head_outcome" where
  "serve_head goal fr =
     (let l = hd (fr_queue fr); popped = fr\<lparr>fr_queue := tl (fr_queue fr)\<rparr> in
      if \<not> resource_free (goal_limits goal) (fr_usage fr) l then Continue popped
      else
        let taken = popped\<lparr>fr_usage := take_resource l (fr_usage fr), fr_selected := fr_selected fr + 1\<rparr> in
        if fact_taskHandle l = goal_target goal then Finish (Decided True ScheduleResourceQueued)
        else if fr_selected taken = goal_available goal then Finish (Decided False (full_reason goal))
        else if resource_free (goal_limits goal) (fr_usage taken) l then Follow l taken
        else Continue taken)"

definition enqueue :: "frontier \<Rightarrow> initiativeLaunchFact option \<Rightarrow> frontier" where
  "enqueue fr found = (case found of None \<Rightarrow> fr | Some l \<Rightarrow> fr\<lparr>fr_queue := push l (fr_queue fr)\<rparr>)"

partial_function (option) serve :: "nat \<Rightarrow> frontier_goal \<Rightarrow> frontier \<Rightarrow> frontier_end store_loop" where
  "serve turn goal fr s =
     (if fr_queue fr = [] then
        (if fr_moreHeads fr then step (loadHeads turn (goal_limits goal) fr) (serve turn goal) s
         else Some (Inr (RoundOver fr), s))
      else proceed (refill turn (goal_limits goal) fr) (\<lambda>fr s.
        case serve_head goal fr of
          Finish outcome \<Rightarrow> Some (Inr outcome, s)
        | Continue fr \<Rightarrow> serve turn goal fr s
        | Follow l fr \<Rightarrow> step (initiativeLaunchFactAfterResource l) (\<lambda>found. serve turn goal (enqueue fr found)) s) s)"

text \<open>The rounds: each starts with an empty queue and a fresh cursor, and goes on with the usage.\<close>

fun serve_rounds :: "frontier_goal \<Rightarrow> nat list \<Rightarrow> InitiativeSchedulingUsage \<times> int64 \<Rightarrow> (bool \<times> InitiativeScheduleReason) store_loop" where
  "serve_rounds goal [] state s = Some (Inr (False, goal_reason goal), s)"
| "serve_rounds goal (turn # turns) (usage, selected) s =
     step (loadHeads turn (goal_limits goal)
         \<lparr>fr_queue = [], fr_cursor = ([], [], []), fr_moreHeads = True, fr_usage = usage, fr_selected = selected\<rparr>) (\<lambda>fr.
     proceed (serve turn goal fr) (\<lambda>outcome.
     case outcome of
       Decided launchable reason \<Rightarrow> (\<lambda>s. Some (Inr (launchable, reason), s))
     | RoundOver fr \<Rightarrow> serve_rounds goal turns (fr_usage fr, fr_selected fr))) s"

definition frontier_loop :: "frontier_goal \<Rightarrow> InitiativeSchedulingUsage \<Rightarrow> (bool \<times> InitiativeScheduleReason) store_loop" where
  "frontier_loop goal usage = serve_rounds goal [0..<MaximumInitiativeMembers] (usage, 0)"

definition initiativeSchedulingFrontier ::
  "Task \<Rightarrow> InitiativeScheduleReason \<Rightarrow> InitiativeSchedulingLimits \<Rightarrow> InitiativeSchedulingUsage \<Rightarrow>
     (bool \<times> InitiativeScheduleReason) store_tx" where
  "initiativeSchedulingFrontier target targetReason limits usage s =
     (case frontier_loop \<lparr>goal_target = task_Handle target, goal_reason = targetReason, goal_limits = limits,
             goal_available = lim_MaxConcurrentTasks limits - given_Host usage\<rparr> usage s of
        Some r \<Rightarrow> r
      | None \<Rightarrow> (Inl (PlainError ''the frontier does not return''), s))"

section \<open>Authority and start\<close>

definition schedule_reason_text :: "InitiativeScheduleReason \<Rightarrow> string" where
  "schedule_reason_text reason =
     (case reason of
        ScheduleDependencyBlocked \<Rightarrow> ''dependency_blocked'' | ScheduleResourceQueued \<Rightarrow> ''resource_queued''
      | ScheduleContractStale \<Rightarrow> ''contract_stale'' | ScheduleIntegrationHeld \<Rightarrow> ''integration_held''
      | ScheduleReasonOther text \<Rightarrow> text)"

definition not_launchable :: "string \<Rightarrow> go_error" where
  "not_launchable why = WrapError (''authorize initiative task start: '' @ why) ErrPrecondition"

definition authorizeInitiativeTaskStart :: "print_table \<Rightarrow> Task \<Rightarrow> InitiativeSchedulingLimits option \<Rightarrow> unit store_tx" where
  "authorizeInitiativeTaskStart u task limits =
     andThen (within ''authorize initiative task start membership'' (initiativeForTask (task_Handle task))) (\<lambda>found.
     case found of
       None \<Rightarrow> give ()
     | Some containing \<Rightarrow>
     (case limits of
        None \<Rightarrow> refuse (not_launchable ''reviewed scheduling limits are unavailable'')
      | Some limits \<Rightarrow>
        if ini_State containing \<noteq> InitiativeActive then refuse (not_launchable ''initiative is not active'')
        else
        andThen (within ''authorize initiative task start facts'' (refreshInitiativeLaunchFacts u containing)) (\<lambda>_.
        andThen (within ''authorize initiative task start capacity'' initiativeSchedulingUsage) (\<lambda>usage.
        andThen (within ''authorize initiative task start schedule'' (yield (ScheduleInitiativesWithUsage u [] [] [] limits usage))) (\<lambda>_.
        if sint (lim_MaxConcurrentTasks limits) \<le> sint (given_Host usage)
        then refuse (not_launchable (schedule_reason_text ScheduleResourceQueued))
        else
        andThen (within ''authorize initiative task start decision''
          (initiativeSchedulingCandidates u containing (task_Handle task) limits usage)) (\<lambda>(candidates, reason).
        andThen (within ''authorize initiative task start target fact'' (initiativeLaunchFactForTask task)) (\<lambda>targetFact.
        andThen (require (case targetFact of
            None \<Rightarrow> None
          | Some l \<Rightarrow> fail_if (fact_initiativeHandle l \<noteq> ini_Handle containing)
              (PlainError ''authorize initiative task start: launch fact initiative differs''))) (\<lambda>_.
        andThen (within ''authorize initiative task start fleet''
          (initiativeSchedulingFrontier task (if targetFact \<noteq> None then ScheduleResourceQueued else reason) limits usage)) (\<lambda>(launchable, reason).
        if launchable then give ()
        else if reason \<noteq> no_reason then refuse (not_launchable (schedule_reason_text reason))
        else refuse (not_launchable ''initiative is not launchable''))))))))))"

record TaskStartMutation =
  start_TaskHandle :: string
  start_OperationID :: string
  start_SubjectDigest :: string
  start_SchedulingLimits :: "InitiativeSchedulingLimits option"
  start_At :: time

definition commit_new_start :: "print_table \<Rightarrow> TaskStartMutation \<Rightarrow> MutationResult store_tx" where
  "commit_new_start u mutation =
     andThen (getTask u (start_TaskHandle mutation)) (\<lambda>task.
     andThen (authorizeInitiativeTaskStart u task (start_SchedulingLimits mutation)) (\<lambda>_.
     andThen (applied ''apply task start'' (ApplyTransition u task TransitionLaunchRequested (start_At mutation))) (\<lambda>moved.
     andThen nextMutationStateVersion (\<lambda>stateVersion.
     let started = moved\<lparr>task_StateVersion := stateVersion\<rparr>;
         operation = completedMutationOperation (start_OperationID mutation) ''StartTask'' (start_SubjectDigest mutation)
                       (task_Handle started) stateVersion (start_At mutation)
     in andThen (updateTaskState u started) (\<lambda>_.
        andThen (within ''insert task start operation'' (insertOperation operation)) (\<lambda>_.
        andThen (within ''commit task start mutation'' commit) (\<lambda>_.
        give \<lparr>res_Task = started, res_Operation = operation, res_Preparation = None\<rparr>)))))))"

definition CommitTaskStart ::
  "print_table \<Rightarrow> TaskStartMutation \<Rightarrow> durable \<Rightarrow> go_error option list \<Rightarrow> MutationResult result \<times> durable" where
  "CommitTaskStart u mutation = transaction ''begin task start mutation''
     (replay_first (start_OperationID mutation) ''StartTask'' (start_SubjectDigest mutation)
        (mutationResult u) (commit_new_start u mutation))"

end
