(* ===== verification/Store_Contract.thy ===== *)
theory Store_Contract
  imports Store_Terminal
begin

text \<open>
  What every command of the store has in common: it records its operation once, with the version its task
  gets, it never touches another operation, and an error leaves nothing behind but, for an altered replay,
  its audit row.
\<close>

section \<open>Steps that only read\<close>

lemma reads_task [tx_reads]:
  "reads (getTask u h)" "reads (getOperation i)" "reads (getManagedRunPreparation t)" "reads (mutationResult u oper)"
  "reads (scan_tasks_of u l a m)" "reads (getTaskByManagedRun u r)" "reads (getTaskByBinding u r w)"
proof -
  show t: "reads (getTask u h)" for h unfolding getTask_def by (intro tx_reads)
  show "reads (getOperation i)" unfolding getOperation_def by (intro tx_reads)
  show p: "reads (getManagedRunPreparation t)" for t unfolding getManagedRunPreparation_def Let_def by (intro tx_reads)
  show "reads (mutationResult u oper)" unfolding mutationResult_def by (intro tx_reads t p)
  show s: "reads (scan_tasks_of u l a m)" for l a m unfolding scan_tasks_of_def by (intro tx_reads)
  show "reads (getTaskByManagedRun u r)" unfolding getTaskByManagedRun_def by (rule s)
  show "reads (getTaskByBinding u r w)" unfolding getTaskByBinding_def by (rule s)
qed

lemma reads_versions [tx_reads]: "reads currentStateVersion" "reads nextMutationStateVersion"
proof -
  show c: "reads currentStateVersion" unfolding currentStateVersion_def by (intro tx_reads)
  show "reads nextMutationStateVersion" unfolding nextMutationStateVersion_def by (intro tx_reads c)
qed

lemma reads_guards [tx_reads]:
  "reads (refuseAnyReservedIntegrationTaskMutation h)" "reads (reservedIntegrationTaskRole owner h)"
  "reads (refuseReservedIntegrationTaskTransition h a b)" "reads (refuseReservedIntegrationInitiativeTransition h i j)"
proof -
  show "reads (refuseAnyReservedIntegrationTaskMutation h)"
    unfolding refuseAnyReservedIntegrationTaskMutation_def by (intro tx_reads)
  show r: "reads (reservedIntegrationTaskRole owner h)" for owner
    unfolding reservedIntegrationTaskRole_def by (intro tx_reads)
  show "reads (refuseReservedIntegrationTaskTransition h a b)"
    unfolding refuseReservedIntegrationTaskTransition_def by (intro tx_reads r)
  show "reads (refuseReservedIntegrationInitiativeTransition h i j)"
    unfolding refuseReservedIntegrationInitiativeTransition_def by (intro tx_reads)
qed

lemma reads_initiative [tx_reads]:
  "reads (initiativeForTask h)" "reads (listInitiativeContractArtifacts h)" "reads (listInitiativeContractArtifactMetadata h)"
  "reads (initiativeLaunchResourceKeys h)" "reads (launch_member u h)"
  unfolding initiativeForTask_def listInitiativeContractArtifacts_def listInitiativeContractArtifactMetadata_def
    initiativeLaunchResourceKeys_def launch_member_def by (intro tx_reads)+

lemma reads_intent [tx_reads]: "reads (readTaskPreparationIntent i)"
  unfolding readTaskPreparationIntent_def by (intro tx_reads)

lemma reads_applied [tx_reads]: "reads (applied c r)" "reads (applied_bare r)"
  unfolding applied_def applied_bare_def by (intro tx_reads)+

lemma reads_terminal [tx_reads]:
  "reads (findTerminalBinding h)" "reads (proveNothingIsStillRunning t l b)" "reads (lastSettledTerminalPosture h s)"
  "reads (currentTaskLaunchStateVersion h)" "reads (hasLaunchAcknowledgement h)"
proof -
  show b: "reads (findTerminalBinding h)" for h unfolding findTerminalBinding_def by (intro tx_reads)
  show "reads (proveNothingIsStillRunning t l b)" unfolding proveNothingIsStillRunning_def by (intro tx_reads b)
  show "reads (lastSettledTerminalPosture h s)" unfolding lastSettledTerminalPosture_def by (intro tx_reads)
  show v: "reads (currentTaskLaunchStateVersion h)" for h unfolding currentTaskLaunchStateVersion_def by (intro tx_reads)
  show "reads (hasLaunchAcknowledgement h)" unfolding hasLaunchAcknowledgement_def by (intro tx_reads v)
qed

lemma reads_bodies [tx_reads]:
  "reads (cancelTaskState u t at)" "reads (requireInitiativeValidationDependencies u h)"
  "reads (proveReplacementSafety t rm)" "reads (event_transition u m t tb)"
  "reads (resume_body u rsm)" "reads (steer_body u ssm)" "reads (verify_body u tcm)" "reads (replace_body u rm)"
  "reads (managed_run_cancel_body u mrc)"
proof -
  show "reads (cancelTaskState u t at)" unfolding cancelTaskState_def by (intro tx_reads)
  show v: "reads (requireInitiativeValidationDependencies u h)" for h
    unfolding requireInitiativeValidationDependencies_def validation_predecessor_def by (intro tx_reads)
  show s: "reads (proveReplacementSafety t rm)" for t unfolding proveReplacementSafety_def by (intro tx_reads)
  show "reads (event_transition u m t tb)" unfolding event_transition_def by (intro tx_reads)
  show "reads (resume_body u rsm)" unfolding resume_body_def by (intro tx_reads)
  show "reads (steer_body u ssm)" unfolding steer_body_def by (intro tx_reads)
  show "reads (verify_body u tcm)" unfolding verify_body_def by (intro tx_reads v)
  show "reads (replace_body u rm)" unfolding replace_body_def by (intro tx_reads s)
  show "reads (managed_run_cancel_body u mrc)" unfolding managed_run_cancel_body_def by (intro tx_reads)
qed

lemmas store_reads =
  reads_task reads_versions reads_guards reads_initiative reads_intent reads_applied reads_terminal reads_bodies

lemmas store_reads_leave [tx_leaves] = store_reads [THEN leaves_reads]
lemmas store_reads_uncommitted [tx_uncommitted] = store_reads [THEN reads_uncommitted]

section \<open>What a write leaves alone\<close>

definition tasks_of :: "durable \<Rightarrow> Task list" where
  "tasks_of db = map row_task (db_tasks db)"

text \<open>The part of the database a version is chosen over, with the trail of events; and the part a refresh leaves.\<close>

definition core_part :: "durable \<Rightarrow> Task list \<times> OperationRecord list \<times> ServiceEvent list \<times>
    DevelopmentInitiative list \<times> int64 list \<times> int64 list" where
  "core_part db = (tasks_of db, db_operations db, db_events db, db_initiatives db, db_report_versions db, db_evidence_versions db)"

definition trail_part :: "durable \<Rightarrow> Task list \<times> OperationRecord list \<times> ServiceEvent list" where
  "trail_part db = (tasks_of db, db_operations db, db_events db)"

lemma trail_of_core: "core_part a = core_part b \<Longrightarrow> trail_part a = trail_part b"
  by (simp add: core_part_def trail_part_def)

lemma leaves_trail_of_core: "leaves core_part m \<Longrightarrow> leaves trail_part m"
  unfolding leaves_def using trail_of_core by blast

lemma state_versions_core: "core_part a = core_part b \<Longrightarrow> state_versions a = state_versions b"
  by (simp add: core_part_def state_versions_def tasks_of_def flip: map_map)

text \<open>A statement whose change keeps a part, inserted or executed.\<close>

lemma leaves_insert_unless: "(\<And>db. f (w db) = f db) \<Longrightarrow> leaves f (insert_unless taken w)"
  unfolding insert_unless_def by (rule leaves_statement) (auto split: if_splits)

lemma uncommitted_insert_unless [tx_uncommitted]: "uncommitted (insert_unless taken w)"
  unfolding insert_unless_def by (rule uncommitted_statement)

lemma insert_unless_ok:
  "insert_unless taken w s = (Inr x, s') \<Longrightarrow>
     \<not> taken (tx_view s) \<and> s' = s\<lparr>tx_faults := tl (tx_faults s), tx_view := w (tx_view s)\<rparr>"
  unfolding insert_unless_def by (drule statement_ok) (auto split: if_splits)

lemmas core_parts = core_part_def trail_part_def tasks_of_def

lemma tasks_of_set_pause [simp]: "tasks_of (set_pause h i at db) = tasks_of db"
  by (simp add: tasks_of_def set_pause_def comp_def if_distrib cong: if_cong)

lemma leaves_refresh [tx_leaves]:
  "leaves trail_part (refreshInitiativeLaunchResourceKeys ks)" "leaves trail_part (replaceInitiativeLaunchFacts u i b)"
  "leaves trail_part (refreshInitiativeLaunchFacts u i)" "leaves trail_part (refreshInitiativeLaunchFactsForTask u h)"
  "leaves trail_part (updateInitiativeRecord u i)" "leaves trail_part (refreshInitiativeAggregate u h v at)"
proof -
  show k: "leaves trail_part (refreshInitiativeLaunchResourceKeys ks)" for ks
    unfolding refreshInitiativeLaunchResourceKeys_def refreshInitiativeLaunchResourceHead_def
    by (intro tx_leaves leaves_execute) (simp_all add: core_parts)
  show r: "leaves trail_part (replaceInitiativeLaunchFacts u i b)" for i b
    unfolding replaceInitiativeLaunchFacts_def insert_launch_fact_def
    by (intro tx_leaves leaves_execute leaves_insert_unless k) (simp_all add: core_parts)
  show f: "leaves trail_part (refreshInitiativeLaunchFacts u i)" for i
    unfolding refreshInitiativeLaunchFacts_def by (rule r)
  show "leaves trail_part (refreshInitiativeLaunchFactsForTask u h)"
    unfolding refreshInitiativeLaunchFactsForTask_def by (intro tx_leaves f)
  show i: "leaves trail_part (updateInitiativeRecord u i)" for i
    unfolding updateInitiativeRecord_def
    by (intro tx_leaves leaves_statement f) (auto simp: core_parts)
  show "leaves trail_part (refreshInitiativeAggregate u h v at)"
    unfolding refreshInitiativeAggregate_def
    by (intro tx_leaves f i)
qed

lemma leaves_terminalConstraintFailure [tx_leaves]:
  "leaves f m \<Longrightarrow> leaves f (terminalConstraintFailure a m)"
  unfolding terminalConstraintFailure_def by (intro tx_leaves)

lemma leaves_core_writes [tx_leaves]:
  "leaves core_part (insertReplayConflict oper c d)" "leaves core_part (clearPauseRequest h)"
  "leaves core_part (updateManagedRunPreparation t p)" "leaves core_part (consumeTaskPreparationIntent pm)"
  "leaves core_part (insertManagedRunPreparation h p at)" "leaves core_part (putTerminalBinding b known)"
  "leaves core_part (rotateTerminalBinding b session)"
proof -
  show "leaves core_part (insertReplayConflict oper c d)"
    unfolding insertReplayConflict_def by (rule leaves_execute) (simp add: core_parts)
  show "leaves core_part (clearPauseRequest h)"
    unfolding clearPauseRequest_def by (intro tx_leaves leaves_execute) (simp add: core_part_def, simp add: set_pause_def)
  show "leaves core_part (updateManagedRunPreparation t p)"
    unfolding updateManagedRunPreparation_def by (intro tx_leaves leaves_statement) (auto simp: core_parts)
  show "leaves core_part (consumeTaskPreparationIntent pm)"
    unfolding consumeTaskPreparationIntent_def by (intro tx_leaves leaves_statement) (auto simp: core_parts)
  show "leaves core_part (insertManagedRunPreparation h p at)"
    unfolding insertManagedRunPreparation_def by (rule leaves_insert_unless) (simp add: core_parts)
  have u: "leaves core_part (update_terminal_bindings l change h session)" for l change h session
    unfolding update_terminal_bindings_def by (intro tx_leaves leaves_statement) (auto simp: core_parts Let_def split: if_splits)
  show "leaves core_part (putTerminalBinding b known)"
    unfolding putTerminalBinding_def by (intro tx_leaves u leaves_insert_unless) (simp add: core_parts)
  show "leaves core_part (rotateTerminalBinding b session)"
    unfolding rotateTerminalBinding_def by (rule u)
qed

lemma leaves_core_bodies [tx_leaves]:
  "leaves core_part (abandon_body u abm)" "leaves core_part (pause_body u tcm)" "leaves core_part (cancel_body u tcm)"
  "leaves core_part (no_record x t)" "leaves core_part (resume_record rsm c t)" "leaves core_part (steer_record ssm c t)"
  "leaves core_part (recordTaskReplacement rm p v w)"
proof -
  show "leaves core_part (abandon_body u abm)" unfolding abandon_body_def by (intro tx_leaves)
  show "leaves core_part (pause_body u tcm)"
    unfolding pause_body_def by (intro tx_leaves leaves_execute) (simp add: core_part_def, simp add: set_pause_def)
  show "leaves core_part (cancel_body u tcm)" unfolding cancel_body_def by (intro tx_leaves)
  show "leaves core_part (no_record x t)" unfolding no_record_def by (intro tx_leaves)
  show "leaves core_part (resume_record rsm c t)"
    unfolding resume_record_def by (intro tx_leaves leaves_insert_unless) (simp add: core_parts)
  show "leaves core_part (steer_record ssm c t)"
    unfolding steer_record_def by (intro tx_leaves leaves_insert_unless) (simp add: core_parts)
  show "leaves core_part (recordTaskReplacement rm p v w)"
    unfolding recordTaskReplacement_def by (intro tx_leaves leaves_insert_unless) (simp add: core_parts)
qed

section \<open>Nothing is durable before the commit\<close>

lemma uncommitted_terminalConstraintFailure [tx_uncommitted]:
  "uncommitted m \<Longrightarrow> uncommitted (terminalConstraintFailure a m)"
  unfolding terminalConstraintFailure_def by (intro tx_uncommitted)

lemma uncommitted_refresh [tx_uncommitted]:
  "uncommitted (refreshInitiativeLaunchResourceKeys ks)" "uncommitted (replaceInitiativeLaunchFacts u i b)"
  "uncommitted (refreshInitiativeLaunchFacts u i)" "uncommitted (refreshInitiativeLaunchFactsForTask u h)"
  "uncommitted (updateInitiativeRecord u i)" "uncommitted (refreshInitiativeAggregate u h v at)"
proof -
  show k: "uncommitted (refreshInitiativeLaunchResourceKeys ks)" for ks
    unfolding refreshInitiativeLaunchResourceKeys_def refreshInitiativeLaunchResourceHead_def by (intro tx_uncommitted)
  show r: "uncommitted (replaceInitiativeLaunchFacts u i b)" for i b
    unfolding replaceInitiativeLaunchFacts_def insert_launch_fact_def by (intro tx_uncommitted k)
  show f: "uncommitted (refreshInitiativeLaunchFacts u i)" for i
    unfolding refreshInitiativeLaunchFacts_def by (rule r)
  show "uncommitted (refreshInitiativeLaunchFactsForTask u h)"
    unfolding refreshInitiativeLaunchFactsForTask_def by (intro tx_uncommitted f)
  show i: "uncommitted (updateInitiativeRecord u i)" for i
    unfolding updateInitiativeRecord_def by (intro tx_uncommitted f)
  show "uncommitted (refreshInitiativeAggregate u h v at)"
    unfolding refreshInitiativeAggregate_def by (intro tx_uncommitted f i)
qed

lemma uncommitted_writes [tx_uncommitted]:
  "uncommitted (insertTask u t)" "uncommitted (insertOperation oper)" "uncommitted (insert_operation_labelled l oper)"
  "uncommitted (insertReplayConflict oper c d)" "uncommitted (clearPauseRequest h)"
  "uncommitted (updateManagedRunPreparation t p)" "uncommitted (consumeTaskPreparationIntent pm)"
  "uncommitted (insertManagedRunPreparation h p at)" "uncommitted (putTerminalBinding b known)"
  "uncommitted (rotateTerminalBinding b session)" "uncommitted (updateTaskState u t)"
  "uncommitted (mutationReplay i c d)"
proof -
  show "uncommitted (insertTask u t)" unfolding insertTask_def by (intro tx_uncommitted)
  show o: "uncommitted (insertOperation oper)" for oper unfolding insertOperation_def by (intro tx_uncommitted)
  show "uncommitted (insert_operation_labelled l oper)" unfolding insert_operation_labelled_def by (intro tx_uncommitted o)
  show c: "uncommitted (insertReplayConflict oper c d)" for oper unfolding insertReplayConflict_def by (intro tx_uncommitted)
  show "uncommitted (clearPauseRequest h)" unfolding clearPauseRequest_def by (intro tx_uncommitted)
  show "uncommitted (updateManagedRunPreparation t p)" unfolding updateManagedRunPreparation_def by (intro tx_uncommitted)
  show "uncommitted (consumeTaskPreparationIntent pm)" unfolding consumeTaskPreparationIntent_def by (intro tx_uncommitted)
  show "uncommitted (insertManagedRunPreparation h p at)" unfolding insertManagedRunPreparation_def by (intro tx_uncommitted)
  show "uncommitted (putTerminalBinding b known)"
    unfolding putTerminalBinding_def update_terminal_bindings_def by (intro tx_uncommitted)
  show "uncommitted (rotateTerminalBinding b session)"
    unfolding rotateTerminalBinding_def update_terminal_bindings_def by (intro tx_uncommitted)
  show "uncommitted (updateTaskState u t)"
    unfolding updateTaskState_def updateTaskStateWithReservationGuard_def appendTaskStateEvent_def appendServiceEvent_def
    by (intro tx_uncommitted)
  show "uncommitted (mutationReplay i c d)" unfolding mutationReplay_def by (intro tx_uncommitted c)
qed

lemma uncommitted_bodies [tx_uncommitted]:
  "uncommitted (abandon_body u abm)" "uncommitted (pause_body u tcm)" "uncommitted (cancel_body u tcm)"
  "uncommitted (no_record x t)" "uncommitted (resume_record rsm c t)" "uncommitted (steer_record ssm c t)"
  "uncommitted (recordTaskReplacement rm p v w)" "uncommitted (replace_record u rm p t)"
proof -
  show "uncommitted (abandon_body u abm)" unfolding abandon_body_def by (intro tx_uncommitted)
  show "uncommitted (pause_body u tcm)" unfolding pause_body_def by (intro tx_uncommitted)
  show "uncommitted (cancel_body u tcm)" unfolding cancel_body_def by (intro tx_uncommitted)
  show "uncommitted (no_record x t)" unfolding no_record_def by (intro tx_uncommitted)
  show "uncommitted (resume_record rsm c t)" unfolding resume_record_def by (intro tx_uncommitted)
  show "uncommitted (steer_record ssm c t)" unfolding steer_record_def by (intro tx_uncommitted)
  show r: "uncommitted (recordTaskReplacement rm p v w)" for v w unfolding recordTaskReplacement_def by (intro tx_uncommitted)
  show "uncommitted (replace_record u rm p t)"
    unfolding replace_record_def updateTaskBriefAndWorker_def by (intro tx_uncommitted r)
qed

lemma commits_last_new [tx_commits]:
  "uncommitted body \<Longrightarrow> (\<And>x t. uncommitted (spec_Record spec x t)) \<Longrightarrow> commits_last (commit_new_mutation u spec body)"
  "commits_last (commit_new_prepared u pm)" "commits_last (commit_new_activation u am)"
  "commits_last (commit_new_terminal_event u em)" "commits_last (commit_new_acknowledgement u wm)"
proof -
  show "commits_last (commit_new_mutation u spec body)"
    if "uncommitted body" "\<And>x t. uncommitted (spec_Record spec x t)"
    unfolding commit_new_mutation_def Let_def by (intro tx_commits tx_uncommitted that)
  show "commits_last (commit_new_prepared u pm)"
    unfolding commit_new_prepared_def Let_def by (intro tx_commits tx_uncommitted)
  show "commits_last (commit_new_activation u am)"
    unfolding commit_new_activation_def Let_def by (intro tx_commits tx_uncommitted)
  show "commits_last (commit_new_terminal_event u em)"
    unfolding commit_new_terminal_event_def Let_def by (intro tx_commits tx_uncommitted)
  show "commits_last (commit_new_acknowledgement u wm)"
    unfolding commit_new_acknowledgement_def Let_def by (intro tx_commits tx_uncommitted)
qed

section \<open>What a successful write did\<close>

definition moved_from :: "Task \<Rightarrow> Task \<Rightarrow> Task" where
  "moved_from t old = old\<lparr>task_State := task_State t, task_StateVersion := task_StateVersion t, task_UpdatedAt := task_UpdatedAt t\<rparr>"

definition state_event :: "Task \<Rightarrow> ServiceEvent" where
  "state_event task = \<lparr>ev_OccurredAt = task_UpdatedAt task, ev_Kind = EventTaskStateChanged, ev_TaskHandle = task_Handle task,
     ev_State = task_State task, ev_Reason = [], ev_StateVersion = task_StateVersion task\<rparr>"

lemma tasks_of_write_state:
  "tasks_of (write_state t db) = map (\<lambda>x. if task_Handle x = task_Handle t then moved_from t x else x) (tasks_of db)"
  by (simp add: tasks_of_def write_state_def moved_from_def comp_def if_distrib cong: if_cong)

lemma trail_of_write_state:
  "trail_part (write_state t db) =
     (map (\<lambda>x. if task_Handle x = task_Handle t then moved_from t x else x) (tasks_of db), db_operations db, db_events db)"
  by (simp add: trail_part_def tasks_of_write_state) (simp add: write_state_def)

lemma appendTaskStateEvent_ok:
  "appendTaskStateEvent t s = (Inr x, s') \<Longrightarrow>
     trail_part (tx_view s') = (tasks_of (tx_view s), db_operations (tx_view s), db_events (tx_view s) @ [state_event t])"
  unfolding appendTaskStateEvent_def appendServiceEvent_def
  by (auto simp: tx_ok core_parts state_event_def)

lemma updateTaskState_ok:
  assumes "updateTaskState u t s = (Inr x, s')"
  obtains row where "find_task_row (task_Handle t) (tx_view s) = Some row" "rows_of_task (task_Handle t) (tx_view s) = 1"
    "Task_Validate u t = None"
    "trail_part (tx_view s') = (map (\<lambda>x. if task_Handle x = task_Handle t then moved_from t x else x) (tasks_of (tx_view s)),
       db_operations (tx_view s),
       db_events (tx_view s) @ (if task_State (row_task row) = task_State t then [] else [state_event t]))"
proof -
  let ?h = "task_Handle t"
  from assms obtain found s1 previous s2 g s3 rows s4 where
    valid: "Task_Validate u t = None"
    and found: "(case found of None \<Rightarrow> refuse (PlainError ''sql: no rows in result set'')
                 | Some row \<Rightarrow> give (task_State (row_task row))) s1 = (Inr previous, s2)"
    and sel: "select (find_task_row ?h) s = (Inr found, s1)"
    and guard: "(if True then refuseReservedIntegrationTaskTransition ?h previous (task_State t) else give ()) s2 = (Inr g, s3)"
    and wrote: "statement (\<lambda>db. Inr (rows_of_task ?h db, write_state t db)) s3 = (Inr rows, s4)"
    and rest: "(if rows \<noteq> 1 then refuse (PlainError ''update task state: exact task was not updated'')
       else if previous = task_State t then give ()
       else andThen (appendTaskStateEvent t) (\<lambda>_.
            refreshInitiativeAggregate u ?h (task_StateVersion t) (task_UpdatedAt t))) s4 = (Inr x, s')"
    unfolding updateTaskState_def updateTaskStateWithReservationGuard_def tx_ok option.map_disc_iff
    by (elim exE conjE, hypsubst) (rule that)
  from sel have v1: "found = find_task_row ?h (tx_view s)" "tx_view s1 = tx_view s" by auto
  obtain row where row: "found = Some row" "previous = task_State (row_task row)" "s2 = s1"
    using found by (cases found) (auto simp: tx_ok)
  have "reads (if True then refuseReservedIntegrationTaskTransition ?h previous (task_State t) else give ())"
    by (intro tx_reads)
  from readsD [OF this guard] row v1 have v3: "tx_view s3 = tx_view s" by simp
  from statement_ok [OF wrote] v3 have v4: "rows = rows_of_task ?h (tx_view s)" "tx_view s4 = write_state t (tx_view s)" by auto
  from rest have one: "rows = 1" by (auto simp: tx_ok split: if_splits)
  have "trail_part (tx_view s') = (map (\<lambda>x. if task_Handle x = ?h then moved_from t x else x) (tasks_of (tx_view s)),
       db_operations (tx_view s),
       db_events (tx_view s) @ (if task_State (row_task row) = task_State t then [] else [state_event t]))"
  proof (cases "previous = task_State t")
    case True
    with rest one row v4 show ?thesis by (simp add: tx_ok trail_of_write_state)
  next
    case False
    with rest one obtain y s5 where s5: "appendTaskStateEvent t s4 = (Inr y, s5)"
      and agg: "refreshInitiativeAggregate u ?h (task_StateVersion t) (task_UpdatedAt t) s5 = (Inr x, s')"
      by (auto simp: tx_ok)
    have "leaves trail_part (refreshInitiativeAggregate u ?h (task_StateVersion t) (task_UpdatedAt t))" by (intro tx_leaves)
    from leavesD [OF this agg] have "trail_part (tx_view s') = trail_part (tx_view s5)" .
    with appendTaskStateEvent_ok [OF s5] v4 trail_of_write_state [of t "tx_view s"] False row show ?thesis
      by (simp add: trail_part_def)
  qed
  moreover have "find_task_row ?h (tx_view s) = Some row" using row v1 by simp
  ultimately show ?thesis using that valid one v4 by simp
qed

lemma insertOperation_ok:
  "insertOperation oper s = (Inr x, s') \<Longrightarrow>
     find_operation (op_ID oper) (tx_view s) = None \<and> OperationRecord_Validate oper = None \<and>
     trail_part (tx_view s') = (tasks_of (tx_view s), db_operations (tx_view s) @ [oper], db_events (tx_view s))"
  unfolding insertOperation_def
  by (auto simp: tx_ok core_parts find_operation_def find_None_iff dest!: insert_unless_ok)

lemma relabelled_ok:
  "andThen (attempt m) (\<lambda>r. case r of Inl e \<Rightarrow> refuse (g e) | Inr y \<Rightarrow> give y) s = (Inr x, s') \<longleftrightarrow> m s = (Inr x, s')"
proof (cases "m s")
  case (Pair r t)
  then show ?thesis by (cases r) (auto simp: andThen_def attempt_def give_def refuse_def)
qed

lemma operation_insertions_ok:
  "insert_operation_labelled l oper s = (Inr x, s') \<longleftrightarrow> insertOperation oper s = (Inr x, s')"
  "terminalConstraintFailure a m s = (Inr y, s') \<longleftrightarrow> m s = (Inr y, s')"
  unfolding insert_operation_labelled_def terminalConstraintFailure_def by (simp_all add: relabelled_ok)

lemma max_version_upper: "v \<in> set vs \<Longrightarrow> sint v \<le> sint (max_version vs)"
  by (induction vs rule: max_version.induct) (auto simp: Let_def)

lemma nextMutationStateVersion_ok:
  assumes "nextMutationStateVersion s = (Inr v, s')"
  shows "tx_view s' = tx_view s" "\<forall>w\<in>set (state_versions (tx_view s)). sint w < sint v"
    "sint v = sint (max_version (state_versions (tx_view s))) + 1"
proof -
  have "reads nextMutationStateVersion" by (intro tx_reads)
  with assms show "tx_view s' = tx_view s" by (blast dest: readsD)
  let ?m = "max_version (state_versions (tx_view s))"
  from assms have "?m \<noteq> MaxInt64" and v: "v = ?m + 1"
    unfolding nextMutationStateVersion_def currentStateVersion_def by (auto simp: tx_ok split: if_splits)
  then show s: "sint v = sint ?m + 1" by (simp add: sint64_inc_not_Max)
  show "\<forall>w\<in>set (state_versions (tx_view s)). sint w < sint v"
    using max_version_upper [of _ "state_versions (tx_view s)"] s by fastforce
qed

section \<open>The contract of a command\<close>

text \<open>What one new command did to the database: its task stored, its operation appended, one new version for both.\<close>

definition store_task :: "Task \<Rightarrow> Task list \<Rightarrow> Task list" where
  "store_task t ts = (if task_Handle t \<in> task_Handle ` set ts
     then map (\<lambda>x. if task_Handle x = task_Handle t then t else x) ts else ts @ [t])"

definition recorded :: "print_table \<Rightarrow> string \<Rightarrow> string \<Rightarrow> string \<Rightarrow> MutationResult \<Rightarrow> durable \<Rightarrow> durable \<Rightarrow> bool" where
  "recorded u opid command digest x db db' \<longleftrightarrow>
     (let t = res_Task x; oper = res_Operation x in
      find_operation opid db = None \<and> op_ID oper = opid \<and> op_Command oper = command \<and> op_SubjectDigest oper = digest \<and>
      op_ResultRef oper = task_Handle t \<and> op_StateVersion oper = task_StateVersion t \<and>
      (\<forall>w\<in>set (state_versions db). sint w < sint (task_StateVersion t)) \<and>
      OperationRecord_Validate oper = None \<and> Task_Validate u t = None \<and>
      tasks_of db' = store_task t (tasks_of db) \<and> db_operations db' = db_operations db @ [oper])"

lemma find_task_row_tasks_of: "map_option row_task (find_task_row h db) = find (\<lambda>t. task_Handle t = h) (tasks_of db)"
proof -
  have "map_option row_task (find (\<lambda>r. task_Handle (row_task r) = h) rs) = find (\<lambda>t. task_Handle t = h) (map row_task rs)" for rs
    by (induction rs) auto
  then show ?thesis by (simp add: find_task_row_def tasks_of_def)
qed

lemma rows_of_task_tasks_of: "rows_of_task h db = length (filter (\<lambda>t. task_Handle t = h) (tasks_of db))"
  by (simp add: rows_of_task_def tasks_of_def filter_map comp_def)

lemma only_row:
  assumes "length (filter (\<lambda>t. task_Handle t = h) ts) = 1" "a \<in> set ts" "task_Handle a = h" "b \<in> set ts" "task_Handle b = h"
  shows "a = b"
proof -
  obtain c where "filter (\<lambda>t. task_Handle t = h) ts = [c]"
    using assms(1) by (auto simp: length_Suc_conv)
  then have "set (filter (\<lambda>t. task_Handle t = h) ts) = {c}" by simp
  moreover have "a \<in> set (filter (\<lambda>t. task_Handle t = h) ts)" "b \<in> set (filter (\<lambda>t. task_Handle t = h) ts)"
    using assms(2-5) by simp_all
  ultimately show ?thesis by simp
qed

text \<open>Writing the moved columns of the only row stores exactly the moved task.\<close>

lemma store_moved:
  assumes one: "length (filter (\<lambda>x. task_Handle x = task_Handle t) ts) = 1"
    and old: "old \<in> set ts" "task_Handle old = task_Handle t" "t = moved_from t old"
  shows "map (\<lambda>x. if task_Handle x = task_Handle t then moved_from t x else x) ts = store_task t ts"
proof -
  have "moved_from t x = t" if "x \<in> set ts" "task_Handle x = task_Handle t" for x
    using only_row [OF one that old(1,2)] old(3) by simp
  moreover have "task_Handle t \<in> task_Handle ` set ts" using old(1,2) by (metis imageI)
  ultimately show ?thesis by (simp add: store_task_def cong: map_cong)
qed

text \<open>
  \<open>returns p Q m\<close>: \<open>m\<close> leaves the part \<open>p\<close> of the view alone, and what a successful \<open>m\<close> returns is
  related by \<open>Q\<close> to that part.
\<close>

definition returns :: "('db \<Rightarrow> 'p) \<Rightarrow> ('p \<Rightarrow> 'a \<Rightarrow> bool) \<Rightarrow> ('db, 'a) tx \<Rightarrow> bool" where
  "returns p Q m \<longleftrightarrow> leaves p m \<and> (\<forall>s x s'. m s = (Inr x, s') \<longrightarrow> Q (p (tx_view s)) x)"

named_theorems tx_returns \<open>what a step returns\<close>

lemma returnsD: "returns p Q m \<Longrightarrow> m s = (Inr x, s') \<Longrightarrow> Q (p (tx_view s)) x \<and> p (tx_view s') = p (tx_view s)"
  unfolding returns_def by (blast dest: leavesD)

lemma returns_weaken: "returns p P m \<Longrightarrow> (\<And>d x. P d x \<Longrightarrow> Q d x) \<Longrightarrow> returns p Q m"
  unfolding returns_def by blast

lemma returns_any: "leaves p m \<Longrightarrow> returns p (\<lambda>_ _. True) m"
  unfolding returns_def by blast

lemma returns_andThen:
  assumes "returns p P m" "\<And>x. returns p (\<lambda>d y. P d x \<longrightarrow> Q d y) (f x)"
  shows "returns p Q (andThen m f)"
  unfolding returns_def
proof (intro conjI allI impI)
  show "leaves p (andThen m f)" using assms unfolding returns_def by (intro tx_leaves) auto
  fix s y s'
  assume "andThen m f s = (Inr y, s')"
  then obtain x t where m: "m s = (Inr x, t)" and f: "f x t = (Inr y, s')" unfolding tx_ok by blast
  from returnsD [OF assms(1) m] returnsD [OF assms(2) f] show "Q (p (tx_view s)) y" by simp
qed

lemma returns_after:
  assumes "leaves p m" "\<And>x. returns p Q (f x)"
  shows "returns p Q (andThen m f)"
  using returns_andThen [OF returns_any [OF assms(1)], of Q f] assms(2) by simp

lemma returns_give: "(\<And>d. Q d x) \<Longrightarrow> returns p Q (give x)"
  unfolding returns_def by (auto simp: tx_ok intro: tx_leaves)

lemma returns_require: "returns p (\<lambda>_ _. c = None) (require c)"
  unfolding returns_def by (auto simp: tx_ok intro: tx_leaves)

lemma returns_refuse [simp, tx_returns]: "returns p Q (refuse e)"
  unfolding returns_def by (auto simp: tx_ok intro: tx_leaves)

lemma returns_if: "(b \<Longrightarrow> returns p Q m) \<Longrightarrow> (\<not> b \<Longrightarrow> returns p Q n) \<Longrightarrow> returns p Q (if b then m else n)"
  by simp

lemma returns_within: "returns p Q m \<Longrightarrow> returns p Q (within c m)"
  unfolding returns_def by (auto simp: tx_ok intro: tx_leaves)

text \<open>A body that moves a stored task, and changes nothing a version is chosen over.\<close>

definition stored_valid :: "print_table \<Rightarrow> Task list \<Rightarrow> Task \<Rightarrow> bool" where
  "stored_valid u ts old \<longleftrightarrow> old \<in> set ts \<and> Task_Validate u old = None"

definition moved_in :: "print_table \<Rightarrow> Task list \<Rightarrow> Task \<Rightarrow> bool" where
  "moved_in u ts t \<longleftrightarrow> (\<exists>old. stored_valid u ts old \<and> task_Handle old = task_Handle t \<and> t = moved_from t old)"

abbreviation moves :: "print_table \<Rightarrow> (Task \<times> 'x) store_tx \<Rightarrow> bool" where
  "moves u m \<equiv> returns core_part (\<lambda>d y. moved_in u (fst d) (fst y)) m"

lemma moved_from_self [simp]: "moved_from t t = t"
  by (simp add: moved_from_def)

lemma moved_from_stepped: "moved_from (stepped t st at) t = stepped t st at"
  by (simp add: moved_from_def stepped_def)

lemma moved_from_update:
  "moved_from (t\<lparr>task_StateVersion := v\<rparr>) old = (moved_from t old)\<lparr>task_StateVersion := v\<rparr>"
  "moved_from (t\<lparr>task_UpdatedAt := at\<rparr>) old = (moved_from t old)\<lparr>task_UpdatedAt := at\<rparr>"
  by (simp_all add: moved_from_def)

lemma handle_of_stepped [simp]: "task_Handle (stepped t st at) = task_Handle t"
  by (simp add: stepped_def)

lemma moved_in_stored: "stored_valid u ts t \<Longrightarrow> moved_in u ts t"
  unfolding moved_in_def by (rule exI [of _ t]) simp

lemma moved_from_steps:
  assumes "t = moved_from t old"
  shows "stepped t st at = moved_from (stepped t st at) old" "t\<lparr>task_UpdatedAt := at\<rparr> = moved_from (t\<lparr>task_UpdatedAt := at\<rparr>) old"
    "t\<lparr>task_StateVersion := v\<rparr> = moved_from (t\<lparr>task_StateVersion := v\<rparr>) old"
  using assms by (cases t; cases old; simp add: moved_from_def stepped_def)+

lemma moved_in_steps:
  assumes "moved_in u ts t"
  shows "moved_in u ts (stepped t st at)" "moved_in u ts (t\<lparr>task_UpdatedAt := at\<rparr>)" "moved_in u ts (t\<lparr>task_StateVersion := v\<rparr>)"
proof -
  from assms obtain old where old: "stored_valid u ts old" "task_Handle old = task_Handle t" and t: "t = moved_from t old"
    unfolding moved_in_def by blast
  show "moved_in u ts (stepped t st at)"
    unfolding moved_in_def by (intro exI [of _ old] conjI moved_from_steps(1) [OF t]) (simp_all add: old)
  show "moved_in u ts (t\<lparr>task_UpdatedAt := at\<rparr>)"
    unfolding moved_in_def by (intro exI [of _ old] conjI moved_from_steps(2) [OF t]) (simp_all add: old)
  show "moved_in u ts (t\<lparr>task_StateVersion := v\<rparr>)"
    unfolding moved_in_def by (intro exI [of _ old] conjI moved_from_steps(3) [OF t]) (simp_all add: old)
qed

lemma find_SomeD: "find P xs = Some x \<Longrightarrow> x \<in> set xs \<and> P x"
  by (induction xs) (auto split: if_splits)

lemma getTask_found:
  assumes "getTask u h s = (Inr t, s')"
  shows "find (\<lambda>x. task_Handle x = h) (tasks_of (tx_view s)) = Some t" "Task_Validate u t = None"
proof -
  from assms obtain found s1 where "select (find_task_row h) s = (Inr found, s1)"
    and row: "(case found of None \<Rightarrow> refuse ErrNotFound | Some row \<Rightarrow> yield (scanTask u row)) s1 = (Inr t, s')"
    unfolding getTask_def tx_ok by (elim exE conjE) (rule that)
  then have "found = find_task_row h (tx_view s)" by auto
  moreover obtain r where "found = Some r" "row_task r = t" and valid: "Task_Validate u t = None"
    using row by (cases found) (auto simp: tx_ok scanTask_def ensure_def split: option.splits)
  ultimately have "find_task_row h (tx_view s) = Some r" by simp
  then have "map_option row_task (find_task_row h (tx_view s)) = Some t" using \<open>row_task r = t\<close> by simp
  then show "find (\<lambda>x. task_Handle x = h) (tasks_of (tx_view s)) = Some t"
    using find_task_row_tasks_of [of h "tx_view s"] by simp
  show "Task_Validate u t = None" by (rule valid)
qed

lemma returns_getTask: "returns core_part (\<lambda>d t. stored_valid u (fst d) t \<and> task_Handle t = h) (getTask u h)"
  unfolding returns_def
proof (intro conjI allI impI tx_leaves)
  fix s t s'
  assume "getTask u h s = (Inr t, s')"
  note found = getTask_found [OF this]
  from find_SomeD [OF found(1)] found(2)
  show "stored_valid u (fst (core_part (tx_view s))) t" "task_Handle t = h"
    by (simp_all add: stored_valid_def core_part_def)
qed

lemma returns_applied:
  "returns p (\<lambda>_ t'. \<exists>st. nextTaskState (task_State t) tr = Some st \<and> t' = stepped t st at) (applied c (ApplyTransition u t tr at))"
  "returns p (\<lambda>_ t'. \<exists>st. nextTaskState (task_State t) tr = Some st \<and> t' = stepped t st at) (applied_bare (ApplyTransition u t tr at))"
  unfolding returns_def applied_def applied_bare_def
  by (cases "ApplyTransition u t tr at"; auto simp: tx_ok ApplyTransition_accepts intro: tx_leaves split: option.splits)+

lemma returns_scan_tasks: "returns core_part (\<lambda>d t. stored_valid u (fst d) t) (scan_tasks_of u l a matches)"
  unfolding returns_def
proof (intro conjI allI impI)
  show "leaves core_part (scan_tasks_of u l a matches)" by (intro store_reads_leave)
  fix s t s'
  assume run: "scan_tasks_of u l a matches s = (Inr t, s')"
  have each: "set ts \<subseteq> {t. stored_valid u (tasks_of (tx_view s)) t} \<and> s2 = s1"
    if "each (\<lambda>row. yield (scanTask u row)) rs s1 = (Inr ts, s2)" "set rs \<subseteq> set (db_tasks (tx_view s))" for rs ts s1 s2
    using that
  proof (induction rs arbitrary: ts s1)
    case (Cons r rs)
    then obtain t' ts' where "scanTask u r = Inr t'" "ts = t' # ts'"
      and rest: "each (\<lambda>row. yield (scanTask u row)) rs s1 = (Inr ts', s2)"
      by (auto simp: tx_ok)
    moreover from this have "t' = row_task r" "Task_Validate u t' = None" by (auto simp: scanTask_def ensure_def split: option.splits)
    ultimately show ?case using Cons.IH [OF rest] Cons.prems(2) by (auto simp: stored_valid_def tasks_of_def)
  qed (simp add: tx_ok)
  from run obtain rows s1 found s2 where "select (\<lambda>db. filter matches (db_tasks db)) s = (Inr rows, s1)"
    and rows: "each (\<lambda>row. yield (scanTask u row)) rows s1 = (Inr found, s2)"
    and last: "(case found of [task] \<Rightarrow> give task | _ \<Rightarrow> refuse (WrapError a ErrPrecondition)) s2 = (Inr t, s')"
    unfolding scan_tasks_of_def tx_ok by (elim exE conjE) (rule that)
  then have "rows = filter matches (db_tasks (tx_view s))" by auto
  then have "set found \<subseteq> {t. stored_valid u (tasks_of (tx_view s)) t}" using each [OF rows] by auto
  moreover have "found = [t]" using last by (auto simp: tx_ok split: list.splits)
  ultimately show "stored_valid u (fst (core_part (tx_view s))) t" by (simp add: core_part_def)
qed

lemmas returns_steps =
  returns_andThen [OF returns_getTask] returns_andThen [OF returns_scan_tasks] returns_andThen [OF returns_applied(1)] returns_andThen [OF returns_applied(2)]
  returns_andThen [OF returns_require] returns_if returns_refuse returns_within returns_after returns_give

lemma moves_bodies:
  "moves u (abandon_body u abm)" "moves u (pause_body u tcm)" "moves u (resume_body u rsm)" "moves u (steer_body u ssm)"
  "moves u (verify_body u tcm)" "moves u (cancel_body u tcm)" "moves u (managed_run_cancel_body u mrc)"
proof -
  show "moves u (pause_body u tcm)" unfolding pause_body_def
    by (intro returns_steps tx_leaves leaves_execute) (auto simp: core_part_def set_pause_def tasks_of_def intro: moved_in_stored)
  show "moves u (steer_body u ssm)" unfolding steer_body_def
    by (intro returns_steps tx_leaves) (auto intro: moved_in_stored)
  show "moves u (abandon_body u abm)" unfolding abandon_body_def Let_def
    by (intro returns_steps tx_leaves) (auto intro: moved_in_stored moved_in_steps)
  show "moves u (resume_body u rsm)" unfolding resume_body_def
    by (intro returns_steps tx_leaves) (auto intro: moved_in_stored moved_in_steps)
  show "moves u (verify_body u tcm)" unfolding verify_body_def
    by (intro returns_steps tx_leaves) (auto intro: moved_in_stored moved_in_steps)
  have c: "returns core_part (\<lambda>d t'. stored_valid u (fst d) t \<longrightarrow> moved_in u (fst d) t') (cancelTaskState u t at)" for t at
    unfolding cancelTaskState_def
    by (intro returns_steps tx_leaves returns_weaken [OF returns_applied(2)]) (auto intro: moved_in_stored moved_in_steps)
  show "moves u (cancel_body u tcm)" unfolding cancel_body_def
    by (intro returns_andThen [OF returns_within [OF c]] returns_steps tx_leaves) (auto intro: moved_in_stored)
  show "moves u (managed_run_cancel_body u mrc)" unfolding managed_run_cancel_body_def getTaskByManagedRun_def
    by (intro returns_steps tx_leaves) (auto intro: moved_in_stored moved_in_steps)
qed

section \<open>What a new command recorded\<close>

text \<open>The trail of a command: an event with the new state exactly when the state of the task changed.\<close>

definition trailed :: "Task \<Rightarrow> durable \<Rightarrow> durable \<Rightarrow> bool" where
  "trailed t db db' \<longleftrightarrow> db_events db' = db_events db @
     (if \<exists>old\<in>set (tasks_of db). task_Handle old = task_Handle t \<and> task_State old = task_State t then [] else [state_event t])"

definition move_in :: "Task \<Rightarrow> Task list \<Rightarrow> Task list" where
  "move_in t ts = map (\<lambda>x. if task_Handle x = task_Handle t then moved_from t x else x) ts"

definition one_row :: "Task \<Rightarrow> Task list \<Rightarrow> bool" where
  "one_row t ts \<longleftrightarrow> length (filter (\<lambda>x. task_Handle x = task_Handle t) ts) = 1"

lemma move_in_stores: "moved_in u ts t \<Longrightarrow> one_row t ts \<Longrightarrow> move_in t ts = store_task t ts"
  using store_moved by (auto simp: moved_in_def stored_valid_def one_row_def move_in_def)

lemma update_and_record:
  assumes update: "updateTaskState u t s1 = (Inr a, s2)" and insertion: "insertOperation oper s2 = (Inr b, s3)"
  shows "tasks_of (tx_view s3) = move_in t (tasks_of (tx_view s1))" "db_operations (tx_view s3) = db_operations (tx_view s1) @ [oper]"
    "trailed t (tx_view s1) (tx_view s3)"
    "find_operation (op_ID oper) (tx_view s1) = None" "OperationRecord_Validate oper = None" "Task_Validate u t = None"
    "one_row t (tasks_of (tx_view s1))"
proof -
  let ?ts = "tasks_of (tx_view s1)"
  from updateTaskState_ok [OF update] obtain row where
    row: "find_task_row (task_Handle t) (tx_view s1) = Some row" and one: "rows_of_task (task_Handle t) (tx_view s1) = 1"
    and valid: "Task_Validate u t = None"
    and trail: "trail_part (tx_view s2) = (move_in t ?ts, db_operations (tx_view s1),
       db_events (tx_view s1) @ (if task_State (row_task row) = task_State t then [] else [state_event t]))"
    unfolding move_in_def by blast
  from one have len: "length (filter (\<lambda>x. task_Handle x = task_Handle t) ?ts) = 1" by (simp add: rows_of_task_tasks_of)
  then show "one_row t ?ts" by (simp add: one_row_def)
  have "find (\<lambda>x. task_Handle x = task_Handle t) ?ts = Some (row_task row)"
    using row find_task_row_tasks_of [of "task_Handle t" "tx_view s1"] by simp
  then have in_ts: "row_task row \<in> set ?ts" "task_Handle (row_task row) = task_Handle t" by (auto dest: find_SomeD)
  then have same: "(\<exists>old\<in>set ?ts. task_Handle old = task_Handle t \<and> task_State old = task_State t) \<longleftrightarrow> task_State (row_task row) = task_State t"
    using only_row [OF len] by metis
  from insertOperation_ok [OF insertion]
  have ins: "find_operation (op_ID oper) (tx_view s2) = None" "OperationRecord_Validate oper = None"
    and trail3: "trail_part (tx_view s3) = (tasks_of (tx_view s2), db_operations (tx_view s2) @ [oper], db_events (tx_view s2))"
    by blast+
  from trail ins(1) show "find_operation (op_ID oper) (tx_view s1) = None" by (simp add: find_operation_def trail_part_def)
  show "OperationRecord_Validate oper = None" "Task_Validate u t = None" by (rule ins(2)) (rule valid)
  from trail trail3 show "tasks_of (tx_view s3) = move_in t ?ts" "db_operations (tx_view s3) = db_operations (tx_view s1) @ [oper]"
    "trailed t (tx_view s1) (tx_view s3)"
    unfolding trailed_def same by (simp_all add: trail_part_def)
qed

lemma completed_sel [simp]:
  "op_ID (completedMutationOperation i c d r v at) = i" "op_Command (completedMutationOperation i c d r v at) = c"
  "op_SubjectDigest (completedMutationOperation i c d r v at) = d" "op_ResultRef (completedMutationOperation i c d r v at) = r"
  "op_StateVersion (completedMutationOperation i c d r v at) = v"
  by (simp_all add: completedMutationOperation_def)

lemma recordedI:
  assumes core: "core_part (tx_view s1) = core_part (tx_view s)"
    and version: "nextMutationStateVersion s1 = (Inr v, s2)"
    and operation: "oper = completedMutationOperation opid command digest (task_Handle t) v at" "task_StateVersion t = v"
    and update: "updateTaskState u t s2 = (Inr a, s3)" and insertion: "insertOperation oper s3 = (Inr b, s4)"
    and stores: "one_row t (tasks_of (tx_view s)) \<Longrightarrow> tasks_of (tx_view s4) = move_in t (tasks_of (tx_view s)) \<Longrightarrow>
      tasks_of db' = store_task t (tasks_of (tx_view s))"
    and rest: "db_operations db' = db_operations (tx_view s4)" "db_events db' = db_events (tx_view s4)"
    and result: "res_Task x = t" "res_Operation x = oper"
  shows "recorded u opid command digest x (tx_view s) db' \<and> trailed t (tx_view s) db'"
proof -
  note v = nextMutationStateVersion_ok [OF version]
  from core v(1) have parts: "tasks_of (tx_view s2) = tasks_of (tx_view s)" "db_operations (tx_view s2) = db_operations (tx_view s)"
    "db_events (tx_view s2) = db_events (tx_view s)"
    by (simp_all add: core_part_def)
  have versions: "state_versions (tx_view s1) = state_versions (tx_view s)" using core by (rule state_versions_core)
  note w = update_and_record [OF update insertion, unfolded parts]
  have "tasks_of db' = store_task t (tasks_of (tx_view s))" using w(7,1) by (rule stores)
  moreover have "trailed t (tx_view s) db'" using w(3) rest(2) by (simp add: trailed_def parts)
  moreover have "find_operation opid (tx_view s) = None" using w(4) operation(1) by (simp add: find_operation_def parts)
  ultimately show ?thesis
    using w(2,5,6) rest(1) operation v(2) by (simp add: recorded_def result versions)
qed

lemma commit_new_mutation_ok:
  assumes run: "commit_new_mutation u spec body s = (Inr (x, c), s')"
    and body: "returns core_part Q body"
  obtains moved v t oper s1 s2 a s3 b s4 d s5 where
    "Q (core_part (tx_view s)) (moved, c)" "core_part (tx_view s1) = core_part (tx_view s)"
    "nextMutationStateVersion s1 = (Inr v, s2)" "t = moved\<lparr>task_StateVersion := v\<rparr>"
    "oper = completedMutationOperation (spec_OperationID spec) (spec_Command spec) (spec_SubjectDigest spec) (task_Handle t) v (spec_At spec)"
    "updateTaskState u t s2 = (Inr a, s3)" "insertOperation oper s3 = (Inr b, s4)"
    "spec_Record spec c t s4 = (Inr d, s5)" "tx_view s' = tx_view s5" "res_Task x = t" "res_Operation x = oper"
proof -
  define op_of where "op_of t v = completedMutationOperation (spec_OperationID spec) (spec_Command spec) (spec_SubjectDigest spec)
    (task_Handle t) v (spec_At spec)" for t :: Task and v
  from run obtain y s1 v s2 a s3 b s4 d s5 e s6 where
    m: "body s = (Inr y, s1)" and v: "nextMutationStateVersion s1 = (Inr v, s2)"
    and rest: "updateTaskState u ((fst y)\<lparr>task_StateVersion := v\<rparr>) s2 = (Inr a, s3)"
      "insertOperation (op_of ((fst y)\<lparr>task_StateVersion := v\<rparr>) v) s3 = (Inr b, s4)"
      "spec_Record spec (snd y) ((fst y)\<lparr>task_StateVersion := v\<rparr>) s4 = (Inr d, s5)"
    and commit: "commit s5 = (Inr e, s6)"
    and result: "(x, c) = (\<lparr>res_Task = (fst y)\<lparr>task_StateVersion := v\<rparr>,
       res_Operation = op_of ((fst y)\<lparr>task_StateVersion := v\<rparr>) v, res_Preparation = None\<rparr>, snd y)" "s' = s6"
    unfolding commit_new_mutation_def Let_def case_prod_beta tx_ok operation_insertions_ok op_of_def [symmetric]
    by (elim exE conjE) (rule that)
  from returnsD [OF body m] have "Q (core_part (tx_view s)) (fst y, c)" "core_part (tx_view s1) = core_part (tx_view s)"
    using result(1) by simp_all
  moreover from commit result have "tx_view s' = tx_view s5" "snd y = c" by auto
  ultimately show ?thesis
    using that v rest result(1) unfolding op_of_def by simp
qed

text \<open>A new mutation records its command, when its recorder changes nothing but \<open>g\<close> of the tasks and the body fits it.\<close>

lemma commit_new_mutation_recorded:
  assumes run: "commit_new_mutation u spec body s = (Inr (x, c), s')"
    and body: "returns core_part (\<lambda>d y. P (fst d) (fst y)) body"
    and recorder: "\<And>c t s d s'. spec_Record spec c t s = (Inr d, s') \<Longrightarrow>
      trail_part (tx_view s') = (map (g t) (tasks_of (tx_view s)), db_operations (tx_view s), db_events (tx_view s))"
    and stores: "\<And>ts m v. P ts m \<Longrightarrow> one_row (m\<lparr>task_StateVersion := v\<rparr>) ts \<Longrightarrow>
      map (g (m\<lparr>task_StateVersion := v\<rparr>)) (move_in (m\<lparr>task_StateVersion := v\<rparr>) ts) = store_task (m\<lparr>task_StateVersion := v\<rparr>) ts"
  shows "recorded u (spec_OperationID spec) (spec_Command spec) (spec_SubjectDigest spec) x (tx_view s) (tx_view s') \<and>
    trailed (res_Task x) (tx_view s) (tx_view s')"
proof (rule commit_new_mutation_ok [OF run body])
  fix moved v t oper s1 s2 a s3 b s4 d s5
  assume moved: "P (fst (core_part (tx_view s))) (fst (moved, c))" and core: "core_part (tx_view s1) = core_part (tx_view s)"
    and version: "nextMutationStateVersion s1 = (Inr v, s2)" and t: "t = moved\<lparr>task_StateVersion := v\<rparr>"
    and oper: "oper = completedMutationOperation (spec_OperationID spec) (spec_Command spec) (spec_SubjectDigest spec) (task_Handle t) v (spec_At spec)"
    and writes: "updateTaskState u t s2 = (Inr a, s3)" "insertOperation oper s3 = (Inr b, s4)"
    and noted: "spec_Record spec c t s4 = (Inr d, s5)" "tx_view s' = tx_view s5" and result: "res_Task x = t" "res_Operation x = oper"
  have P: "P (tasks_of (tx_view s)) moved" using moved by (simp add: core_part_def)
  note after = recorder [OF noted(1), folded noted(2)]
  have sv: "task_StateVersion t = v" by (simp add: t)
  have "recorded u (spec_OperationID spec) (spec_Command spec) (spec_SubjectDigest spec) x (tx_view s) (tx_view s') \<and>
    trailed t (tx_view s) (tx_view s')"
  proof (rule recordedI [OF core version oper sv writes _ _ _ result])
    show "db_operations (tx_view s') = db_operations (tx_view s4)" "db_events (tx_view s') = db_events (tx_view s4)"
      using after by (simp_all add: trail_part_def)
    assume "one_row t (tasks_of (tx_view s))" "tasks_of (tx_view s4) = move_in t (tasks_of (tx_view s))"
    then show "tasks_of (tx_view s') = store_task t (tasks_of (tx_view s))"
      using stores [OF P] after by (simp add: t trail_part_def)
  qed
  then show ?thesis by (simp add: result)
qed

lemma moving_mutation_recorded:
  assumes run: "commit_new_mutation u spec body s = (Inr (x, c), s')"
    and body: "moves u body" and recorder: "\<And>c t. leaves core_part (spec_Record spec c t)"
  shows "recorded u (spec_OperationID spec) (spec_Command spec) (spec_SubjectDigest spec) x (tx_view s) (tx_view s') \<and>
    trailed (res_Task x) (tx_view s) (tx_view s')"
proof (rule commit_new_mutation_recorded [OF run body, of "\<lambda>t x. x"])
  fix c t s d s'
  assume "spec_Record spec c t s = (Inr d, s')"
  from leavesD [OF leaves_trail_of_core [OF recorder] this]
  show "trail_part (tx_view s') = (map (\<lambda>x. x) (tasks_of (tx_view s)), db_operations (tx_view s), db_events (tx_view s))"
    by (simp add: trail_part_def)
next
  fix ts m v
  assume "moved_in u ts m" "one_row (m\<lparr>task_StateVersion := v\<rparr>) ts"
  then show "map (\<lambda>x. x) (move_in (m\<lparr>task_StateVersion := v\<rparr>) ts) = store_task (m\<lparr>task_StateVersion := v\<rparr>) ts"
    by (auto intro: move_in_stores moved_in_steps)
qed

text \<open>A replacement also writes the brief and the worker of the stored task.\<close>

definition repinned_from :: "Task \<Rightarrow> Task \<Rightarrow> Task" where
  "repinned_from t old = old\<lparr>task_WorkerProfileID := task_WorkerProfileID t, task_BriefRevision := task_BriefRevision t,
     task_BriefRevisionHash := task_BriefRevisionHash t\<rparr>"

definition replaced_in :: "print_table \<Rightarrow> Task list \<Rightarrow> Task \<Rightarrow> bool" where
  "replaced_in u ts t \<longleftrightarrow> (\<exists>old. stored_valid u ts old \<and> task_Handle old = task_Handle t \<and> t = repinned_from t (moved_from t old))"

lemma PinBriefRevision_ok: "PinBriefRevision u t = Inr t' \<Longrightarrow> \<exists>h. t' = t\<lparr>task_BriefRevisionHash := h\<rparr>"
  by (auto simp: PinBriefRevision_def Let_def ensure_def split: option.splits sum.splits)

lemma returns_pin: "returns p (\<lambda>_ t'. \<exists>h. t' = t\<lparr>task_BriefRevisionHash := h\<rparr>) (within c (yield (PinBriefRevision u t)))"
  unfolding returns_def by (auto simp: tx_ok dest: PinBriefRevision_ok intro: tx_leaves)

lemma replaced_in_body:
  assumes "stored_valid u ts old"
  shows "replaced_in u ts ((stepped (stepped old st at) st' at')\<lparr>task_WorkerProfileID := w, task_BriefRevision := r, task_BriefRevisionHash := h\<rparr>)"
  unfolding replaced_in_def
  by (rule exI [of _ old], use assms in \<open>cases old; simp add: repinned_from_def moved_from_def stepped_def\<close>)

lemma returns_replace_body: "returns core_part (\<lambda>d y. replaced_in u (fst d) (fst y)) (replace_body u rm)"
  unfolding replace_body_def
  by (intro returns_andThen [OF returns_pin] returns_steps tx_leaves) (auto intro: replaced_in_body)

definition repin :: "Task \<Rightarrow> Task \<Rightarrow> Task" where
  "repin t x = (if task_Handle x = task_Handle t then repinned_from t x else x)"

lemma tasks_of_write_brief_and_worker: "tasks_of (write_brief_and_worker t db) = map (repin t) (tasks_of db)"
  by (simp add: tasks_of_def write_brief_and_worker_def repin_def repinned_from_def comp_def if_distrib cong: if_cong)

lemma replace_record_ok:
  assumes "replace_record u m p t s = (Inr d, s')"
  shows "trail_part (tx_view s') = (map (repin t) (tasks_of (tx_view s)), db_operations (tx_view s), db_events (tx_view s))"
proof -
  let ?rest = "\<lambda>rows. if rows \<noteq> 1 then refuse (PlainError ''update task brief and worker: exact task was not updated'')
      else refreshInitiativeLaunchFactsForTask u (task_Handle t)"
  from assms obtain rows s1 x1 s2 where
    upd: "statement (\<lambda>db. Inr (rows_of_task (task_Handle t) db, write_brief_and_worker t db)) s = (Inr rows, s1)"
    and ref: "?rest rows s1 = (Inr x1, s2)"
    and rec: "recordTaskReplacement m p (task_BriefRevision t) (task_StateVersion t) s2 = (Inr d, s')"
    unfolding replace_record_def updateTaskBriefAndWorker_def tx_ok by (elim exE conjE) (rule that)
  from statement_ok [OF upd] have s1: "tx_view s1 = write_brief_and_worker t (tx_view s)" by auto
  have l: "leaves trail_part (?rest rows)" "leaves trail_part (recordTaskReplacement m p (task_BriefRevision t) (task_StateVersion t))"
    by (intro tx_leaves, intro leaves_trail_of_core tx_leaves)
  from leavesD [OF l(1) ref] leavesD [OF l(2) rec] s1
  have "trail_part (tx_view s') = trail_part (write_brief_and_worker t (tx_view s))" by simp
  then show ?thesis
    by (simp add: trail_part_def tasks_of_write_brief_and_worker) (simp add: write_brief_and_worker_def)
qed

lemma repin_stores:
  assumes "replaced_in u ts t" "one_row t ts"
  shows "map (repin t) (move_in t ts) = store_task t ts"
proof -
  from assms(1) obtain old where old: "old \<in> set ts" "task_Handle old = task_Handle t" "t = repinned_from t (moved_from t old)"
    by (auto simp: replaced_in_def stored_valid_def)
  have "repin t (moved_from t x) = t" if "x \<in> set ts" "task_Handle x = task_Handle t" for x
    using only_row [OF assms(2) [unfolded one_row_def] that old(1,2)] old(2,3) by (simp add: repin_def moved_from_def)
  moreover have "task_Handle t \<in> task_Handle ` set ts" using old(1,2) by (metis imageI)
  moreover have "repin t x = x" if "task_Handle x \<noteq> task_Handle t" for x using that by (simp add: repin_def)
  ultimately show ?thesis by (simp add: store_task_def move_in_def cong: map_cong)
qed

lemma replaced_in_version: "replaced_in u ts t \<Longrightarrow> replaced_in u ts (t\<lparr>task_StateVersion := v\<rparr>)"
  unfolding replaced_in_def
proof (elim exE conjE)
  fix old
  assume old: "stored_valid u ts old" "task_Handle old = task_Handle t" and t: "t = repinned_from t (moved_from t old)"
  have "t\<lparr>task_StateVersion := v\<rparr> = repinned_from (t\<lparr>task_StateVersion := v\<rparr>) (moved_from (t\<lparr>task_StateVersion := v\<rparr>) old)"
    using t by (cases t; cases old; simp add: repinned_from_def moved_from_def)
  with old show "\<exists>old. stored_valid u ts old \<and> task_Handle old = task_Handle (t\<lparr>task_StateVersion := v\<rparr>) \<and>
      t\<lparr>task_StateVersion := v\<rparr> = repinned_from (t\<lparr>task_StateVersion := v\<rparr>) (moved_from (t\<lparr>task_StateVersion := v\<rparr>) old)"
    by (intro exI [of _ old]) simp
qed

lemma replacement_recorded:
  assumes run: "commit_new_mutation u spec (replace_body u m) s = (Inr (x, c), s')"
    and recorder: "spec_Record spec = replace_record u rm"
  shows "recorded u (spec_OperationID spec) (spec_Command spec) (spec_SubjectDigest spec) x (tx_view s) (tx_view s') \<and>
    trailed (res_Task x) (tx_view s) (tx_view s')"
proof (rule commit_new_mutation_recorded [OF run returns_replace_body, of repin])
  fix c t s d s'
  assume "spec_Record spec c t s = (Inr d, s')"
  then show "trail_part (tx_view s') = (map (repin t) (tasks_of (tx_view s)), db_operations (tx_view s), db_events (tx_view s))"
    unfolding recorder by (rule replace_record_ok)
next
  fix ts t v
  assume "replaced_in u ts t" "one_row (t\<lparr>task_StateVersion := v\<rparr>) ts"
  then show "map (repin (t\<lparr>task_StateVersion := v\<rparr>)) (move_in (t\<lparr>task_StateVersion := v\<rparr>) ts) = store_task (t\<lparr>task_StateVersion := v\<rparr>) ts"
    by (intro repin_stores replaced_in_version)
qed

lemma if_refuse_ok: "(if c then refuse e else m) s = (Inr y, s') \<longleftrightarrow> \<not> c \<and> m s = (Inr y, s')"
  by (simp add: tx_ok)

lemmas inversion = tx_ok if_refuse_ok case_prod_beta option.map_disc_iff operation_insertions_ok

lemma insertTask_ok:
  "insertTask u t s = (Inr x, s') \<Longrightarrow> task_Handle t \<notin> task_Handle ` set (tasks_of (tx_view s)) \<and> Task_Validate u t = None \<and>
     trail_part (tx_view s') = (tasks_of (tx_view s) @ [t], db_operations (tx_view s), db_events (tx_view s))"
proof -
  assume "insertTask u t s = (Inr x, s')"
  then have v: "Task_Validate u t = None" and i: "insert_unless (\<lambda>db. \<exists>r\<in>set (db_tasks db). task_Handle (row_task r) = task_Handle t)
      (\<lambda>db. db\<lparr>db_tasks := db_tasks db @ [\<lparr>row_task = t, row_pause_requested_operation_id = [], row_pause_requested_at = None\<rparr>]\<rparr>)
      s = (Inr x, s')"
    unfolding insertTask_def by (auto simp: andThen_ok [where m = "require (Task_Validate u t)"] require_ok relabelled_ok)
  from insert_unless_ok [OF i] v show ?thesis by (auto simp: trail_part_def tasks_of_def)
qed

lemma prepared_recorded:
  assumes run: "commit_new_prepared u m s = (Inr x, s')"
  shows "recorded u (pm_OperationID m) ''PrepareTask'' (pm_SubjectDigest m) x (tx_view s) (tx_view s') \<and>
    db_events (tx_view s') = db_events (tx_view s)"
proof -
  define task where "task v = (pm_Task m)\<lparr>task_StateVersion := v\<rparr>" for v
  define oper where "oper v = completedMutationOperation (pm_OperationID m) ''PrepareTask'' (pm_SubjectDigest m)
    (task_Handle (task v)) v (pm_At m)" for v
  from run obtain a s1 v s2 b s3 c s4 d s5 e s6 where
    consumed: "consumeTaskPreparationIntent m s = (Inr a, s1)" and version: "nextMutationStateVersion s1 = (Inr v, s2)"
    and task: "insertTask u (task v) s2 = (Inr b, s3)"
    and prep: "insertManagedRunPreparation (task_Handle (task v)) (pm_Preparation m) (pm_At m) s3 = (Inr c, s4)"
    and oper: "insertOperation (oper v) s4 = (Inr d, s5)" and commit: "commit s5 = (Inr e, s6)" "s' = s6"
    and x: "x = \<lparr>res_Task = task v, res_Operation = oper v, res_Preparation = Some (pm_Preparation m)\<rparr>"
    unfolding commit_new_prepared_def Let_def inversion task_def [symmetric] oper_def [symmetric]
    by (elim exE conjE) (rule that, simp_all)
  have l: "leaves core_part (consumeTaskPreparationIntent m)"
    "leaves core_part (insertManagedRunPreparation (task_Handle (task v)) (pm_Preparation m) (pm_At m))" by (intro tx_leaves)+
  note core = leavesD [OF l(1) consumed] and w = nextMutationStateVersion_ok [OF version]
  note versions = state_versions_core [OF core]
  from insertTask_ok [OF task] have t: "task_Handle (task v) \<notin> task_Handle ` set (tasks_of (tx_view s2))" "Task_Validate u (task v) = None"
    and trail3: "trail_part (tx_view s3) = (tasks_of (tx_view s2) @ [task v], db_operations (tx_view s2), db_events (tx_view s2))"
    by blast+
  have trail4: "trail_part (tx_view s4) = trail_part (tx_view s3)" by (rule trail_of_core) (rule leavesD [OF l(2) prep])
  from insertOperation_ok [OF oper]
  have o: "find_operation (op_ID (oper v)) (tx_view s4) = None" "OperationRecord_Validate (oper v) = None"
    and trail5: "trail_part (tx_view s5) = (tasks_of (tx_view s4), db_operations (tx_view s4) @ [oper v], db_events (tx_view s4))"
    by blast+
  from commit have v5: "tx_view s' = tx_view s5" by auto
  show ?thesis
    using core w t trail3 trail4 trail5 o v5 versions
    by (simp add: recorded_def x core_part_def trail_part_def store_task_def find_operation_def oper_def task_def)
qed

text \<open>The activation binds the stored preparation; its event trail stays as it was.\<close>

definition bound_from :: "Task \<Rightarrow> Task \<Rightarrow> Task" where
  "bound_from t old = (moved_from t old)\<lparr>task_ManagedRunID := task_ManagedRunID t, task_WorkspaceLeaseID := task_WorkspaceLeaseID t,
     task_ExecutionAttachmentID := task_ExecutionAttachmentID t, task_AttachmentTargetName := task_AttachmentTargetName t\<rparr>"

lemma trail_of_write_binding:
  "trail_part (write_binding t db) =
     (map (\<lambda>x. if task_Handle x = task_Handle t then bound_from t x else x) (tasks_of db), db_operations db, db_events db)"
  by (simp add: trail_part_def tasks_of_def write_binding_def bound_from_def moved_from_def comp_def if_distrib cong: if_cong)

lemma store_bound:
  assumes "length (filter (\<lambda>x. task_Handle x = task_Handle t) ts) = 1"
    and old: "old \<in> set ts" "task_Handle old = task_Handle t" "t = bound_from t old"
  shows "map (\<lambda>x. if task_Handle x = task_Handle t then bound_from t x else x) ts = store_task t ts"
proof -
  have "bound_from t x = t" if "x \<in> set ts" "task_Handle x = task_Handle t" for x
    using only_row [OF assms(1) that old(1,2)] old(3) by simp
  moreover have "task_Handle t \<in> task_Handle ` set ts" using old(1,2) by (metis imageI)
  ultimately show ?thesis by (simp add: store_task_def cong: map_cong)
qed

lemma applied_binding_ok:
  assumes "applied c (AcknowledgeBinding u t b at) s = (Inr t', s')"
  shows "s' = s" "task_Handle t' = task_Handle t" "t' = bound_from t' t"
proof -
  from assms have s: "s' = s" and a: "AcknowledgeBinding u t b at = (t', None)"
    unfolding applied_def by (cases "AcknowledgeBinding u t b at"; auto simp: tx_ok split: option.splits)+
  show "s' = s" by (rule s)
  from a have "t' = t \<or> (\<exists>st. t' = stepped (t\<lparr>task_ManagedRunID := bind_ManagedRunID b, task_WorkspaceLeaseID := bind_WorkspaceLeaseID b\<rparr>) st at)"
    by (auto simp: AcknowledgeBinding_accepts ApplyTransition_accepts)
  then show "task_Handle t' = task_Handle t" "t' = bound_from t' t"
    by (cases t; auto simp: bound_from_def moved_from_def stepped_def)+
qed

lemma activation_recorded:
  assumes run: "commit_new_activation u m s = (Inr (x::MutationResult), s')"
  shows "recorded u (act_OperationID m) ''ActivateManagedRun'' (act_SubjectDigest m) x (tx_view s) (tx_view s') \<and>
    db_events (tx_view s') = db_events (tx_view s)"
proof -
  define bound where "bound acked v = acked\<lparr>task_ExecutionAttachmentID := act_ExecutionAttachmentID m,
    task_AttachmentTargetName := act_AttachmentTargetName m, task_StateVersion := v\<rparr>" for acked :: Task and v
  define oper where "oper t v = completedMutationOperation (act_OperationID m) ''ActivateManagedRun'' (act_SubjectDigest m)
    (task_Handle t) v (act_At m)" for t :: Task and v
  from run obtain task s1 prep s2 acked s3 v s4 rows s5 a s6 e s7 where
    get: "getTask u (act_ExternalRunRef m) s = (Inr task, s1)" and prep: "getManagedRunPreparation task s1 = (Inr prep, s2)"
    and ack: "applied ''apply managed-run activation'' (AcknowledgeBinding u task (act_Binding m) (act_At m)) s2 = (Inr acked, s3)"
    and version: "nextMutationStateVersion s3 = (Inr v, s4)" and valid: "Task_Validate u (bound acked v) = None"
    and upd: "statement (\<lambda>db. Inr (rows_of_task (task_Handle (bound acked v)) db, write_binding (bound acked v) db)) s4 = (Inr rows, s5)"
    and rows: "\<not> rows \<noteq> 1" and oper: "insertOperation (oper (bound acked v) v) s5 = (Inr a, s6)" and commit: "commit s6 = (Inr e, s7)" "s' = s7"
    and x: "x = \<lparr>res_Task = bound acked v, res_Operation = oper (bound acked v) v, res_Preparation = None\<rparr>"
    unfolding commit_new_activation_def Let_def inversion bound_def [symmetric] oper_def [symmetric]
    by (elim exE conjE) (rule that, simp_all)
  from returnsD [OF returns_getTask get] have task: "task \<in> set (tasks_of (tx_view s))"
    by (simp add: stored_valid_def core_part_def)
  have "reads (getTask u (act_ExternalRunRef m))" "reads (getManagedRunPreparation task)" by (intro tx_reads)+
  from readsD [OF this(1) get] readsD [OF this(2) prep] applied_binding_ok(1) [OF ack]
  have v3: "tx_view s3 = tx_view s" by simp
  note w = nextMutationStateVersion_ok [OF version, unfolded v3]
  let ?t = "bound acked v"
  from applied_binding_ok(2,3) [OF ack] have t: "task_Handle task = task_Handle ?t" "?t = bound_from ?t task"
    by (cases task; cases acked; simp add: bound_def bound_from_def moved_from_def)+
  from statement_ok [OF upd] rows w(1) have one: "rows_of_task (task_Handle ?t) (tx_view s) = 1"
    and v5: "tx_view s5 = write_binding ?t (tx_view s)" by auto
  have tasks5: "tasks_of (tx_view s5) = store_task ?t (tasks_of (tx_view s))"
    using store_bound [OF one [unfolded rows_of_task_tasks_of] task t] trail_of_write_binding [of ?t "tx_view s"] v5
    by (simp add: trail_part_def)
  from trail_of_write_binding [of ?t "tx_view s"] v5
  have rest5: "db_operations (tx_view s5) = db_operations (tx_view s)" "db_events (tx_view s5) = db_events (tx_view s)"
    by (simp_all add: trail_part_def)
  from insertOperation_ok [OF oper] commit show ?thesis
    using w(2) valid tasks5 rest5 by (auto simp: recorded_def x trail_part_def find_operation_def oper_def bound_def)
qed

lemma returns_event_transition:
  "stored_valid u ts t \<Longrightarrow> returns core_part (\<lambda>d t'. fst d = ts \<longrightarrow> moved_in u (fst d) t') (event_transition u m t tb)"
  unfolding event_transition_def
  by (intro returns_steps tx_leaves returns_weaken [OF returns_applied(1)]) (auto intro: moved_in_stored moved_in_steps)

lemma terminal_event_recorded:
  assumes run: "commit_new_terminal_event u m s = (Inr (x::MutationResult), s')"
  shows "recorded u (tem_OperationID m) ''RecordTerminalEvent'' (tem_SubjectDigest m) x (tx_view s) (tx_view s') \<and>
    trailed (res_Task x) (tx_view s) (tx_view s')"
proof -
  define final where "final task moved v = (if task_State moved = task_State task then moved\<lparr>task_UpdatedAt := tem_At m\<rparr> else moved)
    \<lparr>task_StateVersion := v\<rparr>" for task moved :: Task and v
  define oper where "oper t v = completedMutationOperation (tem_OperationID m) ''RecordTerminalEvent'' (tem_SubjectDigest m)
    (task_Handle t) v (tem_At m)" for t :: Task and v
  define put_it where "put_it found speaking binding = (if snd speaking
      then rotateTerminalBinding binding (case found of Some b \<Rightarrow> tb_terminalSessionID b | None \<Rightarrow> [])
      else putTerminalBinding binding (found \<noteq> None))" for found :: "storedTerminalBinding option" and speaking :: "storedTerminalBinding \<times> bool" and binding
  define record_event where "record_event task = insert_unless
    (\<lambda>db. \<exists>e\<in>set (db_terminal_events db). te_operation_id e = tem_OperationID m)
    (\<lambda>db. db\<lparr>db_terminal_events := db_terminal_events db @
       [\<lparr>te_operation_id = tem_OperationID m, te_task_handle = task_Handle task,
         te_managed_run_id = tem_ManagedRunID m, te_workspace_lease_id = tem_WorkspaceLeaseID m,
         te_terminal_session_id = tem_TerminalSessionID m, te_transition = tem_Transition m,
         te_observed_at = tem_At m\<rparr>]\<rparr>)" for task :: Task
  define ask where "ask found task = (if found \<noteq> None \<and> tem_Transition m = TerminalLost
    then lastSettledTerminalPosture (task_Handle task) (tem_TerminalSessionID m) else give None)"
    for found :: "storedTerminalBinding option" and task :: Task
  from run obtain task s1 found s2 speaking posture s3 moved s4 v s5 a s6 b s7 c s8 d s9 e where
    get: "getTaskByBinding u (tem_ManagedRunID m) (tem_WorkspaceLeaseID m) s = (Inr task, s1)"
    and found: "findTerminalBinding (task_Handle task) s1 = (Inr found, s2)" and posture: "ask found task s2 = (Inr posture, s3)"
    and moved: "event_transition u m task (observe m posture (fst speaking)) s3 = (Inr moved, s4)"
    and version: "nextMutationStateVersion s4 = (Inr v, s5)"
    and writes: "updateTaskState u (final task moved v) s5 = (Inr a, s6)" "insertOperation (oper (final task moved v) v) s6 = (Inr b, s7)"
    and put: "put_it found speaking (observe m posture (fst speaking)) s7 = (Inr c, s8)" and event: "record_event task s8 = (Inr d, s9)"
    and commit: "commit s9 = (Inr e, s')"
    and x: "x = \<lparr>res_Task = final task moved v, res_Operation = oper (final task moved v) v, res_Preparation = None\<rparr>"
    unfolding commit_new_terminal_event_def Let_def inversion final_def [symmetric] oper_def [symmetric] put_it_def [symmetric]
      record_event_def [symmetric] ask_def [symmetric]
    by (elim exE conjE, hypsubst) (rule that, (assumption | rule refl)+)
  have l: "leaves core_part (findTerminalBinding (task_Handle task))" "leaves core_part (ask found task)"
    "leaves core_part (put_it found speaking (observe m posture (fst speaking)))" "leaves core_part (record_event task)"
    unfolding ask_def put_it_def record_event_def by (intro tx_leaves leaves_insert_unless; simp add: core_parts)+
  from returnsD [OF returns_scan_tasks get [unfolded getTaskByBinding_def]]
  have task: "stored_valid u (tasks_of (tx_view s)) task" and c1: "core_part (tx_view s1) = core_part (tx_view s)"
    by (simp_all add: core_part_def)
  from leavesD [OF l(1) found] leavesD [OF l(2) posture] c1 have c3: "core_part (tx_view s3) = core_part (tx_view s)" by simp
  from returnsD [OF returns_event_transition [OF task] moved] c3
  have "moved_in u (tasks_of (tx_view s)) moved" and core: "core_part (tx_view s4) = core_part (tx_view s)"
    by (auto simp: core_part_def)
  then have fin: "moved_in u (tasks_of (tx_view s)) (final task moved v)" by (simp add: final_def moved_in_steps)
  have after: "trail_part (tx_view s') = trail_part (tx_view s7)"
    using leavesD [OF leaves_trail_of_core [OF l(3)] put] leavesD [OF leaves_trail_of_core [OF l(4)] event] commit by auto
  have "recorded u (tem_OperationID m) ''RecordTerminalEvent'' (tem_SubjectDigest m) x (tx_view s) (tx_view s') \<and>
    trailed (final task moved v) (tx_view s) (tx_view s')"
    using after by (intro recordedI [OF core version oper_def _ writes])
      (simp_all add: trail_part_def move_in_stores [OF fin] x, simp add: final_def)
  then show ?thesis by (simp add: x)
qed

lemma acknowledgement_recorded:
  assumes run: "commit_new_acknowledgement u m s = (Inr (x::MutationResult), s')"
  shows "recorded u (wam_OperationID m) ''AcknowledgeWorkerLaunch'' (wam_SubjectDigest m) x (tx_view s) (tx_view s') \<and>
    trailed (res_Task x) (tx_view s) (tx_view s')"
proof -
  let ?ack = "wam_Acknowledgement m"
  define final where "final moved v = moved\<lparr>task_StateVersion := v\<rparr>" for moved :: Task and v
  define oper where "oper t v = completedMutationOperation (wam_OperationID m) ''AcknowledgeWorkerLaunch'' (wam_SubjectDigest m)
    (task_Handle t) v (wam_At m)" for t :: Task and v
  define ready where "ready found task \<longleftrightarrow> (case found of Some b \<Rightarrow> tb_runningObserved b | None \<Rightarrow> False) \<or>
    task_WorkerProfileID task = ''fixture-worker''" for found :: "storedTerminalBinding option" and task :: Task
  define move where "move found task = (if ready found task
    then applied ''apply worker launch acknowledgement'' (ApplyTransition u task TransitionWorkerAcknowledged (wam_At m))
    else give (task\<lparr>task_UpdatedAt := wam_At m\<rparr>))" for found :: "storedTerminalBinding option" and task :: Task
  define record_ack where "record_ack task v = insert_unless
    (\<lambda>db. \<exists>a\<in>set (db_launch_acks db). la_operation_id a = wam_OperationID m)
    (\<lambda>db. db\<lparr>db_launch_acks := db_launch_acks db @
       [\<lparr>la_operation_id = wam_OperationID m, la_task_handle = task_Handle task,
         la_managed_run_id = ack_ManagedRunID ?ack, la_workspace_lease_id = ack_WorkspaceLeaseID ?ack,
         la_working_directory = ack_WorkingDirectory ?ack, la_brief_revision = ack_BriefRevision ?ack,
         la_brief_revision_hash = ack_BriefRevisionHash ?ack,
         la_launch_state_version = v, la_acknowledged_at = wam_At m\<rparr>]\<rparr>)" for task :: Task and v
  from run obtain task s1 prep s2 found s3 launch s4 moved s5 v s6 a s7 b s8 c s9 e where
    get: "getTask u (ack_TaskHandle ?ack) s = (Inr task, s1)" and prep: "getManagedRunPreparation task s1 = (Inr prep, s2)"
    and found: "findTerminalBinding (task_Handle task) s2 = (Inr found, s3)"
    and launch: "currentTaskLaunchStateVersion (task_Handle task) s3 = (Inr launch, s4)"
    and moved: "move found task s4 = (Inr moved, s5)" and version: "nextMutationStateVersion s5 = (Inr v, s6)"
    and writes: "updateTaskState u (final moved v) s6 = (Inr a, s7)" "insertOperation (oper (final moved v) v) s7 = (Inr b, s8)"
    and ack: "record_ack task launch s8 = (Inr c, s9)" and commit: "commit s9 = (Inr e, s')"
    and x: "x = \<lparr>res_Task = final moved v, res_Operation = oper (final moved v) v, res_Preparation = None\<rparr>"
    unfolding commit_new_acknowledgement_def Let_def inversion ready_def [symmetric] move_def [symmetric] final_def [symmetric]
      oper_def [symmetric] record_ack_def [symmetric]
    by (elim exE conjE, hypsubst) (rule that, (assumption | rule refl)+)
  have l: "leaves core_part (getManagedRunPreparation task)" "leaves core_part (findTerminalBinding (task_Handle task))"
    "leaves core_part (currentTaskLaunchStateVersion (task_Handle task))" "leaves core_part (record_ack task launch)"
    unfolding record_ack_def by (intro tx_leaves leaves_insert_unless; simp add: core_parts)+
  from returnsD [OF returns_getTask get]
  have task: "stored_valid u (tasks_of (tx_view s)) task" and c1: "core_part (tx_view s1) = core_part (tx_view s)"
    by (simp_all add: core_part_def)
  from leavesD [OF l(1) prep] leavesD [OF l(2) found] leavesD [OF l(3) launch] c1
  have c4: "core_part (tx_view s4) = core_part (tx_view s)" by simp
  have "returns core_part (\<lambda>d t'. \<exists>st. t' = stepped task st (wam_At m) \<or> t' = task\<lparr>task_UpdatedAt := wam_At m\<rparr>) (move found task)"
    unfolding move_def by (intro returns_steps returns_weaken [OF returns_applied(1)]) auto
  from returnsD [OF this moved] c4 task
  have "moved_in u (tasks_of (tx_view s)) moved" and core: "core_part (tx_view s5) = core_part (tx_view s)"
    by (auto intro: moved_in_stored moved_in_steps)
  then have fin: "moved_in u (tasks_of (tx_view s)) (final moved v)" by (simp add: final_def moved_in_steps)
  have after: "trail_part (tx_view s') = trail_part (tx_view s8)"
    using leavesD [OF leaves_trail_of_core [OF l(4)] ack] commit by auto
  have "recorded u (wam_OperationID m) ''AcknowledgeWorkerLaunch'' (wam_SubjectDigest m) x (tx_view s) (tx_view s') \<and>
    trailed (final moved v) (tx_view s) (tx_view s')"
    using after by (intro recordedI [OF core version oper_def _ writes])
      (simp_all add: trail_part_def move_in_stores [OF fin] x, simp add: final_def)
  then show ?thesis by (simp add: x)
qed

section \<open>The replay check\<close>

definition conflict_row :: "OperationRecord \<Rightarrow> string \<Rightarrow> string \<Rightarrow> ReplayConflictRow" where
  "conflict_row original command digest =
     \<lparr>conflict_operation_id = op_ID original, conflict_original_command = op_Command original,
      conflict_original_subject_digest = op_SubjectDigest original,
      conflict_presented_command = command, conflict_presented_subject_digest = digest\<rparr>"

definition audited :: "OperationRecord \<Rightarrow> string \<Rightarrow> string \<Rightarrow> durable \<Rightarrow> durable" where
  "audited original command digest db = db\<lparr>db_conflicts := db_conflicts db @ [conflict_row original command digest]\<rparr>"

definition differs :: "OperationRecord \<Rightarrow> string \<Rightarrow> string \<Rightarrow> bool" where
  "differs oper command digest \<longleftrightarrow> op_Command oper \<noteq> command \<or> op_SubjectDigest oper \<noteq> digest"

lemma getOperation_ok:
  assumes "getOperation i s = (Inr oper, s')"
  shows "find_operation i (tx_view s) = Some oper" "tx_view s' = tx_view s"
proof -
  have "reads (getOperation i)" by (intro tx_reads)
  with assms show "tx_view s' = tx_view s" by (blast dest: readsD)
  from assms obtain found s1 o1 s2 where sel: "select (find_operation i) s = (Inr found, s1)"
    and got: "(case found of None \<Rightarrow> refuse ErrNotFound | Some operation \<Rightarrow> give operation) s1 = (Inr o1, s2)" and "oper = o1"
    unfolding getOperation_def tx_ok by (elim exE conjE) (rule that)
  then have "found = Some oper" by (cases found) (simp_all add: tx_ok)
  with sel show "find_operation i (tx_view s) = Some oper" by auto
qed

lemma mutationReplay_run:
  assumes "getOperation i s = (q, t)"
  shows "q = Inl e \<Longrightarrow> mutationReplay i c d s = (if errors_Is e ErrNotFound then Inr None else Inl e, t)"
    and "q = Inr oper \<Longrightarrow> \<not> differs oper c d \<Longrightarrow> mutationReplay i c d s =
      (if op_ResultRef oper = [] then Inl (PlainError ''operation replay has no result reference'') else Inr (Some oper), t)"
    and "q = Inr oper \<Longrightarrow> differs oper c d \<Longrightarrow> mutationReplay i c d s =
      andThen (within ''audit operation altered replay'' (insertReplayConflict oper c d)) (\<lambda>_.
        refuse (WrapError ''operation altered replay'' ErrConflict)) t"
proof -
  have opened: "andThen (attempt (getOperation i)) f s = f q t" for f :: "go_error + OperationRecord \<Rightarrow> OperationRecord option store_tx"
    using assms by (simp add: andThen_def attempt_def)
  show "q = Inl e \<Longrightarrow> mutationReplay i c d s = (if errors_Is e ErrNotFound then Inr None else Inl e, t)"
    unfolding mutationReplay_def opened by (simp add: give_def refuse_def)
  show "q = Inr oper \<Longrightarrow> \<not> differs oper c d \<Longrightarrow> mutationReplay i c d s =
      (if op_ResultRef oper = [] then Inl (PlainError ''operation replay has no result reference'') else Inr (Some oper), t)"
    unfolding mutationReplay_def opened differs_def by (simp add: give_def refuse_def)
  show "q = Inr oper \<Longrightarrow> differs oper c d \<Longrightarrow> mutationReplay i c d s =
      andThen (within ''audit operation altered replay'' (insertReplayConflict oper c d)) (\<lambda>_.
        refuse (WrapError ''operation altered replay'' ErrConflict)) t"
    unfolding mutationReplay_def opened differs_def by simp
qed

lemma insertReplayConflict_view:
  assumes "insertReplayConflict oper c d t = (q, t')"
  shows "tx_view t' = (case q of Inl _ \<Rightarrow> tx_view t | Inr _ \<Rightarrow> audited oper c d (tx_view t))"
proof (cases q)
  case (Inl e)
  with assms have "t' = t\<lparr>tx_faults := tl (tx_faults t)\<rparr>"
    unfolding insertReplayConflict_def execute_def by (blast dest: statement_refused)
  with Inl show ?thesis by simp
next
  case (Inr x)
  with assms have "t' = t\<lparr>tx_faults := tl (tx_faults t), tx_view := audited oper c d (tx_view t)\<rparr>"
    unfolding insertReplayConflict_def audited_def conflict_row_def by (blast dest: execute_ok)
  with Inr show ?thesis by simp
qed

text \<open>What the check leaves in the view and says, without any assumption on the driver.\<close>

lemma mutationReplay_cases:
  assumes run: "mutationReplay i command digest s = (r, s')"
  obtains (consistent) "tx_view s' = tx_view s" "\<And>oper. r = Inr (Some oper) \<Longrightarrow> find_operation i (tx_view s) = Some oper \<and> \<not> differs oper command digest"
  | (altered) oper where "find_operation i (tx_view s) = Some oper" "differs oper command digest"
       "r = Inl (WrapError ''operation altered replay'' ErrConflict)" "tx_view s' = audited oper command digest (tx_view s)"
proof -
  obtain q t where q: "getOperation i s = (q, t)" by fastforce
  note step = mutationReplay_run [OF q]
  have "reads (getOperation i)" by (intro tx_reads)
  from readsD [OF this q] have view: "tx_view t = tx_view s" by simp
  show thesis
  proof (cases q)
    case (Inl e)
    with step(1) run have "s' = t" "r = (if errors_Is e ErrNotFound then Inr None else Inl e)" by auto
    then show thesis using view by (intro consistent) (simp_all split: if_splits)
  next
    case (Inr oper)
    with q have found: "find_operation i (tx_view s) = Some oper" by (blast dest: getOperation_ok)
    show thesis
    proof (cases "differs oper command digest")
      case False
      with step(2) [OF Inr] run have "s' = t" "r = Inr (Some oper') \<Longrightarrow> oper' = oper" for oper' by (auto split: if_splits)
      then show thesis using view found False by (intro consistent) auto
    next
      case True
      obtain q2 t2 where q2: "insertReplayConflict oper command digest t = (q2, t2)" by fastforce
      note view2 = insertReplayConflict_view [OF q2, unfolded view]
      from step(3) [OF Inr True] run
      have run': "andThen (within ''audit operation altered replay'' (insertReplayConflict oper command digest)) (\<lambda>_.
        refuse (WrapError ''operation altered replay'' ErrConflict)) t = (r, s')" by simp
      show thesis
      proof (cases q2)
        case (Inl e)
        with run' q2 have "s' = t2" "r = Inl (WrapError ''audit operation altered replay'' e)"
          by (simp_all add: andThen_def within_def)
        then show thesis using view2 Inl by (intro consistent) simp_all
      next
        case (Inr x)
        with run' q2 have "s' = t2" "r = Inl (WrapError ''operation altered replay'' ErrConflict)"
          by (simp_all add: andThen_def within_def refuse_def)
        then show thesis using view2 Inr found True by (intro altered) simp_all
      qed
    qed
  qed
qed

end
