(* ===== verification/Launch_Frontier.thy ===== *)
theory Launch_Frontier
  imports Launch_Authority Store_Contract
begin

text \<open>
  The frontier of \<open>initiativeSchedulingFrontier\<close> always returns, and it grants a start exactly as one pass
  over all launch facts in order would: pages, heads and the queue only save reading.
\<close>

section \<open>What the queries return\<close>

lemma each_scans:
  "each (page_fact turn) rows s = (Inr page, s') \<Longrightarrow> page = rows \<and> s' = s"
proof (induction rows arbitrary: page)
  case (Cons row rows)
  then obtain l ls s1 where row: "page_fact turn row s = (Inr l, s1)" and rest: "each (page_fact turn) rows s1 = (Inr ls, s')"
    and page: "page = l # ls"
    unfolding each.simps tx_ok by (elim exE conjE) (rule that, (assumption | simp)+)
  from row have "l = row \<and> s1 = s"
    by (auto simp: page_fact_def tx_ok scanInitiativeLaunchFact_def ensure_def split: if_splits option.splits)
  with Cons.IH rest page show ?case by simp
qed (simp add: tx_ok)

lemma page_rows_no_profile: "free_profiles limits usage = [] \<Longrightarrow> page_rows turn cursor limits usage n db = []"
  by (simp add: page_rows_def)

lemma loadHeads_ok:
  assumes "loadHeads turn limits fr s = (Inr fr', s')"
  shows "fr' = absorb (page_rows turn (fr_cursor fr) limits (fr_usage fr) initiativeSchedulingPageSize (tx_view s)) fr \<and> tx_view s' = tx_view s"
proof -
  from assms obtain page where page: "initiativeLaunchFactPage turn (fr_cursor fr) limits (fr_usage fr) initiativeSchedulingPageSize s = (Inr page, s')"
    and fr': "fr' = absorb page fr"
    by (auto simp: loadHeads_def tx_ok)
  have "page = page_rows turn (fr_cursor fr) limits (fr_usage fr) initiativeSchedulingPageSize (tx_view s) \<and> tx_view s' = tx_view s"
  proof (cases "free_profiles limits (fr_usage fr) = []")
    case True
    with page show ?thesis by (simp add: initiativeLaunchFactPage_def tx_ok page_rows_no_profile)
  next
    case False
    with page obtain rows s1 where "select (page_rows turn (fr_cursor fr) limits (fr_usage fr) initiativeSchedulingPageSize) s = (Inr rows, s1)"
      and "each (page_fact turn) rows s1 = (Inr page, s')"
      unfolding initiativeLaunchFactPage_def if_not_P [OF False] tx_ok by (elim exE conjE) (rule that)
    then show ?thesis by (auto dest!: each_scans)
  qed
  with fr' show ?thesis by simp
qed

lemma after_resource_ok:
  assumes "initiativeLaunchFactAfterResource l s = (Inr found, s')"
  shows "tx_view s' = tx_view s \<and> found = (case facts_after l (tx_view s) of [] \<Rightarrow> None | f # _ \<Rightarrow> Some f)"
proof -
  from assms obtain rows s1 where "select (\<lambda>db. take 1 (facts_after l db)) s = (Inr rows, s1)"
    and rest: "(case rows of [] \<Rightarrow> give None | row # _ \<Rightarrow> andThen (yield (scanInitiativeLaunchFact row)) (\<lambda>f.
         if fact_key f \<noteq> fact_key l then refuse (PlainError ''stored initiative resource frontier differs'')
         else give (Some f))) s1 = (Inr found, s')"
    unfolding initiativeLaunchFactAfterResource_def tx_ok by (elim exE conjE) (rule that)
  then have rows: "rows = take 1 (facts_after l (tx_view s))" "tx_view s1 = tx_view s" by auto
  show ?thesis
  proof (cases "facts_after l (tx_view s)")
    case Nil
    with rows rest show ?thesis by (simp add: tx_ok)
  next
    case (Cons f fs)
    with rows rest show ?thesis
      by (auto simp: tx_ok scanInitiativeLaunchFact_def ensure_def split: if_splits option.splits)
  qed
qed

lemma reads_queries [tx_reads]:
  "reads (loadHeads turn limits fr)" "reads (initiativeLaunchFactAfterResource l)" "reads (initiativeLaunchFactForTask t)"
  "reads initiativeSchedulingUsage" "reads (initiativeSchedulingCandidates u i h limits usage)"
  unfolding loadHeads_def initiativeLaunchFactPage_def page_fact_def initiativeLaunchFactAfterResource_def
    initiativeLaunchFactForTask_def initiativeSchedulingUsage_def initiativeSchedulingCandidates_def
  by (intro tx_reads)+

section \<open>The frontier returns\<close>

text \<open>A page moves the cursor past a head or ends the heads; a fact taken makes way for a later one of its resource.\<close>

definition heads_left :: "durable \<Rightarrow> frontier \<Rightarrow> nat" where
  "heads_left db fr = length (filter (\<lambda>l. fr_cursor fr < fact_order l) (db_launch_heads db)) + (if fr_moreHeads fr then 1 else 0)"

definition facts_left :: "durable \<Rightarrow> frontier \<Rightarrow> nat" where
  "facts_left db fr = sum_list (map (\<lambda>l. Suc (length (facts_after l db))) (fr_queue fr))"

lemma length_filter_less:
  "x \<in> set xs \<Longrightarrow> Q x \<Longrightarrow> \<not> P x \<Longrightarrow> (\<And>y. P y \<Longrightarrow> Q y) \<Longrightarrow> length (filter P xs) < length (filter Q xs)"
proof (induction xs)
  case (Cons a xs)
  have "length (filter P xs) \<le> length (filter Q xs)"
    using Cons.prems(4) by (induction xs) auto
  with Cons show ?case by (cases "x = a") auto
qed simp

lemma page_rows_member:
  "l \<in> set (page_rows turn cursor limits usage n db) \<Longrightarrow>
     l \<in> set (db_launch_heads db) \<and> fact_round l = turn \<and> cursor < fact_order l"
  by (auto simp: page_rows_def dest!: in_set_takeD)

lemma absorb_heads_left:
  assumes "fr_moreHeads fr"
  shows "heads_left db (absorb (page_rows turn (fr_cursor fr) limits usage n db) fr) < heads_left db fr"
proof (cases "page_rows turn (fr_cursor fr) limits usage n db = []")
  case True
  with assms show ?thesis by (simp add: absorb_def heads_left_def)
next
  case False
  let ?l = "List.last (page_rows turn (fr_cursor fr) limits usage n db)"
  from False have "?l \<in> set (page_rows turn (fr_cursor fr) limits usage n db)" by simp
  from page_rows_member [OF this] have "?l \<in> set (db_launch_heads db)" "fr_cursor fr < fact_order ?l" by simp_all
  then have "length (filter (\<lambda>l. fact_order ?l < fact_order l) (db_launch_heads db)) <
      length (filter (\<lambda>l. fr_cursor fr < fact_order l) (db_launch_heads db))"
    by (intro length_filter_less) auto
  with False assms show ?thesis by (simp add: absorb_def heads_left_def)
qed

lemma facts_after_next:
  "facts_after l db = f # fs \<Longrightarrow> length (facts_after f db) < length (facts_after l db)"
proof -
  assume next_fact: "facts_after l db = f # fs"
  then have f: "f \<in> set (facts_after l db)" by simp
  then have "f \<in> set (db_launch_facts db)" "fact_key f = fact_key l" "fact_order l < fact_order f"
    by (simp_all add: facts_after_def)
  then show ?thesis by (auto simp: facts_after_def intro!: length_filter_less)
qed

lemma sum_list_push: "sum_list (map g (push l q)) = g l + (sum_list (map g q) :: nat)"
  by (induction q) (auto simp: push_def)

lemma refill_returns:
  "\<exists>r s'. refill turn limits fr s = Some (r, s') \<and> tx_view s' = tx_view s \<and> tx_durable s' = tx_durable s \<and>
     (\<forall>fr'. r = Inr fr' \<longrightarrow> fr' = fr \<or> heads_left (tx_view s) fr' < heads_left (tx_view s) fr)"
proof (induction "heads_left (tx_view s) fr" arbitrary: fr s rule: less_induct)
  case less
  show ?case
  proof (cases "fr_moreHeads fr \<and> fr_cursor fr < fact_order (hd (fr_queue fr))")
    case False
    then show ?thesis by (subst refill.simps) auto
  next
    case True
    obtain q s1 where load: "loadHeads turn limits fr s = (q, s1)" by fastforce
    have view: "tx_view s1 = tx_view s" "tx_durable s1 = tx_durable s" using readsD [OF reads_queries(1) load] by simp_all
    have run: "refill turn limits fr s = step (loadHeads turn limits fr) (refill turn limits) s"
      using True by (subst refill.simps) simp
    show ?thesis
    proof (cases q)
      case (Inl e)
      with run load view show ?thesis by (simp add: step_def)
    next
      case (Inr fr1)
      with load loadHeads_ok have "fr1 = absorb (page_rows turn (fr_cursor fr) limits (fr_usage fr) initiativeSchedulingPageSize (tx_view s)) fr"
        by blast
      with absorb_heads_left True have fewer: "heads_left (tx_view s) fr1 < heads_left (tx_view s) fr" by simp
      from less [of s1 fr1] this view obtain r s' where rest: "refill turn limits fr1 s1 = Some (r, s')" "tx_view s' = tx_view s" "tx_durable s' = tx_durable s"
        "\<forall>fr'. r = Inr fr' \<longrightarrow> fr' = fr1 \<or> heads_left (tx_view s) fr' < heads_left (tx_view s) fr1" by auto
      have "refill turn limits fr s = Some (r, s')" using run load Inr rest(1) by (simp add: step_def)
      with rest fewer show ?thesis using order_less_trans by fastforce
    qed
  qed
qed

lemma serve_head_keeps:
  "serve_head goal fr = Continue fr' \<Longrightarrow>
     fr_queue fr' = tl (fr_queue fr) \<and> fr_cursor fr' = fr_cursor fr \<and> fr_moreHeads fr' = fr_moreHeads fr"
  "serve_head goal fr = Follow l fr' \<Longrightarrow>
     l = hd (fr_queue fr) \<and> fr_queue fr' = tl (fr_queue fr) \<and> fr_cursor fr' = fr_cursor fr \<and> fr_moreHeads fr' = fr_moreHeads fr"
  by (auto simp: serve_head_def Let_def split: if_splits)

lemma heads_left_cong:
  "fr_cursor fr' = fr_cursor fr \<Longrightarrow> fr_moreHeads fr' = fr_moreHeads fr \<Longrightarrow> heads_left db fr' = heads_left db fr"
  by (simp add: heads_left_def)

lemma serve_returns:
  "\<exists>r s'. serve turn goal fr s = Some (r, s') \<and> tx_view s' = tx_view s \<and> tx_durable s' = tx_durable s"
proof (induction "(heads_left (tx_view s) fr, facts_left (tx_view s) fr)" arbitrary: fr s
    rule: wf_induct_rule [OF wf_lex_prod [OF wf_less_than wf_less_than]])
  case 1
  let ?db = "tx_view s"
  have IH: "\<exists>r s'. serve turn goal fr1 s1 = Some (r, s') \<and> tx_view s' = ?db \<and> tx_durable s' = tx_durable s"
    if "heads_left ?db fr1 < heads_left ?db fr \<or> heads_left ?db fr1 = heads_left ?db fr \<and> facts_left ?db fr1 < facts_left ?db fr"
      "tx_view s1 = ?db" "tx_durable s1 = tx_durable s" for fr1 s1
    using 1 [of s1 fr1] that by auto
  show ?case
  proof (cases "fr_queue fr = []")
    case True
    show ?thesis
    proof (cases "fr_moreHeads fr")
      case False
      with True show ?thesis by (subst serve.simps) simp
    next
      case more: True
      obtain q s1 where load: "loadHeads turn (goal_limits goal) fr s = (q, s1)" by fastforce
      have view: "tx_view s1 = ?db" "tx_durable s1 = tx_durable s" using readsD [OF reads_queries(1) load] by simp_all
      have run: "serve turn goal fr s = step (loadHeads turn (goal_limits goal) fr) (serve turn goal) s"
        using True more by (subst serve.simps) simp
      show ?thesis
      proof (cases q)
        case (Inl e)
        with run load view show ?thesis by (simp add: step_def)
      next
        case (Inr fr1)
        with load loadHeads_ok absorb_heads_left [OF more] have "heads_left ?db fr1 < heads_left ?db fr" by blast
        from IH [of fr1 s1] this view show ?thesis using run load Inr by (simp add: step_def)
      qed
    qed
  next
    case queue: False
    from refill_returns obtain r s1 where refill: "refill turn (goal_limits goal) fr s = Some (r, s1)" and view: "tx_view s1 = ?db" "tx_durable s1 = tx_durable s"
      and fewer: "\<forall>fr'. r = Inr fr' \<longrightarrow> fr' = fr \<or> heads_left ?db fr' < heads_left ?db fr" by blast
    have run: "serve turn goal fr s = proceed (refill turn (goal_limits goal) fr) (\<lambda>fr s.
        case serve_head goal fr of
          Finish outcome \<Rightarrow> Some (Inr outcome, s)
        | Continue fr \<Rightarrow> serve turn goal fr s
        | Follow l fr \<Rightarrow> step (initiativeLaunchFactAfterResource l) (\<lambda>found. serve turn goal (enqueue fr found)) s) s"
      using queue by (subst serve.simps) simp
    show ?thesis
    proof (cases r)
      case (Inl e)
      with run refill view show ?thesis by (simp add: proceed_def)
    next
      case (Inr fr1)
      from fewer Inr have fr1: "fr1 = fr \<or> heads_left ?db fr1 < heads_left ?db fr" by simp
      have popped: "heads_left ?db fr2 < heads_left ?db fr \<or> heads_left ?db fr2 = heads_left ?db fr \<and> facts_left ?db fr2 < facts_left ?db fr"
        if "fr_cursor fr2 = fr_cursor fr1" "fr_moreHeads fr2 = fr_moreHeads fr1"
          "fr1 = fr \<Longrightarrow> facts_left ?db fr2 < facts_left ?db fr1" for fr2
        using fr1 that heads_left_cong [of fr2 fr1 ?db] by auto
      have fall: "facts_left ?db fr2 < facts_left ?db fr1" if "fr_queue fr2 = tl (fr_queue fr1)" "fr1 = fr" for fr2
        using queue that by (cases "fr_queue fr") (simp_all add: facts_left_def)
      show ?thesis
      proof (cases "serve_head goal fr1")
        case (Finish outcome)
        with run refill Inr view show ?thesis by (simp add: proceed_def)
      next
        case (Continue fr2)
        note kept = serve_head_keeps(1) [OF this]
        from IH [OF popped view, of fr2] kept fall show ?thesis using run refill Inr Continue by (simp add: proceed_def)
      next
        case (Follow l fr2)
        note kept = serve_head_keeps(2) [OF this]
        obtain q s2 where next_fact: "initiativeLaunchFactAfterResource l s1 = (q, s2)" by fastforce
        have view2: "tx_view s2 = ?db" "tx_durable s2 = tx_durable s" using readsD [OF reads_queries(2) next_fact] view by simp_all
        show ?thesis
        proof (cases q)
          case (Inl e)
          with run refill \<open>r = Inr fr1\<close> Follow next_fact view2 show ?thesis by (simp add: proceed_def step_def)
        next
          case (Inr found)
          with next_fact after_resource_ok view have
            found: "found = (case facts_after l ?db of [] \<Rightarrow> None | f # _ \<Rightarrow> Some f)" by fastforce
          have "facts_left ?db (enqueue fr2 found) < facts_left ?db fr1" if "fr1 = fr"
          proof (cases "facts_after l ?db")
            case Nil
            with found kept fall that show ?thesis by (simp add: enqueue_def)
          next
            case (Cons f fs)
            have "facts_left ?db (enqueue fr2 found) = Suc (length (facts_after f ?db)) + sum_list (map (\<lambda>l. Suc (length (facts_after l ?db))) (tl (fr_queue fr1)))"
              using found kept Cons by (simp add: enqueue_def facts_left_def sum_list_push)
            also have "\<dots> < facts_left ?db fr1"
              using facts_after_next [OF Cons] kept queue that by (cases "fr_queue fr") (simp_all add: facts_left_def)
            finally show ?thesis .
          qed
          moreover have "fr_cursor (enqueue fr2 found) = fr_cursor fr1" "fr_moreHeads (enqueue fr2 found) = fr_moreHeads fr1"
            using kept by (simp_all add: enqueue_def split: option.split)
          ultimately show ?thesis
            using IH [OF popped view2, of "enqueue fr2 found"] run refill \<open>r = Inr fr1\<close> Follow next_fact Inr by (simp add: proceed_def step_def)
        qed
      qed
    qed
  qed
qed

lemma serve_rounds_return:
  "\<exists>r s'. serve_rounds goal turns state s = Some (r, s') \<and> tx_view s' = tx_view s \<and> tx_durable s' = tx_durable s"
proof (induction turns arbitrary: state s)
  case Nil
  show ?case by simp
next
  case (Cons turn turns)
  obtain usage selected where state: "state = (usage, selected)" by fastforce
  let ?fr = "\<lparr>fr_queue = [], fr_cursor = ([], [], []), fr_moreHeads = True, fr_usage = usage, fr_selected = selected\<rparr>"
  obtain q s1 where load: "loadHeads turn (goal_limits goal) ?fr s = (q, s1)" by fastforce
  have view: "tx_view s1 = tx_view s" "tx_durable s1 = tx_durable s" using readsD [OF reads_queries(1) load] by simp_all
  show ?case
  proof (cases q)
    case (Inl e)
    with load view show ?thesis by (simp add: step_def state)
  next
    case (Inr fr)
    from serve_returns [of turn goal fr s1] obtain r s2 where serve: "serve turn goal fr s1 = Some (r, s2)" "tx_view s2 = tx_view s1" "tx_durable s2 = tx_durable s1"
      by blast
    show ?thesis
    proof (cases r)
      case (Inl e)
      with load Inr serve view show ?thesis by (simp add: step_def proceed_def state)
    next
      case outcome: (Inr outcome)
      show ?thesis
      proof (cases outcome)
        case (RoundOver fr')
        with Cons.IH [of "(fr_usage fr', fr_selected fr')" s2] load Inr serve view outcome
        show ?thesis by (simp add: step_def proceed_def state)
      qed (use load Inr serve view outcome in \<open>simp add: step_def proceed_def state\<close>)
    qed
  qed
qed

lemma frontier_reads [tx_reads]: "reads (initiativeSchedulingFrontier task reason limits usage)"
  unfolding reads_def
proof (intro allI impI)
  fix s r s'
  assume run: "initiativeSchedulingFrontier task reason limits usage s = (r, s')"
  then show "tx_view s' = tx_view s \<and> tx_durable s' = tx_durable s"
    unfolding initiativeSchedulingFrontier_def frontier_loop_def
    using serve_rounds_return [of "\<lparr>goal_target = task_Handle task, goal_reason = reason, goal_limits = limits,
        goal_available = lim_MaxConcurrentTasks limits - given_Host usage\<rparr>" "[0..<MaximumInitiativeMembers]" "(usage, 0)" s] by auto
qed

end
