(* ===== verification/Launch_Order.thy ===== *)
theory Launch_Order
  imports Launch_Frontier
begin

text \<open>
  The reference of the frontier: one pass over all launch facts, round by round and in order, that
  admits every fact whose resources are free.  Pages, heads and the queue change nothing but the cost.
\<close>

section \<open>One pass over the facts\<close>

fun admit :: "frontier_goal \<Rightarrow> initiativeLaunchFact list \<Rightarrow> InitiativeSchedulingUsage \<times> int64 \<Rightarrow>
    (bool \<times> InitiativeScheduleReason) + (InitiativeSchedulingUsage \<times> int64)" where
  "admit goal [] state = Inr state"
| "admit goal (l # ls) (usage, selected) =
     (if \<not> resource_free (goal_limits goal) usage l then admit goal ls (usage, selected)
      else if fact_taskHandle l = goal_target goal then Inl (True, ScheduleResourceQueued)
      else if selected + 1 = goal_available goal then Inl (False, full_reason goal)
      else admit goal ls (take_resource l usage, selected + 1))"

definition round_facts :: "durable \<Rightarrow> nat \<Rightarrow> initiativeLaunchFact list" where
  "round_facts db turn = sort_key fact_order (filter (\<lambda>l. fact_round l = turn) (db_launch_facts db))"

definition facts_in_order :: "durable \<Rightarrow> nat list \<Rightarrow> initiativeLaunchFact list" where
  "facts_in_order db turns = concat (map (round_facts db) turns)"

lemma admit_append:
  "admit goal (xs @ ys) state = (case admit goal xs state of Inl d \<Rightarrow> Inl d | Inr state' \<Rightarrow> admit goal ys state')"
  by (induction goal xs state rule: admit.induct) simp_all

lemma admit_skips:
  "(\<And>l. l \<in> set xs \<Longrightarrow> \<not> resource_free (goal_limits goal) usage l) \<Longrightarrow> admit goal (xs @ ys) (usage, selected) = admit goal ys (usage, selected)"
  by (induction xs) auto

section \<open>Launch tables in step\<close>

text \<open>
  The heads are the first facts of their resource, and a task has one fact.  Then facts differ in their
  place, and a resource that has facts has exactly one head.
\<close>

definition launch_tables_ok :: "durable \<Rightarrow> bool" where
  "launch_tables_ok db \<longleftrightarrow>
     (\<forall>key. filter (\<lambda>h. fact_key h = key) (db_launch_heads db) = first_fact key (db_launch_facts db)) \<and>
     distinct (map fact_taskHandle (db_launch_facts db))"

lemma launch_headsD:
  "launch_tables_ok db \<Longrightarrow> filter (\<lambda>h. fact_key h = key) (db_launch_heads db) = first_fact key (db_launch_facts db)"
  unfolding launch_tables_ok_def by blast

lemma fact_places:
  assumes "launch_tables_ok db" "a \<in> set (db_launch_facts db)" "b \<in> set (db_launch_facts db)" "fact_order a = fact_order b"
  shows "a = b"
  using assms by (auto simp: launch_tables_ok_def distinct_map fact_order_def inj_on_def)

lemma first_fact_Nil: "first_fact key facts = [] \<longleftrightarrow> (\<forall>l\<in>set facts. fact_key l \<noteq> key)"
proof -
  have "first_fact key facts = [] \<longleftrightarrow> length (filter (\<lambda>f. fact_key f = key) facts) = 0"
    unfolding first_fact_def by (simp add: min_def del: length_0_conv flip: length_0_conv)
  then show ?thesis by (simp add: filter_empty_conv)
qed

lemma first_fact_member:
  assumes "h \<in> set (first_fact key facts)"
  shows "h \<in> set facts" "fact_key h = key" "l \<in> set facts \<Longrightarrow> fact_key l = key \<Longrightarrow> fact_order h \<le> fact_order l" "first_fact key facts = [h]"
proof -
  let ?s = "sort_key fact_order (filter (\<lambda>f. fact_key f = key) facts)"
  from assms obtain rest where s: "?s = h # rest" by (cases ?s) (auto simp: first_fact_def)
  then have "h \<in> set ?s" by simp
  then show "h \<in> set facts" "fact_key h = key" by simp_all
  show "first_fact key facts = [h]" using s by (simp add: first_fact_def)
  assume "l \<in> set facts" "fact_key l = key"
  then have "l \<in> set ?s" by simp
  moreover have "sorted (map fact_order ?s)" by (rule sorted_sort_key)
  ultimately show "fact_order h \<le> fact_order l" using s by auto
qed

lemma head_of:
  assumes ok: "launch_tables_ok db" and h: "h \<in> set (db_launch_heads db)"
  shows "h \<in> set (db_launch_facts db)" "l \<in> set (db_launch_facts db) \<Longrightarrow> fact_key l = fact_key h \<Longrightarrow> fact_order h \<le> fact_order l"
    "h' \<in> set (db_launch_heads db) \<Longrightarrow> fact_key h' = fact_key h \<Longrightarrow> h' = h"
proof -
  have f: "filter (\<lambda>x. fact_key x = fact_key h) (db_launch_heads db) = first_fact (fact_key h) (db_launch_facts db)"
    using ok by (rule launch_headsD)
  have "h \<in> set (filter (\<lambda>x. fact_key x = fact_key h) (db_launch_heads db))" using h by simp
  then have m: "h \<in> set (first_fact (fact_key h) (db_launch_facts db))" by (simp only: f)
  show "h \<in> set (db_launch_facts db)" by (rule first_fact_member(1) [OF m])
  show "l \<in> set (db_launch_facts db) \<Longrightarrow> fact_key l = fact_key h \<Longrightarrow> fact_order h \<le> fact_order l"
    by (rule first_fact_member(3) [OF m])
  assume "h' \<in> set (db_launch_heads db)" "fact_key h' = fact_key h"
  then have "h' \<in> set (filter (\<lambda>x. fact_key x = fact_key h) (db_launch_heads db))" by simp
  then show "h' = h" unfolding f using first_fact_member(4) [OF m] by simp
qed

lemma has_head:
  assumes ok: "launch_tables_ok db" and l: "l \<in> set (db_launch_facts db)"
  obtains h where "h \<in> set (db_launch_heads db)" "fact_key h = fact_key l"
proof -
  have f: "filter (\<lambda>x. fact_key x = fact_key l) (db_launch_heads db) = first_fact (fact_key l) (db_launch_facts db)"
    using ok by (rule launch_headsD)
  have "first_fact (fact_key l) (db_launch_facts db) \<noteq> []" using l by (auto simp: first_fact_Nil)
  then obtain h where "h \<in> set (filter (\<lambda>x. fact_key x = fact_key l) (db_launch_heads db))" unfolding f by (cases "first_fact (fact_key l) (db_launch_facts db)") auto
  then show thesis using that by auto
qed

lemma distinct_heads:
  assumes "launch_tables_ok db"
  shows "distinct (db_launch_heads db)"
proof -
  have "distinct hs" if "\<And>key. length (filter (\<lambda>h. fact_key h = key) hs) \<le> 1" for hs
    using that
  proof (induction hs)
    case (Cons h hs)
    from Cons.prems [of "fact_key h"] have "filter (\<lambda>x. fact_key x = fact_key h) hs = []" by simp
    then have "h \<notin> set hs" by (auto simp: filter_empty_conv)
    moreover have "length (filter (\<lambda>x. fact_key x = key) hs) \<le> 1" for key
      using Cons.prems [of key] by (auto split: if_splits)
    ultimately show ?case using Cons.IH by simp
  qed simp
  moreover have "length (filter (\<lambda>h. fact_key h = key) (db_launch_heads db)) \<le> 1" for key
    unfolding launch_headsD [OF assms] first_fact_def by simp
  ultimately show ?thesis by blast
qed

section \<open>What the queue stands for\<close>

text \<open>
  All facts up to \<open>low\<close> are dealt with.  Every free resource with a later fact either has a fact in the
  queue, not after that one, or has not been read: its facts are all beyond the cursor, and heads are left.
\<close>

definition pending :: "durable \<Rightarrow> nat \<Rightarrow> string \<times> string \<times> string \<Rightarrow> initiativeLaunchFact set" where
  "pending db turn low = {l \<in> set (db_launch_facts db). fact_round l = turn \<and> low < fact_order l}"

definition queue_ok :: "durable \<Rightarrow> nat \<Rightarrow> string \<times> string \<times> string \<Rightarrow> frontier \<Rightarrow> bool" where
  "queue_ok db turn low fr \<longleftrightarrow>
     set (fr_queue fr) \<subseteq> pending db turn low \<and> sorted (map fact_order (fr_queue fr)) \<and> distinct (fr_queue fr) \<and>
     (\<forall>p\<in>set (fr_queue fr). \<forall>q\<in>set (fr_queue fr). fact_key p = fact_key q \<longrightarrow> p = q) \<and>
     (\<forall>q\<in>set (fr_queue fr). \<exists>h\<in>set (db_launch_facts db). fact_key h = fact_key q \<and> fact_order h \<le> fr_cursor fr) \<and>
     (fr_moreHeads fr \<longrightarrow> low \<le> fr_cursor fr)"

definition covered :: "durable \<Rightarrow> nat \<Rightarrow> InitiativeSchedulingLimits \<Rightarrow> string \<times> string \<times> string \<Rightarrow> frontier \<Rightarrow> bool" where
  "covered db turn limits low fr \<longleftrightarrow>
     (\<forall>l\<in>pending db turn low. resource_free limits (fr_usage fr) l \<longrightarrow>
        (\<exists>q\<in>set (fr_queue fr). fact_key q = fact_key l \<and> fact_order q \<le> fact_order l) \<or>
        (fr_moreHeads fr \<and> (\<forall>f\<in>set (db_launch_facts db). fact_key f = fact_key l \<longrightarrow> fr_cursor fr < fact_order f)))"

definition usage_natural :: "InitiativeSchedulingUsage \<Rightarrow> bool" where
  "usage_natural usage \<longleftrightarrow> (\<forall>p. 0 \<le> sint (map_count (given_WorkerProfiles usage) p))"

lemma fact_key_round: "fact_key a = fact_key b \<Longrightarrow> fact_round a = fact_round b"
  "fact_key a = fact_key b \<Longrightarrow> resource_free limits usage a = resource_free limits usage b"
  by (simp_all add: fact_key_def resource_free_def)

text \<open>A page is a prefix of the heads that a free resource may have beyond the cursor.\<close>

definition page_heads :: "nat \<Rightarrow> InitiativeSchedulingLimits \<Rightarrow> frontier \<Rightarrow> durable \<Rightarrow> initiativeLaunchFact list" where
  "page_heads turn limits fr db = sort_key fact_order (filter
     (\<lambda>l. fact_round l = turn \<and> fr_cursor fr < fact_order l \<and>
          fact_workerProfileID l \<in> set (free_profiles limits (fr_usage fr)) \<and>
          \<not> capped_repository limits (fr_usage fr) (fact_repositoryID l)) (db_launch_heads db))"

lemma page_rows_take: "page_rows turn (fr_cursor fr) limits (fr_usage fr) n db = take n (page_heads turn limits fr db)"
  by (simp add: page_rows_def page_heads_def)

lemma page_heads_member:
  "h \<in> set (page_heads turn limits fr db) \<Longrightarrow> h \<in> set (db_launch_heads db) \<and> fact_round h = turn \<and> fr_cursor fr < fact_order h"
  by (simp add: page_heads_def)

lemma free_head_in_page:
  assumes "h \<in> set (db_launch_heads db)" "fact_round h = turn" "fr_cursor fr < fact_order h"
    "resource_free limits (fr_usage fr) h" "usage_natural (fr_usage fr)"
  shows "h \<in> set (page_heads turn limits fr db)"
proof -
  let ?p = "fact_workerProfileID h" and ?r = "fact_repositoryID h"
  have used: "0 \<le> sint (map_count (given_WorkerProfiles (fr_usage fr)) ?p)" using assms(5) by (simp add: usage_natural_def)
  from assms(4) have free: "sint (map_count (given_WorkerProfiles (fr_usage fr)) ?p) < sint (map_count (lim_WorkerProfileLimits limits) ?p)"
    "sint (map_count (given_Repositories (fr_usage fr)) ?r) < sint (lim_MaxConcurrentTasksPerRepository limits)"
    by (simp_all add: resource_free_def)
  obtain capacity where capacity: "fmlookup (lim_WorkerProfileLimits limits) ?p = Some capacity"
  proof (cases "fmlookup (lim_WorkerProfileLimits limits) ?p")
    case None
    then have "sint (map_count (lim_WorkerProfileLimits limits) ?p) = 0" by (simp add: map_count_def)
    with used free show thesis by simp
  qed
  have "(?p, capacity) \<in> set (sorted_list_of_fmap (lim_WorkerProfileLimits limits))"
    using capacity by (auto simp: sorted_list_of_fmap_def sorted_list_of_fset.rep_eq intro: fmdomI)
  with free capacity have "?p \<in> set (free_profiles limits (fr_usage fr))"
    by (force simp: free_profiles_def map_count_def)
  moreover have "\<not> capped_repository limits (fr_usage fr) ?r"
    using free(2) by (auto simp: capped_repository_def map_count_def split: option.splits)
  ultimately show ?thesis using assms by (simp add: page_heads_def)
qed

lemma set_fold_push: "set (fold push page q) = set page \<union> set q"
  by (induction page arbitrary: q) (auto simp: push_def set_insort_key)

lemma sorted_fold_push: "sorted (map fact_order q) \<Longrightarrow> sorted (map fact_order (fold push page q))"
  by (induction page arbitrary: q) (simp_all add: push_def sorted_insort_key)

lemma distinct_fold_push: "distinct page \<Longrightarrow> distinct q \<Longrightarrow> set page \<inter> set q = {} \<Longrightarrow> distinct (fold push page q)"
  by (induction page arbitrary: q) (auto simp: push_def distinct_insort set_insort_key)

lemma prefix_before_rest:
  assumes "sorted (map g xs)" "a \<in> set (take n xs)" "b \<in> set xs" "b \<notin> set (take n xs)"
  shows "g a \<le> g b"
proof -
  from assms(3,4) have "b \<in> set (drop n xs)" using set_append append_take_drop_id by (metis Un_iff)
  moreover have "sorted (map g (take n xs) @ map g (drop n xs))" using assms(1) by (simp flip: map_append)
  ultimately show ?thesis using assms(2) by (auto simp: sorted_append)
qed

lemma last_of_page:
  assumes "sorted (map g xs)" "xs \<noteq> []" "a \<in> set xs"
  shows "g a \<le> g (List.last xs)"
  using assms by (induction xs) (auto simp: last_ConsR split: if_splits intro: last_in_set)

lemma absorb_keeps:
  assumes ok: "launch_tables_ok db" and q: "queue_ok db turn low fr" and c: "covered db turn limits low fr"
    and more: "fr_moreHeads fr" and natural: "usage_natural (fr_usage fr)"
    and fr': "fr' = absorb (page_rows turn (fr_cursor fr) limits (fr_usage fr) initiativeSchedulingPageSize db) fr"
  shows "queue_ok db turn low fr' \<and> covered db turn limits low fr' \<and> fr_usage fr' = fr_usage fr \<and> fr_selected fr' = fr_selected fr"
proof -
  let ?all = "page_heads turn limits fr db"
  let ?n = initiativeSchedulingPageSize
  define page where "page = take ?n ?all"
  have fr': "fr' = absorb page fr" using fr' by (simp add: page_def page_rows_take)
  have n: "0 < ?n" by (simp add: initiativeSchedulingPageSize_def)
  have sorted: "sorted (map fact_order ?all)" unfolding page_heads_def by (rule sorted_sort_key)
  have distinct: "distinct ?all" unfolding page_heads_def using distinct_heads [OF ok] by simp
  from q have qs: "set (fr_queue fr) \<subseteq> pending db turn low" "sorted (map fact_order (fr_queue fr))" "distinct (fr_queue fr)"
    "\<And>p q. p \<in> set (fr_queue fr) \<Longrightarrow> q \<in> set (fr_queue fr) \<Longrightarrow> fact_key p = fact_key q \<Longrightarrow> p = q"
    "\<And>q. q \<in> set (fr_queue fr) \<Longrightarrow> \<exists>h\<in>set (db_launch_facts db). fact_key h = fact_key q \<and> fact_order h \<le> fr_cursor fr"
    "low \<le> fr_cursor fr"
    using more unfolding queue_ok_def by blast+
  have in_page: "l \<in> set (db_launch_heads db)" "fact_round l = turn" "fr_cursor fr < fact_order l" "l \<in> set (db_launch_facts db)"
    if "l \<in> set page" for l
  proof -
    from that have "l \<in> set ?all" unfolding page_def by (rule in_set_takeD)
    from page_heads_member [OF this] show "l \<in> set (db_launch_heads db)" "fact_round l = turn" "fr_cursor fr < fact_order l" by simp_all
    from head_of(1) [OF ok this(1)] show "l \<in> set (db_launch_facts db)" .
  qed
  have unread: "\<forall>f\<in>set (db_launch_facts db). fact_key f = fact_key l \<longrightarrow> fr_cursor fr < fact_order f"
    if "l \<in> set page" for l
    using head_of(2) [OF ok in_page(1) [OF that]] in_page(3) [OF that] by (auto intro: less_le_trans)
  then have apart: "fact_key l \<noteq> fact_key q" if "l \<in> set page" "q \<in> set (fr_queue fr)" for l q
    using qs(5) [OF that(2)] that(1) by (metis leD)
  show ?thesis
  proof (cases "page = []")
    case True
    then have empty: "?all = []" using n by (simp add: page_def)
    have "\<exists>q\<in>set (fr_queue fr). fact_key q = fact_key l \<and> fact_order q \<le> fact_order l"
      if "l \<in> pending db turn low" "resource_free limits (fr_usage fr) l" for l
    proof (rule ccontr)
      assume "\<not> ?thesis"
      with c that have far: "\<forall>f\<in>set (db_launch_facts db). fact_key f = fact_key l \<longrightarrow> fr_cursor fr < fact_order f"
        by (auto simp: covered_def)
      from that have l: "l \<in> set (db_launch_facts db)" "fact_round l = turn" by (simp_all add: pending_def)
      obtain h where h: "h \<in> set (db_launch_heads db)" "fact_key h = fact_key l" by (rule has_head [OF ok l(1)])
      have "h \<in> set ?all"
      proof (rule free_head_in_page [OF h(1)])
        show "fact_round h = turn" using fact_key_round(1) [OF h(2)] l(2) by simp
        show "fr_cursor fr < fact_order h" using far head_of(1) [OF ok h(1)] h(2) by blast
        show "resource_free limits (fr_usage fr) h" using fact_key_round(2) [OF h(2)] that(2) by simp
      qed (rule natural)
      with empty show False by simp
    qed
    moreover have "fr' = fr\<lparr>fr_moreHeads := False\<rparr>" using True fr' by (simp add: absorb_def)
    ultimately show ?thesis using qs by (simp add: queue_ok_def covered_def)
  next
    case False
    let ?last = "List.last page"
    have fr': "fr_queue fr' = fold push page (fr_queue fr)" "fr_cursor fr' = fact_order ?last"
      "fr_moreHeads fr' = (length page = ?n)" "fr_usage fr' = fr_usage fr" "fr_selected fr' = fr_selected fr"
      using False fr' by (simp_all add: absorb_def)
    have last: "?last \<in> set page" using False by simp
    have upto: "fact_order l \<le> fact_order ?last" if "l \<in> set page" for l
      using last_of_page [OF _ False that] sorted_wrt_take [OF sorted, of ?n] by (simp add: page_def take_map)
    have beyond: "fr_cursor fr < fact_order ?last" using in_page(3) [OF last] .
    have "queue_ok db turn low fr'"
      unfolding queue_ok_def fr' set_fold_push
    proof (intro conjI ballI impI)
      show "set page \<union> set (fr_queue fr) \<subseteq> pending db turn low"
        using qs(1,6) in_page by (auto simp: pending_def intro: le_less_trans)
      show "sorted (map fact_order (fold push page (fr_queue fr)))" using qs(2) by (rule sorted_fold_push)
      show "distinct (fold push page (fr_queue fr))"
        using apart distinct qs(3) by (intro distinct_fold_push) (auto simp: page_def)
      show "p = q" if "p \<in> set page \<union> set (fr_queue fr)" "q \<in> set page \<union> set (fr_queue fr)" "fact_key p = fact_key q" for p q
        using that apart apart [symmetric] qs(4) head_of(3) [OF ok in_page(1) in_page(1)] by (metis Un_iff)
      show "\<exists>h\<in>set (db_launch_facts db). fact_key h = fact_key q \<and> fact_order h \<le> fact_order ?last"
        if "q \<in> set page \<union> set (fr_queue fr)" for q
      proof (cases "q \<in> set page")
        case True
        with in_page(4) upto show ?thesis by blast
      next
        case False
        with that qs(5) [of q] beyond show ?thesis by force
      qed
      show "low \<le> fact_order ?last" using qs(6) beyond by simp
    qed
    moreover have "covered db turn limits low fr'"
      unfolding covered_def fr' set_fold_push
    proof (intro ballI impI)
      fix l
      assume l: "l \<in> pending db turn low" "resource_free limits (fr_usage fr) l"
      show "(\<exists>q\<in>set page \<union> set (fr_queue fr). fact_key q = fact_key l \<and> fact_order q \<le> fact_order l) \<or>
        (length page = ?n \<and> (\<forall>f\<in>set (db_launch_facts db). fact_key f = fact_key l \<longrightarrow> fact_order ?last < fact_order f))"
      proof (cases "\<exists>q\<in>set (fr_queue fr). fact_key q = fact_key l \<and> fact_order q \<le> fact_order l")
        case False
        with c l have far: "\<forall>f\<in>set (db_launch_facts db). fact_key f = fact_key l \<longrightarrow> fr_cursor fr < fact_order f"
          by (auto simp: covered_def)
        from l have stored: "l \<in> set (db_launch_facts db)" "fact_round l = turn" by (simp_all add: pending_def)
        obtain h where h: "h \<in> set (db_launch_heads db)" "fact_key h = fact_key l" by (rule has_head [OF ok stored(1)])
        have first: "fact_order h \<le> fact_order f" if "f \<in> set (db_launch_facts db)" "fact_key f = fact_key l" for f
          using head_of(2) [OF ok h(1) that(1)] that(2) h(2) by simp
        have h_all: "h \<in> set ?all"
        proof (rule free_head_in_page [OF h(1)])
          show "fact_round h = turn" using fact_key_round(1) [OF h(2)] stored(2) by simp
          show "fr_cursor fr < fact_order h" using far head_of(1) [OF ok h(1)] h(2) by blast
          show "resource_free limits (fr_usage fr) h" using fact_key_round(2) [OF h(2)] l(2) by simp
        qed (rule natural)
        show ?thesis
        proof (cases "h \<in> set page")
          case True
          with h first stored show ?thesis by blast
        next
          case False
          then have full: "length page = ?n" using h_all unfolding page_def by (cases "?n \<le> length ?all") simp_all
          have "?last \<noteq> h" using False last by metis
          then have "fact_order ?last \<noteq> fact_order h"
            using fact_places [OF ok in_page(4) [OF last] head_of(1) [OF ok h(1)]] by blast
          moreover have "fact_order ?last \<le> fact_order h"
            using prefix_before_rest [OF sorted, of ?last ?n h] last h_all False by (simp add: page_def)
          ultimately have "fact_order ?last < fact_order h" by simp
          with full first show ?thesis by (auto intro: less_le_trans)
        qed
      qed auto
    qed
    ultimately show ?thesis by (simp add: fr')
  qed
qed

section \<open>Taking the head of the queue\<close>

lemma map_count_add: "map_count (add_usage k n m) j = (if j = k then map_count m k + n else map_count m j)"
  by (simp add: map_count_def add_usage_def)

lemma free_antimono:
  assumes "resource_free limits usage q" "resource_free limits (take_resource q usage) l"
  shows "resource_free limits usage l"
proof -
  have "sint (map_count (given_Repositories usage) (fact_repositoryID q) + 1) = sint (map_count (given_Repositories usage) (fact_repositoryID q)) + 1"
    "sint (map_count (given_WorkerProfiles usage) (fact_workerProfileID q) + 1) = sint (map_count (given_WorkerProfiles usage) (fact_workerProfileID q)) + 1"
    using assms(1) unfolding resource_free_def by (blast intro: sint64_inc_less)+
  with assms show ?thesis by (auto simp: resource_free_def take_resource_def map_count_add split: if_splits)
qed

lemma take_natural:
  assumes "usage_natural usage" "resource_free limits usage q"
  shows "usage_natural (take_resource q usage)"
proof -
  have "sint (map_count (given_WorkerProfiles usage) (fact_workerProfileID q) + 1) = sint (map_count (given_WorkerProfiles usage) (fact_workerProfileID q)) + 1"
    using assms(2) unfolding resource_free_def by (blast intro: sint64_inc_less)
  with assms(1) show ?thesis by (simp add: usage_natural_def take_resource_def map_count_add)
qed

definition later :: "durable \<Rightarrow> nat \<Rightarrow> string \<times> string \<times> string \<Rightarrow> initiativeLaunchFact list" where
  "later db turn low = filter (\<lambda>l. low < fact_order l) (round_facts db turn)"

lemma set_later: "set (later db turn low) = pending db turn low"
  by (auto simp: later_def round_facts_def pending_def)

lemma split_at_member:
  "sorted_wrt (<) (map g xs) \<Longrightarrow> q \<in> set xs \<Longrightarrow> low < g q \<Longrightarrow>
     filter (\<lambda>l. low < g l) xs = filter (\<lambda>l. low < g l \<and> g l < g q) xs @ q # filter (\<lambda>l. g q < g l) xs" for low :: "'k::linorder"
proof (induction xs)
  case (Cons x xs)
  show ?case
  proof (cases "x = q")
    case True
    with Cons.prems have above: "\<forall>l\<in>set xs. g q < g l \<and> low < g l" by auto
    then have "filter (\<lambda>l. g l < g q) xs = []" "filter (\<lambda>l. low < g l) xs = xs" "filter (\<lambda>l. g q < g l) xs = xs"
      by (auto simp: filter_empty_conv)
    moreover from this have "filter (\<lambda>l. low < g l \<and> g l < g q) xs = []" by (auto simp: filter_empty_conv)
    ultimately show ?thesis using True Cons.prems by simp
  next
    case False
    with Cons.prems have "g x < g q" by auto
    with Cons False show ?thesis by auto
  qed
qed simp

lemma later_split:
  assumes ok: "launch_tables_ok db" and q: "q \<in> pending db turn low"
    and least: "\<And>l. l \<in> pending db turn low \<Longrightarrow> resource_free (goal_limits goal) usage l \<Longrightarrow> fact_order q \<le> fact_order l"
  shows "admit goal (later db turn low) (usage, selected) = admit goal (q # later db turn (fact_order q)) (usage, selected)"
proof -
  let ?rf = "round_facts db turn"
  have "distinct (map fact_order ?rf)"
    using ok fact_places [OF ok] unfolding round_facts_def
    by (auto simp: distinct_map launch_tables_ok_def inj_on_def)
  then have "sorted_wrt (<) (map fact_order ?rf)" by (simp add: strict_sorted_iff round_facts_def)
  moreover have "q \<in> set ?rf" "low < fact_order q" using q by (simp_all add: pending_def round_facts_def)
  ultimately have split: "later db turn low =
      filter (\<lambda>l. low < fact_order l \<and> fact_order l < fact_order q) ?rf @ q # later db turn (fact_order q)"
    unfolding later_def by (rule split_at_member)
  have idle: "\<not> resource_free (goal_limits goal) usage l"
    if "l \<in> set (filter (\<lambda>l. low < fact_order l \<and> fact_order l < fact_order q) ?rf)" for l
  proof -
    from that have "l \<in> pending db turn low" "fact_order l < fact_order q" by (auto simp: pending_def round_facts_def)
    with least show ?thesis by (auto simp: leD)
  qed
  show ?thesis unfolding split by (rule admit_skips) (rule idle)
qed

lemma head_least:
  assumes q: "queue_ok db turn low fr" and c: "covered db turn limits low fr" and queue: "fr_queue fr = q # rest"
    and read: "\<not> (fr_moreHeads fr \<and> fr_cursor fr < fact_order q)"
    and l: "l \<in> pending db turn low" "resource_free limits (fr_usage fr) l"
  shows "fact_order q \<le> fact_order l"
proof -
  from q queue have least: "fact_order q \<le> fact_order p" if "p \<in> set (fr_queue fr)" for p
    using that by (auto simp: queue_ok_def)
  from c l consider p where "p \<in> set (fr_queue fr)" "fact_order p \<le> fact_order l"
    | "fr_moreHeads fr" "\<forall>f\<in>set (db_launch_facts db). fact_key f = fact_key l \<longrightarrow> fr_cursor fr < fact_order f"
    unfolding covered_def by blast
  then show ?thesis
  proof cases
    case 1
    with least show ?thesis by (meson order_trans)
  next
    case 2
    with l(1) have "fr_cursor fr < fact_order l" by (simp add: pending_def)
    with 2 read show ?thesis by (simp add: not_less)
  qed
qed

text \<open>After the head is dealt with, and the next fact of its resource has joined if the resource is still free.\<close>

lemma popped_keeps:
  assumes ok: "launch_tables_ok db" and q: "queue_ok db turn low fr" and c: "covered db turn limits low fr" and queue: "fr_queue fr = q # rest"
    and read: "\<not> (fr_moreHeads fr \<and> fr_cursor fr < fact_order q)"
    and popped: "fr_queue fr2 = rest" "fr_cursor fr2 = fr_cursor fr" "fr_moreHeads fr2 = fr_moreHeads fr"
    and usage: "\<And>l. resource_free limits (fr_usage fr2) l \<Longrightarrow> resource_free limits (fr_usage fr) l"
    and joined: "fr3 = enqueue fr2 found" "found = None \<and> \<not> resource_free limits (fr_usage fr2) q \<or>
      found = (case facts_after q db of [] \<Rightarrow> None | f # _ \<Rightarrow> Some f)"
  shows "queue_ok db turn (fact_order q) fr3 \<and> covered db turn limits (fact_order q) fr3"
proof -
  from q queue have qs: "set rest \<subseteq> pending db turn low" "q \<in> pending db turn low" "sorted (map fact_order rest)" "distinct rest" "q \<notin> set rest"
    "\<And>p. p \<in> set rest \<Longrightarrow> fact_order q \<le> fact_order p"
    "\<And>p p'. p \<in> set (q # rest) \<Longrightarrow> p' \<in> set (q # rest) \<Longrightarrow> fact_key p = fact_key p' \<Longrightarrow> p = p'"
    "\<And>p. p \<in> set (q # rest) \<Longrightarrow> \<exists>h\<in>set (db_launch_facts db). fact_key h = fact_key p \<and> fact_order h \<le> fr_cursor fr"
    unfolding queue_ok_def by auto
  have stored: "p \<in> set (db_launch_facts db)" "fact_round p = turn" if "p \<in> set (q # rest)" for p
    using that qs(1,2) by (auto simp: pending_def)
  have after: "fact_order q < fact_order p" if "p \<in> set rest" for p
    using qs(5,6) that fact_places [OF ok stored(1) stored(1), of q p] by (force simp: less_le)
  have apart: "fact_key p \<noteq> fact_key q" if "p \<in> set rest" for p using qs(5) qs(7) [of p q] that by auto
  have old: "(\<exists>p\<in>set rest. fact_key p = fact_key l \<and> fact_order p \<le> fact_order l) \<or>
      (fr_moreHeads fr \<and> (\<forall>f\<in>set (db_launch_facts db). fact_key f = fact_key l \<longrightarrow> fr_cursor fr < fact_order f))"
    if "l \<in> pending db turn (fact_order q)" "resource_free limits (fr_usage fr2) l" "fact_key l \<noteq> fact_key q" for l
  proof -
    have "low < fact_order q" using qs(2) by (simp add: pending_def)
    with that(1) have "l \<in> pending db turn low" by (auto simp: pending_def)
    with c usage [OF that(2)] queue that(3) show ?thesis by (auto simp: covered_def)
  qed
  show ?thesis
  proof (cases found)
    case None
    then have fr3: "fr3 = fr2" using joined(1) by (simp add: enqueue_def)
    have over: "fact_key l \<noteq> fact_key q" if "l \<in> pending db turn (fact_order q)" "resource_free limits (fr_usage fr2) l" for l
    proof
      assume key: "fact_key l = fact_key q"
      then have "resource_free limits (fr_usage fr2) q" using that(2) fact_key_round(2) by metis
      with joined(2) None have "facts_after q db = []" by (cases "facts_after q db") simp_all
      then have "length (facts_after q db) = 0" by simp
      then have "\<forall>f\<in>set (db_launch_facts db). \<not> (fact_key f = fact_key q \<and> fact_order q < fact_order f)"
        unfolding facts_after_def by (simp add: filter_empty_conv)
      with that(1) key show False by (auto simp: pending_def)
    qed
    have "queue_ok db turn (fact_order q) fr3"
      unfolding queue_ok_def fr3 popped
      using qs stored after read by (fastforce simp: pending_def)
    moreover have "covered db turn limits (fact_order q) fr3"
      unfolding covered_def fr3 popped using old over by blast
    ultimately show ?thesis by simp
  next
    case (Some f)
    with joined obtain fs where facts: "facts_after q db = f # fs" by (cases "facts_after q db") auto
    then have "f \<in> set (facts_after q db)" by simp
    then have f: "f \<in> set (db_launch_facts db)" "fact_key f = fact_key q" "fact_order q < fact_order f"
      by (simp_all add: facts_after_def)
    have first: "fact_order f \<le> fact_order l" if "l \<in> pending db turn (fact_order q)" "fact_key l = fact_key q" for l
    proof -
      from that have "l \<in> set (facts_after q db)" by (simp add: facts_after_def pending_def)
      moreover have "sorted (map fact_order (facts_after q db))" unfolding facts_after_def by (rule sorted_sort_key)
      ultimately show ?thesis using facts by auto
    qed
    have fr3: "fr_queue fr3 = push f rest" "fr_cursor fr3 = fr_cursor fr" "fr_moreHeads fr3 = fr_moreHeads fr" "fr_usage fr3 = fr_usage fr2"
      using joined(1) Some popped by (simp_all add: enqueue_def)
    have set_q: "set (push f rest) = insert f (set rest)" by (simp add: push_def set_insort_key)
    have "f \<notin> set rest" using apart [of f] f(2) by auto
    have round_f: "fact_round f = turn" using fact_key_round(1) [OF f(2)] qs(2) by (simp add: pending_def)
    have "queue_ok db turn (fact_order q) fr3"
      unfolding queue_ok_def fr3 set_q
    proof (intro conjI ballI impI)
      show "insert f (set rest) \<subseteq> pending db turn (fact_order q)"
        using f round_f stored after by (auto simp: pending_def)
      show "sorted (map fact_order (push f rest))" using qs(3) by (simp add: push_def sorted_insort_key)
      show "distinct (push f rest)" using qs(4) \<open>f \<notin> set rest\<close> by (simp add: push_def distinct_insort)
      show "p = p'" if "p \<in> insert f (set rest)" "p' \<in> insert f (set rest)" "fact_key p = fact_key p'" for p p'
        using that f(2) apart qs(7) [of p p'] by force
      show "\<exists>h\<in>set (db_launch_facts db). fact_key h = fact_key p \<and> fact_order h \<le> fr_cursor fr" if "p \<in> insert f (set rest)" for p
        using that qs(8) [of p] qs(8) [of q] f(2) by auto
      show "fact_order q \<le> fr_cursor fr" if "fr_moreHeads fr" using read that by (simp add: not_less)
    qed
    moreover have "covered db turn limits (fact_order q) fr3"
      unfolding covered_def fr3 set_q using old first f(2) by (metis insert_iff)
    ultimately show ?thesis by simp
  qed
qed

section \<open>The frontier admits what one pass admits\<close>

lemma refill_keeps:
  assumes ok: "launch_tables_ok db"
  shows "refill turn limits fr s = Some (Inr fr', s') \<Longrightarrow> tx_view s = db \<Longrightarrow> queue_ok db turn low fr \<Longrightarrow>
    covered db turn limits low fr \<Longrightarrow> usage_natural (fr_usage fr) \<Longrightarrow> fr_queue fr \<noteq> [] \<Longrightarrow>
    queue_ok db turn low fr' \<and> covered db turn limits low fr' \<and> fr_usage fr' = fr_usage fr \<and> fr_selected fr' = fr_selected fr \<and>
    fr_queue fr' \<noteq> [] \<and> \<not> (fr_moreHeads fr' \<and> fr_cursor fr' < fact_order (hd (fr_queue fr')))"
proof (induction "heads_left db fr" arbitrary: fr s rule: less_induct)
  case less
  show ?case
  proof (cases "fr_moreHeads fr \<and> fr_cursor fr < fact_order (hd (fr_queue fr))")
    case False
    with less.prems(1) have "fr' = fr" by (subst (asm) refill.simps) auto
    with False less.prems show ?thesis by blast
  next
    case True
    obtain q s1 where load: "loadHeads turn limits fr s = (q, s1)" by fastforce
    have view: "tx_view s1 = db" using readsD [OF reads_queries(1) load] less.prems(2) by simp
    have run: "step (loadHeads turn limits fr) (refill turn limits) s = Some (Inr fr', s')"
      using True less.prems(1) by (subst (asm) refill.simps) simp
    then obtain fr1 where q: "q = Inr fr1" and rest: "refill turn limits fr1 s1 = Some (Inr fr', s')"
      using load by (cases q) (auto simp: step_def)
    have fr1: "fr1 = absorb (page_rows turn (fr_cursor fr) limits (fr_usage fr) initiativeSchedulingPageSize db) fr"
      using load q loadHeads_ok less.prems(2) by blast
    have kept: "queue_ok db turn low fr1 \<and> covered db turn limits low fr1 \<and> fr_usage fr1 = fr_usage fr \<and> fr_selected fr1 = fr_selected fr"
      using True less.prems by (intro absorb_keeps [OF ok _ _ _ _ fr1]) auto
    have "heads_left db fr1 < heads_left db fr" using absorb_heads_left True fr1 by simp
    moreover have "fr_queue fr1 \<noteq> []"
    proof -
      have "set (fr_queue fr) \<subseteq> set (fr_queue fr1)" by (auto simp: fr1 absorb_def set_fold_push)
      with less.prems(6) show ?thesis by auto
    qed
    ultimately show ?thesis using less.hyps [of fr1 s1] rest view kept less.prems(5) by simp
  qed
qed

definition reached :: "frontier_goal \<Rightarrow> (bool \<times> InitiativeScheduleReason) + (InitiativeSchedulingUsage \<times> int64) \<Rightarrow> frontier_end \<Rightarrow> bool" where
  "reached goal r outcome \<longleftrightarrow>
     (case outcome of
        Decided launchable reason \<Rightarrow> r = Inl (launchable, reason)
      | RoundOver fr \<Rightarrow> r = Inr (fr_usage fr, fr_selected fr) \<and> usage_natural (fr_usage fr))"

lemma serve_admits:
  assumes ok: "launch_tables_ok db"
  shows "serve turn goal fr s = Some (Inr outcome, s') \<Longrightarrow> tx_view s = db \<Longrightarrow> queue_ok db turn low fr \<Longrightarrow>
    covered db turn (goal_limits goal) low fr \<Longrightarrow> usage_natural (fr_usage fr) \<Longrightarrow>
    reached goal (admit goal (later db turn low) (fr_usage fr, fr_selected fr)) outcome"
proof (induction "(heads_left db fr, facts_left db fr)" arbitrary: fr s low
    rule: wf_induct_rule [OF wf_lex_prod [OF wf_less_than wf_less_than]])
  case 1
  note run = 1(2) and view = 1(3) and q = 1(4) and c = 1(5) and natural = 1(6)
  let ?limits = "goal_limits goal"
  have IH: "reached goal (admit goal (later db turn low1) (fr_usage fr1, fr_selected fr1)) outcome"
    if "heads_left db fr1 < heads_left db fr \<or> heads_left db fr1 = heads_left db fr \<and> facts_left db fr1 < facts_left db fr"
      "serve turn goal fr1 s1 = Some (Inr outcome, s')" "tx_view s1 = db" "queue_ok db turn low1 fr1"
      "covered db turn ?limits low1 fr1" "usage_natural (fr_usage fr1)" for fr1 s1 low1
    using 1(1) [of fr1 s1 low1] that by auto
  show ?case
  proof (cases "fr_queue fr = []")
    case empty: True
    show ?thesis
    proof (cases "fr_moreHeads fr")
      case False
      have "\<not> resource_free ?limits (fr_usage fr) l" if "l \<in> set (later db turn low)" for l
        using that c empty False by (auto simp: covered_def set_later)
      from admit_skips [OF this, where ys = "[]"] have "admit goal (later db turn low) (fr_usage fr, fr_selected fr) = Inr (fr_usage fr, fr_selected fr)"
        by simp
      moreover from run empty False have "outcome = RoundOver fr" by (subst (asm) serve.simps) simp
      ultimately show ?thesis using natural by (simp add: reached_def)
    next
      case more: True
      obtain p s1 where load: "loadHeads turn ?limits fr s = (p, s1)" by fastforce
      have view1: "tx_view s1 = db" using readsD [OF reads_queries(1) load] view by simp
      have "step (loadHeads turn ?limits fr) (serve turn goal) s = Some (Inr outcome, s')"
        using run empty more by (subst (asm) serve.simps) simp
      then obtain fr1 where p: "p = Inr fr1" and rest: "serve turn goal fr1 s1 = Some (Inr outcome, s')"
        using load by (cases p) (auto simp: step_def)
      have fr1: "fr1 = absorb (page_rows turn (fr_cursor fr) ?limits (fr_usage fr) initiativeSchedulingPageSize db) fr"
        using load p loadHeads_ok view by blast
      note kept = absorb_keeps [OF ok q c more natural fr1]
      have "heads_left db fr1 < heads_left db fr" using absorb_heads_left more fr1 by simp
      with IH [of fr1 s1 low] rest view1 kept natural show ?thesis by simp
    qed
  next
    case queue: False
    from refill_returns obtain r s1 where refill: "refill turn ?limits fr s = Some (r, s1)" and view1: "tx_view s1 = db"
      and fewer: "\<forall>fr'. r = Inr fr' \<longrightarrow> fr' = fr \<or> heads_left db fr' < heads_left db fr" using view by blast
    have "proceed (refill turn ?limits fr) (\<lambda>fr s.
        case serve_head goal fr of
          Finish outcome \<Rightarrow> Some (Inr outcome, s)
        | Continue fr \<Rightarrow> serve turn goal fr s
        | Follow l fr \<Rightarrow> step (initiativeLaunchFactAfterResource l) (\<lambda>found. serve turn goal (enqueue fr found)) s) s = Some (Inr outcome, s')"
      using run queue by (subst (asm) serve.simps) simp
    then obtain fr1 where r: "r = Inr fr1" and rest: "(case serve_head goal fr1 of
          Finish outcome \<Rightarrow> Some (Inr outcome, s1)
        | Continue fr \<Rightarrow> serve turn goal fr s1
        | Follow l fr \<Rightarrow> step (initiativeLaunchFactAfterResource l) (\<lambda>found. serve turn goal (enqueue fr found)) s1) = Some (Inr outcome, s')"
      using refill by (cases r) (auto simp: proceed_def)
    from refill_keeps [OF ok refill [unfolded r] view q c natural queue]
    have q1: "queue_ok db turn low fr1" and c1: "covered db turn ?limits low fr1"
      and same: "fr_usage fr1 = fr_usage fr" "fr_selected fr1 = fr_selected fr" and queue1: "fr_queue fr1 \<noteq> []"
      and read: "\<not> (fr_moreHeads fr1 \<and> fr_cursor fr1 < fact_order (hd (fr_queue fr1)))" by blast+
    define l where "l = hd (fr_queue fr1)"
    define ls where "ls = tl (fr_queue fr1)"
    have fr1: "fr_queue fr1 = l # ls" using queue1 by (simp add: l_def ls_def)
    have read: "\<not> (fr_moreHeads fr1 \<and> fr_cursor fr1 < fact_order l)" using read by (simp add: l_def)
    from q1 fr1 have l: "l \<in> pending db turn low" by (simp add: queue_ok_def)
    have split: "admit goal (later db turn low) (fr_usage fr, fr_selected fr) =
        admit goal (l # later db turn (fact_order l)) (fr_usage fr, fr_selected fr)"
      using head_least [OF q1 c1 fr1 read] same by (intro later_split [OF ok l]) simp
    from fewer r have fr1_fr: "fr1 = fr \<or> heads_left db fr1 < heads_left db fr" by simp
    have fall: "heads_left db fr2 < heads_left db fr \<or> heads_left db fr2 = heads_left db fr \<and> facts_left db fr2 < facts_left db fr"
      if "fr_cursor fr2 = fr_cursor fr1" "fr_moreHeads fr2 = fr_moreHeads fr1" "facts_left db fr2 < facts_left db fr1" for fr2
      using fr1_fr that heads_left_cong [of fr2 fr1 db] by auto
    let ?taken = "fr1\<lparr>fr_queue := ls, fr_usage := take_resource l (fr_usage fr), fr_selected := fr_selected fr + 1\<rparr>"
    show ?thesis
    proof (cases "resource_free ?limits (fr_usage fr) l")
      case False
      then have "serve_head goal fr1 = Continue (fr1\<lparr>fr_queue := ls\<rparr>)"
        using same by (simp add: serve_head_def fr1)
      with rest have rest: "serve turn goal (fr1\<lparr>fr_queue := ls\<rparr>) s1 = Some (Inr outcome, s')" by simp
      have "queue_ok db turn (fact_order l) (fr1\<lparr>fr_queue := ls\<rparr>) \<and> covered db turn ?limits (fact_order l) (fr1\<lparr>fr_queue := ls\<rparr>)"
        by (rule popped_keeps [OF ok q1 c1 fr1 read, where found = None and ?fr2.0 = "fr1\<lparr>fr_queue := ls\<rparr>"])
           (use False same in \<open>simp_all add: enqueue_def\<close>)
      moreover have "facts_left db (fr1\<lparr>fr_queue := ls\<rparr>) < facts_left db fr1" by (simp add: facts_left_def fr1)
      ultimately show ?thesis
        using IH [OF fall rest view1, of "fact_order l"] natural same False split by simp
    next
      case free: True
      note taken_natural = take_natural [OF natural free]
      show ?thesis
      proof (cases "fact_taskHandle l = goal_target goal \<or> fr_selected fr + 1 = goal_available goal")
        case True
        then have "serve_head goal fr1 = Finish (if fact_taskHandle l = goal_target goal then Decided True ScheduleResourceQueued else Decided False (full_reason goal))"
          using same free by (auto simp: serve_head_def fr1 Let_def)
        with rest have "outcome = (if fact_taskHandle l = goal_target goal then Decided True ScheduleResourceQueued else Decided False (full_reason goal))" by simp
        then show ?thesis using True free split by (auto simp: reached_def)
      next
        case goes_on: False
        have admits: "admit goal (later db turn low) (fr_usage fr, fr_selected fr) =
            admit goal (later db turn (fact_order l)) (take_resource l (fr_usage fr), fr_selected fr + 1)"
          using split free goes_on by simp
        have less_free: "resource_free ?limits (fr_usage fr1) m" if "resource_free ?limits (fr_usage ?taken) m" for m
          using free_antimono [OF free] that same by simp
        show ?thesis
        proof (cases "resource_free ?limits (take_resource l (fr_usage fr)) l")
          case False
          then have "serve_head goal fr1 = Continue ?taken" using same free goes_on by (simp add: serve_head_def fr1)
          with rest have rest: "serve turn goal ?taken s1 = Some (Inr outcome, s')" by simp
          have "queue_ok db turn (fact_order l) ?taken \<and> covered db turn ?limits (fact_order l) ?taken"
            by (rule popped_keeps [OF ok q1 c1 fr1 read _ _ _ less_free, where found = None and ?fr2.0 = ?taken])
               (use False in \<open>simp_all add: enqueue_def\<close>)
          moreover have "facts_left db ?taken < facts_left db fr1" by (simp add: facts_left_def fr1)
          ultimately show ?thesis
            using IH [OF fall rest view1, of "fact_order l"] taken_natural admits by simp
        next
          case still: True
          then have "serve_head goal fr1 = Follow l ?taken" using same free goes_on by (simp add: serve_head_def fr1)
          with rest have "step (initiativeLaunchFactAfterResource l) (\<lambda>found. serve turn goal (enqueue ?taken found)) s1 = Some (Inr outcome, s')" by simp
          then obtain found s2 where next_fact: "initiativeLaunchFactAfterResource l s1 = (Inr found, s2)"
            and rest: "serve turn goal (enqueue ?taken found) s2 = Some (Inr outcome, s')"
            by (auto simp: step_def split: prod.splits sum.splits)
          from after_resource_ok [OF next_fact] view1 have view2: "tx_view s2 = db"
            and found: "found = (case facts_after l db of [] \<Rightarrow> None | f # _ \<Rightarrow> Some f)" by simp_all
          have "queue_ok db turn (fact_order l) (enqueue ?taken found) \<and> covered db turn ?limits (fact_order l) (enqueue ?taken found)"
            by (rule popped_keeps [OF ok q1 c1 fr1 read _ _ _ less_free refl])
               (use found in simp_all)
          moreover have "facts_left db (enqueue ?taken found) < facts_left db fr1"
            using facts_after_next [of l db] found
            by (auto simp: facts_left_def fr1 enqueue_def sum_list_push split: list.split)
          moreover have "fr_usage (enqueue ?taken found) = take_resource l (fr_usage fr)" "fr_selected (enqueue ?taken found) = fr_selected fr + 1"
            "fr_cursor (enqueue ?taken found) = fr_cursor fr1" "fr_moreHeads (enqueue ?taken found) = fr_moreHeads fr1"
            by (simp_all add: enqueue_def split: option.split)
          ultimately show ?thesis
            using IH [OF fall rest view2, of "fact_order l"] taken_natural admits by simp
        qed
      qed
    qed
  qed
qed

text \<open>
  The rounds.  A cursor starts below every fact: the text of a time is not empty.
\<close>

definition dated_facts :: "durable \<Rightarrow> bool" where
  "dated_facts db \<longleftrightarrow> (\<forall>l\<in>set (db_launch_facts db). fact_createdAt l \<noteq> [])"

lemma cursor_starts_below:
  assumes "dated_facts db" "l \<in> set (db_launch_facts db)"
  shows "([], [], []) < fact_order l"
proof -
  have "fact_createdAt l \<noteq> []" using assms by (simp add: dated_facts_def)
  then have "[] < fact_createdAt l" by (cases "fact_createdAt l") simp_all
  then show ?thesis by (simp add: fact_order_def less_prod_def)
qed

lemma round_start:
  assumes "dated_facts db"
  shows "later db turn ([], [], []) = round_facts db turn"
    "queue_ok db turn ([], [], []) \<lparr>fr_queue = [], fr_cursor = ([], [], []), fr_moreHeads = True, fr_usage = usage, fr_selected = selected\<rparr>"
    "covered db turn limits ([], [], []) \<lparr>fr_queue = [], fr_cursor = ([], [], []), fr_moreHeads = True, fr_usage = usage, fr_selected = selected\<rparr>"
proof -
  have "([], [], []) < fact_order l" if "l \<in> set (round_facts db turn)" for l
    using cursor_starts_below [OF assms] that by (simp add: round_facts_def)
  then show "later db turn ([], [], []) = round_facts db turn" by (simp add: later_def)
qed (use cursor_starts_below [OF assms] in \<open>auto simp: queue_ok_def covered_def\<close>)

lemma rounds_admit:
  assumes ok: "launch_tables_ok db" "dated_facts db"
  shows "serve_rounds goal turns (usage, selected) s = Some (Inr r, s') \<Longrightarrow> tx_view s = db \<Longrightarrow> usage_natural usage \<Longrightarrow>
    r = (case admit goal (facts_in_order db turns) (usage, selected) of Inl d \<Rightarrow> d | Inr _ \<Rightarrow> (False, goal_reason goal))"
proof (induction turns arbitrary: usage selected s)
  case Nil
  then show ?case by (simp add: facts_in_order_def)
next
  case (Cons turn turns)
  let ?fr = "\<lparr>fr_queue = [], fr_cursor = ([], [], []), fr_moreHeads = True, fr_usage = usage, fr_selected = selected\<rparr>"
  let ?low = "([], [], [])"
  obtain p s1 where load: "loadHeads turn (goal_limits goal) ?fr s = (p, s1)" by fastforce
  with Cons.prems(1) obtain fr where p: "p = Inr fr" by (cases p) (auto simp: step_def)
  have view1: "tx_view s1 = db" using readsD [OF reads_queries(1) load] Cons.prems(2) by simp
  from load p loadHeads_ok Cons.prems(2) have
    "fr = absorb (page_rows turn (fr_cursor ?fr) (goal_limits goal) (fr_usage ?fr) initiativeSchedulingPageSize db) ?fr" by blast
  from absorb_keeps [OF ok(1) round_start(2,3) [OF ok(2)] _ _ this] Cons.prems(3)
  have kept: "queue_ok db turn ?low fr" "covered db turn (goal_limits goal) ?low fr" "fr_usage fr = usage" "fr_selected fr = selected"
    by simp_all
  from serve_returns [of turn goal fr s1] obtain q s2 where serve: "serve turn goal fr s1 = Some (q, s2)" "tx_view s2 = tx_view s1"
    by blast
  with Cons.prems(1) load p obtain outcome where q: "q = Inr outcome" by (cases q) (auto simp: step_def proceed_def)
  have reached: "reached goal (admit goal (round_facts db turn) (usage, selected)) outcome"
    using serve_admits [OF ok(1) serve(1) [unfolded q] view1 kept(1,2)] Cons.prems(3) kept(3,4) round_start(1) [OF ok(2)] by simp
  show ?case
  proof (cases outcome)
    case (Decided launchable reason)
    with Cons.prems(1) load p serve q have "r = (launchable, reason)" by (simp add: step_def proceed_def)
    with reached Decided show ?thesis by (simp add: facts_in_order_def admit_append reached_def)
  next
    case (RoundOver fr')
    with Cons.prems(1) load p serve q have "serve_rounds goal turns (fr_usage fr', fr_selected fr') s2 = Some (Inr r, s')"
      by (simp add: step_def proceed_def)
    with Cons.IH RoundOver reached serve(2) view1 show ?thesis
      by (simp add: facts_in_order_def admit_append reached_def)
  qed
qed

end
