(* ===== verification/Launch_Contract.thy ===== *)
theory Launch_Contract
  imports Launch_Order
begin

text \<open>
  The start of a task under the laws of the store: what the authority reads and refreshes, what a new start
  records, and the launch tables, which every step of the store keeps in step with each other.
\<close>

section \<open>What the authority touches\<close>

lemma authority_reads [tx_reads]:
  "reads (initiativeLaunchFactForTask task)" "reads initiativeSchedulingUsage"
  "reads (initiativeSchedulingCandidates u i h l w)"
  unfolding initiativeLaunchFactForTask_def initiativeSchedulingUsage_def initiativeSchedulingCandidates_def
  by (intro tx_reads)+

lemma refresh_leaves_core [tx_leaves]:
  "leaves core_part (refreshInitiativeLaunchFacts u i)"
proof -
  have k: "leaves core_part (refreshInitiativeLaunchResourceKeys ks)" for ks
    unfolding refreshInitiativeLaunchResourceKeys_def refreshInitiativeLaunchResourceHead_def
    by (intro tx_leaves leaves_execute) (simp_all add: core_parts)
  show ?thesis
    unfolding refreshInitiativeLaunchFacts_def replaceInitiativeLaunchFacts_def insert_launch_fact_def
    by (intro tx_leaves leaves_execute leaves_insert_unless k) (simp_all add: core_parts)
qed

lemma authority_leaves_core [tx_leaves]: "leaves core_part (authorizeInitiativeTaskStart u task limits)"
  unfolding authorizeInitiativeTaskStart_def
  by (intro tx_leaves leaves_reads [OF frontier_reads] authority_reads [THEN leaves_reads])

lemma authority_uncommitted [tx_uncommitted]: "uncommitted (authorizeInitiativeTaskStart u task limits)"
  unfolding authorizeInitiativeTaskStart_def
  by (intro tx_uncommitted reads_uncommitted [OF frontier_reads] authority_reads [THEN reads_uncommitted])

lemma commits_last_start [tx_commits]: "commits_last (commit_new_start u m)"
  unfolding commit_new_start_def Let_def by (intro tx_commits tx_uncommitted)

section \<open>What a new start recorded\<close>

lemma commit_new_start_ok:
  assumes run: "commit_new_start u m s = (Inr (x::MutationResult), s')"
  obtains task s1 a s2 moved v s3 b s4 c s5 where
    "getTask u (start_TaskHandle m) s = (Inr task, s1)"
    "authorizeInitiativeTaskStart u task (start_SchedulingLimits m) s1 = (Inr a, s2)"
    "ApplyTransition u task TransitionLaunchRequested (start_At m) = (moved, None)"
    "nextMutationStateVersion s2 = (Inr v, s3)"
    "updateTaskState u (moved\<lparr>task_StateVersion := v\<rparr>) s3 = (Inr b, s4)"
    "insertOperation (completedMutationOperation (start_OperationID m) ''StartTask'' (start_SubjectDigest m)
       (task_Handle moved) v (start_At m)) s4 = (Inr c, s5)"
    "tx_view s' = tx_view s5" "res_Task x = moved\<lparr>task_StateVersion := v\<rparr>"
    "res_Operation x = completedMutationOperation (start_OperationID m) ''StartTask'' (start_SubjectDigest m) (task_Handle moved) v (start_At m)"
proof -
  from run obtain task s1 a s2 moved t2 v s3 b s4 c s5 e s6 where
    get: "getTask u (start_TaskHandle m) s = (Inr task, s1)"
    and auth: "authorizeInitiativeTaskStart u task (start_SchedulingLimits m) s1 = (Inr a, s2)"
    and step: "applied ''apply task start'' (ApplyTransition u task TransitionLaunchRequested (start_At m)) s2 = (Inr moved, t2)"
    and version: "nextMutationStateVersion t2 = (Inr v, s3)"
    and writes: "updateTaskState u (moved\<lparr>task_StateVersion := v\<rparr>) s3 = (Inr b, s4)"
      "insertOperation (completedMutationOperation (start_OperationID m) ''StartTask'' (start_SubjectDigest m)
         (task_Handle (moved\<lparr>task_StateVersion := v\<rparr>)) v (start_At m)) s4 = (Inr c, s5)"
    and commit: "commit s5 = (Inr e, s6)" "s' = s6"
    and x: "x = \<lparr>res_Task = moved\<lparr>task_StateVersion := v\<rparr>, res_Operation = completedMutationOperation (start_OperationID m) ''StartTask''
       (start_SubjectDigest m) (task_Handle (moved\<lparr>task_StateVersion := v\<rparr>)) v (start_At m), res_Preparation = None\<rparr>"
    unfolding commit_new_start_def Let_def inversion by (elim exE conjE) (rule that, simp_all)
  from step have "t2 = s2" "ApplyTransition u task TransitionLaunchRequested (start_At m) = (moved, None)"
    unfolding applied_def
    by (cases "ApplyTransition u task TransitionLaunchRequested (start_At m)"; auto simp: tx_ok split: option.splits)+
  with get auth version writes commit x that show thesis by auto
qed

lemma start_recorded:
  assumes run: "commit_new_start u m s = (Inr (x::MutationResult), s')"
  shows "recorded u (start_OperationID m) ''StartTask'' (start_SubjectDigest m) x (tx_view s) (tx_view s') \<and>
    trailed (res_Task x) (tx_view s) (tx_view s')"
proof -
  from commit_new_start_ok [OF run] obtain task s1 a s2 moved v s3 b s4 c s5 where
    get: "getTask u (start_TaskHandle m) s = (Inr task, s1)"
    and auth: "authorizeInitiativeTaskStart u task (start_SchedulingLimits m) s1 = (Inr a, s2)"
    and step: "ApplyTransition u task TransitionLaunchRequested (start_At m) = (moved, None)"
    and version: "nextMutationStateVersion s2 = (Inr v, s3)"
    and writes: "updateTaskState u (moved\<lparr>task_StateVersion := v\<rparr>) s3 = (Inr b, s4)"
      "insertOperation (completedMutationOperation (start_OperationID m) ''StartTask'' (start_SubjectDigest m)
       (task_Handle moved) v (start_At m)) s4 = (Inr c, s5)"
    and x: "tx_view s' = tx_view s5" "res_Task x = moved\<lparr>task_StateVersion := v\<rparr>"
    "res_Operation x = completedMutationOperation (start_OperationID m) ''StartTask'' (start_SubjectDigest m) (task_Handle moved) v (start_At m)" .
  let ?t = "moved\<lparr>task_StateVersion := v\<rparr>"
  have core: "core_part (tx_view s2) = core_part (tx_view s)"
    using leavesD [OF authority_leaves_core auth] readsD [OF reads_task(1) get] by simp
  from returnsD [OF returns_getTask get] have "stored_valid u (tasks_of (tx_view s)) task" by (simp add: core_part_def)
  moreover from step obtain st where "moved = stepped task st (start_At m)"
    by (auto simp: ApplyTransition_accepts)
  ultimately have moved: "moved_in u (tasks_of (tx_view s)) ?t"
    by (simp only:) (intro moved_in_steps moved_in_stored)
  show ?thesis unfolding x(2)
  proof (rule recordedI [OF core version _ _ writes(1) writes(2)])
    show "tasks_of (tx_view s') = store_task ?t (tasks_of (tx_view s))"
      if "one_row ?t (tasks_of (tx_view s))" "tasks_of (tx_view s5) = move_in ?t (tasks_of (tx_view s))"
      using move_in_stores [OF moved that(1)] that(2) x(1) by simp
  qed (simp_all add: x)
qed

section \<open>The launch tables stay in step\<close>

definition launch_part :: "durable \<Rightarrow> initiativeLaunchFact list \<times> initiativeLaunchFact list" where
  "launch_part db = (db_launch_facts db, db_launch_heads db)"

definition launch_sound :: "durable \<Rightarrow> bool" where
  "launch_sound db \<longleftrightarrow> launch_tables_ok db \<and> dated_facts db"

lemma launch_sound_part: "launch_part a = launch_part b \<Longrightarrow> launch_sound a = launch_sound b"
  by (simp add: launch_part_def launch_sound_def launch_tables_ok_def dated_facts_def)

lemma keeps_launch_part: "leaves launch_part m \<Longrightarrow> keeps launch_sound m"
  unfolding leaves_def keeps_def using launch_sound_part by blast

lemma leaves_launch_writes [tx_leaves]:
  "leaves launch_part (insertTask u t)" "leaves launch_part (insertOperation oper)" "leaves launch_part (insert_operation_labelled l oper)"
  "leaves launch_part (insertReplayConflict oper c d)" "leaves launch_part (clearPauseRequest h)"
  "leaves launch_part (updateManagedRunPreparation t p)" "leaves launch_part (consumeTaskPreparationIntent pm)"
  "leaves launch_part (insertManagedRunPreparation h p at)" "leaves launch_part (putTerminalBinding b known)"
  "leaves launch_part (rotateTerminalBinding b session)" "leaves launch_part (appendTaskStateEvent t)"
  "leaves launch_part (recordTaskReplacement rm q v w)" "leaves launch_part (resume_record rsm y t)" "leaves launch_part (steer_record ssm y t)"
  "leaves launch_part (no_record z t)"
proof -
  note defs = launch_part_def set_pause_def
  show "leaves launch_part (insertTask u t)" unfolding insertTask_def
    by (intro tx_leaves leaves_insert_unless) (simp add: defs)
  show o: "leaves launch_part (insertOperation oper)" for oper unfolding insertOperation_def
    by (intro tx_leaves leaves_insert_unless) (simp add: defs)
  show "leaves launch_part (insert_operation_labelled l oper)" unfolding insert_operation_labelled_def by (intro tx_leaves o)
  show "leaves launch_part (insertReplayConflict oper c d)" unfolding insertReplayConflict_def
    by (rule leaves_execute) (simp add: defs)
  show "leaves launch_part (clearPauseRequest h)" unfolding clearPauseRequest_def
    by (intro tx_leaves leaves_execute) (simp add: defs)
  show "leaves launch_part (updateManagedRunPreparation t p)" unfolding updateManagedRunPreparation_def
    by (intro tx_leaves leaves_statement) (auto simp: defs)
  show "leaves launch_part (consumeTaskPreparationIntent pm)" unfolding consumeTaskPreparationIntent_def
    by (intro tx_leaves leaves_statement) (auto simp: defs)
  show "leaves launch_part (insertManagedRunPreparation h p at)" unfolding insertManagedRunPreparation_def
    by (rule leaves_insert_unless) (simp add: defs)
  have b: "leaves launch_part (update_terminal_bindings l change h session)" for l change h session
    unfolding update_terminal_bindings_def by (intro tx_leaves leaves_statement) (auto simp: defs Let_def split: if_splits)
  show "leaves launch_part (putTerminalBinding b known)" unfolding putTerminalBinding_def
    by (intro tx_leaves b leaves_insert_unless) (simp add: defs)
  show "leaves launch_part (rotateTerminalBinding b session)" unfolding rotateTerminalBinding_def by (rule b)
  show "leaves launch_part (appendTaskStateEvent t)" unfolding appendTaskStateEvent_def appendServiceEvent_def
    by (intro tx_leaves leaves_execute) (simp add: defs)
  show "leaves launch_part (recordTaskReplacement rm q v w)" unfolding recordTaskReplacement_def
    by (intro tx_leaves leaves_insert_unless) (simp add: defs)
  show "leaves launch_part (resume_record rsm y t)" unfolding resume_record_def
    by (intro tx_leaves leaves_insert_unless) (simp add: defs)
  show "leaves launch_part (steer_record ssm y t)" unfolding steer_record_def
    by (intro tx_leaves leaves_insert_unless) (simp add: defs)
  show "leaves launch_part (no_record z t)" unfolding no_record_def by (intro tx_leaves)
qed

text \<open>
  A refresh replaces the facts of one initiative and recomputes the heads of every key one of its facts had
  or has.  \<open>in_step K db\<close>: the heads of every key outside \<open>K\<close> are the first facts.
\<close>

definition in_step :: "initiativeLaunchResourceKey set \<Rightarrow> durable \<Rightarrow> bool" where
  "in_step K db \<longleftrightarrow> (\<forall>key. key \<notin> K \<longrightarrow> filter (\<lambda>h. fact_key h = key) (db_launch_heads db) = first_fact key (db_launch_facts db))"

definition facts_ok :: "durable \<Rightarrow> bool" where
  "facts_ok db \<longleftrightarrow> distinct (map fact_taskHandle (db_launch_facts db)) \<and> dated_facts db"

lemma launch_sound_iff: "launch_sound db \<longleftrightarrow> in_step {} db \<and> facts_ok db"
  by (auto simp: launch_sound_def launch_tables_ok_def in_step_def facts_ok_def)

lemma in_stepI: "(\<And>key. key \<notin> K \<Longrightarrow> filter (\<lambda>h. fact_key h = key) (db_launch_heads db) = first_fact key (db_launch_facts db)) \<Longrightarrow> in_step K db"
  unfolding in_step_def by blast

lemma in_stepD: "in_step K db \<Longrightarrow> key \<notin> K \<Longrightarrow> filter (\<lambda>h. fact_key h = key) (db_launch_heads db) = first_fact key (db_launch_facts db)"
  unfolding in_step_def by blast

lemma first_fact_other: "key \<noteq> k \<Longrightarrow> filter (\<lambda>h. fact_key h = k) (first_fact key facts) = []"
  by (auto simp: filter_empty_conv dest: first_fact_member(2))

lemma first_fact_same: "filter (\<lambda>h. fact_key h = key) (first_fact key facts) = first_fact key facts"
  by (auto simp: filter_id_conv dest: first_fact_member(2))

lemma refresh_head_ok:
  assumes "refreshInitiativeLaunchResourceHead key s = (Inr x, s')" "in_step (insert key K) (tx_view s)"
  shows "in_step K (tx_view s') \<and> db_launch_facts (tx_view s') = db_launch_facts (tx_view s)"
proof -
  from assms(1) have v: "tx_view s' = (tx_view s)\<lparr>db_launch_heads := filter (\<lambda>h. fact_key h \<noteq> key) (db_launch_heads (tx_view s)) @
      first_fact key (db_launch_facts (tx_view s))\<rparr>"
    unfolding refreshInitiativeLaunchResourceHead_def by (auto simp: tx_ok)
  have "in_step K (tx_view s')"
  proof (rule in_stepI)
    fix k
    assume "k \<notin> K"
    show "filter (\<lambda>h. fact_key h = k) (db_launch_heads (tx_view s')) = first_fact k (db_launch_facts (tx_view s'))"
    proof (cases "k = key")
      case True
      then show ?thesis by (simp add: v first_fact_same)
    next
      case False
      have "filter (\<lambda>h. fact_key h \<noteq> key \<and> fact_key h = k) hs = filter (\<lambda>h. fact_key h = k) hs" for hs
        using False by (auto intro: filter_cong)
      then show ?thesis using False in_stepD [OF assms(2), of k] \<open>k \<notin> K\<close> by (simp add: v first_fact_other)
    qed
  qed
  then show ?thesis by (simp add: v)
qed

lemma refresh_keys_ok:
  assumes "refreshInitiativeLaunchResourceKeys keys s = (Inr x, s')" "in_step (set keys) (tx_view s)"
  shows "in_step {} (tx_view s') \<and> db_launch_facts (tx_view s') = db_launch_facts (tx_view s)"
proof -
  have "in_step (K - set ks) (tx_view s') \<and> db_launch_facts (tx_view s') = db_launch_facts (tx_view s)"
    if "each refreshInitiativeLaunchResourceHead ks s = (Inr y, s')" "in_step K (tx_view s)" for ks y s s' K
    using that
  proof (induction ks arbitrary: y s K)
    case Nil
    then show ?case by (simp add: tx_ok)
  next
    case (Cons k ks)
    then obtain a t ys where k: "refreshInitiativeLaunchResourceHead k s = (Inr a, t)"
      and rest: "each refreshInitiativeLaunchResourceHead ks t = (Inr ys, s')"
      by (auto simp: tx_ok)
    from Cons.prems(2) have "in_step (insert k (K - {k})) (tx_view s)" by (auto simp: in_step_def)
    from refresh_head_ok [OF k this] Cons.IH [OF rest, of "K - {k}"]
    show ?case by (auto simp: in_step_def)
  qed
  moreover from assms(1) obtain y where "each refreshInitiativeLaunchResourceHead (remdups keys) s = (Inr y, s')"
    unfolding refreshInitiativeLaunchResourceKeys_def by (auto simp: tx_ok)
  ultimately have "in_step (set keys - set (remdups keys)) (tx_view s') \<and> db_launch_facts (tx_view s') = db_launch_facts (tx_view s)"
    using assms(2) by blast
  then show ?thesis by simp
qed

text \<open>The facts of one initiative change: what may be out of step are the keys they had and have.\<close>

definition own_keys :: "string \<Rightarrow> durable \<Rightarrow> initiativeLaunchResourceKey set" where
  "own_keys handle db = fact_key ` {f \<in> set (db_launch_facts db). fact_initiativeHandle f = handle}"

lemma resource_keys_ok:
  assumes "initiativeLaunchResourceKeys h s = (Inr keys, s')"
  shows "set keys = own_keys h (tx_view s)" "tx_view s' = tx_view s"
proof -
  show "tx_view s' = tx_view s" using readsD [OF reads_initiative(4) assms] by simp
  show "set keys = own_keys h (tx_view s)"
    using assms unfolding initiativeLaunchResourceKeys_def own_keys_def
    by (auto simp: tx_ok split: if_splits)
qed

lemma insert_fact_ok:
  assumes "insert_launch_fact i tasks n c s = (Inr x, s')"
  obtains f where "db_launch_facts (tx_view s') = db_launch_facts (tx_view s) @ [f]" "db_launch_heads (tx_view s') = db_launch_heads (tx_view s)"
    "fact_initiativeHandle f = ini_Handle i" "\<forall>g\<in>set (db_launch_facts (tx_view s)). fact_taskHandle g \<noteq> fact_taskHandle f"
    "fact_createdAt f = formatTime (ini_CreatedAt i)"
  using assms that unfolding insert_launch_fact_def
  by (auto simp: tx_ok case_prod_beta split: option.splits dest!: insert_unless_ok)

lemma formatTime_nonempty: "formatTime t \<noteq> []"
  by (simp add: formatTime_def)

lemma insert_facts_ok:
  "each (insert_launch_fact i tasks n) cs s = (Inr x, s') \<Longrightarrow> facts_ok (tx_view s) \<Longrightarrow>
     facts_ok (tx_view s') \<and> db_launch_heads (tx_view s') = db_launch_heads (tx_view s) \<and>
     (\<exists>new. db_launch_facts (tx_view s') = db_launch_facts (tx_view s) @ new \<and> (\<forall>f\<in>set new. fact_initiativeHandle f = ini_Handle i))"
proof (induction cs arbitrary: x s)
  case Nil
  then show ?case by (simp add: tx_ok)
next
  case (Cons c cs)
  then obtain a t xs where c: "insert_launch_fact i tasks n c s = (Inr a, t)" and rest: "each (insert_launch_fact i tasks n) cs t = (Inr xs, s')"
    by (auto simp: tx_ok)
  from insert_fact_ok [OF c] obtain f where f: "db_launch_facts (tx_view t) = db_launch_facts (tx_view s) @ [f]"
    "db_launch_heads (tx_view t) = db_launch_heads (tx_view s)" "fact_initiativeHandle f = ini_Handle i"
    "\<forall>g\<in>set (db_launch_facts (tx_view s)). fact_taskHandle g \<noteq> fact_taskHandle f" "fact_createdAt f = formatTime (ini_CreatedAt i)" .
  have "facts_ok (tx_view t)" using Cons.prems(2) f formatTime_nonempty by (auto simp: facts_ok_def dated_facts_def)
  from Cons.IH [OF rest this] f show ?case by auto
qed

lemma first_fact_cong: "filter (\<lambda>f. fact_key f = key) fs = filter (\<lambda>f. fact_key f = key) gs \<Longrightarrow> first_fact key fs = first_fact key gs"
  by (simp add: first_fact_def)

lemma replace_facts_keep: "keeps launch_sound (replaceInitiativeLaunchFacts u i True)"
  unfolding keeps_def
proof (intro allI impI)
  fix s x s'
  assume sound: "launch_sound (tx_view s)" and run: "replaceInitiativeLaunchFacts u i True s = (Inr x, s')"
  let ?h = "ini_Handle i" and ?v = "tx_view s"
  define v1 where "v1 = ?v\<lparr>db_launch_facts := filter (\<lambda>f. fact_initiativeHandle f \<noteq> ?h) (db_launch_facts ?v)\<rparr>"
  define body where "body before = (if ini_State i \<noteq> InitiativeActive then refreshInitiativeLaunchResourceKeys before
     else
       andThen (each (launch_member u) (initiativeTaskHandles i)) (\<lambda>tasks.
       andThen (within ''read initiative launch artifacts''
         (listInitiativeContractArtifactMetadata (ini_Handle i))) (\<lambda>artifacts.
       andThen (yield
         (case ScheduleInitiativesWithUsage u [i] tasks artifacts
            \<lparr>lim_MaxConcurrentTasks = maximumInitiativeSchedulingFrontier,
             lim_MaxConcurrentTasksPerRepository = maximumInitiativeSchedulingFrontier,
             lim_WorkerProfileLimits =
               fmap_of_list (map (\<lambda>t. (task_WorkerProfileID t, maximumInitiativeSchedulingFrontier)) tasks)\<rparr>
            \<lparr>given_Host = 0, given_Repositories = fmempty, given_WorkerProfiles = fmempty\<rparr> of
            Inr [schedule] \<Rightarrow> Inr schedule
          | Inr _ \<Rightarrow> Inl (PlainError ''initiative launch schedule is unavailable'')
          | Inl e \<Rightarrow> Inl (WrapError ''initiative launch schedule is unavailable'' e))) (\<lambda>schedule.
       andThen (each (insert_launch_fact i tasks
           (length (filter (\<lambda>t. task_State t \<noteq> TaskPrepared \<and> task_State t \<noteq> TaskReady) tasks)))
         (enumerate 0 (launch_decisions schedule))) (\<lambda>_.
       andThen (initiativeLaunchResourceKeys (ini_Handle i)) (\<lambda>after.
       refreshInitiativeLaunchResourceKeys (before @ after)))))))" for before
  from sound have start: "in_step {} ?v" "facts_ok ?v" by (simp_all add: launch_sound_iff)
  have cleared: "facts_ok v1" using start(2) by (auto simp: facts_ok_def dated_facts_def v1_def intro: distinct_map_filter)
  have apart: "in_step (own_keys ?h ?v \<union> own_keys ?h db) db"
    if heads: "db_launch_heads db = db_launch_heads v1"
      and facts: "db_launch_facts db = db_launch_facts v1 @ new" "\<forall>f\<in>set new. fact_initiativeHandle f = ?h" for db new
  proof (rule in_stepI)
    fix key
    assume key: "key \<notin> own_keys ?h ?v \<union> own_keys ?h db"
    have "filter (\<lambda>f. fact_key f = key) new = []"
      using key facts by (auto simp: filter_empty_conv own_keys_def)
    moreover have "filter (\<lambda>f. fact_key f = key) (db_launch_facts v1) = filter (\<lambda>f. fact_key f = key) (db_launch_facts ?v)"
      using key by (auto simp: v1_def own_keys_def intro: filter_cong)
    ultimately have "first_fact key (db_launch_facts db) = first_fact key (db_launch_facts ?v)"
      by (intro first_fact_cong) (simp add: facts(1))
    with in_stepD [OF start(1), of key] heads
    show "filter (\<lambda>h. fact_key h = key) (db_launch_heads db) = first_fact key (db_launch_facts db)"
      by (simp add: v1_def)
  qed
  have "replaceInitiativeLaunchFacts u i True = andThen (initiativeLaunchResourceKeys ?h) (\<lambda>before.
     andThen (within ''clear initiative launch facts'' (execute (\<lambda>db. db\<lparr>db_launch_facts :=
       filter (\<lambda>f. fact_initiativeHandle f \<noteq> ?h) (db_launch_facts db)\<rparr>))) (\<lambda>_. body before))"
    by (simp only: replaceInitiativeLaunchFacts_def body_def if_True)
  with run obtain before s1 a s2 where
    before: "initiativeLaunchResourceKeys ?h s = (Inr before, s1)"
    and clear: "execute (\<lambda>db. db\<lparr>db_launch_facts := filter (\<lambda>f. fact_initiativeHandle f \<noteq> ?h) (db_launch_facts db)\<rparr>) s1 = (Inr a, s2)"
    and rest: "body before s2 = (Inr x, s')"
    by (simp only: andThen_ok within_ok) (elim exE conjE, rule that)
  note b = resource_keys_ok [OF before]
  from clear b(2) have v2: "tx_view s2 = v1" by (auto simp: v1_def)
  show "launch_sound (tx_view s')"
  proof (cases "ini_State i = InitiativeActive")
    case False
    with rest have "refreshInitiativeLaunchResourceKeys before s2 = (Inr x, s')" by (simp add: body_def)
    moreover have "own_keys ?h v1 = {}" by (auto simp: own_keys_def v1_def)
    then have "in_step (set before) (tx_view s2)" using apart [of v1 "[]"] v2 b(1) by simp
    ultimately have "in_step {} (tx_view s')" "db_launch_facts (tx_view s') = db_launch_facts v1"
      using refresh_keys_ok v2 by simp_all
    with cleared show ?thesis by (simp add: launch_sound_iff facts_ok_def dated_facts_def)
  next
    case True
    with rest obtain tasks s2a artifacts s2b schedule s3 c s4 after s5 where
      loaded: "each (launch_member u) (initiativeTaskHandles i) s2 = (Inr tasks, s2a)"
        "listInitiativeContractArtifactMetadata ?h s2a = (Inr artifacts, s2b)" "s3 = s2b"
      and inserted: "each (insert_launch_fact i tasks
           (length (filter (\<lambda>t. task_State t \<noteq> TaskPrepared \<and> task_State t \<noteq> TaskReady) tasks)))
         (enumerate 0 (launch_decisions schedule)) s3 = (Inr c, s4)"
      and after: "initiativeLaunchResourceKeys ?h s4 = (Inr after, s5)"
      and refreshed: "refreshInitiativeLaunchResourceKeys (before @ after) s5 = (Inr x, s')"
      unfolding body_def if_not_P [OF not_not [THEN iffD2, OF True]] andThen_ok within_ok yield_ok
      by (elim exE conjE) (rule that, assumption+)
    have "reads (each (launch_member u) (initiativeTaskHandles i))" "reads (listInitiativeContractArtifactMetadata ?h)"
      by (intro tx_reads)+
    from readsD [OF this(1) loaded(1)] readsD [OF this(2) loaded(2)] loaded(3) v2 have v3: "tx_view s3 = v1" by simp
    from insert_facts_ok [OF inserted] cleared v3 obtain new where
      ok: "facts_ok (tx_view s4)" "db_launch_heads (tx_view s4) = db_launch_heads v1"
      and new: "db_launch_facts (tx_view s4) = db_launch_facts v1 @ new" "\<forall>f\<in>set new. fact_initiativeHandle f = ?h" by auto
    note f = resource_keys_ok [OF after]
    have "in_step (set (before @ after)) (tx_view s5)" using apart [OF ok(2) new] b(1) f by simp
    from refresh_keys_ok [OF refreshed this] ok(1) f(2) show ?thesis
      by (simp add: launch_sound_iff facts_ok_def dated_facts_def)
  qed
qed

lemmas store_reads_keep [tx_keeps] = store_reads [THEN keeps_reads] reads_basic [THEN keeps_reads] reads_select [THEN keeps_reads]
lemmas launch_writes_keep [tx_keeps] = leaves_launch_writes [THEN keeps_launch_part] leaves_commit [THEN keeps_launch_part]

lemma refresh_keeps [tx_keeps]:
  "keeps launch_sound (refreshInitiativeLaunchFacts u i)" "keeps launch_sound (refreshInitiativeLaunchFactsForTask u h)"
  "keeps launch_sound (updateInitiativeRecord u i)" "keeps launch_sound (refreshInitiativeAggregate u h v at)"
proof -
  show f: "keeps launch_sound (refreshInitiativeLaunchFacts u i)" for i
    unfolding refreshInitiativeLaunchFacts_def by (rule replace_facts_keep)
  show "keeps launch_sound (refreshInitiativeLaunchFactsForTask u h)"
    unfolding refreshInitiativeLaunchFactsForTask_def by (intro tx_keeps f)
  show i: "keeps launch_sound (updateInitiativeRecord u i)" for i
    unfolding updateInitiativeRecord_def
    by (intro tx_keeps keeps_launch_part [OF leaves_statement] f) (auto simp: launch_part_def)
  show "keeps launch_sound (refreshInitiativeAggregate u h v at)"
    unfolding refreshInitiativeAggregate_def by (intro tx_keeps f i)
qed

lemma updates_keep [tx_keeps]:
  "keeps launch_sound (updateTaskState u t)" "keeps launch_sound (replace_record u rm q t)"
  "keeps launch_sound (authorizeInitiativeTaskStart u task limits)"
proof -
  show "keeps launch_sound (updateTaskState u t)"
    unfolding updateTaskState_def updateTaskStateWithReservationGuard_def
    by (intro tx_keeps keeps_launch_part [OF leaves_statement]) (auto simp: launch_part_def write_state_def)
  show "keeps launch_sound (replace_record u rm q t)"
    unfolding replace_record_def updateTaskBriefAndWorker_def
    by (intro tx_keeps keeps_launch_part [OF leaves_statement]) (auto simp: launch_part_def write_brief_and_worker_def)
  show "keeps launch_sound (authorizeInitiativeTaskStart u task limits)"
    unfolding authorizeInitiativeTaskStart_def
    by (intro tx_keeps keeps_reads [OF frontier_reads] authority_reads [THEN keeps_reads])
qed

lemma bodies_keep [tx_keeps]:
  "keeps launch_sound (abandon_body u abm)" "keeps launch_sound (pause_body u tcm)" "keeps launch_sound (cancel_body u tcm)"
proof -
  show "keeps launch_sound (abandon_body u abm)" unfolding abandon_body_def by (intro tx_keeps)
  show "keeps launch_sound (pause_body u tcm)" unfolding pause_body_def
    by (intro tx_keeps keeps_launch_part [OF leaves_execute]) (simp add: launch_part_def set_pause_def)
  show "keeps launch_sound (cancel_body u tcm)" unfolding cancel_body_def by (intro tx_keeps)
qed

lemma new_commands_keep [tx_keeps]:
  "keeps launch_sound body \<Longrightarrow> (\<And>x t. keeps launch_sound (spec_Record spec x t)) \<Longrightarrow> keeps launch_sound (commit_new_mutation u spec body)"
  "keeps launch_sound (commit_new_prepared u pm)" "keeps launch_sound (commit_new_activation u am)"
  "keeps launch_sound (commit_new_terminal_event u em)" "keeps launch_sound (commit_new_acknowledgement u wm)"
  "keeps launch_sound (commit_new_start u sm)"
proof -
  note writes = keeps_launch_part [OF leaves_statement] keeps_launch_part [OF leaves_insert_unless]
    keeps_launch_part [OF leaves_terminalConstraintFailure]
  show "keeps launch_sound (commit_new_mutation u spec body)"
    if "keeps launch_sound body" "\<And>x t. keeps launch_sound (spec_Record spec x t)"
    unfolding commit_new_mutation_def Let_def by (intro tx_keeps that)
  show "keeps launch_sound (commit_new_prepared u pm)"
    unfolding commit_new_prepared_def Let_def by (intro tx_keeps)
  show "keeps launch_sound (commit_new_activation u am)"
    unfolding commit_new_activation_def Let_def
    by (intro tx_keeps writes) (auto simp: launch_part_def write_binding_def)
  show "keeps launch_sound (commit_new_terminal_event u em)"
    unfolding commit_new_terminal_event_def Let_def
    by (intro tx_keeps writes tx_leaves leaves_insert_unless) (auto simp: launch_part_def)
  show "keeps launch_sound (commit_new_acknowledgement u wm)"
    unfolding commit_new_acknowledgement_def Let_def
    by (intro tx_keeps writes tx_leaves leaves_insert_unless) (auto simp: launch_part_def)
  show "keeps launch_sound (commit_new_start u sm)"
    unfolding commit_new_start_def Let_def by (intro tx_keeps)
qed

end
