(* ===== verification/Store_Laws.thy ===== *)
theory Store_Laws
  imports Launch_Contract
begin

text \<open>
  The interface every command of the store offers its callers: a new command is recorded once with its
  task, a replay answers from the record and changes nothing, an altered replay is refused and audited,
  and any other refusal leaves the database as it was.  A command also keeps the launch tables in step.
\<close>

section \<open>The laws of a command\<close>

text \<open>
  \<open>f\<close> is the mutation result within what the command returns; \<open>R\<close> says what else a new command does to the
  database, given its task.
\<close>

definition lawful ::
  "print_table \<Rightarrow> (Task \<Rightarrow> durable \<Rightarrow> durable \<Rightarrow> bool) \<Rightarrow> string \<Rightarrow> string \<Rightarrow> string \<Rightarrow> ('r \<Rightarrow> MutationResult) \<Rightarrow>
     (durable \<Rightarrow> go_error option list \<Rightarrow> 'r result \<times> durable) \<Rightarrow> bool" where
  "lawful u R opid command digest f run \<longleftrightarrow>
     (\<forall>db fs x db'. run db fs = (Inr x, db') \<longrightarrow> find_operation opid db = None \<longrightarrow>
        recorded u opid command digest (f x) db db' \<and> R (res_Task (f x)) db db' \<and> (launch_sound db \<longrightarrow> launch_sound db')) \<and>
     (\<forall>db fs x db' oper. run db fs = (Inr x, db') \<longrightarrow> find_operation opid db = Some oper \<longrightarrow>
        db' = db \<and> res_Operation (f x) = oper \<and> \<not> differs oper command digest \<and>
        find (\<lambda>t. task_Handle t = op_ResultRef oper) (tasks_of db) = Some (res_Task (f x))) \<and>
     (\<forall>db fs e db'. run db fs = (Inl e, db') \<longrightarrow> db' = db \<or>
        (\<exists>oper. find_operation opid db = Some oper \<and> differs oper command digest \<and> db' = audited oper command digest db))"

lemma lawfulD:
  assumes "lawful u R opid command digest f run"
  shows "run db fs = (Inr x, db') \<Longrightarrow> find_operation opid db = None \<Longrightarrow>
      recorded u opid command digest (f x) db db' \<and> R (res_Task (f x)) db db' \<and> (launch_sound db \<longrightarrow> launch_sound db')"
    and "run db fs = (Inr x, db') \<Longrightarrow> find_operation opid db = Some oper \<Longrightarrow>
      db' = db \<and> res_Operation (f x) = oper \<and> \<not> differs oper command digest \<and>
      find (\<lambda>t. task_Handle t = op_ResultRef oper) (tasks_of db) = Some (res_Task (f x))"
    and "run db fs = (Inl e, db') \<Longrightarrow> db' = db \<or>
      (\<exists>oper. find_operation opid db = Some oper \<and> differs oper command digest \<and> db' = audited oper command digest db)"
  using assms unfolding lawful_def by blast+

lemma lawful_early: "lawful u R opid command digest f run \<Longrightarrow> lawful u R opid command digest f (\<lambda>db fs. if b then (Inl e, db) else run db fs)"
  by (cases b) (simp_all add: lawful_def)

lemma lawful_checked:
  "lawful u R opid command digest f run \<Longrightarrow>
     lawful u R opid command digest f (\<lambda>db fs. case c of Some e \<Rightarrow> (Inl e, db) | None \<Rightarrow> run db fs)"
  by (cases c) (simp_all add: lawful_def)

lemma map_prod_Inr: "map_prod (map_sum id g) id y = (Inr x, db') \<longleftrightarrow> (\<exists>z. y = (Inr z, db') \<and> x = g z)"
  by (cases y; cases "fst y") auto

lemma map_prod_Inl: "map_prod (map_sum id g) id y = (Inl e, db') \<longleftrightarrow> y = (Inl e, db')"
  by (cases y; cases "fst y") auto

lemma recorded_cong:
  "res_Task x = res_Task y \<Longrightarrow> res_Operation x = res_Operation y \<Longrightarrow> recorded u i c d x db db' \<longleftrightarrow> recorded u i c d y db db'"
  by (simp add: recorded_def)

lemma lawful_map:
  assumes run: "lawful u R opid command digest f run"
    and same: "\<And>x. res_Task (h (g x)) = res_Task (f x)" "\<And>x. res_Operation (h (g x)) = res_Operation (f x)"
  shows "lawful u R opid command digest h (\<lambda>db fs. map_prod (map_sum id g) id (run db fs))"
proof -
  show ?thesis unfolding lawful_def map_prod_Inr map_prod_Inl
  proof (intro conjI allI impI; (elim exE conjE)?)
    fix db fs x db' z
    assume new: "find_operation opid db = None" "run db fs = (Inr z, db')" "x = g z"
    from lawfulD(1) [OF run new(2,1)] new(3) same
    show "recorded u opid command digest (h x) db db'" "R (res_Task (h x)) db db'" "launch_sound db \<Longrightarrow> launch_sound db'"
      using recorded_cong [OF same] by simp_all
  next
    fix db fs x db' oper z
    assume found: "find_operation opid db = Some oper" and ran: "run db fs = (Inr z, db')" and x: "x = g z"
    note law = lawfulD(2) [OF run ran found]
    from law x same show "db' = db" "res_Operation (h x) = oper" "\<not> differs oper command digest"
      "find (\<lambda>t. task_Handle t = op_ResultRef oper) (tasks_of db) = Some (res_Task (h x))" by simp_all
  next
    fix db fs e db'
    assume "run db fs = (Inl e, db')"
    then show "db' = db \<or> (\<exists>oper. find_operation opid db = Some oper \<and> differs oper command digest \<and> db' = audited oper command digest db)"
      by (rule lawfulD(3) [OF run])
  qed
qed

lemma commitReplayConflict_ends:
  assumes run: "commitReplayConflict e s = (r, s')"
  shows "(\<exists>e'. r = Inl e') \<and> (tx_durable s' = tx_durable s \<or> tx_durable s' = tx_view s)"
proof (cases "errors_Is e ErrConflict")
  case False
  with run have "(r, s') = (Inl e, s)" unfolding commitReplayConflict_def refuse_def by simp
  then show ?thesis by simp
next
  case True
  show ?thesis
  proof (cases "commit s")
    case (Pair q t)
    have "(r, s') = (case q of Inl e' \<Rightarrow> Inl (WrapError ''commit replay-conflict audit'' e') | Inr _ \<Rightarrow> Inl e, t)"
      using run True Pair unfolding commitReplayConflict_def andThen_def within_def refuse_def by (cases q) simp_all
    moreover have "tx_durable t = tx_durable s \<or> tx_durable t = tx_view s"
    proof (cases q)
      case (Inl e')
      with Pair have "commit s = (Inl e', t)" by simp
      from commit_refused [OF this] show ?thesis by simp
    next
      case (Inr x)
      with Pair have "commit s = (Inr x, t)" by simp
      from commit_ok [OF this] show ?thesis by simp
    qed
    ultimately show ?thesis by (cases q) simp_all
  qed
qed

text \<open>A command succeeds by its rest, on the database as it was, or by its answer to a replay.\<close>

lemma skeleton_success:
  assumes run: "transaction label (replay_first opid command digest answer rest) db fs = (Inr x, db')"
    and rest: "commits_last rest" and answers: "\<And>oper. reads (answer oper)"
  obtains (new) s s' where "rest s = (Inr x, s')" "tx_view s = db" "tx_view s' = db'"
  | (replay) oper s s' where "answer oper s = (Inr x, s')" "tx_view s = db" "db' = db"
      "find_operation opid db = Some oper" "\<not> differs oper command digest"
  using run
proof (cases rule: transaction_cases)
  case (begun fs s)
  let ?s0 = "\<lparr>tx_durable = db, tx_view = db, tx_faults = fs\<rparr>"
  obtain q s1 where q: "mutationReplay opid command digest ?s0 = (q, s1)" by fastforce
  have dur: "tx_durable s1 = db"
    using uncommittedD [OF uncommitted_writes(12) q] by simp
  from begun(1) have body: "(case q of Inl e \<Rightarrow> commitReplayConflict e | Inr (Some operation) \<Rightarrow> answer operation | Inr None \<Rightarrow> rest) s1 = (Inr x, s)"
    using q by (simp add: replay_first_def andThen_def attempt_def)
  have no_conflict: "commitReplayConflict e s1 \<noteq> (Inr x, s)" for e
    using commitReplayConflict_ends by fastforce
  from q show thesis
  proof (cases rule: mutationReplay_cases)
    case consistent
    from body no_conflict obtain found where found: "q = Inr found" by (cases q) auto
    show thesis
    proof (cases found)
      case None
      with body found have ran: "rest s1 = (Inr x, s)" by simp
      from commits_lastD(2) [OF rest ran] begun(2) consistent(1) show thesis by (intro new [OF ran]) simp_all
    next
      case (Some oper)
      with body found have ran: "answer oper s1 = (Inr x, s)" by simp
      from readsD [OF answers ran] dur begun(2) consistent(1) consistent(2) [of oper] found Some
      show thesis by (intro replay [OF ran]) simp_all
    qed
  next
    case (altered oper)
    with body no_conflict show thesis by simp
  qed
qed simp

lemma task_mutation_success:
  assumes run: "commitTaskMutation u spec unset body db fs = (Inr (x, c), db')"
    and body: "uncommitted body" and recorder: "\<And>x t. uncommitted (spec_Record spec x t)"
  obtains (new) s s' where "commit_new_mutation u spec body s = (Inr (x, c), s')" "tx_view s = db" "tx_view s' = db'"
  | (replay) oper where "c = unset" "db' = db" "find_operation (spec_OperationID spec) db = Some oper"
proof -
  let ?answer = "\<lambda>operation. andThen (mutationResult u operation) (\<lambda>result. give (result, unset))"
  from run have "transaction (''begin '' @ spec_Label spec) (replay_first (spec_OperationID spec) (spec_Command spec) (spec_SubjectDigest spec)
      ?answer (commit_new_mutation u spec body)) db fs = (Inr (x, c), db')"
    unfolding commitTaskMutation_def by (simp split: if_splits)
  then show thesis
  proof (rule skeleton_success)
    show "commits_last (commit_new_mutation u spec body)" using body recorder by (rule commits_last_new)
    show "reads (?answer oper)" for oper by (intro tx_reads)
    fix oper s s'
    assume "?answer oper s = (Inr (x, c), s')" "db' = db" "find_operation (spec_OperationID spec) db = Some oper"
    then show thesis by (intro replay) (auto simp: andThen_ok give_ok)
  qed (rule new)
qed

lemma lawful_skeleton:
  assumes rest: "commits_last rest" and kept: "keeps launch_sound rest"
    and recorded: "\<And>s x s'. rest s = (Inr x, s') \<Longrightarrow>
      recorded u opid command digest (f x) (tx_view s) (tx_view s') \<and> R (res_Task (f x)) (tx_view s) (tx_view s')"
    and answers: "\<And>oper. reads (answer oper)"
    and answered: "\<And>oper s x s'. answer oper s = (Inr x, s') \<Longrightarrow> res_Operation (f x) = oper \<and>
      find (\<lambda>t. task_Handle t = op_ResultRef oper) (tasks_of (tx_view s)) = Some (res_Task (f x))"
  shows "lawful u R opid command digest f (transaction label (replay_first opid command digest answer rest))"
proof -
  let ?run = "transaction label (replay_first opid command digest answer rest)"
  have ends: "(\<exists>x. r = Inr x \<and> find_operation opid db = None \<and> recorded u opid command digest (f x) db db' \<and> R (res_Task (f x)) db db' \<and>
         (launch_sound db \<longrightarrow> launch_sound db')) \<or>
      (\<exists>x oper. r = Inr x \<and> find_operation opid db = Some oper \<and> db' = db \<and> res_Operation (f x) = oper \<and> \<not> differs oper command digest \<and>
         find (\<lambda>t. task_Handle t = op_ResultRef oper) (tasks_of db) = Some (res_Task (f x))) \<or>
      (\<exists>e. r = Inl e \<and> (db' = db \<or> (\<exists>oper. find_operation opid db = Some oper \<and> differs oper command digest \<and> db' = audited oper command digest db)))"
    if "?run db fs = (r, db')" for db fs r db'
    using that
  proof (cases rule: transaction_cases)
    case (begun fs s)
    let ?s0 = "\<lparr>tx_durable = db, tx_view = db, tx_faults = fs\<rparr>"
    obtain q s1 where q: "mutationReplay opid command digest ?s0 = (q, s1)" by fastforce
    have dur: "tx_durable s1 = db"
      using uncommittedD [OF uncommitted_writes(12) q] by simp
    from begun(1) have body: "(case q of Inl e \<Rightarrow> commitReplayConflict e | Inr (Some operation) \<Rightarrow> answer operation | Inr None \<Rightarrow> rest) s1 = (r, s)"
      using q by (simp add: replay_first_def andThen_def attempt_def)
    from q show ?thesis
    proof (cases rule: mutationReplay_cases)
      case consistent
      show ?thesis
      proof (cases q)
        case (Inl e)
        with body have "commitReplayConflict e s1 = (r, s)" by simp
        from commitReplayConflict_ends [OF this] dur consistent(1) begun(2) show ?thesis by auto
      next
        case (Inr found)
        show ?thesis
        proof (cases found)
          case None
          with body Inr have run: "rest s1 = (r, s)" by simp
          show ?thesis
          proof (cases r)
            case (Inl e)
            with run commits_lastD(1) [OF rest] dur begun(2) show ?thesis by auto
          next
            case (Inr x)
            with run have run: "rest s1 = (Inr x, s)" by simp
            have "recorded u opid command digest (f x) db db' \<and> R (res_Task (f x)) db db' \<and> (launch_sound db \<longrightarrow> launch_sound db')"
              using recorded [OF run] keepsD [OF kept run] commits_lastD(2) [OF rest run] consistent(1) begun(2) by simp
            with Inr show ?thesis by (simp add: recorded_def Let_def)
          qed
        next
          case (Some oper)
          with body Inr have run: "answer oper s1 = (r, s)" by simp
          have keep: "tx_durable s = db" "tx_view s = db" using readsD [OF answers run] dur consistent(1) by simp_all
          have found: "find_operation opid db = Some oper" "\<not> differs oper command digest"
            using consistent(2) [of oper] Inr Some by simp_all
          show ?thesis
          proof (cases r)
            case (Inl e)
            with keep begun(2) show ?thesis by simp
          next
            case (Inr x)
            with answered run consistent(1) keep found begun(2) show ?thesis by force
          qed
        qed
      qed
    next
      case (altered oper)
      with body have "commitReplayConflict (WrapError ''operation altered replay'' ErrConflict) s1 = (r, s)" by simp
      from commitReplayConflict_ends [OF this] dur altered begun(2) show ?thesis by auto
    qed
  next
    case (refused e)
    then show ?thesis by simp
  qed
  show ?thesis unfolding lawful_def
  proof (intro conjI allI impI)
    fix db fs x db'
    assume "?run db fs = (Inr x, db')" "find_operation opid db = None"
    then show "recorded u opid command digest (f x) db db'" "R (res_Task (f x)) db db'" "launch_sound db \<Longrightarrow> launch_sound db'"
      using ends [of db fs "Inr x" db'] by auto
  next
    fix db fs x db' oper
    assume "?run db fs = (Inr x, db')" "find_operation opid db = Some oper"
    then show "db' = db" "res_Operation (f x) = oper" "\<not> differs oper command digest"
      "find (\<lambda>t. task_Handle t = op_ResultRef oper) (tasks_of db) = Some (res_Task (f x))"
      using ends [of db fs "Inr x" db'] by auto
  next
    fix db fs e db'
    assume "?run db fs = (Inl e, db')"
    then show "db' = db \<or> (\<exists>oper. find_operation opid db = Some oper \<and> differs oper command digest \<and> db' = audited oper command digest db)"
      using ends by fastforce
  qed
qed

lemma mutationResult_answers:
  assumes "mutationResult u oper s = (Inr x, s')"
  shows "res_Operation x = oper \<and> find (\<lambda>t. task_Handle t = op_ResultRef oper) (tasks_of (tx_view s)) = Some (res_Task x)"
  proof -
  from assms obtain task s1 where get: "getTask u (op_ResultRef oper) s = (Inr task, s1)"
    and rest: "(if op_Command oper \<noteq> ''PrepareTask'' \<and> op_Command oper \<noteq> ''AbandonManagedRun''
      then give \<lparr>res_Task = task, res_Operation = oper, res_Preparation = None\<rparr>
      else andThen (within ''read operation replay preparation'' (getManagedRunPreparation task)) (\<lambda>preparation.
        give \<lparr>res_Task = task, res_Operation = oper, res_Preparation = Some preparation\<rparr>)) s1 = (Inr x, s')"
    unfolding mutationResult_def andThen_ok [where m = "within _ (getTask _ _)"] within_ok by blast
  have "res_Operation x = oper \<and> res_Task x = task"
    using rest by (auto simp: andThen_ok give_ok split: if_splits)
  with getTask_found [OF get] show ?thesis by simp
qed

section \<open>Every command obeys them\<close>

lemma lawful_task_mutation:
  assumes body: "uncommitted body" "keeps launch_sound body"
    and recorder: "\<And>x t. uncommitted (spec_Record spec x t)" "\<And>x t. keeps launch_sound (spec_Record spec x t)"
    and recorded: "\<And>x c s s'. commit_new_mutation u spec body s = (Inr (x, c), s') \<Longrightarrow>
      recorded u (spec_OperationID spec) (spec_Command spec) (spec_SubjectDigest spec) x (tx_view s) (tx_view s') \<and>
      R (res_Task x) (tx_view s) (tx_view s')"
  shows "lawful u R (spec_OperationID spec) (spec_Command spec) (spec_SubjectDigest spec) fst (commitTaskMutation u spec unset body)"
proof -
  let ?answer = "\<lambda>operation. andThen (mutationResult u operation) (\<lambda>result. give (result, unset))"
  have answered: "res_Operation (fst x) = oper \<and> find (\<lambda>t. task_Handle t = op_ResultRef oper) (tasks_of (tx_view s)) = Some (res_Task (fst x))"
    if "?answer oper s = (Inr x, s')" for oper s x s'
  proof -
    from that obtain y where "mutationResult u oper s = (Inr y, s')" "x = (y, unset)" by (auto simp: andThen_ok give_ok)
    then show ?thesis using mutationResult_answers by auto
  qed
  have "lawful u R (spec_OperationID spec) (spec_Command spec) (spec_SubjectDigest spec) fst
    (transaction (''begin '' @ spec_Label spec) (replay_first (spec_OperationID spec) (spec_Command spec) (spec_SubjectDigest spec)
      ?answer (commit_new_mutation u spec body)))"
  proof (rule lawful_skeleton [OF commits_last_new(1) [OF body(1) recorder(1)] new_commands_keep(1) [OF body(2) recorder(2)]])
    show "recorded u (spec_OperationID spec) (spec_Command spec) (spec_SubjectDigest spec) (fst x) (tx_view s) (tx_view s') \<and>
      R (res_Task (fst x)) (tx_view s) (tx_view s')"
      if "commit_new_mutation u spec body s = (Inr x, s')" for s x s'
      using recorded [of s "fst x" "snd x" s'] that by simp
    show "reads (?answer oper)" for oper by (intro tx_reads)
  qed (rule answered)
  then have "lawful u R (spec_OperationID spec) (spec_Command spec) (spec_SubjectDigest spec) fst
    (\<lambda>db fs. if \<not> in_utc (spec_At spec) then (Inl (WrapError (spec_Label spec @ '' time'') ErrPrecondition), db)
      else transaction (''begin '' @ spec_Label spec) (replay_first (spec_OperationID spec) (spec_Command spec)
        (spec_SubjectDigest spec) ?answer (commit_new_mutation u spec body)) db fs)" by (rule lawful_early)
  then show ?thesis unfolding commitTaskMutation_def [abs_def] .
qed

lemma lawful_moving:
  assumes body: "moves u body" "uncommitted body" "keeps launch_sound body"
    and recorder: "\<And>x t. uncommitted (spec_Record spec x t)" "\<And>x t. leaves core_part (spec_Record spec x t)"
      "\<And>x t. keeps launch_sound (spec_Record spec x t)"
  shows "lawful u trailed (spec_OperationID spec) (spec_Command spec) (spec_SubjectDigest spec) id (\<lambda>db fs. plain_outcome (commitTaskMutation u spec unset body db fs))"
  unfolding plain_outcome_def
proof (rule lawful_map [OF lawful_task_mutation [OF body(2,3) recorder(1,3)]])
  show "recorded u (spec_OperationID spec) (spec_Command spec) (spec_SubjectDigest spec) x (tx_view s) (tx_view s') \<and>
    trailed (res_Task x) (tx_view s) (tx_view s')"
    if "commit_new_mutation u spec body s = (Inr (x, c), s')" for x c s s'
    using moving_mutation_recorded [OF that body(1) recorder(2)] .
qed simp_all

lemma spec_of_task [simp]:
  "spec_OperationID (task_spec c l m r) = tm_OperationID m" "spec_Command (task_spec c l m r) = c"
  "spec_SubjectDigest (task_spec c l m r) = tm_SubjectDigest m" "spec_Record (task_spec c l m r) = r"
  "spec_At (task_spec c l m r) = tm_At m" "spec_Label (task_spec c l m r) = l"
  by (simp_all add: task_spec_def)

lemma truncated_mutation [simp]:
  "tm_OperationID (TaskCommandMutation.truncate m) = tm_OperationID m"
  "tm_SubjectDigest (TaskCommandMutation.truncate m) = tm_SubjectDigest m"
  "tm_At (TaskCommandMutation.truncate m) = tm_At m" "tm_TaskHandle (TaskCommandMutation.truncate m) = tm_TaskHandle m"
  by (simp_all add: TaskCommandMutation.defs)

lemma lawful_command:
  assumes "moves u body" "uncommitted body" "keeps launch_sound body"
    "\<And>x t. uncommitted (r x t)" "\<And>x t. leaves core_part (r x t)" "\<And>x t. keeps launch_sound (r x t)"
  shows "lawful u trailed (tm_OperationID m) c (tm_SubjectDigest m) id (\<lambda>db fs. plain_outcome (commitTaskMutation u (task_spec c l m r) unset body db fs))"
  using lawful_moving [of u body "task_spec c l m r"] assms by simp

text \<open>A preparation and an activation leave the trail of events as it was.\<close>

definition silent :: "Task \<Rightarrow> durable \<Rightarrow> durable \<Rightarrow> bool" where
  "silent t db db' \<longleftrightarrow> db_events db' = db_events db"

lemma lawful_prepare: "lawful u silent (pm_OperationID m) ''PrepareTask'' (pm_SubjectDigest m) id (CommitPreparedTask u m)"
  unfolding CommitPreparedTask_def [abs_def]
  by (intro lawful_early lawful_skeleton tx_commits tx_keeps tx_reads) (auto simp: silent_def dest: prepared_recorded mutationResult_answers)

lemma lawful_activation: "lawful u silent (act_OperationID m) ''ActivateManagedRun'' (act_SubjectDigest m) id (CommitManagedRunActivation u m)"
  unfolding CommitManagedRunActivation_def
  by (intro lawful_skeleton tx_commits tx_keeps tx_reads) (auto simp: silent_def dest: activation_recorded mutationResult_answers)

lemma lawful_terminal_event: "lawful u trailed (tem_OperationID m) ''RecordTerminalEvent'' (tem_SubjectDigest m) id (CommitTerminalEvent u m)"
  unfolding CommitTerminalEvent_def [abs_def]
  by (intro lawful_checked lawful_skeleton tx_commits tx_keeps tx_reads) (auto dest: terminal_event_recorded mutationResult_answers)

lemma lawful_acknowledgement:
  "lawful u trailed (wam_OperationID m) ''AcknowledgeWorkerLaunch'' (wam_SubjectDigest m) id (CommitWorkerLaunchAcknowledgement u m)"
  unfolding CommitWorkerLaunchAcknowledgement_def [abs_def]
  by (intro lawful_checked lawful_skeleton tx_commits tx_keeps tx_reads) (auto dest: acknowledgement_recorded mutationResult_answers)

lemma lawful_abandon: "lawful u trailed (aba_OperationID m) ''AbandonManagedRun'' (aba_SubjectDigest m) id (CommitManagedRunAbandon u m)"
proof -
  let ?spec = "\<lparr>spec_Command = ''AbandonManagedRun'', spec_OperationID = aba_OperationID m,
        spec_SubjectDigest = aba_SubjectDigest m, spec_At = aba_At m,
        spec_Label = ''managed-run abandon'', spec_Record = no_record :: ManagedRunPreparation \<Rightarrow> Task \<Rightarrow> unit store_tx\<rparr>"
  have "lawful u trailed (spec_OperationID ?spec) (spec_Command ?spec) (spec_SubjectDigest ?spec) fst
    (commitTaskMutation u ?spec zero_preparation (abandon_body u m))"
  proof (rule lawful_task_mutation)
    show "recorded u (spec_OperationID ?spec) (spec_Command ?spec) (spec_SubjectDigest ?spec) x (tx_view s) (tx_view s') \<and>
      trailed (res_Task x) (tx_view s) (tx_view s')"
      if "commit_new_mutation u ?spec (abandon_body u m) s = (Inr (x, c), s')" for x c s s'
      using moving_mutation_recorded [OF that moves_bodies(1)] by (simp add: leaves_core_bodies)
  qed (simp_all add: uncommitted_bodies bodies_keep launch_writes_keep)
  from lawful_map [OF this, of id "\<lambda>(result, closed). result\<lparr>res_Preparation := Some closed\<rparr>"]
  show ?thesis unfolding CommitManagedRunAbandon_def [abs_def] by (simp add: case_prod_beta)
qed

lemma lawful_start: "lawful u trailed (start_OperationID m) ''StartTask'' (start_SubjectDigest m) id (CommitTaskStart u m)"
  unfolding CommitTaskStart_def
  by (intro lawful_skeleton tx_commits tx_keeps tx_reads) (auto dest: start_recorded mutationResult_answers)

lemmas command_parts =
  reads_uncommitted reads_bodies uncommitted_bodies leaves_core_bodies bodies_keep keeps_reads launch_writes_keep updates_keep

lemma lawful_task_commands:
  "lawful u trailed (tm_OperationID m) ''PauseTask'' (tm_SubjectDigest m) id (CommitTaskPauseRequest u m)"
  "lawful u trailed (tm_OperationID m) ''CancelTask'' (tm_SubjectDigest m) id (CommitTaskCancel u m)"
  "lawful u trailed (tm_OperationID m) ''VerifyTask'' (tm_SubjectDigest m) id (CommitTaskVerify u m)"
  "lawful u trailed (tm_OperationID rsm) ''ResumeTask'' (tm_SubjectDigest rsm) id (CommitTaskResume u rsm)"
  "lawful u trailed (tm_OperationID ssm) ''SteerTask'' (tm_SubjectDigest ssm) id (CommitTaskSteer u ssm)"
  "lawful u trailed (mrc_OperationID mrc) ''CancelManagedRun'' (mrc_SubjectDigest mrc) id (CommitManagedRunCancel u mrc)"
proof -
  show "lawful u trailed (tm_OperationID m) ''PauseTask'' (tm_SubjectDigest m) id (CommitTaskPauseRequest u m)"
    unfolding CommitTaskPauseRequest_def [abs_def]
    by (rule lawful_command [OF moves_bodies(2) uncommitted_bodies(2)]) (simp_all add: command_parts)
  show "lawful u trailed (tm_OperationID m) ''CancelTask'' (tm_SubjectDigest m) id (CommitTaskCancel u m)"
    unfolding CommitTaskCancel_def [abs_def]
    by (rule lawful_command [OF moves_bodies(6) uncommitted_bodies(3)]) (simp_all add: command_parts)
  show "lawful u trailed (tm_OperationID m) ''VerifyTask'' (tm_SubjectDigest m) id (CommitTaskVerify u m)"
    unfolding CommitTaskVerify_def [abs_def]
    by (rule lawful_command [OF moves_bodies(5)]) (simp_all add: command_parts)
  show "lawful u trailed (tm_OperationID rsm) ''ResumeTask'' (tm_SubjectDigest rsm) id (CommitTaskResume u rsm)"
    unfolding CommitTaskResume_def [abs_def]
    using lawful_command [OF moves_bodies(3), where m = "TaskCommandMutation.truncate rsm" and r = "resume_record rsm"]
    by (simp add: command_parts)
  show "lawful u trailed (tm_OperationID ssm) ''SteerTask'' (tm_SubjectDigest ssm) id (CommitTaskSteer u ssm)"
    unfolding CommitTaskSteer_def [abs_def]
    using lawful_command [OF moves_bodies(4), where m = "TaskCommandMutation.truncate ssm" and r = "steer_record ssm"]
    by (intro lawful_early) (simp add: command_parts)
  show "lawful u trailed (mrc_OperationID mrc) ''CancelManagedRun'' (mrc_SubjectDigest mrc) id (CommitManagedRunCancel u mrc)"
    unfolding CommitManagedRunCancel_def [abs_def]
    using lawful_moving [OF moves_bodies(7), where spec = "\<lparr>spec_Command = ''CancelManagedRun'', spec_OperationID = mrc_OperationID mrc,
        spec_SubjectDigest = mrc_SubjectDigest mrc, spec_At = mrc_At mrc,
        spec_Label = ''managed-run cancel'', spec_Record = no_record\<rparr>"]
    by (simp add: command_parts)
qed

lemma lawful_replace: "lawful u trailed (tm_OperationID m) ''ReplaceWorker'' (tm_SubjectDigest m) id (CommitTaskReplace u m)"
proof -
  let ?spec = "task_spec ''ReplaceWorker'' ''worker replacement'' (TaskCommandMutation.truncate m) (replace_record u m)"
  have "lawful u trailed (spec_OperationID ?spec) (spec_Command ?spec) (spec_SubjectDigest ?spec) fst (commitTaskMutation u ?spec [] (replace_body u m))"
  proof (rule lawful_task_mutation)
    show "recorded u (spec_OperationID ?spec) (spec_Command ?spec) (spec_SubjectDigest ?spec) x (tx_view s) (tx_view s') \<and>
      trailed (res_Task x) (tx_view s) (tx_view s')"
      if "commit_new_mutation u ?spec (replace_body u m) s = (Inr (x, c), s')" for x c s s'
      using replacement_recorded [OF that] by simp
  qed (simp_all add: command_parts)
  from lawful_map [OF this, of id fst]
  have "lawful u trailed (tm_OperationID m) ''ReplaceWorker'' (tm_SubjectDigest m) id
      (\<lambda>db fs. plain_outcome (commitTaskMutation u ?spec [] (replace_body u m) db fs))"
    unfolding plain_outcome_def by simp
  then show ?thesis unfolding CommitTaskReplace_def [abs_def] by (rule lawful_checked)
qed

end
