(* ===== verification/Store_History.thy ===== *)
theory Store_History
  imports Store_Laws
begin

text \<open>
  The commands of the store as one type, any sequence of them with any driver behaviour, and what holds
  over it: the commands are applied exactly once, and the stored tasks and operations stay sound.
\<close>

section \<open>Commands and histories\<close>

datatype StoreCommand =
    DoPrepare PreparedTaskMutation | DoActivate ManagedRunActivationMutation | DoAbandon ManagedRunAbandonMutation
  | DoPause TaskCommandMutation | DoCancel TaskCommandMutation | DoCancelRun ManagedRunCancelMutation
  | DoResume TaskResumeMutation | DoSteer TaskSteerMutation | DoVerify TaskCommandMutation
  | DoReplace TaskReplaceMutation | DoTerminal TerminalEventMutation | DoAcknowledge WorkerLaunchAcknowledgementMutation | DoStart TaskStartMutation

fun command_operation :: "StoreCommand \<Rightarrow> string" where
  "command_operation (DoPrepare m) = pm_OperationID m"
| "command_operation (DoActivate m) = act_OperationID m"
| "command_operation (DoAbandon m) = aba_OperationID m"
| "command_operation (DoPause m) = tm_OperationID m"
| "command_operation (DoCancel m) = tm_OperationID m"
| "command_operation (DoCancelRun m) = mrc_OperationID m"
| "command_operation (DoResume m) = tm_OperationID m"
| "command_operation (DoSteer m) = tm_OperationID m"
| "command_operation (DoVerify m) = tm_OperationID m"
| "command_operation (DoReplace m) = tm_OperationID m"
| "command_operation (DoTerminal m) = tem_OperationID m"
| "command_operation (DoAcknowledge m) = wam_OperationID m"
| "command_operation (DoStart m) = start_OperationID m"

fun command_digest :: "StoreCommand \<Rightarrow> string" where
  "command_digest (DoPrepare m) = pm_SubjectDigest m"
| "command_digest (DoActivate m) = act_SubjectDigest m"
| "command_digest (DoAbandon m) = aba_SubjectDigest m"
| "command_digest (DoPause m) = tm_SubjectDigest m"
| "command_digest (DoCancel m) = tm_SubjectDigest m"
| "command_digest (DoCancelRun m) = mrc_SubjectDigest m"
| "command_digest (DoResume m) = tm_SubjectDigest m"
| "command_digest (DoSteer m) = tm_SubjectDigest m"
| "command_digest (DoVerify m) = tm_SubjectDigest m"
| "command_digest (DoReplace m) = tm_SubjectDigest m"
| "command_digest (DoTerminal m) = tem_SubjectDigest m"
| "command_digest (DoAcknowledge m) = wam_SubjectDigest m"
| "command_digest (DoStart m) = start_SubjectDigest m"

fun command_name :: "StoreCommand \<Rightarrow> string" where
  "command_name (DoPrepare m) = ''PrepareTask''"
| "command_name (DoActivate m) = ''ActivateManagedRun''"
| "command_name (DoAbandon m) = ''AbandonManagedRun''"
| "command_name (DoPause m) = ''PauseTask''"
| "command_name (DoCancel m) = ''CancelTask''"
| "command_name (DoCancelRun m) = ''CancelManagedRun''"
| "command_name (DoResume m) = ''ResumeTask''"
| "command_name (DoSteer m) = ''SteerTask''"
| "command_name (DoVerify m) = ''VerifyTask''"
| "command_name (DoReplace m) = ''ReplaceWorker''"
| "command_name (DoTerminal m) = ''RecordTerminalEvent''"
| "command_name (DoAcknowledge m) = ''AcknowledgeWorkerLaunch''"
| "command_name (DoStart m) = ''StartTask''"

fun run_command :: "print_table \<Rightarrow> StoreCommand \<Rightarrow> durable \<Rightarrow> go_error option list \<Rightarrow> MutationResult result \<times> durable" where
  "run_command u (DoPrepare m) = CommitPreparedTask u m"
| "run_command u (DoActivate m) = CommitManagedRunActivation u m"
| "run_command u (DoAbandon m) = CommitManagedRunAbandon u m"
| "run_command u (DoPause m) = CommitTaskPauseRequest u m"
| "run_command u (DoCancel m) = CommitTaskCancel u m"
| "run_command u (DoCancelRun m) = CommitManagedRunCancel u m"
| "run_command u (DoResume m) = CommitTaskResume u m"
| "run_command u (DoSteer m) = CommitTaskSteer u m"
| "run_command u (DoVerify m) = CommitTaskVerify u m"
| "run_command u (DoReplace m) = CommitTaskReplace u m"
| "run_command u (DoTerminal m) = CommitTerminalEvent u m"
| "run_command u (DoAcknowledge m) = CommitWorkerLaunchAcknowledgement u m"
| "run_command u (DoStart m) = CommitTaskStart u m"

type_synonym history = "(StoreCommand \<times> go_error option list) list"

fun run_history :: "print_table \<Rightarrow> history \<Rightarrow> durable \<Rightarrow> durable" where
  "run_history u [] db = db"
| "run_history u ((c, faults) # h) db = run_history u h (snd (run_command u c db faults))"

text \<open>What a new command leaves in the trail of events.\<close>

fun trail_of :: "StoreCommand \<Rightarrow> Task \<Rightarrow> durable \<Rightarrow> durable \<Rightarrow> bool" where
  "trail_of (DoPrepare m) = silent"
| "trail_of (DoActivate m) = silent"
| "trail_of _ = trailed"

lemma lawful_command_run: "lawful u (trail_of c) (command_operation c) (command_name c) (command_digest c) id (run_command u c)"
  by (cases c) (simp_all add: lawful_prepare lawful_activation lawful_abandon lawful_task_commands lawful_replace
      lawful_terminal_event lawful_acknowledgement lawful_start)

section \<open>The interface\<close>

text \<open>Sound tables: one valid row per task, one valid record per operation, versions that only grow.\<close>

definition sound_store :: "print_table \<Rightarrow> durable \<Rightarrow> bool" where
  "sound_store u db \<longleftrightarrow>
     distinct (map task_Handle (tasks_of db)) \<and> (\<forall>t\<in>set (tasks_of db). Task_Validate u t = None) \<and>
     distinct (map op_ID (db_operations db)) \<and> (\<forall>oper\<in>set (db_operations db). OperationRecord_Validate oper = None) \<and>
     sorted_wrt (<) (map (\<lambda>oper. sint (op_StateVersion oper)) (db_operations db)) \<and>
     (\<forall>t\<in>set (tasks_of db). \<exists>oper\<in>set (db_operations db). op_ResultRef oper = task_Handle t \<and> op_StateVersion oper = task_StateVersion t)"

lemma store_task_members: "x \<in> set (store_task t ts) \<longleftrightarrow> x = t \<or> (x \<in> set ts \<and> task_Handle x \<noteq> task_Handle t)"
  by (auto simp: store_task_def image_iff)

lemma store_task_handles: "distinct (map task_Handle ts) \<Longrightarrow> distinct (map task_Handle (store_task t ts))"
proof -
  assume d: "distinct (map task_Handle ts)"
  have "map task_Handle (map (\<lambda>x. if task_Handle x = task_Handle t then t else x) ts) = map task_Handle ts"
    by (simp cong: map_cong)
  with d show ?thesis unfolding store_task_def by (cases "task_Handle t \<in> task_Handle ` set ts") (simp_all del: map_map)
qed

lemma find_store_task:
  "find (\<lambda>x. task_Handle x = h) (store_task t ts) = (if h = task_Handle t then Some t else find (\<lambda>x. task_Handle x = h) ts)"
proof -
  have "find (\<lambda>x. task_Handle x = h) (map (\<lambda>x. if task_Handle x = task_Handle t then t else x) ts) =
    (if h = task_Handle t \<and> task_Handle t \<in> task_Handle ` set ts then Some t else find (\<lambda>x. task_Handle x = h) ts)"
    by (induction ts) auto
  moreover have "find (\<lambda>x. task_Handle x = h) (ts @ [t]) = (if h = task_Handle t then Some t else find (\<lambda>x. task_Handle x = h) ts)"
    if "task_Handle t \<notin> task_Handle ` set ts" using that by (induction ts) auto
  ultimately show ?thesis by (cases "task_Handle t \<in> task_Handle ` set ts") (auto simp: store_task_def)
qed

lemma find_operation_None: "find_operation i db = None \<longleftrightarrow> i \<notin> op_ID ` set (db_operations db)"
  by (auto simp: find_operation_def find_None_iff)

lemma find_operation_append:
  "db_operations db' = db_operations db @ [oper] \<Longrightarrow> find_operation i db' =
     (case find_operation i db of Some o' \<Rightarrow> Some o' | None \<Rightarrow> if op_ID oper = i then Some oper else None)"
proof -
  have "find P (xs @ [oper]) = (case find P xs of Some o' \<Rightarrow> Some o' | None \<Rightarrow> if P oper then Some oper else None)" for P xs
    by (induction xs) auto
  then show "db_operations db' = db_operations db @ [oper] \<Longrightarrow> ?thesis" by (simp add: find_operation_def)
qed

lemma operation_versions: "oper \<in> set (db_operations db) \<Longrightarrow> op_StateVersion oper \<in> set (state_versions db)"
  by (simp add: state_versions_def)

lemma recorded_sound:
  assumes "recorded u opid command digest x db db'" "sound_store u db"
  shows "sound_store u db'"
proof -
  from assms(1) have r: "find_operation opid db = None" "op_ID (res_Operation x) = opid"
    "op_ResultRef (res_Operation x) = task_Handle (res_Task x)" "op_StateVersion (res_Operation x) = task_StateVersion (res_Task x)"
    "\<forall>w\<in>set (state_versions db). sint w < sint (task_StateVersion (res_Task x))" "OperationRecord_Validate (res_Operation x) = None"
    "Task_Validate u (res_Task x) = None" "tasks_of db' = store_task (res_Task x) (tasks_of db)"
    "db_operations db' = db_operations db @ [res_Operation x]"
    by (simp_all add: recorded_def Let_def)
  from assms(2) have s: "distinct (map task_Handle (tasks_of db))" "\<forall>t\<in>set (tasks_of db). Task_Validate u t = None"
    "distinct (map op_ID (db_operations db))" "\<forall>oper\<in>set (db_operations db). OperationRecord_Validate oper = None"
    "sorted_wrt (<) (map (\<lambda>oper. sint (op_StateVersion oper)) (db_operations db))"
    "\<forall>t\<in>set (tasks_of db). \<exists>oper\<in>set (db_operations db). op_ResultRef oper = task_Handle t \<and> op_StateVersion oper = task_StateVersion t"
    by (simp_all add: sound_store_def)
  have "\<forall>t\<in>set (tasks_of db'). Task_Validate u t = None" using r(7,8) s(2) by (auto simp: store_task_members)
  moreover have "distinct (map op_ID (db_operations db'))" using r(1,2,9) s(3) by (auto simp: find_operation_None)
  moreover have "sorted_wrt (<) (map (\<lambda>oper. sint (op_StateVersion oper)) (db_operations db'))"
    using r(4,5,9) s(5) operation_versions by (fastforce simp: sorted_wrt_append)
  moreover have "\<exists>oper\<in>set (db_operations db'). op_ResultRef oper = task_Handle t \<and> op_StateVersion oper = task_StateVersion t"
    if "t \<in> set (tasks_of db')" for t
    using that r(3,4,8,9) s(6) by (fastforce simp: store_task_members)
  ultimately show ?thesis using r(6,8,9) s(1,4) by (simp add: sound_store_def store_task_handles)
qed

locale store_command =
  fixes u :: print_table and run :: "durable \<Rightarrow> go_error option list \<Rightarrow> MutationResult result \<times> durable"
    and opid command digest :: string
  assumes records: "run db fs = (Inr x, db') \<Longrightarrow> find_operation opid db = None \<Longrightarrow> recorded u opid command digest x db db'"
    and replays: "run db fs = (Inr x, db') \<Longrightarrow> find_operation opid db = Some oper \<Longrightarrow>
      db' = db \<and> res_Operation x = oper \<and> \<not> differs oper command digest \<and>
      find (\<lambda>t. task_Handle t = op_ResultRef oper) (tasks_of db) = Some (res_Task x)"
    and refuses: "run db fs = (Inl e, db') \<Longrightarrow> db' = db \<or>
      (\<exists>oper. find_operation opid db = Some oper \<and> differs oper command digest \<and> db' = audited oper command digest db)"
begin

lemma outcomes:
  assumes "run db fs = (r, db')"
  obtains (new) x where "r = Inr x" "recorded u opid command digest x db db'"
  | (replay) x oper where "r = Inr x" "find_operation opid db = Some oper" "db' = db" "res_Operation x = oper" "\<not> differs oper command digest"
      "find (\<lambda>t. task_Handle t = op_ResultRef oper) (tasks_of db) = Some (res_Task x)"
  | (unchanged) e where "r = Inl e" "db' = db"
  | (conflict) e oper where "r = Inl e" "find_operation opid db = Some oper" "differs oper command digest" "db' = audited oper command digest db"
proof (cases r)
  case (Inl e)
  with assms refuses [of db fs e db'] unchanged conflict show ?thesis by blast
next
  case (Inr x)
  show ?thesis
  proof (cases "find_operation opid db")
    case None
    with Inr assms records [of db fs x db'] new show ?thesis by blast
  next
    case (Some oper)
    with Inr assms replays [of db fs x db' oper] replay show ?thesis by blast
  qed
qed

text \<open>A recorded operation stays, whatever the command does next.\<close>

lemma keeps_operation:
  assumes "run db fs = (r, db')" "find_operation i db = Some oper"
  shows "find_operation i db' = Some oper"
  using assms(1)
proof (cases rule: outcomes)
  case (new x)
  then have "db_operations db' = db_operations db @ [res_Operation x]" by (simp add: recorded_def Let_def)
  from find_operation_append [OF this, of i] assms(2) show ?thesis by simp
qed (use assms(2) in \<open>simp_all add: audited_def find_operation_def\<close>)

lemma keeps_sound: "run db fs = (r, db') \<Longrightarrow> sound_store u db \<Longrightarrow> sound_store u db'"
proof (elim outcomes)
  show "sound_store u db \<Longrightarrow> db' = audited oper command digest db \<Longrightarrow> sound_store u db'" for oper
    by (simp add: sound_store_def audited_def tasks_of_def)
qed (auto intro: recorded_sound)

text \<open>After its first success the command only answers from the record.\<close>

lemma once_recorded:
  assumes "run db fs = (Inr x, db')"
  shows "find_operation opid db' = Some (res_Operation x)" "\<not> differs (res_Operation x) command digest"
proof -
  from assms show "find_operation opid db' = Some (res_Operation x)"
  proof (cases rule: outcomes)
    case (new y)
    then have "db_operations db' = db_operations db @ [res_Operation x]" "find_operation opid db = None" "op_ID (res_Operation x) = opid"
      by (simp_all add: recorded_def Let_def)
    from find_operation_append [OF this(1), of opid] this show ?thesis by simp
  qed simp_all
  from assms show "\<not> differs (res_Operation x) command digest"
    by (cases rule: outcomes) (simp_all add: recorded_def Let_def differs_def)
qed

lemma answers_from_record:
  assumes "find_operation opid db = Some oper" "\<not> differs oper command digest" "run db fs = (r, db')"
  shows "db' = db \<and> (\<forall>y. r = Inr y \<longrightarrow> res_Operation y = oper)"
  using assms(3)
proof (cases rule: outcomes)
  case (new x)
  then show ?thesis using assms(1) by (simp add: recorded_def Let_def)
qed (use assms in simp_all)

lemma refuses_altered:
  assumes "find_operation opid db = Some oper" "differs oper command digest" "run db fs = (r, db')"
  shows "(\<exists>e. r = Inl e) \<and> (db' = db \<or> db' = audited oper command digest db)"
  using assms(3)
proof (cases rule: outcomes)
  case (new x)
  then show ?thesis using assms(1) by (simp add: recorded_def Let_def)
qed (use assms in simp_all)

end

interpretation store: store_command u "run_command u c" "command_operation c" "command_name c" "command_digest c" for u c
proof unfold_locales
  note law = lawfulD [OF lawful_command_run, unfolded id_apply]
  show "recorded u (command_operation c) (command_name c) (command_digest c) x db db'"
    if "run_command u c db fs = (Inr x, db')" "find_operation (command_operation c) db = None" for db fs x db'
    using law(1) [OF that] by simp
qed (rule lawfulD [OF lawful_command_run, unfolded id_apply]; assumption)+

text \<open>A command that also keeps the launch tables in step, whatever becomes of it.\<close>

locale launch_keeping_command = store_command +
  assumes keeps_tables: "run db fs = (Inr x, db') \<Longrightarrow> find_operation opid db = None \<Longrightarrow> launch_sound db \<Longrightarrow> launch_sound db'"
begin

lemma keeps_launch_sound:
  assumes run: "run db fs = (r, db')" and sound: "launch_sound db"
  shows "launch_sound db'"
  using run
proof (cases rule: outcomes)
  case (new x)
  with run sound keeps_tables [of db fs x db'] show ?thesis by (simp add: recorded_def Let_def)
next
  case (conflict e oper)
  with sound launch_sound_part [of db' db] show ?thesis by (simp add: launch_part_def audited_def)
qed (use sound in simp_all)

end

interpretation launches: launch_keeping_command u "run_command u c" "command_operation c" "command_name c" "command_digest c" for u c
proof (unfold_locales, goal_cases)
  case (1 db fs x db')
  with lawfulD(1) [OF lawful_command_run 1(1)] show ?case by simp
qed

section \<open>Histories\<close>

lemma history_keeps_operation: "find_operation i db = Some oper \<Longrightarrow> find_operation i (run_history u h db) = Some oper"
proof (induction u h db rule: run_history.induct)
  case (2 u c faults h db)
  have "run_command u c db faults = (fst (run_command u c db faults), snd (run_command u c db faults))" by simp
  from store.keeps_operation [OF this 2(2)] 2(1) show ?case by simp
qed simp

lemma history_keeps_sound: "sound_store u db \<Longrightarrow> sound_store u (run_history u h db)"
proof (induction u h db rule: run_history.induct)
  case (2 u c faults h db)
  have "run_command u c db faults = (fst (run_command u c db faults), snd (run_command u c db faults))" by simp
  from store.keeps_sound [OF this 2(2)] 2(1) show ?case by simp
qed simp

lemma history_keeps_launch_sound: "launch_sound db \<Longrightarrow> launch_sound (run_history u h db)"
proof (induction u h db rule: run_history.induct)
  case (2 u c faults h db)
  have "run_command u c db faults = (fst (run_command u c db faults), snd (run_command u c db faults))" by simp
  from launches.keeps_launch_sound [OF this 2(2)] 2(1) show ?case by simp
qed simp

section \<open>With a calm driver\<close>

text \<open>What the shared steps do when every statement goes through, and a small database to run them on.\<close>

named_theorems store_run \<open>what a step of the store does with a calm driver\<close>

lemma fresh_operation_run [store_run]:
  "calm s \<Longrightarrow> find_operation i (tx_view s) = None \<Longrightarrow> mutationReplay i c d s = (Inr None, s)"
proof -
  assume "calm s" "find_operation i (tx_view s) = None"
  then have "getOperation i s = (Inl (WrapError ''get operation'' ErrNotFound), s)"
    by (simp add: getOperation_def andThen_def within_def tx_run)
  from mutationReplay_run(1) [OF this] show ?thesis by (simp add: ErrNotFound_def)
qed

lemma getTask_run [store_run]:
  "calm s \<Longrightarrow> find_task_row h (tx_view s) = Some row \<Longrightarrow> Task_Validate u (row_task row) = None \<Longrightarrow>
     getTask u h s = (Inr (row_task row), s)"
  by (simp add: getTask_def andThen_def within_def tx_run scanTask_def ensure_def)

lemma nextMutationStateVersion_run [store_run]:
  "calm s \<Longrightarrow> max_version (state_versions (tx_view s)) = v \<Longrightarrow> v \<noteq> MaxInt64 \<Longrightarrow> nextMutationStateVersion s = (Inr (v + 1), s)"
  by (simp add: nextMutationStateVersion_def currentStateVersion_def andThen_def within_def tx_run)

lemma insertOperation_run [store_run]:
  "calm s \<Longrightarrow> find_operation (op_ID oper) (tx_view s) = None \<Longrightarrow> OperationRecord_Validate oper = None \<Longrightarrow>
     insertOperation oper s = (Inr (), s\<lparr>tx_view := (tx_view s)\<lparr>db_operations := db_operations (tx_view s) @ [oper]\<rparr>\<rparr>)"
  by (auto simp: insertOperation_def andThen_def tx_run insert_unless_def find_operation_None image_iff)

lemma labelled_insertion_run [store_run]:
  "calm s \<Longrightarrow> find_operation (op_ID oper) (tx_view s) = None \<Longrightarrow> OperationRecord_Validate oper = None \<Longrightarrow>
     insert_operation_labelled l oper s = (Inr (), s\<lparr>tx_view := (tx_view s)\<lparr>db_operations := db_operations (tx_view s) @ [oper]\<rparr>\<rparr>)"
  by (simp add: insert_operation_labelled_def andThen_def attempt_def store_run tx_run)

lemma updateTaskState_run_same [store_run]:
  assumes "calm s" "Task_Validate u t = None" "find_task_row (task_Handle t) (tx_view s) = Some row"
    "rows_of_task (task_Handle t) (tx_view s) = 1" "task_State (row_task row) = task_State t"
  shows "updateTaskState u t s = (Inr (), s\<lparr>tx_view := write_state t (tx_view s)\<rparr>)"
  using assms by (simp add: updateTaskState_def updateTaskStateWithReservationGuard_def andThen_def within_def tx_run
      refuseReservedIntegrationTaskTransition_def)

text \<open>A task outside every initiative, with no reserved application, moves with its event and nothing else.\<close>

definition add_event :: "ServiceEvent \<Rightarrow> durable \<Rightarrow> durable" where
  "add_event e db = db\<lparr>db_events := db_events db @ [e]\<rparr>"

lemma no_reservation: "db_applications (tx_view s) = [] \<Longrightarrow> calm s \<Longrightarrow>
    refuseReservedIntegrationTaskTransition h a b s = (Inr (), s)"
  by (simp add: refuseReservedIntegrationTaskTransition_def reservedIntegrationTaskRole_def reserved_application_def
      andThen_def within_def tx_run)

lemma no_initiative: "db_members (tx_view s) = [] \<Longrightarrow> calm s \<Longrightarrow> refreshInitiativeAggregate u h v at s = (Inr (), s)"
  by (simp add: refreshInitiativeAggregate_def initiativeForTask_def containing_initiatives_def andThen_def within_def tx_run)

lemma updateTaskState_run_moved [store_run]:
  assumes "calm s" "Task_Validate u t = None" "find_task_row (task_Handle t) (tx_view s) = Some row"
    "rows_of_task (task_Handle t) (tx_view s) = 1" "task_State (row_task row) \<noteq> task_State t" "\<not> IsZero (task_UpdatedAt t)"
    "db_applications (tx_view s) = []" "db_members (tx_view s) = []"
  shows "updateTaskState u t s = (Inr (), s\<lparr>tx_view := add_event (state_event t) (write_state t (tx_view s))\<rparr>)"
proof -
  have "db_members (add_event e (write_state t (tx_view s))) = []" for e
    using assms(8) by (simp add: add_event_def write_state_def)
  then show ?thesis
    using assms no_reservation [OF assms(7,1)]
      no_initiative [of "s\<lparr>tx_view := add_event (state_event t) (write_state t (tx_view s))\<rparr>"]
    by (simp add: updateTaskState_def updateTaskStateWithReservationGuard_def andThen_def within_def tx_run
        appendTaskStateEvent_def appendServiceEvent_def state_event_def add_event_def)
qed

text \<open>The whole of a new mutation, when its body and its recorder run.\<close>

lemma commitTaskMutation_run:
  assumes fresh: "find_operation (spec_OperationID spec) db = None" and time: "in_utc (spec_At spec)"
    and body: "body \<lparr>tx_durable = db, tx_view = db, tx_faults = []\<rparr> = (Inr (moved, c), \<lparr>tx_durable = db, tx_view = v1, tx_faults = []\<rparr>)"
    and version: "max_version (state_versions v1) = v" "v \<noteq> MaxInt64"
    and t: "t = moved\<lparr>task_StateVersion := v + 1\<rparr>"
    and oper: "oper = completedMutationOperation (spec_OperationID spec) (spec_Command spec) (spec_SubjectDigest spec) (task_Handle t) (v + 1) (spec_At spec)"
    and update: "updateTaskState u t \<lparr>tx_durable = db, tx_view = v1, tx_faults = []\<rparr> = (Inr (), \<lparr>tx_durable = db, tx_view = v2, tx_faults = []\<rparr>)"
    and kept: "db_operations v2 = db_operations db" and valid: "OperationRecord_Validate oper = None"
    and recorder: "spec_Record spec c t \<lparr>tx_durable = db, tx_view = v2\<lparr>db_operations := db_operations v2 @ [oper]\<rparr>, tx_faults = []\<rparr> =
      (Inr (), \<lparr>tx_durable = db, tx_view = v3, tx_faults = []\<rparr>)"
  shows "commitTaskMutation u spec unset body db [] = (Inr (\<lparr>res_Task = t, res_Operation = oper, res_Preparation = None\<rparr>, c), v3)"
proof -
  have f2: "find_operation (op_ID oper) v2 = None" using fresh kept oper by (simp add: find_operation_def)
  have oper': "completedMutationOperation (spec_OperationID spec) (spec_Command spec) (spec_SubjectDigest spec) (task_Handle moved) (v + 1) (spec_At spec) = oper"
    by (simp add: oper t)
  show ?thesis
    using time body version update recorder valid f2
    by (simp add: commitTaskMutation_def replay_first_def commit_new_mutation_def andThen_def attempt_def within_def
        tx_run store_run fresh Let_def t [symmetric] oper')
qed

text \<open>One task in a state, prepared by the only operation.\<close>

definition empty_store :: durable where
  "empty_store = \<lparr>db_tasks = [], db_operations = [], db_preparations = [], db_relay_upgrades = [], db_intents = [],
     db_conflicts = [], db_events = [], db_initiatives = [], db_members = [], db_artifacts = [], db_applications = [],
     db_launch_facts = [], db_launch_heads = [], db_terminal_bindings = [], db_terminal_events = [], db_launch_acks = [],
     db_validation_processes = [], db_resume_launches = [], db_steering = [], db_replacements = [],
     db_report_versions = [], db_evidence_versions = []\<rparr>"

definition sample_row :: "Task \<Rightarrow> TaskRow" where
  "sample_row t = \<lparr>row_task = t, row_pause_requested_operation_id = [], row_pause_requested_at = None\<rparr>"

definition sample_operation :: OperationRecord where
  "sample_operation = completedMutationOperation ''op-1'' ''PrepareTask'' (replicate 64 CHR ''a'') ''task-1'' 1 (utc_at 1)"

definition sample_store :: "TaskState \<Rightarrow> durable" where
  "sample_store s = empty_store\<lparr>db_tasks := [sample_row (task_in (\<lambda>_. True) s)], db_operations := [sample_operation]\<rparr>"

definition sample_mutation :: TaskCommandMutation where
  "sample_mutation = \<lparr>tm_TaskHandle = ''task-1'', tm_OperationID = ''op-2'', tm_SubjectDigest = replicate 64 CHR ''b'', tm_At = utc_at 2\<rparr>"

definition sample_answer :: "Task \<Rightarrow> string \<Rightarrow> MutationResult" where
  "sample_answer t command = \<lparr>res_Task = t,
     res_Operation = completedMutationOperation ''op-2'' command (replicate 64 CHR ''b'') ''task-1'' 2 (utc_at 2), res_Preparation = None\<rparr>"

lemma sample_task [simp]:
  "task_Handle (task_in u s) = ''task-1''" "task_State (task_in u s) = s" "task_StateVersion (task_in u s) = 1"
  "task_UpdatedAt (task_in u s) = utc_at 1" "task_ManagedRunID (task_in u s) = ''run-1''"
  by (simp_all add: task_in_def prepared_task_def draft_task_def)

lemma sample_task_valid:
  assumes "TaskState_valid s" "1 \<le> sint v"
  shows "Task_Validate u ((task_in u s)\<lparr>task_StateVersion := v\<rparr>) = None"
  using task_in_valid [of s u] contract_ok_cong [of "(task_in u s)\<lparr>task_StateVersion := v\<rparr>" "task_in u s"] assms
  by (auto simp: Task_Validate_iff same_contract_def progress_ok_def task_bound_def)

lemma sample_operations_valid: "OperationRecord_Validate sample_operation = None"
  "OperationRecord_Validate (completedMutationOperation ''op-2'' ''PauseTask'' (replicate 64 CHR ''b'') ''task-1'' 2 (utc_at 2)) = None"
  by code_simp+

lemma sample_sound: "TaskState_valid s \<Longrightarrow> sound_store (\<lambda>_. True) (sample_store s)"
  using sample_operations_valid(1)
  by (simp add: sound_store_def sample_store_def empty_store_def tasks_of_def sample_row_def task_in_valid)
     (simp add: sample_operation_def)

lemma find_set_pause:
  "find_task_row h (set_pause h' i at db) = map_option
     (\<lambda>r. if h = h' then r\<lparr>row_pause_requested_operation_id := i, row_pause_requested_at := at\<rparr> else r) (find_task_row h db)"
proof -
  have "find (\<lambda>r. task_Handle (row_task r) = h) (map (\<lambda>r. if task_Handle (row_task r) = h'
      then r\<lparr>row_pause_requested_operation_id := i, row_pause_requested_at := at\<rparr> else r) rs) = map_option
     (\<lambda>r. if h = h' then r\<lparr>row_pause_requested_operation_id := i, row_pause_requested_at := at\<rparr> else r)
     (find (\<lambda>r. task_Handle (row_task r) = h) rs)" for rs
    by (induction rs) auto
  then show ?thesis by (simp add: find_task_row_def set_pause_def)
qed

lemma core_of_set_pause [simp]: "core_part (set_pause h i at db) = core_part db"
  by (simp add: core_part_def) (simp add: set_pause_def)

lemma pause_run:
  assumes fresh: "find_operation (tm_OperationID m) db = None" and time: "in_utc (tm_At m)"
    and row: "find_task_row (tm_TaskHandle m) db = Some row" "rows_of_task (tm_TaskHandle m) db = 1"
    and task: "Task_Validate u (row_task row) = None" "taskHoldsAWorker (task_State (row_task row))" "task_Handle (row_task row) = tm_TaskHandle m"
    and version: "max_version (state_versions db) = v" "v \<noteq> MaxInt64"
    and t: "t = (row_task row)\<lparr>task_StateVersion := v + 1\<rparr>" "Task_Validate u t = None"
    and oper: "oper = completedMutationOperation (tm_OperationID m) ''PauseTask'' (tm_SubjectDigest m) (tm_TaskHandle m) (v + 1) (tm_At m)"
      "OperationRecord_Validate oper = None"
  shows "CommitTaskPauseRequest u m db [] = (Inr \<lparr>res_Task = t, res_Operation = oper, res_Preparation = None\<rparr>,
     (write_state t (set_pause (tm_TaskHandle m) (tm_OperationID m) (Some (tm_At m)) db))\<lparr>db_operations := db_operations db @ [oper]\<rparr>)"
proof -
  let ?v1 = "set_pause (tm_TaskHandle m) (tm_OperationID m) (Some (tm_At m)) db"
  have kept: "db_operations (write_state t ?v1) = db_operations db" "db_operations ?v1 = db_operations db"
    by (simp_all add: write_state_def set_pause_def)
  have versions: "state_versions ?v1 = state_versions db" by (rule state_versions_core) simp
  have rows: "rows_of_task (tm_TaskHandle m) ?v1 = 1" using row(2) by (simp add: rows_of_task_tasks_of)
  have "commitTaskMutation u (task_spec ''PauseTask'' ''task pause request'' m no_record) () (pause_body u m) db [] =
    (Inr (\<lparr>res_Task = t, res_Operation = oper, res_Preparation = None\<rparr>, ()), (write_state t ?v1)\<lparr>db_operations := db_operations db @ [oper]\<rparr>)"
  proof (rule commitTaskMutation_run)
    show "pause_body u m \<lparr>tx_durable = db, tx_view = db, tx_faults = []\<rparr> = (Inr (row_task row, ()), \<lparr>tx_durable = db, tx_view = ?v1, tx_faults = []\<rparr>)"
      using row(1) task by (simp add: pause_body_def andThen_def within_def tx_run store_run)
    show "updateTaskState u t \<lparr>tx_durable = db, tx_view = ?v1, tx_faults = []\<rparr> = (Inr (), \<lparr>tx_durable = db, tx_view = write_state t ?v1, tx_faults = []\<rparr>)"
      using row(1) rows t task(3) by (simp add: store_run find_set_pause)
  qed (use fresh time version versions t oper task(3) kept in \<open>simp_all add: no_record_def tx_run\<close>)
  then show ?thesis by (simp add: CommitTaskPauseRequest_def plain_outcome_def)
qed

lemma sample_pause:
  obtains db' where "run_command (\<lambda>_. True) (DoPause sample_mutation) (sample_store TaskWorking) [] =
     (Inr (sample_answer ((task_in (\<lambda>_. True) TaskWorking)\<lparr>task_StateVersion := 2\<rparr>) ''PauseTask''), db')"
proof -
  let ?t = "task_in (\<lambda>_. True) TaskWorking"
  have "CommitTaskPauseRequest (\<lambda>_. True) sample_mutation (sample_store TaskWorking) [] =
    (Inr \<lparr>res_Task = ?t\<lparr>task_StateVersion := 2\<rparr>, res_Operation = completedMutationOperation ''op-2'' ''PauseTask'' (replicate 64 CHR ''b'') ''task-1'' 2 (utc_at 2), res_Preparation = None\<rparr>,
     (write_state (?t\<lparr>task_StateVersion := 2\<rparr>) (set_pause (tm_TaskHandle sample_mutation) (tm_OperationID sample_mutation) (Some (tm_At sample_mutation)) (sample_store TaskWorking)))
       \<lparr>db_operations := db_operations (sample_store TaskWorking) @ [completedMutationOperation ''op-2'' ''PauseTask'' (replicate 64 CHR ''b'') ''task-1'' 2 (utc_at 2)]\<rparr>)"
    by (rule pause_run [where row = "sample_row ?t" and v = 1])
       (simp_all add: sample_store_def empty_store_def find_task_row_def sample_row_def find_operation_def sample_operation_def
         sample_mutation_def utc_at_def rows_of_task_def state_versions_def task_in_valid sample_task_valid sample_operations_valid(2) [unfolded utc_at_def])
  then show thesis by (intro that) (simp add: sample_answer_def)
qed

end
