(* ===== verification/Store_Safety.thy ===== *)
theory Store_Safety
  imports Store_History
begin

text \<open>
  The properties of the durable store's commands: they are applied once, refused without a trace, and
  move a task out of doubt only on durable evidence.
\<close>

section \<open>Applied once\<close>

text \<open>
  C1.  A command is applied exactly once.  When it has succeeded, the same command run again, after any
  further commands with any driver behaviour, changes nothing and, if it succeeds, answers with the same
  operation record.
\<close>

theorem commands_apply_once:
  assumes "run_command u c db faults = (Inr x, db1)"
    and "run_command u c (run_history u h db1) faults' = (r, db2)"
  shows "db2 = run_history u h db1 \<and> (\<forall>y. r = Inr y \<longrightarrow> res_Operation y = res_Operation x)"
  using store.answers_from_record [OF history_keeps_operation [OF store.once_recorded(1) [OF assms(1)]] store.once_recorded(2) [OF assms(1)] assms(2)] .

theorem commands_apply_once_witness:
  "\<exists>x db1. run_command (\<lambda>_. True) (DoPause sample_mutation) (sample_store TaskWorking) [] = (Inr x, db1) \<and>
     snd (run_command (\<lambda>_. True) (DoPause sample_mutation) (run_history (\<lambda>_. True) [(DoCancel sample_mutation, [])] db1) []) =
       run_history (\<lambda>_. True) [(DoCancel sample_mutation, [])] db1"
proof -
  obtain db1 where run: "run_command (\<lambda>_. True) (DoPause sample_mutation) (sample_store TaskWorking) [] =
     (Inr (sample_answer ((task_in (\<lambda>_. True) TaskWorking)\<lparr>task_StateVersion := 2\<rparr>) ''PauseTask''), db1)"
    by (rule sample_pause)
  have "run_command (\<lambda>_. True) (DoPause sample_mutation) (run_history (\<lambda>_. True) [(DoCancel sample_mutation, [])] db1) [] =
    (fst (run_command (\<lambda>_. True) (DoPause sample_mutation) (run_history (\<lambda>_. True) [(DoCancel sample_mutation, [])] db1) []),
     snd (run_command (\<lambda>_. True) (DoPause sample_mutation) (run_history (\<lambda>_. True) [(DoCancel sample_mutation, [])] db1) []))"
    by simp
  from commands_apply_once [OF run this] run show ?thesis by blast
qed

text \<open>
  C2.  A refused command leaves no trace: whatever the driver does, after an error the database is the one
  before, except for at most one audit row of an altered replay, which names the recorded operation and
  what was presented.
\<close>

theorem refusals_leave_no_trace:
  assumes "run_command u c db faults = (Inl e, db')"
  shows "db' = db \<or> (\<exists>oper. find_operation (command_operation c) db = Some oper \<and>
           differs oper (command_name c) (command_digest c) \<and> db' = audited oper (command_name c) (command_digest c) db)"
  using assms by (rule store.refuses)

theorem refusals_leave_no_trace_witness:
  "\<exists>e. run_command (\<lambda>_. True) (DoCancel sample_mutation) empty_store [] = (Inl e, empty_store)"
proof -
  have "fst (run_command (\<lambda>_. True) (DoCancel sample_mutation) empty_store []) =
    Inl (WrapError ''get task'' ErrNotFound)"
    by (simp add: CommitTaskCancel_def commitTaskMutation_def plain_outcome_def cancel_body_def task_spec_def
      sample_mutation_def empty_store_def transaction_def replay_first_def getTask_def find_task_row_def
      find_operation_def commit_new_mutation_def andThen_def within_def attempt_def tx_run store_run utc_at_def)
  then obtain db' where run: "run_command (\<lambda>_. True) (DoCancel sample_mutation) empty_store [] =
    (Inl (WrapError ''get task'' ErrNotFound), db')" by (metis prod.collapse)
  from refusals_leave_no_trace [OF this] have "db' = empty_store" by (simp add: find_operation_def empty_store_def)
  with run show ?thesis by blast
qed

text \<open>
  C33.  An identity used for another command is refused and audited.  When an operation is recorded under
  the identity with a different command or subject, the transaction refuses with the conflict error and its
  only durable effect is the audit row; with a driver that fails nowhere it always does so.
\<close>

theorem altered_replay_audited:
  assumes "find_operation opid db = Some oper" "OperationRecord_Validate oper = None" "differs oper command digest"
  shows "transaction label (replay_first opid command digest answer rest) db [] =
    (Inl (WrapError ''operation altered replay'' ErrConflict), audited oper command digest db)"
proof -
  let ?s = "\<lparr>tx_durable = db, tx_view = db, tx_faults = []\<rparr>"
  have "getOperation opid ?s = (Inr oper, ?s)"
    using assms(1,2) by (simp add: getOperation_def andThen_def within_def tx_run)
  from mutationReplay_run(3) [OF this refl assms(3)]
  have "mutationReplay opid command digest ?s = (Inl (WrapError ''operation altered replay'' ErrConflict), ?s\<lparr>tx_view := audited oper command digest db\<rparr>)"
    by (simp add: andThen_def within_def tx_run insertReplayConflict_def audited_def conflict_row_def)
  then show ?thesis
    by (simp add: tx_run replay_first_def andThen_def attempt_def within_def commitReplayConflict_def ErrConflict_def)
qed

theorem altered_replay_audited_witness:
  "transaction ''begin'' (replay_first ''op-1'' ''CancelTask'' (replicate 64 CHR ''a'') (mutationResult (\<lambda>_. True)) (refuse ErrNotFound))
     (sample_store TaskWorking) [] =
   (Inl (WrapError ''operation altered replay'' ErrConflict),
    audited sample_operation ''CancelTask'' (replicate 64 CHR ''a'') (sample_store TaskWorking))"
  by (rule altered_replay_audited)
     (simp_all add: sample_operations_valid(1), simp_all add: find_operation_def sample_store_def sample_operation_def differs_def empty_store_def)

section \<open>Sound tables\<close>

text \<open>
  C4.  The tables stay sound.  From a sound database, and so from an empty one, any history leaves every
  stored task valid under its own handle, every operation record valid under its own identity, the record
  versions strictly increasing, and each task's version the version of an operation that names it.
\<close>

theorem store_stays_sound:
  assumes "sound_store u db"
  shows "sound_store u (run_history u h db)"
  using assms by (rule history_keeps_sound)

theorem store_stays_sound_witness:
  "sound_store (\<lambda>_. True) (run_history (\<lambda>_. True) [(DoPause sample_mutation, []), (DoCancel sample_mutation, [Some ErrNotFound])] (sample_store TaskWorking))"
  by (intro store_stays_sound sample_sound) simp

text \<open>
  C3.  The store refines a ledger: a map of tasks and a write-once map of operations.  A command either
  leaves both maps alone, or sets one task and adds the operation, under an identity not in the map, that
  names the task and carries its new version.
\<close>

definition ledger :: "durable \<Rightarrow> (string \<rightharpoonup> Task) \<times> (string \<rightharpoonup> OperationRecord)" where
  "ledger db = (\<lambda>h. find (\<lambda>t. task_Handle t = h) (tasks_of db), \<lambda>i. find_operation i db)"

definition ledger_step :: "StoreCommand \<Rightarrow> (string \<rightharpoonup> Task) \<times> (string \<rightharpoonup> OperationRecord) \<Rightarrow> (string \<rightharpoonup> Task) \<times> (string \<rightharpoonup> OperationRecord) \<Rightarrow> bool" where
  "ledger_step c = (\<lambda>(tasks, operations) next. next = (tasks, operations) \<or>
     (\<exists>t oper. operations (command_operation c) = None \<and> op_Command oper = command_name c \<and> op_SubjectDigest oper = command_digest c \<and>
        op_ResultRef oper = task_Handle t \<and> op_StateVersion oper = task_StateVersion t \<and>
        next = (tasks(task_Handle t \<mapsto> t), operations(command_operation c \<mapsto> oper))))"

theorem store_refines_ledger:
  "ledger_step c (ledger db) (ledger (snd (run_command u c db faults)))"
proof -
  obtain r db' where run: "run_command u c db faults = (r, db')" by fastforce
  from run show ?thesis
  proof (cases rule: store.outcomes)
    case (new x)
    then have rec: "find_operation (command_operation c) db = None" "op_ID (res_Operation x) = command_operation c"
      "tasks_of db' = store_task (res_Task x) (tasks_of db)" "db_operations db' = db_operations db @ [res_Operation x]"
      "op_Command (res_Operation x) = command_name c" "op_SubjectDigest (res_Operation x) = command_digest c"
      "op_ResultRef (res_Operation x) = task_Handle (res_Task x)" "op_StateVersion (res_Operation x) = task_StateVersion (res_Task x)"
      by (simp_all add: recorded_def Let_def)
    have "ledger db' = ((fst (ledger db))(task_Handle (res_Task x) \<mapsto> res_Task x), (snd (ledger db))(command_operation c \<mapsto> res_Operation x))"
      using rec(1,2) find_operation_append [OF rec(4)] by (auto simp: ledger_def rec(3) find_store_task fun_eq_iff split: option.splits)
    then show ?thesis using run rec unfolding ledger_step_def case_prod_beta ledger_def by fastforce
  next
    case (conflict e oper)
    then have "ledger db' = ledger db" by (simp add: ledger_def audited_def tasks_of_def find_operation_def)
    then show ?thesis using run by (simp add: ledger_step_def case_prod_beta)
  qed (use run in \<open>simp_all add: ledger_step_def case_prod_beta\<close>)
qed

text \<open>
  Versions are exhausted, never wrapped: once a version in the database is the largest 64-bit integer,
  no command succeeds any more unless it was recorded before, and none changes a task or an operation.
\<close>

lemma exhausted_versions_refuse:
  assumes "MaxInt64 \<in> set (state_versions db)" "find_operation (command_operation c) db = None"
    and "run_command u c db faults = (r, db')"
  shows "(\<exists>e. r = Inl e) \<and> db' = db"
  using assms(3)
proof (cases rule: store.outcomes)
  case (new x)
  then have "sint MaxInt64 < sint (task_StateVersion (res_Task x))" using assms(1) unfolding recorded_def Let_def by blast
  then show ?thesis using sint_lt [of "task_StateVersion (res_Task x)"] by (simp add: sint_MaxInt64 del: sint_numeral)
qed (use assms(2) in simp_all)

section \<open>The trail of events\<close>

lemma activation_moves_to_ready:
  assumes run: "commit_new_activation u m s = (Inr (x::MutationResult), s')"
  shows "task_State (res_Task x) = TaskReady \<and> (\<exists>old\<in>set (tasks_of (tx_view s)). task_Handle old = task_Handle (res_Task x) \<and> task_State old = TaskPrepared)"
proof -
  from run obtain task s1 prep s2 acked s3 where
    get: "getTask u (act_ExternalRunRef m) s = (Inr task, s1)" and guard: "activation_guard m task prep = None"
    and ack: "applied ''apply managed-run activation'' (AcknowledgeBinding u task (act_Binding m) (act_At m)) s2 = (Inr acked, s3)"
    and x: "task_State (res_Task x) = task_State acked" "task_Handle (res_Task x) = task_Handle acked"
    unfolding commit_new_activation_def Let_def inversion by (elim exE conjE) (rule that, simp_all)
  from guard have prepared: "task_State task = TaskPrepared"
    by (simp add: activation_guard_def)
  from ack have a: "AcknowledgeBinding u task (act_Binding m) (act_At m) = (acked, None)"
    unfolding applied_def by (cases "AcknowledgeBinding u task (act_Binding m) (act_At m)"; auto simp: tx_ok split: option.splits)+
  with prepared have "task_State acked = TaskReady" "task_Handle acked = task_Handle task"
    by (auto simp: AcknowledgeBinding_accepts ApplyTransition_accepts nextTaskState_def)
  with returnsD [OF returns_getTask get] prepared x show ?thesis
    by (auto simp: stored_valid_def core_part_def)
qed

text \<open>
  An activation changes the state of its task without an event: a new one takes the stored preparation
  to ready and leaves the trail as it was.
\<close>

lemma activation_leaves_no_event:
  assumes "CommitManagedRunActivation u m db faults = (Inr x, db')" "find_operation (act_OperationID m) db = None"
  shows "db_events db' = db_events db \<and> task_State (res_Task x) = TaskReady \<and>
    (\<exists>old\<in>set (tasks_of db). task_Handle old = task_Handle (res_Task x) \<and> task_State old = TaskPrepared)"
proof -
  from lawfulD(1) [OF lawful_activation assms] have "db_events db' = db_events db" by (simp add: silent_def)
  moreover from assms(1) have "task_State (res_Task x) = TaskReady \<and>
    (\<exists>old\<in>set (tasks_of db). task_Handle old = task_Handle (res_Task x) \<and> task_State old = TaskPrepared)"
    unfolding CommitManagedRunActivation_def
  proof (rule skeleton_success)
    show "commits_last (commit_new_activation u m)" by (rule commits_last_new)
    show "reads (mutationResult u oper)" for oper by (rule reads_task)
  qed (use activation_moves_to_ready assms(2) in \<open>auto\<close>)
  ultimately show ?thesis by simp
qed

text \<open>
  C5.  The trail of events.  A new command other than a preparation or an activation appends to the trail
  one event, with the task's new state, version and time, when no stored row of the task was in that state,
  and nothing otherwise.  A preparation and an activation append nothing, although the activation moves
  its task from prepared to ready.
\<close>

theorem trail_of_state_changes:
  assumes "run_command u c db faults = (Inr x, db')" "find_operation (command_operation c) db = None"
  shows "db_events db' = db_events db @
      (if (\<exists>m. c = DoPrepare m) \<or> (\<exists>m. c = DoActivate m) \<or>
          (\<exists>old\<in>set (tasks_of db). task_Handle old = task_Handle (res_Task x) \<and> task_State old = task_State (res_Task x))
       then [] else [state_event (res_Task x)]) \<and>
    ((\<exists>m. c = DoActivate m) \<longrightarrow> task_State (res_Task x) = TaskReady \<and>
      (\<exists>old\<in>set (tasks_of db). task_Handle old = task_Handle (res_Task x) \<and> task_State old = TaskPrepared))"
proof -
  have "trail_of c (res_Task x) db db'"
    using lawfulD(1) [OF lawful_command_run assms] by simp
  moreover have "task_State (res_Task x) = TaskReady \<and>
      (\<exists>old\<in>set (tasks_of db). task_Handle old = task_Handle (res_Task x) \<and> task_State old = TaskPrepared)"
    if "c = DoActivate m" for m
    using activation_leaves_no_event [of u m db faults x db'] assms that by simp
  ultimately show ?thesis by (cases c) (simp_all add: trailed_def silent_def)
qed

text \<open>A prepared task with its open preparation, and the activation that joins it.\<close>

definition sample_preparation :: ManagedRunPreparation where
  "sample_preparation = \<lparr>prep_ExternalRunRef = ''task-1'', prep_RegistrationNonce = replicate 20 CHR ''n'',
     prep_RequestedWorkspaceRoot = ''/work/task-1'',
     prep_RequestedAttachment = \<lparr>att_Kind = RuntimeAttachmentUnixSocket, att_SourcePath = ''/run/attachment.sock'', att_RelayIdentity = concat (replicate 32 ''cc'')\<rparr>,
     prep_ExpiresAt = utc_at 100, prep_State = PreparationOpen, prep_AbandonReason = AbandonReasonOther [],
     prep_Disposition = AbandonDispositionOther [], prep_ClosedAt = None\<rparr>"

definition prepared_store :: durable where
  "prepared_store = empty_store\<lparr>db_tasks := [sample_row (prepared_task (\<lambda>_. True))], db_operations := [sample_operation],
     db_preparations := [\<lparr>prow_task_handle = ''task-1'', prow_preparation = sample_preparation, prow_created_at = utc_at 1\<rparr>]\<rparr>"

definition sample_activation :: ManagedRunActivationMutation where
  "sample_activation = \<lparr>act_ServiceInstanceID = ''svc-1'', act_ExternalRunRef = ''task-1'', act_RegistrationNonce = replicate 20 CHR ''n'',
     act_Binding = \<lparr>bind_ManagedRunID = ''run-1'', bind_WorkspaceLeaseID = ''lease-1''\<rparr>, act_ExecutionAttachmentID = ''attach-1'',
     act_AttachmentTargetName = ''attachment-0123456789abcdef0123456789abcdef.sock'', act_OperationID = ''op-2'', act_SubjectDigest = replicate 64 CHR ''b'', act_At = utc_at 2\<rparr>"

definition sample_bound :: Task where
  "sample_bound = (prepared_task (\<lambda>_. True))\<lparr>task_ManagedRunID := ''run-1'', task_WorkspaceLeaseID := ''lease-1'',
     task_ExecutionAttachmentID := ''attach-1'', task_AttachmentTargetName := ''attachment-0123456789abcdef0123456789abcdef.sock'', task_State := TaskReady,
     task_StateVersion := 2, task_UpdatedAt := utc_at 2\<rparr>"

lemma sample_identity_decodes: "hex_DecodeString (concat (replicate n ''cc'')) = Some (replicate n 204)"
  "hex_EncodeToString (replicate n 204) = concat (replicate n ''cc'')"
proof -
  have "hex_value CHR ''c'' = Some 12" "hex_digit 12 = CHR ''c''" by code_simp+
  then show "hex_DecodeString (concat (replicate n ''cc'')) = Some (replicate n 204)"
    "hex_EncodeToString (replicate n 204) = concat (replicate n ''cc'')"
    by (induction n) (simp_all add: hex_EncodeToString_def)
qed

lemma sample_preparation_valid: "Preparation_Validate sample_preparation (utc_at 1) = None"
  "Attachment_Validate (prep_RequestedAttachment sample_preparation) = None"
proof -
  have "ValidateRuntimeRelayIdentity (concat (replicate 32 ''cc'')) = None"
    by (simp add: ValidateRuntimeRelayIdentity_def sample_identity_decodes list_all_iff)
  moreover have "IsAbs ''/run/attachment.sock''" "Clean ''/run/attachment.sock'' = ''/run/attachment.sock''"
    "Base ''/run/attachment.sock'' = ''attachment.sock''" "\<not> ContainsAny ''/run/attachment.sock'' [CHR 0x00, CHR 0x0D, CHR 0x0A]"
    by code_simp+
  ultimately show a: "Attachment_Validate (prep_RequestedAttachment sample_preparation) = None"
    by (simp add: Attachment_Validate_def sample_preparation_def)
  have "ValidateTaskHandle ''task-1'' = None" "registrationNoncePattern (replicate 20 CHR ''n'')" "IsAbs ''/work/task-1''"
    "Clean ''/work/task-1'' = ''/work/task-1''" by code_simp+
  with a show "Preparation_Validate sample_preparation (utc_at 1) = None"
    by (simp add: Preparation_Validate_def sample_preparation_def time_defs utc_at_def)
qed

lemma sample_bound_valid: "Task_Validate (\<lambda>_. True) sample_bound = None"
proof -
  have "contract_ok (\<lambda>_. True) sample_bound \<longleftrightarrow> contract_ok (\<lambda>_. True) (prepared_task (\<lambda>_. True))"
    by (rule contract_ok_cong) (simp add: sample_bound_def same_contract_def)
  moreover have "authorityPattern ''attach-1''" "attachmentTargetNamePattern ''attachment-0123456789abcdef0123456789abcdef.sock''" by code_simp+
  then have "progress_ok sample_bound"
    by (simp add: sample_bound_def prepared_task_def progress_ok_def task_bound_def draft_defs validateTimes_def time_defs draft_strings)
  ultimately show ?thesis using contract_ok_prepared by (simp add: Task_Validate_iff)
qed

lemma sample_activation_guard: "activation_guard sample_activation (prepared_task (\<lambda>_. True)) sample_preparation = None"
proof -
  have "validateAuthorityReference ''executionAttachmentId'' ''attach-1'' = None" "ValidateAttachmentTargetName ''attachment-0123456789abcdef0123456789abcdef.sock'' = None" by code_simp+
  then show ?thesis using sample_preparation_valid(2)
    by (simp add: activation_guard_def sample_activation_def sample_preparation_def prepared_task_def draft_defs time_defs)
qed

lemma sample_binding_applies:
  "AcknowledgeBinding (\<lambda>_. True) (prepared_task (\<lambda>_. True)) (act_Binding sample_activation) (utc_at 2) =
     (stepped ((prepared_task (\<lambda>_. True))\<lparr>task_ManagedRunID := ''run-1'', task_WorkspaceLeaseID := ''lease-1''\<rparr>) TaskReady (utc_at 2), None)"
proof -
  let ?t = "(prepared_task (\<lambda>_. True))\<lparr>task_ManagedRunID := ''run-1'', task_WorkspaceLeaseID := ''lease-1''\<rparr>"
  have "?t = task_in (\<lambda>_. True) TaskPrepared" by (simp add: task_in_def prepared_task_def draft_task_def)
  then have "Task_Validate (\<lambda>_. True) ?t = None" using task_in_valid [of TaskPrepared "\<lambda>_. True"] by simp
  moreover have "TaskBinding_Validate \<lparr>bind_ManagedRunID = ''run-1'', bind_WorkspaceLeaseID = ''lease-1''\<rparr> = None" by code_simp
  ultimately show ?thesis
    by (simp add: AcknowledgeBinding_accepts ApplyTransition_accepts sample_activation_def nextTaskState_def task_bound_def)
       (simp add: prepared_task_def draft_defs time_defs)
qed

lemma sample_activation_operation:
  "OperationRecord_Validate (completedMutationOperation ''op-2'' ''ActivateManagedRun'' (replicate 64 CHR ''b'') ''task-1'' 2 (utc_at 2)) = None"
  by code_simp

lemma sample_activation_runs:
  obtains x db' where "CommitManagedRunActivation (\<lambda>_. True) sample_activation prepared_store [] = (Inr x, db')"
proof -
  let ?s = "\<lparr>tx_durable = prepared_store, tx_view = prepared_store, tx_faults = []\<rparr>" and ?t = "prepared_task (\<lambda>_. True)"
  have handle: "task_Handle ?t = ''task-1''" "task_StateVersion ?t = 1" "task_CreatedAt ?t = utc_at 1"
    by (simp_all add: prepared_task_def draft_task_def utc_at_def)
  have fresh: "mutationReplay ''op-2'' ''ActivateManagedRun'' (replicate 64 CHR ''b'') ?s = (Inr None, ?s)"
    by (rule fresh_operation_run) (simp_all add: find_operation_def prepared_store_def sample_operation_def)
  have get: "getTask (\<lambda>_. True) ''task-1'' ?s = (Inr ?t, ?s)"
    using getTask_run [of ?s "''task-1''" "sample_row ?t" "\<lambda>_. True"]
    by (simp add: prepared_store_def find_task_row_def sample_row_def handle prepared_task_valid)
  have prep: "getManagedRunPreparation ?t ?s = (Inr sample_preparation, ?s)"
    using sample_preparation_valid(1)
    by (simp add: getManagedRunPreparation_def andThen_def tx_run prepared_store_def handle empty_store_def) (simp add: sample_preparation_def tx_run)
  define acked where "acked = stepped (?t\<lparr>task_ManagedRunID := ''run-1'', task_WorkspaceLeaseID := ''lease-1''\<rparr>) TaskReady (utc_at 2)"
  have ack: "applied c (AcknowledgeBinding (\<lambda>_. True) ?t (act_Binding sample_activation) (utc_at 2)) s = (Inr acked, s)" for c and s :: "durable tx_state"
    by (simp add: applied_def sample_binding_applies acked_def tx_run)
  have bound: "acked\<lparr>task_ExecutionAttachmentID := ''attach-1'', task_AttachmentTargetName := ''attachment-0123456789abcdef0123456789abcdef.sock'', task_StateVersion := 2\<rparr> = sample_bound"
    by (simp add: acked_def stepped_def sample_bound_def)
  have ah: "task_Handle acked = ''task-1''" by (simp add: acked_def handle)
  have version: "nextMutationStateVersion ?s = (Inr 2, ?s)"
    using nextMutationStateVersion_run [of ?s 1]
    by (simp add: state_versions_def prepared_store_def empty_store_def sample_row_def sample_operation_def handle)
  have sh: "task_Handle sample_bound = ''task-1''" by (simp add: sample_bound_def handle)
  have rows: "rows_of_task ''task-1'' prepared_store = 1" "find_operation ''op-2'' (write_binding sample_bound prepared_store) = None"
    by (simp_all add: rows_of_task_def prepared_store_def sample_row_def handle find_operation_def write_binding_def sample_operation_def empty_store_def)
  have fields: "act_OperationID sample_activation = ''op-2''" "act_SubjectDigest sample_activation = replicate 64 CHR ''b''"
    "act_ExternalRunRef sample_activation = ''task-1''" "act_At sample_activation = utc_at 2"
    "act_ExecutionAttachmentID sample_activation = ''attach-1''" "act_AttachmentTargetName sample_activation = ''attachment-0123456789abcdef0123456789abcdef.sock''"
    by (simp_all add: sample_activation_def)
  have "\<exists>x db'. CommitManagedRunActivation (\<lambda>_. True) sample_activation prepared_store [] = (Inr x, db')"
    unfolding CommitManagedRunActivation_def tx_run replay_first_def fields commit_new_activation_def
    by (simp add: andThen_def attempt_def within_def fresh get prep tx_run ack version bound sample_activation_guard
        sample_bound_valid Let_def sh ah rows store_run sample_activation_operation)
  then show thesis using that by blast
qed

section \<open>Pause requests and cancellation\<close>

text \<open>The pause columns of every row.\<close>

definition pauses :: "durable \<Rightarrow> (string \<times> string \<times> time option) list" where
  "pauses db = map (\<lambda>r. (task_Handle (row_task r), row_pause_requested_operation_id r, row_pause_requested_at r)) (db_tasks db)"

lemma pause_of_pauses:
  "map_option (\<lambda>r. row_pause_requested_operation_id r \<noteq> []) (find_task_row h db) =
     map_option (\<lambda>p. fst (snd p) \<noteq> []) (find (\<lambda>p. fst p = h) (pauses db))"
proof -
  have "map_option (\<lambda>r. row_pause_requested_operation_id r \<noteq> []) (find (\<lambda>r. task_Handle (row_task r) = h) rs) =
    map_option (\<lambda>p. fst (snd p) \<noteq> []) (find (\<lambda>p. fst p = h)
      (map (\<lambda>r. (task_Handle (row_task r), row_pause_requested_operation_id r, row_pause_requested_at r)) rs))" for rs
    by (induction rs) auto
  then show ?thesis by (simp add: find_task_row_def pauses_def)
qed

lemma pauses_of_write_state [simp]: "pauses (write_state t db) = pauses db"
  by (simp add: pauses_def write_state_def comp_def if_distrib cong: if_cong)

text \<open>A refresh touches nothing outside the initiatives and their launch facts.\<close>

definition outside_initiatives :: "durable \<Rightarrow> durable" where
  "outside_initiatives db = db\<lparr>db_initiatives := [], db_launch_facts := [], db_launch_heads := []\<rparr>"

lemma leaves_outside_initiatives [tx_leaves]:
  "leaves outside_initiatives (refreshInitiativeLaunchResourceKeys ks)" "leaves outside_initiatives (replaceInitiativeLaunchFacts u i b)"
  "leaves outside_initiatives (refreshInitiativeLaunchFacts u i)" "leaves outside_initiatives (updateInitiativeRecord u i)"
  "leaves outside_initiatives (refreshInitiativeAggregate u h v at)"
proof -
  show k: "leaves outside_initiatives (refreshInitiativeLaunchResourceKeys ks)" for ks
    unfolding refreshInitiativeLaunchResourceKeys_def refreshInitiativeLaunchResourceHead_def
    by (intro tx_leaves leaves_execute) (simp_all add: outside_initiatives_def)
  show r: "leaves outside_initiatives (replaceInitiativeLaunchFacts u i b)" for i b
    unfolding replaceInitiativeLaunchFacts_def insert_launch_fact_def
    by (intro tx_leaves leaves_execute leaves_insert_unless k) (simp_all add: outside_initiatives_def)
  show f: "leaves outside_initiatives (refreshInitiativeLaunchFacts u i)" for i
    unfolding refreshInitiativeLaunchFacts_def by (rule r)
  show i: "leaves outside_initiatives (updateInitiativeRecord u i)" for i
    unfolding updateInitiativeRecord_def
    by (intro tx_leaves leaves_statement f) (auto simp: outside_initiatives_def)
  show "leaves outside_initiatives (refreshInitiativeAggregate u h v at)"
    unfolding refreshInitiativeAggregate_def
    by (intro tx_leaves f i)
qed

lemma pauses_outside: "outside_initiatives a = outside_initiatives b \<Longrightarrow> pauses a = pauses b"
  by (cases a; cases b; simp add: outside_initiatives_def pauses_def)

lemma leaves_pauses [tx_leaves]: "leaves pauses (updateTaskState u t)" "leaves pauses (insert_operation_labelled l oper)"
proof -
  have "leaves pauses (refreshInitiativeAggregate u h v at)" for h v at
    using leaves_outside_initiatives(5) pauses_outside unfolding leaves_def by blast
  then show "leaves pauses (updateTaskState u t)"
    unfolding updateTaskState_def updateTaskStateWithReservationGuard_def appendTaskStateEvent_def appendServiceEvent_def
    by (intro tx_leaves leaves_statement leaves_execute) (auto simp: pauses_def write_state_def)
  show "leaves pauses (insert_operation_labelled l oper)"
    unfolding insert_operation_labelled_def insertOperation_def
    by (intro tx_leaves leaves_insert_unless) (simp add: pauses_def)
qed

lemma commit_new_mutation_pauses:
  assumes "leaves pauses body" "\<And>c t. leaves pauses (spec_Record spec c t)"
  shows "leaves pauses (commit_new_mutation u spec body)"
  unfolding commit_new_mutation_def Let_def by (intro tx_leaves assms)

lemma PauseRequest_calm:
  "PauseRequest h db [] = (case find_task_row h db of
     None \<Rightarrow> (Inl (WrapError ''read task pause request'' (PlainError ''sql: no rows in result set'')), db)
   | Some row \<Rightarrow> (Inr (row_pause_requested_operation_id row \<noteq> []), db))"
  by (simp add: PauseRequest_def outside_transaction_def within_def andThen_def tx_run split: option.split)

lemma same_pause_answer: "pauses db' = pauses db \<Longrightarrow> fst (PauseRequest h db' []) = fst (PauseRequest h db [])"
  using pause_of_pauses [of h db'] pause_of_pauses [of h db]
  by (cases "find_task_row h db"; cases "find_task_row h db'"; cases "find (\<lambda>p. fst p = h) (pauses db)"; simp add: PauseRequest_calm)

lemma cancel_request_target: "nextTaskState st TransitionCancelRequested = Some st' \<Longrightarrow> st' = TaskCancelled"
  by (simp add: nextTaskState_def split: if_splits)

lemma commit_new_mutation_returns:
  assumes run: "commit_new_mutation u spec body s = (Inr (x, c), s')" and body: "returns core_part (\<lambda>_ y. P (fst y)) body"
    and P: "\<And>t v. P (t\<lparr>task_StateVersion := v\<rparr>) = P t"
  shows "P (res_Task x)"
  by (rule commit_new_mutation_ok [OF run body]) (simp add: P)

lemma returns_cancelled:
  "returns core_part (\<lambda>_ y. task_State (fst y) = TaskCancelled) (managed_run_cancel_body u mrc)"
  "returns core_part (\<lambda>_ t'. task_State t' = TaskCancelled) (cancelTaskState u t at)"
  "returns core_part (\<lambda>_ y. task_State (fst y) = TaskCancelled) (cancel_body u m)"
proof -
  show "returns core_part (\<lambda>_ y. task_State (fst y) = TaskCancelled) (managed_run_cancel_body u mrc)"
    unfolding managed_run_cancel_body_def getTaskByManagedRun_def
    by (intro returns_steps tx_leaves) (auto simp: cancel_request_target)
  show c: "returns core_part (\<lambda>_ t'. task_State t' = TaskCancelled) (cancelTaskState u t at)" for t at
    unfolding cancelTaskState_def
    by (intro returns_steps tx_leaves returns_weaken [OF returns_applied(2)]) (auto simp: nextTaskState_def split: if_splits)
  show "returns core_part (\<lambda>_ y. task_State (fst y) = TaskCancelled) (cancel_body u m)"
    unfolding cancel_body_def by (intro returns_andThen [OF returns_within [OF c]] returns_steps tx_leaves) auto
qed

lemma managed_run_cancel_success:
  assumes "CommitManagedRunCancel u m db faults = (Inr x, db')" "find_operation (mrc_OperationID m) db = None"
  shows "task_State (res_Task x) = TaskCancelled \<and> pauses db' = pauses db"
proof -
  define spec where "spec = \<lparr>spec_Command = ''CancelManagedRun'', spec_OperationID = mrc_OperationID m,
        spec_SubjectDigest = mrc_SubjectDigest m, spec_At = mrc_At m,
        spec_Label = ''managed-run cancel'', spec_Record = no_record :: unit \<Rightarrow> Task \<Rightarrow> unit store_tx\<rparr>"
  have spec: "spec_OperationID spec = mrc_OperationID m" "spec_Record spec = no_record" by (simp_all add: spec_def)
  from assms(1) obtain c where run: "commitTaskMutation u spec () (managed_run_cancel_body u m) db faults = (Inr (x, c), db')"
    unfolding CommitManagedRunCancel_def plain_outcome_def map_prod_Inr spec_def by auto
  have recorder: "leaves pauses (spec_Record spec c t)" "uncommitted (spec_Record spec c t)" for c t
    by (simp_all add: spec(2) no_record_def leaves_basic uncommitted_basic)
  have body: "leaves pauses (managed_run_cancel_body u m)" "uncommitted (managed_run_cancel_body u m)"
    by (intro tx_leaves tx_uncommitted)+
  note l = commit_new_mutation_pauses [OF body(1) recorder(1), where u = u]
  show ?thesis
  proof (rule task_mutation_success [OF run body(2) recorder(2)])
    fix s s'
    assume ran: "commit_new_mutation u spec (managed_run_cancel_body u m) s = (Inr (x, c), s')" and v: "tx_view s = db" "tx_view s' = db'"
    have "task_State (res_Task x) = TaskCancelled" by (rule commit_new_mutation_returns [OF ran returns_cancelled(1)]) simp
    with leavesD [OF l ran] v show ?thesis by simp
  next
    fix oper
    assume "find_operation (spec_OperationID spec) db = Some oper"
    then show ?thesis using assms(2) by (simp add: spec(1))
  qed
qed

text \<open>
  C34.  A cancellation by the host keeps a standing pause request: the new command leaves its task cancelled,
  and the pause question answers for every task as it did before.
\<close>

theorem managed_run_cancel_keeps_pause:
  assumes "CommitManagedRunCancel u m db faults = (Inr x, db')" "find_operation (mrc_OperationID m) db = None"
  shows "task_State (res_Task x) = TaskCancelled \<and> fst (PauseRequest h db' []) = fst (PauseRequest h db [])"
  using managed_run_cancel_success [OF assms] by (blast intro: same_pause_answer)

text \<open>A working task with a standing pause request, and its cancellation by the host.\<close>

definition paused_store :: durable where
  "paused_store = set_pause ''task-1'' ''op-0'' (Some (utc_at 1)) (sample_store TaskWorking)"

definition sample_run_cancel :: ManagedRunCancelMutation where
  "sample_run_cancel = \<lparr>mrc_ServiceInstanceID = ''svc-1'', mrc_ManagedRunID = ''run-1'', mrc_Reason = CancelReasonOwnerCancelled,
     mrc_OperationID = ''op-2'', mrc_SubjectDigest = replicate 64 CHR ''b'', mrc_At = utc_at 2\<rparr>"

definition sample_cancelled :: Task where
  "sample_cancelled = (stepped (task_in (\<lambda>_. True) TaskWorking) TaskCancelled (utc_at 2))\<lparr>task_StateVersion := 2\<rparr>"

lemma sample_cancelled_valid: "Task_Validate (\<lambda>_. True) sample_cancelled = None"
proof -
  have "contract_ok (\<lambda>_. True) sample_cancelled \<longleftrightarrow> contract_ok (\<lambda>_. True) (prepared_task (\<lambda>_. True))"
    by (rule contract_ok_cong) (simp add: sample_cancelled_def stepped_def task_in_def same_contract_def)
  moreover have "progress_ok sample_cancelled"
    by (simp add: sample_cancelled_def stepped_def task_in_def prepared_task_def progress_ok_def task_bound_def draft_defs
        validateTimes_def time_defs draft_strings)
  ultimately show ?thesis using contract_ok_prepared by (simp add: Task_Validate_iff)
qed

lemma sample_cancel_step:
  "ApplyTransition (\<lambda>_. True) (task_in (\<lambda>_. True) TaskWorking) TransitionCancelRequested (utc_at 2) =
     (stepped (task_in (\<lambda>_. True) TaskWorking) TaskCancelled (utc_at 2), None)"
  by (simp add: ApplyTransition_accepts task_in_valid nextTaskState_def task_bound_def) (simp add: time_defs utc_at_def)

lemma sample_cancel_operations:
  "OperationRecord_Validate (completedMutationOperation ''op-2'' ''CancelManagedRun'' (replicate 64 CHR ''b'') ''task-1'' 2 (utc_at 2)) = None"
  "OperationRecord_Validate (completedMutationOperation ''op-2'' ''CancelTask'' (replicate 64 CHR ''b'') ''task-1'' 2 (utc_at 2)) = None"
  by code_simp+

lemma paused_store_parts:
  "db_tasks paused_store = [\<lparr>row_task = task_in (\<lambda>_. True) TaskWorking, row_pause_requested_operation_id = ''op-0'', row_pause_requested_at = Some (utc_at 1)\<rparr>]"
  "db_operations paused_store = [sample_operation]" "db_applications paused_store = []" "db_members paused_store = []"
  "state_versions paused_store = [1, 1]"
  by (simp_all add: paused_store_def set_pause_def sample_store_def empty_store_def sample_row_def state_versions_def sample_operation_def)

lemma sample_cancelled_update:
  assumes "tx_view s = db" "calm s" "db_applications db = []" "db_members db = []"
    "db_tasks db = [\<lparr>row_task = task_in (\<lambda>_. True) st, row_pause_requested_operation_id = i, row_pause_requested_at = at\<rparr>]" "st \<noteq> TaskCancelled"
  shows "updateTaskState (\<lambda>_. True) sample_cancelled s =
    (Inr (), s\<lparr>tx_view := add_event (state_event sample_cancelled) (write_state sample_cancelled db)\<rparr>)"
proof -
  let ?row = "\<lparr>row_task = task_in (\<lambda>_. True) st, row_pause_requested_operation_id = i, row_pause_requested_at = at\<rparr>"
  have "task_Handle sample_cancelled = ''task-1''" by (simp add: sample_cancelled_def)
  moreover have "find_task_row ''task-1'' db = Some ?row" "rows_of_task ''task-1'' db = 1"
    using assms(5) by (simp_all add: find_task_row_def rows_of_task_def)
  moreover have "\<not> IsZero (task_UpdatedAt sample_cancelled)" by (simp add: sample_cancelled_def utc_at_def time_defs)
  moreover have "task_State (row_task ?row) \<noteq> task_State sample_cancelled" using assms(6) by (simp add: sample_cancelled_def)
  ultimately show ?thesis
    using updateTaskState_run_moved [of s "\<lambda>_. True" sample_cancelled ?row] assms sample_cancelled_valid by simp
qed

lemma sample_run_cancel_runs:
  obtains x db' where "CommitManagedRunCancel (\<lambda>_. True) sample_run_cancel paused_store [] = (Inr x, db')"
proof -
  let ?s = "\<lparr>tx_durable = paused_store, tx_view = paused_store, tx_faults = []\<rparr>" and ?t = "task_in (\<lambda>_. True) TaskWorking"
  let ?spec = "\<lparr>spec_Command = ''CancelManagedRun'', spec_OperationID = ''op-2'',
        spec_SubjectDigest = replicate 64 CHR ''b'', spec_At = utc_at 2,
        spec_Label = ''managed-run cancel'', spec_Record = no_record :: unit \<Rightarrow> Task \<Rightarrow> unit store_tx\<rparr>"
  have scan: "getTaskByManagedRun (\<lambda>_. True) ''run-1'' ?s = (Inr ?t, ?s)"
    by (simp add: getTaskByManagedRun_def scan_tasks_of_def andThen_def within_def tx_run paused_store_parts scanTask_def ensure_def task_in_valid)
  have service: "task_ServiceInstanceID ?t = ''svc-1''" by (simp add: task_in_def prepared_task_def draft_task_def)
  have body: "managed_run_cancel_body (\<lambda>_. True) sample_run_cancel ?s = (Inr (stepped ?t TaskCancelled (utc_at 2), ()), ?s)"
    using scan service
    by (simp add: managed_run_cancel_body_def sample_run_cancel_def andThen_def within_def tx_run sample_cancel_step applied_def utc_at_def
        refuseAnyReservedIntegrationTaskMutation_def reserved_application_def paused_store_parts)
      (simp add: sample_cancel_step [unfolded utc_at_def] tx_run)
  have "commitTaskMutation (\<lambda>_. True) ?spec () (managed_run_cancel_body (\<lambda>_. True) sample_run_cancel) paused_store [] =
    (Inr (\<lparr>res_Task = sample_cancelled, res_Operation = completedMutationOperation ''op-2'' ''CancelManagedRun'' (replicate 64 CHR ''b'') ''task-1'' 2 (utc_at 2),
       res_Preparation = None\<rparr>, ()),
     (add_event (state_event sample_cancelled) (write_state sample_cancelled paused_store))
       \<lparr>db_operations := [sample_operation, completedMutationOperation ''op-2'' ''CancelManagedRun'' (replicate 64 CHR ''b'') ''task-1'' 2 (utc_at 2)]\<rparr>)"
  proof (rule commitTaskMutation_run)
    show "managed_run_cancel_body (\<lambda>_. True) sample_run_cancel ?s = (Inr (stepped ?t TaskCancelled (utc_at 2), ()), ?s)" by (rule body)
    show "updateTaskState (\<lambda>_. True) sample_cancelled ?s =
      (Inr (), \<lparr>tx_durable = paused_store, tx_view = add_event (state_event sample_cancelled) (write_state sample_cancelled paused_store), tx_faults = []\<rparr>)"
      using sample_cancelled_update [of ?s paused_store TaskWorking "''op-0''" "Some (utc_at 1)"] by (simp add: paused_store_parts)
    show "sample_cancelled = (stepped ?t TaskCancelled (utc_at 2))\<lparr>task_StateVersion := 1 + 1\<rparr>" by (simp add: sample_cancelled_def)
    show "find_operation (spec_OperationID ?spec) paused_store = None"
      by (simp add: find_operation_def paused_store_parts sample_operation_def)
    show "db_operations (add_event (state_event sample_cancelled) (write_state sample_cancelled paused_store)) = db_operations paused_store"
      by (simp add: add_event_def write_state_def)
  qed (simp_all add: sample_cancel_operations no_record_def tx_run paused_store_parts add_event_def write_state_def, simp_all add: sample_cancelled_def utc_at_def)
  then show thesis
    using that by (simp add: CommitManagedRunCancel_def plain_outcome_def sample_run_cancel_def)
qed

theorem managed_run_cancel_keeps_pause_witness:
  "\<exists>x db'. CommitManagedRunCancel (\<lambda>_. True) sample_run_cancel paused_store [] = (Inr x, db') \<and>
     task_State (res_Task x) = TaskCancelled \<and> fst (PauseRequest ''task-1'' db' []) = Inr True"
proof -
  obtain x db' where run: "CommitManagedRunCancel (\<lambda>_. True) sample_run_cancel paused_store [] = (Inr x, db')"
    by (rule sample_run_cancel_runs)
  have "find_operation (mrc_OperationID sample_run_cancel) paused_store = None"
    by (simp add: find_operation_def paused_store_parts sample_operation_def sample_run_cancel_def)
  from managed_run_cancel_keeps_pause [OF run this, of "''task-1''"]
  have "task_State (res_Task x) = TaskCancelled" "fst (PauseRequest ''task-1'' db' []) = fst (PauseRequest ''task-1'' paused_store [])"
    by simp_all
  moreover have "fst (PauseRequest ''task-1'' paused_store []) = Inr True"
    by (simp add: PauseRequest_calm find_task_row_def paused_store_parts)
  ultimately show ?thesis using run by metis
qed

lemma getTask_same: "getTask u h s = (Inr t, s') \<Longrightarrow> tx_view s' = tx_view s"
  using readsD [OF reads_task(1)] by blast

lemma clearPauseRequest_ok: "clearPauseRequest h s = (Inr x, s') \<Longrightarrow> tx_view s' = set_pause h [] None (tx_view s)"
  unfolding clearPauseRequest_def by (auto simp: within_ok)

lemma cancel_body_ok:
  assumes "cancel_body u m s = (Inr (t, c), s')"
  obtains (before) task where "find (\<lambda>x. task_Handle x = tm_TaskHandle m) (tasks_of (tx_view s)) = Some task"
      "task_State task = TaskCancelled" "tx_view s' = tx_view s"
  | (now) task s1 s2 where "find (\<lambda>x. task_Handle x = tm_TaskHandle m) (tasks_of (tx_view s)) = Some task"
      "task_State task \<noteq> TaskCancelled" "cancelTaskState u task (tm_At m) s1 = (Inr t, s2)" "tx_view s1 = tx_view s"
      "tx_view s' = set_pause (tm_TaskHandle m) [] None (tx_view s)"
proof -
  from assms obtain task s1 y s2 where get: "getTask u (tm_TaskHandle m) s = (Inr task, s1)"
    and guard: "refuseAnyReservedIntegrationTaskMutation (task_Handle task) s1 = (Inr y, s2)"
    and rest: "(if task_State task = TaskCancelled then give (task, ())
       else andThen (within ''apply task cancel'' (cancelTaskState u task (tm_At m))) (\<lambda>updated.
            andThen (clearPauseRequest (task_Handle task)) (\<lambda>_. give (updated, ())))) s2 = (Inr (t, c), s')"
    unfolding cancel_body_def tx_ok by (elim exE conjE) (rule that)
  note found = getTask_found [OF get]
  from find_SomeD [OF found(1)] have handle: "task_Handle task = tm_TaskHandle m" by simp
  have v2: "tx_view s2 = tx_view s" using readsD [OF reads_guards(1) guard] getTask_same [OF get] by simp
  show thesis
  proof (cases "task_State task = TaskCancelled")
    case True
    with rest have "s' = s2" by (simp add: give_ok)
    with v2 show thesis using before [OF found(1) True] by simp
  next
    case False
    with rest obtain s3 s4 z where cancel: "cancelTaskState u task (tm_At m) s2 = (Inr t, s3)"
      and clear: "clearPauseRequest (task_Handle task) s3 = (Inr z, s4)" and "s' = s4"
      by (auto simp: andThen_ok within_ok give_ok)
    have "tx_view s3 = tx_view s2" using readsD [OF reads_bodies(1) cancel] by simp
    with v2 clearPauseRequest_ok [OF clear] handle \<open>s' = s4\<close> show thesis
      by (intro now [OF found(1) False cancel]) simp_all
  qed
qed

text \<open>What a successful cancellation by the operator says of the database before and after.\<close>

lemma task_cancel_success:
  assumes "CommitTaskCancel u m db faults = (Inr x, db')" "find_operation (tm_OperationID m) db = None"
  obtains s t c s' where "cancel_body u m s = (Inr (t, c), s')" "tx_view s = db" "pauses db' = pauses (tx_view s')"
    "task_State (res_Task x) = TaskCancelled"
proof -
  define spec where "spec = task_spec ''CancelTask'' ''task cancel'' m (no_record :: unit \<Rightarrow> Task \<Rightarrow> unit store_tx)"
  have spec: "spec_OperationID spec = tm_OperationID m" "spec_Record spec = no_record" by (simp_all add: spec_def)
  from assms(1) obtain c where run: "commitTaskMutation u spec () (cancel_body u m) db faults = (Inr (x, c), db')"
    unfolding CommitTaskCancel_def plain_outcome_def map_prod_Inr spec_def by auto
  have recorder: "leaves pauses (spec_Record spec c t)" "uncommitted (spec_Record spec c t)" for c t
    by (simp_all add: spec(2) no_record_def leaves_basic uncommitted_basic)
  show thesis
  proof (rule task_mutation_success [OF run uncommitted_bodies(3) recorder(2)])
    fix s s'
    assume ran: "commit_new_mutation u spec (cancel_body u m) s = (Inr (x, c), s')" and v: "tx_view s = db" "tx_view s' = db'"
    have state: "task_State (res_Task x) = TaskCancelled" by (rule commit_new_mutation_returns [OF ran returns_cancelled(3)]) simp
    define tail where "tail = (\<lambda>(moved, captured).
      andThen nextMutationStateVersion (\<lambda>stateVersion.
      let updated = moved\<lparr>task_StateVersion := stateVersion\<rparr>;
          operation = completedMutationOperation (spec_OperationID spec) (spec_Command spec) (spec_SubjectDigest spec)
                        (task_Handle updated) stateVersion (spec_At spec)
      in andThen (updateTaskState u updated) (\<lambda>_.
         andThen (insert_operation_labelled (spec_Label spec) operation) (\<lambda>_.
         andThen (spec_Record spec captured updated) (\<lambda>_.
         andThen (within (''commit '' @ spec_Label spec) commit) (\<lambda>_.
         give (\<lparr>res_Task = updated, res_Operation = operation, res_Preparation = None\<rparr>, captured)))))))"
    have "commit_new_mutation u spec (cancel_body u m) = andThen (cancel_body u m) tail"
      unfolding commit_new_mutation_def tail_def ..
    with ran obtain y s1 where body: "cancel_body u m s = (Inr y, s1)" and tail: "tail y s1 = (Inr (x, c), s')"
      by (auto simp: andThen_ok)
    have "leaves pauses (tail y)"
      unfolding tail_def case_prod_beta Let_def by (intro tx_leaves recorder)
    from leavesD [OF this tail] have "pauses (tx_view s') = pauses (tx_view s1)" .
    with body v state show thesis by (cases y) (auto intro: that)
  qed (use assms(2) in \<open>simp add: spec(1)\<close>)
qed

lemma find_cleared_pause: "find_task_row h db = Some row \<Longrightarrow> PauseRequest h (set_pause h [] None db) [] = (Inr False, set_pause h [] None db)"
  by (simp add: PauseRequest_calm find_set_pause)

text \<open>
  A cancellation by the operator clears the pause request: a new command on a task that is not yet
  cancelled leaves it cancelled, and the pause question answers no.
\<close>

lemma task_cancel_clears_pause:
  assumes "CommitTaskCancel u m db faults = (Inr x, db')" "find_operation (tm_OperationID m) db = None"
    and "find_task_row (tm_TaskHandle m) db = Some row" "task_State (row_task row) \<noteq> TaskCancelled"
  shows "task_State (res_Task x) = TaskCancelled \<and> fst (PauseRequest (tm_TaskHandle m) db' []) = Inr False"
proof (rule task_cancel_success [OF assms(1,2)])
  fix s t c s'
  assume body: "cancel_body u m s = (Inr (t, c), s')" and v: "tx_view s = db" "pauses db' = pauses (tx_view s')"
    and state: "task_State (res_Task x) = TaskCancelled"
  have found: "find (\<lambda>x. task_Handle x = tm_TaskHandle m) (tasks_of db) = Some (row_task row)"
    using find_task_row_tasks_of [of "tm_TaskHandle m" db] assms(3) by simp
  from body show ?thesis
  proof (cases rule: cancel_body_ok)
    case (before task)
    with found v assms(4) show ?thesis by simp
  next
    case (now task s1 s2)
    have "fst (PauseRequest (tm_TaskHandle m) db' []) = fst (PauseRequest (tm_TaskHandle m) (set_pause (tm_TaskHandle m) [] None db) [])"
      using v now(5) by (intro same_pause_answer) simp
    with state find_cleared_pause [OF assms(3)] show ?thesis by simp
  qed
qed

lemma sample_cancel_runs:
  assumes store: "db_tasks db = [\<lparr>row_task = task_in (\<lambda>_. True) st, row_pause_requested_operation_id = i, row_pause_requested_at = at\<rparr>]"
      "db_operations db = [sample_operation]" "db_applications db = []" "db_members db = []" "state_versions db = [1, 1]"
    and st: "TaskState_valid st" "st \<noteq> TaskCancelled"
    and cancels: "\<And>s. calm s \<Longrightarrow> tx_view s = db \<Longrightarrow> \<exists>t. cancelTaskState (\<lambda>_. True) (task_in (\<lambda>_. True) st) (utc_at 2) s = (Inr t, s) \<and>
      t\<lparr>task_StateVersion := 2\<rparr> = sample_cancelled"
  obtains x db' where "CommitTaskCancel (\<lambda>_. True) sample_mutation db [] = (Inr x, db')"
proof -
  let ?s = "\<lparr>tx_durable = db, tx_view = db, tx_faults = []\<rparr>" and ?t = "task_in (\<lambda>_. True) st"
  let ?v1 = "set_pause ''task-1'' [] None db"
  let ?oper = "completedMutationOperation ''op-2'' ''CancelTask'' (replicate 64 CHR ''b'') ''task-1'' 2 (utc_at 2)"
  from cancels [of ?s] obtain t where t: "cancelTaskState (\<lambda>_. True) ?t (utc_at 2) ?s = (Inr t, ?s)" "t\<lparr>task_StateVersion := 2\<rparr> = sample_cancelled"
    by auto
  have get: "getTask (\<lambda>_. True) ''task-1'' ?s = (Inr ?t, ?s)"
    using getTask_run [of ?s "''task-1''" _ "\<lambda>_. True"] store(1) st(1) by (simp add: find_task_row_def task_in_valid)
  have body: "cancel_body (\<lambda>_. True) sample_mutation ?s = (Inr (t, ()), \<lparr>tx_durable = db, tx_view = ?v1, tx_faults = []\<rparr>)"
    using get st(2) t(1) store(3)
    by (simp add: cancel_body_def sample_mutation_def andThen_def within_def tx_run clearPauseRequest_def
        refuseAnyReservedIntegrationTaskMutation_def reserved_application_def)
  have v1: "db_tasks ?v1 = [\<lparr>row_task = ?t, row_pause_requested_operation_id = [], row_pause_requested_at = None\<rparr>]"
    "db_operations ?v1 = [sample_operation]" "db_applications ?v1 = []" "db_members ?v1 = []"
    using store by (simp_all add: set_pause_def)
  have versions: "max_version (state_versions ?v1) = 1"
    using store(5) state_versions_core [of ?v1 db] by simp
  have "commitTaskMutation (\<lambda>_. True) (task_spec ''CancelTask'' ''task cancel'' sample_mutation (no_record :: unit \<Rightarrow> Task \<Rightarrow> unit store_tx)) ()
      (cancel_body (\<lambda>_. True) sample_mutation) db [] =
    (Inr (\<lparr>res_Task = sample_cancelled, res_Operation = ?oper, res_Preparation = None\<rparr>, ()),
     (add_event (state_event sample_cancelled) (write_state sample_cancelled ?v1))\<lparr>db_operations := [sample_operation, ?oper]\<rparr>)"
  proof (rule commitTaskMutation_run)
    show "cancel_body (\<lambda>_. True) sample_mutation ?s = (Inr (t, ()), \<lparr>tx_durable = db, tx_view = ?v1, tx_faults = []\<rparr>)" by (rule body)
    show "updateTaskState (\<lambda>_. True) sample_cancelled \<lparr>tx_durable = db, tx_view = ?v1, tx_faults = []\<rparr> =
      (Inr (), \<lparr>tx_durable = db, tx_view = add_event (state_event sample_cancelled) (write_state sample_cancelled ?v1), tx_faults = []\<rparr>)"
      using sample_cancelled_update [OF _ _ v1(3,4,1) st(2), of "\<lparr>tx_durable = db, tx_view = ?v1, tx_faults = []\<rparr>"] by simp
    show "sample_cancelled = t\<lparr>task_StateVersion := 1 + 1\<rparr>" using t(2) by simp
    show "find_operation (spec_OperationID (task_spec ''CancelTask'' ''task cancel'' sample_mutation (no_record :: unit \<Rightarrow> Task \<Rightarrow> unit store_tx))) db = None"
      by (simp add: find_operation_def store(2) sample_operation_def sample_mutation_def)
    show "db_operations (add_event (state_event sample_cancelled) (write_state sample_cancelled ?v1)) = db_operations db"
      using v1(2) store(2) by (simp add: add_event_def write_state_def)
  qed (use versions v1(2) in \<open>simp_all add: sample_cancel_operations no_record_def tx_run add_event_def write_state_def sample_mutation_def\<close>,
       simp_all add: sample_cancelled_def utc_at_def)
  then show thesis using that by (simp add: CommitTaskCancel_def plain_outcome_def)
qed

text \<open>
  C6.  A task in doubt is cancelled only on settled evidence.  When a new cancellation by the operator
  succeeds on an unknown task, its terminal binding is the task's own and exited or released, and every
  validation process of it has ended.
\<close>

theorem unknown_cancelled_only_when_settled:
  assumes "CommitTaskCancel u m db faults = (Inr x, db')" "find_operation (tm_OperationID m) db = None"
    and "find_task_row (tm_TaskHandle m) db = Some row" "task_State (row_task row) = TaskUnknown"
  shows "(\<exists>b. find (\<lambda>b. tb_taskHandle b = tm_TaskHandle m) (db_terminal_bindings db) = Some b \<and> terminal_settled (tb_latestTransition b) \<and>
      tb_managedRunID b = task_ManagedRunID (row_task row) \<and> tb_workspaceLeaseID b = task_WorkspaceLeaseID (row_task row)) \<and>
    active_processes (tm_TaskHandle m) db = 0"
proof (rule task_cancel_success [OF assms(1,2)])
  fix s t c s'
  assume body: "cancel_body u m s = (Inr (t, c), s')" and v: "tx_view s = db"
  have found: "find (\<lambda>x. task_Handle x = tm_TaskHandle m) (tasks_of db) = Some (row_task row)"
    using find_task_row_tasks_of [of "tm_TaskHandle m" db] assms(3) by simp
  from body show ?thesis
  proof (cases rule: cancel_body_ok)
    case (before task)
    with found v assms(4) show ?thesis by simp
  next
    case (now task s1 s2)
    have task: "task = row_task row" "task_Handle task = tm_TaskHandle m"
      using now(1) found v find_SomeD [OF found] by simp_all
    from now(3) task(1) assms(4) obtain y s3 where
      proof_run: "proveNothingIsStillRunning task ''task cancel'' True s1 = (Inr y, s3)"
      unfolding cancelTaskState_def
      by (auto simp: andThen_ok [where m = "proveNothingIsStillRunning (row_task row) ''task cancel'' True"])
    then obtain binding s4 s5 active s6 where
      b: "findTerminalBinding (task_Handle task) s1 = (Inr binding, s4)" and ok: "binding_proof ''task cancel'' True task binding = None" "s5 = s4"
      and a: "select (active_processes (task_Handle task)) s5 = (Inr active, s6)" and zero: "\<not> active \<noteq> 0"
      unfolding proveNothingIsStillRunning_def inversion by (elim exE conjE) (rule that)
    have vb: "tx_view s4 = tx_view s1" using readsD [OF reads_terminal(1) b] by simp
    have bind: "binding = find (\<lambda>b. tb_taskHandle b = tm_TaskHandle m) (db_terminal_bindings db)"
      using b task(2) now(4) v unfolding findTerminalBinding_def within_ok by (auto dest: select_ok)
    have "active = active_processes (tm_TaskHandle m) db" using a ok(2) vb now(4) v task(2) by auto
    with zero ok(1) bind task(1) show ?thesis by (auto simp: binding_proof_def split: option.splits)
  qed
qed

definition unknown_store :: durable where
  "unknown_store = (sample_store TaskUnknown)\<lparr>db_terminal_bindings := [\<lparr>tb_taskHandle = ''task-1'', tb_managedRunID = ''run-1'',
     tb_workspaceLeaseID = ''lease-1'', tb_terminalSessionID = ''term-1'', tb_latestTransition = TerminalExited,
     tb_runningObserved = True, tb_updatedAt = utc_at 1\<rparr>]\<rparr>"

lemma sample_unknown_cancels:
  assumes "calm s" "tx_view s = unknown_store"
  shows "\<exists>t. cancelTaskState (\<lambda>_. True) (task_in (\<lambda>_. True) TaskUnknown) (utc_at 2) s = (Inr t, s) \<and> t\<lparr>task_StateVersion := 2\<rparr> = sample_cancelled"
proof -
  let ?u = "\<lambda>_::nat. True" and ?t = "task_in (\<lambda>_. True) TaskUnknown"
  let ?r = "stepped ?t TaskReconciling (utc_at 2)"
  have lease: "task_WorkspaceLeaseID ?t = ''lease-1''" by (simp add: task_in_def)
  have step1: "ApplyTransition ?u ?t TransitionReconcileRequired (utc_at 2) = (?r, None)"
    by (simp add: ApplyTransition_accepts task_in_valid nextTaskState_def task_bound_def) (simp add: time_defs utc_at_def)
  have "Task_Validate ?u ?r = None" using ApplyTransition_valid [OF step1] .
  then have step2: "ApplyTransition ?u ?r TransitionReconciledCancelled (utc_at 2) = (stepped ?r TaskCancelled (utc_at 2), None)"
    by (simp add: ApplyTransition_accepts nextTaskState_def task_bound_def) (simp add: time_defs utc_at_def)
  have same: "(stepped ?r TaskCancelled (utc_at 2))\<lparr>task_StateVersion := 2\<rparr> = sample_cancelled"
    by (simp add: sample_cancelled_def stepped_def task_in_def)
  have "proveNothingIsStillRunning ?t ''task cancel'' True s = (Inr (), s)"
    using assms lease
    by (simp add: proveNothingIsStillRunning_def findTerminalBinding_def andThen_def within_def tx_run binding_proof_def
        terminal_settled_def active_processes_def unknown_store_def sample_store_def empty_store_def)
  then show ?thesis
    using same by (simp add: cancelTaskState_def andThen_def step1 step2 applied_bare_def tx_run)
qed

theorem unknown_cancelled_only_when_settled_witness:
  "\<exists>x db'. CommitTaskCancel (\<lambda>_. True) sample_mutation unknown_store [] = (Inr x, db') \<and> active_processes ''task-1'' unknown_store = 0"
proof -
  have parts: "db_tasks unknown_store = [sample_row (task_in (\<lambda>_. True) TaskUnknown)]" "db_operations unknown_store = [sample_operation]"
    "db_applications unknown_store = []" "db_members unknown_store = []" "state_versions unknown_store = [1, 1]"
    by (simp_all add: unknown_store_def sample_store_def empty_store_def sample_row_def state_versions_def sample_operation_def)
  obtain x db' where run: "CommitTaskCancel (\<lambda>_. True) sample_mutation unknown_store [] = (Inr x, db')"
    by (rule sample_cancel_runs [OF parts(1) [unfolded sample_row_def] parts(2-5) _ _ sample_unknown_cancels]) simp_all
  have "find_operation (tm_OperationID sample_mutation) unknown_store = None"
    "find_task_row (tm_TaskHandle sample_mutation) unknown_store = Some (sample_row (task_in (\<lambda>_. True) TaskUnknown))"
    by (simp_all add: find_operation_def find_task_row_def parts sample_operation_def sample_mutation_def sample_row_def)
  from unknown_cancelled_only_when_settled [OF run this] run show ?thesis
    by (auto simp: sample_mutation_def sample_row_def)
qed

section \<open>The two-phase join\<close>

lemma abandon_body_closes:
  "abandon_body u m s = (Inr (t, closed), s') \<Longrightarrow> prep_State closed = PreparationAbandoned \<and>
     prep_AbandonReason closed = aba_Reason m \<and> prep_Disposition closed = aba_Disposition m \<and> prep_ClosedAt closed = Some (aba_At m)"
  unfolding abandon_body_def Let_def tx_ok by (elim exE conjE) simp

text \<open>
  C35.  The replay of an abandonment forgets the closed preparation: whenever the command succeeds on an
  operation that is recorded, the preparation it returns is the zero one, while the first success returns
  the preparation it closed, with the reason and disposition of the command.
\<close>

theorem abandon_replay_forgets_preparation:
  assumes "CommitManagedRunAbandon u m db faults = (Inr x, db')"
  shows "if find_operation (aba_OperationID m) db = None
    then \<exists>closed. res_Preparation x = Some closed \<and> prep_State closed = PreparationAbandoned \<and>
      prep_AbandonReason closed = aba_Reason m \<and> prep_Disposition closed = aba_Disposition m
    else res_Preparation x = Some zero_preparation"
proof -
  define spec where "spec = \<lparr>spec_Command = ''AbandonManagedRun'', spec_OperationID = aba_OperationID m,
        spec_SubjectDigest = aba_SubjectDigest m, spec_At = aba_At m,
        spec_Label = ''managed-run abandon'', spec_Record = no_record :: ManagedRunPreparation \<Rightarrow> Task \<Rightarrow> unit store_tx\<rparr>"
  have spec: "spec_OperationID spec = aba_OperationID m" "spec_Record spec = no_record" by (simp_all add: spec_def)
  from assms obtain y closed where run: "commitTaskMutation u spec zero_preparation (abandon_body u m) db faults = (Inr (y, closed), db')"
    and x: "x = y\<lparr>res_Preparation := Some closed\<rparr>"
    unfolding CommitManagedRunAbandon_def map_prod_Inr spec_def by auto
  show ?thesis
  proof (rule task_mutation_success [OF run uncommitted_bodies(1)])
    show "uncommitted (spec_Record spec c t)" for c t by (simp add: spec(2) uncommitted_bodies)
    fix s s'
    assume ran: "commit_new_mutation u spec (abandon_body u m) s = (Inr (y, closed), s')" and v: "tx_view s = db"
    have body: "returns core_part (\<lambda>_ y. prep_State (snd y) = PreparationAbandoned \<and> prep_AbandonReason (snd y) = aba_Reason m \<and>
        prep_Disposition (snd y) = aba_Disposition m) (abandon_body u m)"
      unfolding returns_def
      by (intro conjI allI impI leaves_core_bodies) (use abandon_body_closes in \<open>fastforce+\<close>)
    have c: "prep_State closed = PreparationAbandoned \<and> prep_AbandonReason closed = aba_Reason m \<and> prep_Disposition closed = aba_Disposition m"
      by (rule commit_new_mutation_ok [OF ran body]) simp
    have "find_operation (aba_OperationID m) db = None"
    proof (rule commit_new_mutation_ok [OF ran body])
      fix moved v t oper s1 s2 a s3 b s4 d s5
      assume core: "core_part (tx_view s1) = core_part (tx_view s)" and version: "nextMutationStateVersion s1 = (Inr v, s2)"
        and writes: "updateTaskState u t s2 = (Inr a, s3)" "insertOperation oper s3 = (Inr b, s4)"
        and oper: "oper = completedMutationOperation (spec_OperationID spec) (spec_Command spec) (spec_SubjectDigest spec) (task_Handle t) v (spec_At spec)"
      from update_and_record(4) [OF writes] nextMutationStateVersion_ok(1) [OF version] core oper \<open>tx_view s = db\<close>
      show ?thesis by (simp add: find_operation_def core_part_def spec(1))
    qed
    with c x show ?thesis by auto
  next
    fix oper
    assume "closed = zero_preparation" "find_operation (spec_OperationID spec) db = Some oper"
    then show ?thesis using x by (simp add: spec(1))
  qed
qed

text \<open>A preparation that was abandoned, with the operation that closed it.\<close>

definition closed_preparation :: ManagedRunPreparation where
  "closed_preparation = sample_preparation\<lparr>prep_State := PreparationAbandoned, prep_AbandonReason := AbandonReasonOwnerCancelled,
     prep_Disposition := AbandonDispositionReapSafe, prep_ClosedAt := Some (utc_at 2)\<rparr>"

definition abandon_operation :: OperationRecord where
  "abandon_operation = completedMutationOperation ''op-2'' ''AbandonManagedRun'' (replicate 64 CHR ''b'') ''task-1'' 2 (utc_at 2)"

definition closed_store :: durable where
  "closed_store = prepared_store\<lparr>db_operations := [sample_operation, abandon_operation],
     db_preparations := [\<lparr>prow_task_handle = ''task-1'', prow_preparation = closed_preparation, prow_created_at = utc_at 1\<rparr>]\<rparr>"

definition sample_abandon :: ManagedRunAbandonMutation where
  "sample_abandon = \<lparr>aba_ServiceInstanceID = ''svc-1'', aba_ExternalRunRef = ''task-1'', aba_RegistrationNonce = replicate 20 CHR ''n'',
     aba_Reason = AbandonReasonOwnerCancelled, aba_Disposition = AbandonDispositionReapSafe, aba_OperationID = ''op-2'',
     aba_SubjectDigest = replicate 64 CHR ''b'', aba_At = utc_at 2\<rparr>"

lemma closed_preparation_valid: "Preparation_Validate closed_preparation (utc_at 1) = None"
  using sample_preparation_valid(1)
  by (simp add: closed_preparation_def Preparation_Validate_def sample_preparation_def utc_at_def time_defs)

lemma sample_abandon_replays:
  obtains x where "CommitManagedRunAbandon (\<lambda>_. True) sample_abandon closed_store [] = (Inr x, closed_store)"
proof -
  let ?s = "\<lparr>tx_durable = closed_store, tx_view = closed_store, tx_faults = []\<rparr>" and ?t = "prepared_task (\<lambda>_. True)"
  have handle: "task_Handle ?t = ''task-1''" "task_CreatedAt ?t = utc_at 1" by (simp_all add: prepared_task_def draft_task_def utc_at_def)
  have valid: "OperationRecord_Validate abandon_operation = None" by code_simp
  have found: "find_operation ''op-2'' closed_store = Some abandon_operation"
    by (simp add: find_operation_def closed_store_def sample_operation_def abandon_operation_def)
  have "getOperation ''op-2'' ?s = (Inr abandon_operation, ?s)"
    using found valid by (simp add: getOperation_def andThen_def within_def tx_run)
  from mutationReplay_run(2) [OF this refl, of "''AbandonManagedRun''" "replicate 64 CHR ''b''"]
  have replay: "mutationReplay ''op-2'' ''AbandonManagedRun'' (replicate 64 CHR ''b'') ?s = (Inr (Some abandon_operation), ?s)"
    by (simp add: differs_def abandon_operation_def)
  have get: "getTask (\<lambda>_. True) ''task-1'' ?s = (Inr ?t, ?s)"
    using getTask_run [of ?s "''task-1''" "sample_row ?t" "\<lambda>_. True"]
    by (simp add: closed_store_def prepared_store_def find_task_row_def sample_row_def handle prepared_task_valid)
  have prep: "getManagedRunPreparation ?t ?s = (Inr closed_preparation, ?s)"
    using closed_preparation_valid
    by (simp add: getManagedRunPreparation_def andThen_def tx_run closed_store_def handle prepared_store_def empty_store_def)
       (simp add: closed_preparation_def sample_preparation_def tx_run)
  have oper: "op_ResultRef abandon_operation = ''task-1''" "op_Command abandon_operation = ''AbandonManagedRun''" by (simp_all add: abandon_operation_def)
  have "mutationResult (\<lambda>_. True) abandon_operation ?s = (Inr \<lparr>res_Task = ?t, res_Operation = abandon_operation, res_Preparation = Some closed_preparation\<rparr>, ?s)"
    using get prep by (simp add: mutationResult_def andThen_def within_def tx_run oper)
  with replay show thesis
    using that by (simp add: CommitManagedRunAbandon_def commitTaskMutation_def tx_run replay_first_def andThen_def attempt_def sample_abandon_def utc_at_def)
qed

theorem abandon_replay_forgets_preparation_witness:
  "\<exists>x. CommitManagedRunAbandon (\<lambda>_. True) sample_abandon closed_store [] = (Inr x, closed_store) \<and> res_Preparation x = Some zero_preparation \<and>
     prow_preparation (hd (db_preparations closed_store)) \<noteq> zero_preparation"
proof -
  obtain x where run: "CommitManagedRunAbandon (\<lambda>_. True) sample_abandon closed_store [] = (Inr x, closed_store)"
    by (rule sample_abandon_replays)
  have "find_operation (aba_OperationID sample_abandon) closed_store = Some abandon_operation"
    by (simp add: find_operation_def closed_store_def sample_operation_def abandon_operation_def sample_abandon_def)
  with abandon_replay_forgets_preparation [OF run] run show ?thesis
    by (auto simp: closed_store_def closed_preparation_def sample_preparation_def zero_preparation_def)
qed

section \<open>A launch becomes work\<close>

text \<open>Exactly one acknowledgement of the current launch generation.\<close>

definition acknowledged_launch :: "string \<Rightarrow> durable \<Rightarrow> bool" where
  "acknowledged_launch handle db \<longleftrightarrow> launch_operations handle db \<noteq> [] \<and>
     length (filter (\<lambda>a. la_task_handle a = handle \<and> la_launch_state_version a = max_version (map op_StateVersion (launch_operations handle db)))
       (db_launch_acks db)) = 1"

lemma currentTaskLaunchStateVersion_ok:
  assumes "currentTaskLaunchStateVersion h s = (Inr v, s')"
  shows "launch_operations h (tx_view s) \<noteq> [] \<and> v = max_version (map op_StateVersion (launch_operations h (tx_view s))) \<and> tx_view s' = tx_view s"
proof -
  from assms obtain launches s1 w s2 where sel: "select (launch_operations h) s = (Inr launches, s1)" and some: "\<not> launches = []"
    and v: "v = max_version (map op_StateVersion launches)" and s': "s' = s1"
    unfolding currentTaskLaunchStateVersion_def inversion by (elim exE conjE) (rule that, simp_all)
  from select_ok [OF sel] some v s' show ?thesis by simp
qed

lemma hasLaunchAcknowledgement_ok:
  assumes "hasLaunchAcknowledgement h s = (Inr acknowledged, s')"
  shows "acknowledged = acknowledged_launch h (tx_view s)"
proof -
  from assms obtain v s1 where v: "currentTaskLaunchStateVersion h s = (Inr v, s1)"
    and sel: "select (\<lambda>db. length (filter (\<lambda>a. la_task_handle a = h \<and> la_launch_state_version a = v) (db_launch_acks db)) = 1) s1 = (Inr acknowledged, s')"
    unfolding hasLaunchAcknowledgement_def inversion by (elim exE conjE) (rule that)
  from select_ok [OF sel] currentTaskLaunchStateVersion_ok [OF v] show ?thesis by (simp add: acknowledged_launch_def)
qed

lemma applied_transition_ok:
  "applied c (ApplyTransition u t tr at) s = (Inr t', s') \<Longrightarrow> \<exists>st. nextTaskState (task_State t) tr = Some st \<and> t' = stepped t st at"
  using returnsD [OF returns_applied(1) [where p = "\<lambda>_. ()"]] by blast

lemma scan_tasks_found:
  assumes "scan_tasks_of u l a matches s = (Inr t, s')"
  shows "\<exists>row\<in>set (db_tasks (tx_view s)). matches row \<and> row_task row = t"
proof -
  from assms obtain rows s1 found s2 where "select (\<lambda>db. filter matches (db_tasks db)) s = (Inr rows, s1)"
    and rows: "each (\<lambda>row. yield (scanTask u row)) rows s1 = (Inr found, s2)"
    and one: "(case found of [task] \<Rightarrow> give task | _ \<Rightarrow> refuse (WrapError a ErrPrecondition)) s2 = (Inr t, s')"
    unfolding scan_tasks_of_def tx_ok by (elim exE conjE) (rule that)
  then have r: "rows = filter matches (db_tasks (tx_view s))" by auto
  have "map row_task rs = ts" if "each (\<lambda>row. yield (scanTask u row)) rs s1 = (Inr ts, s2)" for rs ts s1 s2
    using that
  proof (induction rs arbitrary: ts s1)
    case (Cons r rs)
    then obtain t' ts' where "scanTask u r = Inr t'" "ts = t' # ts'"
      and rest: "each (\<lambda>row. yield (scanTask u row)) rs s1 = (Inr ts', s2)"
      by (auto simp: tx_ok)
    with Cons.IH [OF rest] show ?case by (auto simp: scanTask_def ensure_def split: option.splits)
  qed (simp add: tx_ok)
  from this [OF rows] have "map row_task rows = found" .
  moreover have "found = [t]" using one by (auto simp: tx_ok split: list.splits)
  ultimately obtain row where "rows = [row]" "row_task row = t" by (auto simp: map_eq_Cons_conv)
  then have "row \<in> set (filter matches (db_tasks (tx_view s)))" using r by simp
  with \<open>row_task row = t\<close> show ?thesis by auto
qed

lemma event_transition_to_work:
  assumes "event_transition u m task binding s = (Inr moved, s')" "task_State task = TaskLaunching" "task_State moved = TaskWorking"
  shows "tb_runningObserved binding \<and> acknowledged_launch (task_Handle task) (tx_view s)"
proof (cases "terminalUnavailable (tem_Transition m)")
  case True
  with assms have "applied ''apply terminal loss'' (ApplyTransition u task TransitionTerminalUnavailable (tem_At m)) s = (Inr moved, s')"
    by (simp add: event_transition_def)
  from applied_transition_ok [OF this] assms(2,3) show ?thesis by (auto simp: nextTaskState_def)
next
  case False
  then have "\<not> (terminalUnavailable (tem_Transition m) \<and> terminalLossChangesTask (task_State task))" by simp
  show ?thesis
  proof (cases "tb_runningObserved binding")
    case True
    with assms False have run: "andThen (hasLaunchAcknowledgement (task_Handle task)) (\<lambda>acknowledged.
           if acknowledged
           then applied ''apply joined launch evidence'' (ApplyTransition u task TransitionWorkerAcknowledged (tem_At m))
           else give task) s = (Inr moved, s')"
      by (simp add: event_transition_def)
    then obtain acknowledged s1 where ack: "hasLaunchAcknowledgement (task_Handle task) s = (Inr acknowledged, s1)"
      and "(if acknowledged then applied ''apply joined launch evidence'' (ApplyTransition u task TransitionWorkerAcknowledged (tem_At m))
           else give task) s1 = (Inr moved, s')"
      unfolding andThen_ok by blast
    then have acknowledged using assms(2,3) by (auto simp: give_ok split: if_splits)
    with hasLaunchAcknowledgement_ok [OF ack] True show ?thesis by simp
  next
    case False
    with assms \<open>\<not> terminalUnavailable _\<close> show ?thesis by (simp add: event_transition_def give_ok)
  qed
qed

lemma event_binding_running:
  assumes "event_binding m task found = Inr speaking" "tb_runningObserved (observe m posture (fst speaking))"
  shows "tem_Transition m = TerminalRunning \<or>
    (\<exists>b. found = Some b \<and> tb_terminalSessionID b = tem_TerminalSessionID m \<and> tb_runningObserved b)"
proof -
  have "tem_Transition m = TerminalRunning \<or> tb_runningObserved (fst speaking)"
    using assms(2) by (auto simp: observe_def case_prod_beta Let_def split: option.splits)
  moreover have "tb_runningObserved (fst speaking) \<Longrightarrow> \<exists>b. found = Some b \<and> tb_terminalSessionID b = tem_TerminalSessionID m \<and> tb_runningObserved b"
    using assms(1) by (auto simp: event_binding_def split: option.splits if_splits)
  ultimately show ?thesis by blast
qed

lemma new_terminal_event_joins:
  assumes run: "commit_new_terminal_event u m s = (Inr (x::MutationResult), s')"
    and work: "task_State (res_Task x) = TaskWorking"
    and launching: "\<forall>t\<in>set (tasks_of (tx_view s)). task_ManagedRunID t = tem_ManagedRunID m \<longrightarrow> task_State t = TaskLaunching"
  shows "acknowledged_launch (task_Handle (res_Task x)) (tx_view s) \<and> (tem_Transition m = TerminalRunning \<or>
    (\<exists>b\<in>set (db_terminal_bindings (tx_view s)). tb_taskHandle b = task_Handle (res_Task x) \<and>
       tb_terminalSessionID b = tem_TerminalSessionID m \<and> tb_runningObserved b))"
proof -
  define ask where "ask found task = (if found \<noteq> None \<and> tem_Transition m = TerminalLost
    then lastSettledTerminalPosture (task_Handle task) (tem_TerminalSessionID m) else give None)"
    for found :: "storedTerminalBinding option" and task :: Task
  from run obtain task s1 found s2 speaking posture s3 moved s4 where
    get: "getTaskByBinding u (tem_ManagedRunID m) (tem_WorkspaceLeaseID m) s = (Inr task, s1)"
    and found: "findTerminalBinding (task_Handle task) s1 = (Inr found, s2)"
    and speaking: "event_binding m task found = Inr speaking" and posture: "ask found task s2 = (Inr posture, s3)"
    and moved: "event_transition u m task (observe m posture (fst speaking)) s3 = (Inr moved, s4)"
    and x: "task_State (res_Task x) = task_State moved" "task_Handle (res_Task x) = task_Handle moved"
    unfolding commit_new_terminal_event_def Let_def inversion ask_def [symmetric]
    by (elim exE conjE, hypsubst) (rule that, (assumption | simp)+)
  from scan_tasks_found [OF get [unfolded getTaskByBinding_def]]
  have "task \<in> set (tasks_of (tx_view s))" "task_ManagedRunID task = tem_ManagedRunID m" by (auto simp: tasks_of_def)
  with launching have st: "task_State task = TaskLaunching" by simp
  have "reads (ask found task)" unfolding ask_def by (intro tx_reads)
  from readsD [OF this posture] have v3: "tx_view s3 = tx_view s2" by simp
  have v1: "tx_view s1 = tx_view s" using readsD [OF reads_task(7) get] by simp
  have v2: "tx_view s2 = tx_view s1" using readsD [OF reads_terminal(1) found] by simp
  from event_transition_to_work [OF moved st] work x(1) v1 v2 v3
  have ev: "tb_runningObserved (observe m posture (fst speaking))" "acknowledged_launch (task_Handle task) (tx_view s)" by simp_all
  have "returns (\<lambda>_. ()) (\<lambda>_ t'. task_Handle t' = task_Handle task) (event_transition u m task (observe m posture (fst speaking)))"
    unfolding event_transition_def by (intro returns_steps tx_leaves returns_weaken [OF returns_applied(1)]) auto
  from returnsD [OF this moved] have handle: "task_Handle moved = task_Handle task" by simp
  have "found = find (\<lambda>b. tb_taskHandle b = task_Handle task) (db_terminal_bindings (tx_view s))"
    using found v1 unfolding findTerminalBinding_def within_ok by (auto dest: select_ok)
  with event_binding_running [OF speaking ev(1)] ev(2) x(2) handle show ?thesis
    by (auto dest: find_SomeD)
qed

text \<open>
  C7.  A terminal event makes a launch work only on joined evidence.  When a new event succeeds on a
  launching task and leaves it working, the terminal of the event's own session is running, by this event
  or an earlier one, and exactly one acknowledgement of the task's latest launch is stored.
\<close>

theorem terminal_event_joins_evidence:
  assumes "CommitTerminalEvent u m db faults = (Inr x, db')" "find_operation (tem_OperationID m) db = None"
    and "task_State (res_Task x) = TaskWorking"
    and "\<forall>t\<in>set (tasks_of db). task_ManagedRunID t = tem_ManagedRunID m \<longrightarrow> task_State t = TaskLaunching"
  shows "acknowledged_launch (task_Handle (res_Task x)) db \<and> (tem_Transition m = TerminalRunning \<or>
    (\<exists>b\<in>set (db_terminal_bindings db). tb_taskHandle b = task_Handle (res_Task x) \<and>
       tb_terminalSessionID b = tem_TerminalSessionID m \<and> tb_runningObserved b))"
proof -
  from assms(1) have "transaction ''begin terminal event mutation''
    (replay_first (tem_OperationID m) ''RecordTerminalEvent'' (tem_SubjectDigest m)
       (mutationResult u) (commit_new_terminal_event u m)) db faults = (Inr x, db')"
    unfolding CommitTerminalEvent_def by (simp split: option.splits)
  then show ?thesis
  proof (rule skeleton_success)
    show "commits_last (commit_new_terminal_event u m)" by (rule commits_last_new)
    show "reads (mutationResult u oper)" for oper by (rule reads_task)
    fix s s'
    assume "commit_new_terminal_event u m s = (Inr x, s')" "tx_view s = db"
    with new_terminal_event_joins [OF this(1) assms(3)] assms(4) show ?thesis by simp
  qed (use assms(2) in simp)
qed

text \<open>A launching task whose wrapper has acknowledged, and the event that its terminal runs.\<close>

definition launch_store :: durable where
  "launch_store = (sample_store TaskLaunching)\<lparr>
     db_operations := [completedMutationOperation ''op-1'' ''StartTask'' (replicate 64 CHR ''a'') ''task-1'' 1 (utc_at 1)],
     db_terminal_bindings := [\<lparr>tb_taskHandle = ''task-1'', tb_managedRunID = ''run-1'', tb_workspaceLeaseID = ''lease-1'',
       tb_terminalSessionID = ''term-1'', tb_latestTransition = TerminalCreated, tb_runningObserved = False, tb_updatedAt = utc_at 1\<rparr>],
     db_launch_acks := [\<lparr>la_operation_id = ''op-9'', la_task_handle = ''task-1'', la_managed_run_id = ''run-1'', la_workspace_lease_id = ''lease-1'',
       la_working_directory = ''/work/task-1'', la_brief_revision = 1, la_brief_revision_hash = [], la_launch_state_version = 1, la_acknowledged_at = utc_at 1\<rparr>]\<rparr>"

definition sample_running :: TerminalEventMutation where
  "sample_running = \<lparr>tem_OperationID = ''op-2'', tem_SubjectDigest = replicate 64 CHR ''b'', tem_ManagedRunID = ''run-1'',
     tem_WorkspaceLeaseID = ''lease-1'', tem_TerminalSessionID = ''term-1'', tem_Transition = TerminalRunning, tem_At = utc_at 2\<rparr>"

definition sample_working :: Task where
  "sample_working = (stepped (task_in (\<lambda>_. True) TaskLaunching) TaskWorking (utc_at 2))\<lparr>task_StateVersion := 2\<rparr>"

lemma sample_working_valid: "Task_Validate (\<lambda>_. True) sample_working = None"
proof -
  have "contract_ok (\<lambda>_. True) sample_working \<longleftrightarrow> contract_ok (\<lambda>_. True) (prepared_task (\<lambda>_. True))"
    by (rule contract_ok_cong) (simp add: sample_working_def stepped_def task_in_def same_contract_def)
  moreover have "progress_ok sample_working"
    by (simp add: sample_working_def stepped_def task_in_def prepared_task_def progress_ok_def task_bound_def draft_defs
        validateTimes_def time_defs draft_strings)
  ultimately show ?thesis using contract_ok_prepared by (simp add: Task_Validate_iff)
qed

lemma sample_working_step:
  "ApplyTransition (\<lambda>_. True) (task_in (\<lambda>_. True) TaskLaunching) TransitionWorkerAcknowledged (utc_at 2) =
     (stepped (task_in (\<lambda>_. True) TaskLaunching) TaskWorking (utc_at 2), None)"
  by (simp add: ApplyTransition_accepts task_in_valid nextTaskState_def task_bound_def) (simp add: time_defs utc_at_def)

lemma launch_store_parts:
  "db_tasks launch_store = [sample_row (task_in (\<lambda>_. True) TaskLaunching)]" "db_applications launch_store = []" "db_members launch_store = []"
  "db_operations launch_store = [completedMutationOperation ''op-1'' ''StartTask'' (replicate 64 CHR ''a'') ''task-1'' 1 (utc_at 1)]"
  "db_terminal_events launch_store = []" "db_events launch_store = []" "state_versions launch_store = [1, 1]"
  by (simp_all add: launch_store_def sample_store_def empty_store_def state_versions_def sample_row_def)

lemma sample_running_operation:
  "OperationRecord_Validate (completedMutationOperation ''op-2'' ''RecordTerminalEvent'' (replicate 64 CHR ''b'') ''task-1'' 2 (utc_at 2)) = None"
  "validateTerminalEventMutation sample_running = None"
  by code_simp+

lemma sample_running_runs:
  obtains db' x where "CommitTerminalEvent (\<lambda>_. True) sample_running launch_store [] = (Inr x, db')" "res_Task x = sample_working"
proof -
  let ?s = "\<lparr>tx_durable = launch_store, tx_view = launch_store, tx_faults = []\<rparr>" and ?t = "task_in (\<lambda>_. True) TaskLaunching" and ?u = "\<lambda>_::nat. True"
  let ?oper = "completedMutationOperation ''op-2'' ''RecordTerminalEvent'' (replicate 64 CHR ''b'') ''task-1'' 2 (utc_at 2)"
  define b where "b = hd (db_terminal_bindings launch_store)"
  have b: "db_terminal_bindings launch_store = [b]" "tb_taskHandle b = ''task-1''" "tb_managedRunID b = ''run-1''" "tb_workspaceLeaseID b = ''lease-1''"
    "tb_terminalSessionID b = ''term-1''" by (simp_all add: b_def launch_store_def)
  have lease: "task_WorkspaceLeaseID ?t = ''lease-1''" by (simp add: task_in_def)
  have fresh: "mutationReplay ''op-2'' ''RecordTerminalEvent'' (replicate 64 CHR ''b'') ?s = (Inr None, ?s)"
    by (rule fresh_operation_run) (simp_all add: find_operation_def launch_store_parts)
  have get: "getTaskByBinding ?u ''run-1'' ''lease-1'' ?s = (Inr ?t, ?s)"
    by (simp add: getTaskByBinding_def scan_tasks_of_def andThen_def within_def tx_run launch_store_parts sample_row_def lease scanTask_def ensure_def task_in_valid)
  have found: "findTerminalBinding ''task-1'' ?s = (Inr (Some b), ?s)"
    by (simp add: findTerminalBinding_def within_def tx_run b)
  have ack: "hasLaunchAcknowledgement ''task-1'' ?s = (Inr True, ?s)"
    by (simp add: hasLaunchAcknowledgement_def currentTaskLaunchStateVersion_def andThen_def within_def tx_run launch_operations_def
        launch_store_parts completedMutationOperation_def) (simp add: launch_store_def)
  have binding: "event_binding sample_running ?t (Some b) = Inr (b, False)"
    by (simp add: event_binding_def sample_running_def b)
  define b' where "b' = observe sample_running None b"
  have b': "tb_runningObserved b'" "tb_taskHandle b' = ''task-1''" "tb_terminalSessionID b' = ''term-1''"
    by (simp_all add: b'_def observe_def sample_running_def b)
  have moved: "event_transition ?u sample_running ?t b' ?s = (Inr (stepped ?t TaskWorking (utc_at 2)), ?s)"
    using b'(1) ack by (simp add: event_transition_def andThen_def terminalUnavailable_def sample_running_def)
      (simp add: applied_def sample_working_step [unfolded utc_at_def] utc_at_def tx_run)
  have version: "nextMutationStateVersion ?s = (Inr 2, ?s)"
    using nextMutationStateVersion_run [of ?s 1] by (simp add: launch_store_parts)
  have final: "(stepped ?t TaskWorking (utc_at 2))\<lparr>task_StateVersion := 2\<rparr> = sample_working" by (simp add: sample_working_def)
  have h: "task_Handle sample_working = ''task-1''" by (simp add: sample_working_def)
  let ?v1 = "add_event (state_event sample_working) (write_state sample_working launch_store)"
  have update: "updateTaskState ?u sample_working ?s = (Inr (), \<lparr>tx_durable = launch_store, tx_view = ?v1, tx_faults = []\<rparr>)"
  proof -
    have "find_task_row ''task-1'' launch_store = Some (sample_row ?t)" "rows_of_task ''task-1'' launch_store = 1"
      by (simp_all add: find_task_row_def rows_of_task_def launch_store_parts sample_row_def)
    moreover have "\<not> IsZero (task_UpdatedAt sample_working)" "task_State (row_task (sample_row ?t)) \<noteq> task_State sample_working"
      by (simp_all add: sample_working_def utc_at_def time_defs sample_row_def)
    ultimately show ?thesis
      using updateTaskState_run_moved [of ?s ?u sample_working "sample_row ?t"] sample_working_valid h by (simp add: launch_store_parts)
  qed
  have fresh1: "find_operation ''op-2'' ?v1 = None" by (simp add: find_operation_def add_event_def write_state_def launch_store_parts)
  have parts1: "db_terminal_bindings (?v1\<lparr>db_operations := x\<rparr>) = [b]" "db_terminal_events ?v1 = []" for x
    by (simp_all add: add_event_def write_state_def b launch_store_parts)
  have fields: "tem_OperationID sample_running = ''op-2''" "tem_SubjectDigest sample_running = replicate 64 CHR ''b''"
    "tem_ManagedRunID sample_running = ''run-1''" "tem_WorkspaceLeaseID sample_running = ''lease-1''" "tem_At sample_running = utc_at 2"
    "tem_Transition sample_running = TerminalRunning"
    by (simp_all add: sample_running_def)
  have order: "\<not> Before (utc_at 2) (utc_at 1)" by (simp add: utc_at_def time_defs)
  have "\<exists>db' x. CommitTerminalEvent ?u sample_running launch_store [] = (Inr x, db') \<and> res_Task x = sample_working"
    unfolding CommitTerminalEvent_def sample_running_operation(2) option.case tx_run replay_first_def fields commit_new_terminal_event_def
    by (simp add: andThen_def attempt_def within_def fresh get found binding tx_run moved version final h update store_run fresh1
        sample_running_operation(1) fields order b'_def [symmetric] putTerminalBinding_def update_terminal_bindings_def parts1 b b'
        terminalConstraintFailure_def insert_unless_def Let_def)
  then show thesis using that by blast
qed

theorem terminal_event_joins_evidence_witness:
  "\<exists>x db'. CommitTerminalEvent (\<lambda>_. True) sample_running launch_store [] = (Inr x, db') \<and> acknowledged_launch (task_Handle (res_Task x)) launch_store"
proof -
  obtain db' x where run: "CommitTerminalEvent (\<lambda>_. True) sample_running launch_store [] = (Inr x, db')" "res_Task x = sample_working"
    by (rule sample_running_runs)
  have "acknowledged_launch (task_Handle (res_Task x)) launch_store \<and> (tem_Transition sample_running = TerminalRunning \<or>
    (\<exists>b\<in>set (db_terminal_bindings launch_store). tb_taskHandle b = task_Handle (res_Task x) \<and>
       tb_terminalSessionID b = tem_TerminalSessionID sample_running \<and> tb_runningObserved b))"
  proof (rule terminal_event_joins_evidence [OF run(1)])
    show "find_operation (tem_OperationID sample_running) launch_store = None"
      by (simp add: find_operation_def launch_store_parts sample_running_def)
    show "task_State (res_Task x) = TaskWorking" using run(2) by (simp add: sample_working_def)
    show "\<forall>t\<in>set (tasks_of launch_store). task_ManagedRunID t = tem_ManagedRunID sample_running \<longrightarrow> task_State t = TaskLaunching"
      by (simp add: tasks_of_def launch_store_parts sample_row_def)
  qed
  with run show ?thesis by blast
qed

text \<open>The terminal event that makes the launch work leaves its event.\<close>

theorem trail_of_state_changes_witness:
  "\<exists>x db'. run_command (\<lambda>_. True) (DoTerminal sample_running) launch_store [] = (Inr x, db') \<and>
     res_Task x = sample_working \<and> db_events db' = [state_event sample_working]"
proof -
  obtain db' x where run: "CommitTerminalEvent (\<lambda>_. True) sample_running launch_store [] = (Inr x, db')" "res_Task x = sample_working"
    by (rule sample_running_runs)
  have "run_command (\<lambda>_. True) (DoTerminal sample_running) launch_store [] = (Inr x, db')"
    "find_operation (command_operation (DoTerminal sample_running)) launch_store = None"
    using run(1) by (simp_all add: find_operation_def launch_store_parts sample_running_def)
  from trail_of_state_changes [OF this] this run(2) show ?thesis
    by (simp add: tasks_of_def launch_store_parts sample_row_def sample_working_def)
qed

end
