(* ===== verification/Launch_Calm.thy ===== *)
theory Launch_Calm
  imports Launch_Contract
begin

text \<open>
  The frontier on launch tables that are in step and readable, with a driver that fails nowhere: it returns
  a decision and not an error, the decision of one ordered pass.
\<close>

section \<open>The frontier, when nothing fails\<close>

definition readable_facts :: "durable \<Rightarrow> bool" where
  "readable_facts db \<longleftrightarrow> (\<forall>l\<in>set (db_launch_facts db). scanInitiativeLaunchFact l = Inr l)"

definition serene :: "durable tx_state \<Rightarrow> bool" where
  "serene s \<longleftrightarrow> calm s \<and> launch_sound (tx_view s) \<and> readable_facts (tx_view s)"

lemma each_run: "(\<And>c. c \<in> set cs \<Longrightarrow> f c s = (Inr (g c), s)) \<Longrightarrow> each f cs s = (Inr (map g cs), s)"
  by (induction cs) (simp_all add: andThen_def tx_run)

lemma loadHeads_run:
  assumes "serene s"
  shows "loadHeads turn limits fr s = (Inr (absorb (page_rows turn (fr_cursor fr) limits (fr_usage fr) initiativeSchedulingPageSize (tx_view s)) fr), s)"
proof -
  let ?page = "page_rows turn (fr_cursor fr) limits (fr_usage fr) initiativeSchedulingPageSize (tx_view s)"
  have "page_fact turn l s = (Inr l, s)" if "l \<in> set ?page" for l
  proof -
    from that have l: "l \<in> set (db_launch_heads (tx_view s))" "fact_round l = turn"
      by (auto simp: page_rows_def dest!: in_set_takeD)
    with head_of(1) [of "tx_view s" l] assms have "l \<in> set (db_launch_facts (tx_view s))"
      by (simp add: serene_def launch_sound_def)
    with assms l(2) show ?thesis by (simp add: serene_def readable_facts_def page_fact_def andThen_def tx_run)
  qed
  then have "each (page_fact turn) ?page s = (Inr ?page, s)" using each_run [of ?page "page_fact turn" s "\<lambda>x. x"] by simp
  then show ?thesis using assms page_rows_no_profile [of limits "fr_usage fr"]
    by (simp add: loadHeads_def initiativeLaunchFactPage_def andThen_def tx_run serene_def)
qed

lemma after_resource_run:
  assumes "serene s"
  shows "\<exists>found. initiativeLaunchFactAfterResource l s = (Inr found, s)"
proof (cases "facts_after l (tx_view s)")
  case Nil
  then show ?thesis using assms by (simp add: initiativeLaunchFactAfterResource_def andThen_def tx_run serene_def)
next
  case (Cons f fs)
  then have "f \<in> set (facts_after l (tx_view s))" by simp
  then have "f \<in> set (db_launch_facts (tx_view s))" "fact_key f = fact_key l" by (simp_all add: facts_after_def)
  with Cons assms show ?thesis
    by (simp add: initiativeLaunchFactAfterResource_def andThen_def tx_run serene_def readable_facts_def)
qed

lemma refill_serene:
  assumes "refill turn limits fr s = Some y" "serene s"
  shows "\<exists>fr'. y = (Inr fr', s)"
proof -
  have "serene s \<longrightarrow> (\<exists>fr'. y = (Inr fr', s))"
    using assms(1)
  proof (rule refill.raw_induct [where P = "\<lambda>turn limits fr s y. serene s \<longrightarrow> (\<exists>fr'. y = (Inr fr', s))", rotated])
    fix search turn limits fr s y
    assume IH: "\<And>turn limits fr s y. search turn limits fr s = Some y \<Longrightarrow> serene s \<longrightarrow> (\<exists>fr'. y = (Inr fr', s))"
      and body: "(if fr_moreHeads fr \<and> fr_cursor fr < fact_order (hd (fr_queue fr))
        then step (loadHeads turn limits fr) (search turn limits) s else Some (Inr fr, s)) = Some y"
    show "serene s \<longrightarrow> (\<exists>fr'. y = (Inr fr', s))"
    proof
      assume s: "serene s"
      show "\<exists>fr'. y = (Inr fr', s)"
      proof (cases "fr_moreHeads fr \<and> fr_cursor fr < fact_order (hd (fr_queue fr))")
        case True
        with body have "search turn limits (absorb (page_rows turn (fr_cursor fr) limits (fr_usage fr) initiativeSchedulingPageSize (tx_view s)) fr) s = Some y"
          by (simp add: step_def loadHeads_run [OF s])
        from IH [OF this] s show ?thesis by blast
      next
        case False
        with body have "y = (Inr fr, s)" by auto
        then show ?thesis by blast
      qed
    qed
  qed
  with assms(2) show ?thesis by blast
qed

lemma serve_serene:
  assumes "serve turn goal fr s = Some y" "serene s"
  shows "\<exists>outcome. y = (Inr outcome, s)"
proof -
  have "serene s \<longrightarrow> (\<exists>outcome. y = (Inr outcome, s))"
    using assms(1)
  proof (rule serve.raw_induct [where P = "\<lambda>turn goal fr s y. serene s \<longrightarrow> (\<exists>outcome. y = (Inr outcome, s))", rotated])
    fix search turn goal fr s y
    assume IH: "\<And>turn goal fr s y. search turn goal fr s = Some y \<Longrightarrow> serene s \<longrightarrow> (\<exists>outcome. y = (Inr outcome, s))"
      and body: "(if fr_queue fr = [] then
        (if fr_moreHeads fr then step (loadHeads turn (goal_limits goal) fr) (search turn goal) s
         else Some (Inr (RoundOver fr), s))
      else proceed (refill turn (goal_limits goal) fr) (\<lambda>fr s.
        case serve_head goal fr of
          Finish outcome \<Rightarrow> Some (Inr outcome, s)
        | Continue fr \<Rightarrow> search turn goal fr s
        | Follow l fr \<Rightarrow> step (initiativeLaunchFactAfterResource l) (\<lambda>found. search turn goal (enqueue fr found)) s) s) = Some y"
    show "serene s \<longrightarrow> (\<exists>outcome. y = (Inr outcome, s))"
    proof
      assume s: "serene s"
      show "\<exists>outcome. y = (Inr outcome, s)"
      proof (cases "fr_queue fr = []")
        case empty: True
        show ?thesis
        proof (cases "fr_moreHeads fr")
          case True
          with body empty have "search turn goal (absorb (page_rows turn (fr_cursor fr) (goal_limits goal) (fr_usage fr) initiativeSchedulingPageSize (tx_view s)) fr) s = Some y"
            by (simp add: step_def loadHeads_run [OF s])
          from IH [OF this] s show ?thesis by blast
        next
          case False
          with body empty show ?thesis by auto
        qed
      next
        case False
        from refill_returns [of turn "goal_limits goal" fr s] obtain r t where refill: "refill turn (goal_limits goal) fr s = Some (r, t)" by blast
        with refill_serene s obtain fr' where r: "r = Inr fr'" "t = s" by blast
        show ?thesis
        proof (cases "serve_head goal fr'")
          case (Follow l fr2)
          from after_resource_run [OF s] obtain found where "initiativeLaunchFactAfterResource l s = (Inr found, s)" by blast
          with body False refill r Follow have "search turn goal (enqueue fr2 found) s = Some y" by (simp add: step_def proceed_def)
          from IH [OF this] s show ?thesis by blast
        next
          case (Continue fr2)
          with body False refill r have "search turn goal fr2 s = Some y" by (simp add: proceed_def)
          from IH [OF this] s show ?thesis by blast
        next
          case (Finish outcome)
          with body False refill r show ?thesis by (auto simp: proceed_def)
        qed
      qed
    qed
  qed
  with assms(2) show ?thesis by blast
qed

lemma rounds_serene: "serene s \<Longrightarrow> \<exists>r. serve_rounds goal turns state s = Some (Inr r, s)"
proof (induction turns arbitrary: state)
  case Nil
  show ?case unfolding serve_rounds.simps by blast
next
  case (Cons turn turns)
  obtain usage selected where state: "state = (usage, selected)" by fastforce
  let ?fr = "\<lparr>fr_queue = [], fr_cursor = ([], [], []), fr_moreHeads = True, fr_usage = usage, fr_selected = selected\<rparr>"
  define fr where "fr = absorb (page_rows turn (fr_cursor ?fr) (goal_limits goal) (fr_usage ?fr) initiativeSchedulingPageSize (tx_view s)) ?fr"
  have load: "loadHeads turn (goal_limits goal) ?fr s = (Inr fr, s)"
    unfolding fr_def by (rule loadHeads_run) (rule Cons.prems)
  from serve_returns [of turn goal fr s] obtain q t where "serve turn goal fr s = Some (q, t)" by blast
  with serve_serene Cons.prems obtain outcome where "serve turn goal fr s = Some (Inr outcome, s)" by blast
  with load Cons show ?case by (cases outcome) (simp_all add: state step_def proceed_def)
qed

lemma frontier_one_pass:
  assumes "serene s" "usage_natural usage"
  shows "frontier_loop goal usage s = Some (Inr
    (case admit goal (facts_in_order (tx_view s) [0..<MaximumInitiativeMembers]) (usage, 0) of
       Inl decision \<Rightarrow> decision | Inr _ \<Rightarrow> (False, goal_reason goal)), s)"
proof -
  from rounds_serene [OF assms(1)] obtain r where r: "serve_rounds goal [0..<MaximumInitiativeMembers] (usage, 0) s = Some (Inr r, s)"
    by blast
  from rounds_admit [OF _ _ this refl assms(2)] assms(1) r show ?thesis
    by (simp add: serene_def launch_sound_def frontier_loop_def)
qed

end
