(* ===== verification/Launch_Sample.thy ===== *)
theory Launch_Sample
  imports Launch_Calm Store_History Scheduling
begin

text \<open>
  A start on a small database, step by step: an active initiative with one ready member, whose launch facts
  are still to be computed.  It shows that the authority does grant a start.
\<close>

section \<open>The database\<close>

abbreviation plain :: print_table where
  "plain \<equiv> \<lambda>_. True"

definition ready_task :: Task where
  "ready_task = task_in plain TaskReady"

definition started_task :: Task where
  "started_task = (stepped ready_task TaskLaunching (utc_at 2))\<lparr>task_StateVersion := 2\<rparr>"

definition member_store :: durable where
  "member_store = (sample_store TaskReady)\<lparr>db_initiatives := [solo_initiative], db_members := [(''task-1'', ''init-1'')]\<rparr>"

definition sample_start :: TaskStartMutation where
  "sample_start = \<lparr>start_TaskHandle = ''task-1'', start_OperationID = ''op-2'', start_SubjectDigest = replicate 64 CHR ''b'',
     start_SchedulingLimits = Some sample_limits, start_At = utc_at 2\<rparr>"

definition member_fact :: initiativeLaunchFact where
  "member_fact = \<lparr>fact_taskHandle = ''task-1'', fact_initiativeHandle = ''init-1'', fact_createdAt = formatTime (utc_at 1),
     fact_round = 0, fact_repositoryID = ''repo-1'', fact_workerProfileID = ''codex-worker''\<rparr>"

lemma sample_task_parts [simp]:
  "task_Handle ready_task = ''task-1''" "task_State ready_task = TaskReady" "task_RepositoryID ready_task = ''repo-1''"
  "task_WorkerProfileID ready_task = ''codex-worker''" "task_Handle started_task = ''task-1''" "task_State started_task = TaskLaunching"
  "task_RepositoryID started_task = ''repo-1''" "task_WorkerProfileID started_task = ''codex-worker''"
  "task_StateVersion started_task = 2" "task_UpdatedAt started_task = utc_at 2"
  by (simp_all add: started_task_def ready_task_def stepped_def task_in_def prepared_task_def draft_task_def)

lemma ready_task_valid: "Task_Validate plain ready_task = None"
  by (simp add: ready_task_def task_in_valid)

lemma started_task_valid: "Task_Validate plain started_task = None"
proof -
  have "contract_ok plain started_task \<longleftrightarrow> contract_ok plain (prepared_task plain)"
    by (rule contract_ok_cong) (simp add: started_task_def ready_task_def stepped_def task_in_def same_contract_def)
  moreover have "progress_ok started_task"
    by (simp add: started_task_def ready_task_def stepped_def task_in_def prepared_task_def progress_ok_def task_bound_def draft_defs
        validateTimes_def time_defs draft_strings)
  ultimately show ?thesis using contract_ok_prepared by (simp add: Task_Validate_iff)
qed

lemma start_step:
  "ApplyTransition plain ready_task TransitionLaunchRequested (utc_at 2) = (stepped ready_task TaskLaunching (utc_at 2), None)"
  using ready_task_valid
  by (simp add: ApplyTransition_accepts nextTaskState_def) (simp add: ready_task_def task_bound_def time_defs utc_at_def)

section \<open>The schedules\<close>

lemma plain_schedule:
  assumes T: "T ''task-1'' = Some t" and t: "task_RepositoryID t = ''repo-1''"
    and state: "task_State t = TaskReady \<and> schedulingCapacityAvailable t limits usage \<or> task_State t = TaskLaunching"
  shows "scheduleInitiatives u [solo_initiative] T [] limits usage =
    Inr [\<lparr>sch_InitiativeHandle = ''init-1'', sch_State = InitiativeActive,
      sch_Tasks = [\<lparr>dec_TaskHandle = ''task-1'', dec_State = task_State t, dec_Launchable = (task_State t = TaskReady), dec_Reason = no_reason\<rparr>]\<rparr>]"
proof -
  let ?d = "\<lparr>dec_TaskHandle = ''task-1'', dec_State = task_State t, dec_Launchable = False, dec_Reason = no_reason\<rparr>"
  let ?each = "[(\<lparr>sch_InitiativeHandle = ''init-1'', sch_State = InitiativeStateOther [], sch_Tasks = [?d]\<rparr>,
        if task_State t = TaskReady then [\<lparr>cand_scheduleIndex = 0, cand_decisionIndex = 0, cand_task = t\<rparr>] else [])]"
  have each: "schedule_each u T (\<lambda>_. Map.empty) Map.empty 0 [solo_initiative] = Inr ?each"
    using t by (simp add: solo_valid scheduleOneInitiative_def T ready_decision_def launchDependencyReason_def ready_candidates_def)
  have arts: "indexSchedulingArtifacts u [solo_initiative] [] = Inr (\<lambda>_. Map.empty)"
    "schedule_order [solo_initiative] = [solo_initiative]"
    by (simp_all add: indexSchedulingArtifacts_def schedule_order_def)
  have turns: "allocation_turns (map fst ?each) (map snd ?each) =
      (if task_State t = TaskReady then [\<lparr>cand_scheduleIndex = 0, cand_decisionIndex = 0, cand_task = t\<rparr>] else [])"
    by (simp add: allocation_turns_def initiativeRoundOffset_def turn_candidates_def)
  have alloc: "fst (allocateInitiativeCandidates (map fst ?each) (map snd ?each) limits usage) =
      [\<lparr>sch_InitiativeHandle = ''init-1'', sch_State = InitiativeStateOther [],
        sch_Tasks = [?d\<lparr>dec_Launchable := (task_State t = TaskReady)\<rparr>]\<rparr>]"
    unfolding allocateInitiativeCandidates_def turns
    using state by (auto simp: allocate_turn_def update_decision_def)
  have "deriveInitiativeState solo_initiative [?d\<lparr>dec_Launchable := (task_State t = TaskReady)\<rparr>] = InitiativeActive"
    using state by (auto simp: deriveInitiativeState_def state_count_def allTaskStates_def hasInitiativeProgress_def Let_def)
  then show ?thesis
    unfolding scheduleInitiatives_def Let_def arts each sum.case alloc by simp
qed

definition room :: "InitiativeSchedulingLimits \<Rightarrow> bool" where
  "room limits \<longleftrightarrow> validateSchedulingLimits limits = None \<and> 0 < sint (lim_MaxConcurrentTasks limits) \<and>
     0 < sint (lim_MaxConcurrentTasksPerRepository limits) \<and> 0 < sint (map_count (lim_WorkerProfileLimits limits) ''codex-worker'') \<and>
     fmlookup (lim_WorkerProfileLimits limits) ''codex-worker'' \<noteq> None"

abbreviation idle :: InitiativeSchedulingUsage where
  "idle \<equiv> \<lparr>given_Host = 0, given_Repositories = fmempty, given_WorkerProfiles = fmempty\<rparr>"

lemma map_count_simps: "map_count (fmupd k v m) j = (if j = k then v else map_count m j)" "map_count fmempty j = 0"
  by (simp_all add: map_count_def)

lemma idle_normal: "normalizeSchedulingUsage idle limits = Inr \<lparr>use_host = 0, use_repositories = map_count fmempty, use_profiles = map_count fmempty\<rparr>"
  by (simp add: normalizeSchedulingUsage_def sorted_list_of_fmap_def sorted_list_of_fset.rep_eq Let_def)

lemma room_samples: "room sample_limits"
  "room \<lparr>lim_MaxConcurrentTasks = maximumInitiativeSchedulingFrontier, lim_MaxConcurrentTasksPerRepository = maximumInitiativeSchedulingFrontier,
     lim_WorkerProfileLimits = fmap_of_list [(''codex-worker'', maximumInitiativeSchedulingFrontier)]\<rparr>"
proof -
  have p: "authorityPattern ''codex-worker''" by code_simp
  show "room sample_limits" using sample_limits_valid by (simp add: room_def) (simp add: sample_limits_def map_count_def)
  show "room \<lparr>lim_MaxConcurrentTasks = maximumInitiativeSchedulingFrontier, lim_MaxConcurrentTasksPerRepository = maximumInitiativeSchedulingFrontier,
     lim_WorkerProfileLimits = fmap_of_list [(''codex-worker'', maximumInitiativeSchedulingFrontier)]\<rparr>"
    using p by (simp add: room_def validateSchedulingLimits_def maximumInitiativeSchedulingFrontier_def map_count_def sorted_list_of_fmap_def
        field_check_defs fcard.rep_eq sorted_list_of_fset.rep_eq)
qed

lemma member_schedule:
  assumes "room limits" "Task_Validate u t = None" "task_Handle t = ''task-1''" "task_RepositoryID t = ''repo-1''"
    "task_WorkerProfileID t = ''codex-worker''" "task_State t = TaskReady \<or> task_State t = TaskLaunching"
  shows "ScheduleInitiativesWithUsage u [solo_initiative] [t] [] limits idle =
    Inr [\<lparr>sch_InitiativeHandle = ''init-1'', sch_State = InitiativeActive,
      sch_Tasks = [\<lparr>dec_TaskHandle = ''task-1'', dec_State = task_State t, dec_Launchable = (task_State t = TaskReady), dec_Reason = no_reason\<rparr>]\<rparr>]"
proof -
  let ?usage = "\<lparr>use_host = 0, use_repositories = map_count fmempty, use_profiles = map_count fmempty\<rparr> :: schedulingUsage"
  have index: "indexSchedulingTaskSet u [t] limits = Inr (Map.empty(''task-1'' \<mapsto> t))"
    using assms by (auto simp: indexSchedulingTaskSet_def room_def)
  have "schedulingCapacityAvailable t limits ?usage"
    using assms by (simp add: schedulingCapacityAvailable_def room_def map_count_simps)
  then have "scheduleInitiatives u [solo_initiative] (Map.empty(''task-1'' \<mapsto> t)) [] limits ?usage =
    Inr [\<lparr>sch_InitiativeHandle = ''init-1'', sch_State = InitiativeActive,
      sch_Tasks = [\<lparr>dec_TaskHandle = ''task-1'', dec_State = task_State t, dec_Launchable = (task_State t = TaskReady), dec_Reason = no_reason\<rparr>]\<rparr>]"
    using assms by (intro plain_schedule) auto
  then show ?thesis
    using assms(1) by (simp add: ScheduleInitiativesWithUsage_def index idle_normal room_def)
qed

section \<open>The steps of the start\<close>

text \<open>What the steps need of a view: the one member with its row, the initiative, and no artifacts.\<close>

definition member_view :: "Task \<Rightarrow> durable \<Rightarrow> bool" where
  "member_view t v \<longleftrightarrow> (\<exists>row. find_task_row ''task-1'' v = Some row \<and> row_task row = t) \<and> db_members v = [(''task-1'', ''init-1'')] \<and>
     db_initiatives v = [solo_initiative] \<and> db_artifacts v = [] \<and> db_applications v = [] \<and>
     Task_Validate plain t = None \<and> task_Handle t = ''task-1'' \<and> task_RepositoryID t = ''repo-1'' \<and>
     task_WorkerProfileID t = ''codex-worker''"

definition with_launches :: "initiativeLaunchFact list \<Rightarrow> durable \<Rightarrow> durable" where
  "with_launches fs v = v\<lparr>db_launch_facts := fs, db_launch_heads := fs\<rparr>"

lemma member_initiative:
  assumes "member_view t (tx_view s)" "calm s"
  shows "initiativeForTask ''task-1'' s = (Inr (Some solo_initiative), s)"
    "getTask plain ''task-1'' s = (Inr t, s)" "initiativeTaskHandles solo_initiative = [''task-1'']"
    "listInitiativeContractArtifacts ''init-1'' s = (Inr [], s)"
    "listInitiativeContractArtifactMetadata ''init-1'' s = (Inr [], s)" "launch_member plain ''task-1'' s = (Inr t, s)"
proof -
  show h: "initiativeTaskHandles solo_initiative = [''task-1'']"
    by (simp add: initiativeTaskHandles_def solo_initiative_def sample_initiative_def)
  show "initiativeForTask ''task-1'' s = (Inr (Some solo_initiative), s)"
    using assms by (simp add: initiativeForTask_def containing_initiatives_def member_view_def andThen_def within_def tx_run
        scanInitiative_def ensure_def solo_valid)
  show get: "getTask plain ''task-1'' s = (Inr t, s)"
    using assms by (auto simp: member_view_def store_run)
  show "listInitiativeContractArtifacts ''init-1'' s = (Inr [], s)" "listInitiativeContractArtifactMetadata ''init-1'' s = (Inr [], s)"
    using assms by (simp_all add: listInitiativeContractArtifacts_def listInitiativeContractArtifactMetadata_def artifact_rows_def
        member_view_def andThen_def within_def tx_run)
  show "launch_member plain ''task-1'' s = (Inr t, s)"
    using assms get by (simp add: launch_member_def member_view_def andThen_def within_def tx_run)
qed

lemma member_fact_key: "fact_key member_fact = (0, ''repo-1'', ''codex-worker'')" "validInitiativeLaunchResourceKey (0, ''repo-1'', ''codex-worker'')"
  by (simp add: member_fact_def fact_key_def) code_simp

lemma member_fact_sel [simp]: "fact_initiativeHandle member_fact = ''init-1''" "fact_taskHandle member_fact = ''task-1''"
  by (simp_all add: member_fact_def)

lemma resource_keys_run:
  "calm s \<Longrightarrow> db_launch_facts (tx_view s) = [] \<Longrightarrow> initiativeLaunchResourceKeys h s = (Inr [], s)"
  "calm s \<Longrightarrow> db_launch_facts (tx_view s) = [member_fact] \<Longrightarrow>
     initiativeLaunchResourceKeys ''init-1'' s = (Inr [(0, ''repo-1'', ''codex-worker'')], s)"
  using member_fact_key by (simp_all add: initiativeLaunchResourceKeys_def andThen_def tx_run)

lemma refresh_keys_run:
  assumes "calm s"
  shows "refreshInitiativeLaunchResourceKeys [] s = (Inr (), s)"
    "refreshInitiativeLaunchResourceKeys [(0, ''repo-1'', ''codex-worker'')] s = (Inr (), s\<lparr>tx_view := (tx_view s)\<lparr>db_launch_heads :=
       filter (\<lambda>h. fact_key h \<noteq> (0, ''repo-1'', ''codex-worker'')) (db_launch_heads (tx_view s)) @
       first_fact (0, ''repo-1'', ''codex-worker'') (db_launch_facts (tx_view s))\<rparr>\<rparr>)"
  using assms member_fact_key(2)
  by (simp_all add: refreshInitiativeLaunchResourceKeys_def refreshInitiativeLaunchResourceHead_def andThen_def tx_run)

lemma member_limits_room:
  assumes "member_view t v"
  shows "room \<lparr>lim_MaxConcurrentTasks = maximumInitiativeSchedulingFrontier, lim_MaxConcurrentTasksPerRepository = maximumInitiativeSchedulingFrontier,
     lim_WorkerProfileLimits = fmap_of_list (map (\<lambda>t. (task_WorkerProfileID t, maximumInitiativeSchedulingFrontier)) [t])\<rparr>"
  using assms room_samples(2) by (simp add: member_view_def)

lemma refresh_ready:
  assumes v: "member_view t (tx_view s)" "calm s" "task_State t = TaskReady"
    and none: "db_launch_facts (tx_view s) = []" "db_launch_heads (tx_view s) = []"
  shows "refreshInitiativeLaunchFacts plain solo_initiative s = (Inr (), s\<lparr>tx_view := with_launches [member_fact] (tx_view s)\<rparr>)"
proof -
  have t: "task_Handle t = ''task-1''" "Task_Validate plain t = None" "task_RepositoryID t = ''repo-1''" "task_WorkerProfileID t = ''codex-worker''"
    using v(1) by (simp_all add: member_view_def)
  note schedule = member_schedule [OF member_limits_room [OF v(1)] t(2,1,3,4), unfolded v(3)]
  have fact: "\<lparr>fact_taskHandle = ''task-1'', fact_initiativeHandle = ''init-1'', fact_createdAt = formatTime (utc_at 1),
     fact_round = 0, fact_repositoryID = ''repo-1'', fact_workerProfileID = ''codex-worker''\<rparr> = member_fact"
    by (simp add: member_fact_def)
  have same: "s\<lparr>tx_view := (tx_view s)\<lparr>db_launch_facts := []\<rparr>\<rparr> = s" using none by simp
  show ?thesis
    using v none schedule t
    by (simp add: refreshInitiativeLaunchFacts_def replaceInitiativeLaunchFacts_def andThen_def within_def tx_run resource_keys_run
        same member_initiative [OF v(1,2)] launch_decisions_def insert_launch_fact_def insert_unless_def fact
        refresh_keys_run member_fact_key first_fact_def with_launches_def)
qed

lemma member_view_launches [simp]: "member_view t (with_launches fs v) = member_view t v"
  by (simp add: member_view_def with_launches_def find_task_row_def)

lemma with_launches_parts [simp]:
  "db_launch_facts (with_launches fs v) = fs" "db_launch_heads (with_launches fs v) = fs" "with_launches fs (with_launches gs v) = with_launches fs v"
  "db_tasks (with_launches fs v) = db_tasks v" "db_operations (with_launches fs v) = db_operations v" "db_events (with_launches fs v) = db_events v"
  "state_versions (with_launches fs v) = state_versions v"
  by (simp_all add: with_launches_def state_versions_def)

lemma refresh_busy:
  assumes v: "member_view t (tx_view s)" "calm s" "task_State t = TaskLaunching"
    and one: "db_launch_facts (tx_view s) = [member_fact]" "db_launch_heads (tx_view s) = [member_fact]"
  shows "refreshInitiativeLaunchFacts plain solo_initiative s = (Inr (), s\<lparr>tx_view := with_launches [] (tx_view s)\<rparr>)"
proof -
  have t: "task_Handle t = ''task-1''" "Task_Validate plain t = None" "task_RepositoryID t = ''repo-1''" "task_WorkerProfileID t = ''codex-worker''"
    using v(1) by (simp_all add: member_view_def)
  note schedule = member_schedule [OF member_limits_room [OF v(1)] t(2,1,3,4), unfolded v(3)]
  let ?s = "s\<lparr>tx_view := (tx_view s)\<lparr>db_launch_facts := []\<rparr>\<rparr>"
  have v': "member_view t (tx_view ?s)" "calm ?s" using v by (simp_all add: member_view_def find_task_row_def)
  show ?thesis
    using v one schedule t
    by (simp add: refreshInitiativeLaunchFacts_def replaceInitiativeLaunchFacts_def andThen_def within_def tx_run resource_keys_run
        member_initiative [OF v'] launch_decisions_def refresh_keys_run member_fact_key first_fact_def with_launches_def)
qed

lemma aggregate_busy:
  assumes v: "member_view t (tx_view s)" "calm s" "task_State t = TaskLaunching"
    and one: "db_launch_facts (tx_view s) = [member_fact]" "db_launch_heads (tx_view s) = [member_fact]"
  shows "refreshInitiativeAggregate plain ''task-1'' w at s = (Inr (), s\<lparr>tx_view := with_launches [] (tx_view s)\<rparr>)"
proof -
  have t: "task_Handle t = ''task-1''" "Task_Validate plain t = None" "task_RepositoryID t = ''repo-1''"
    using v(1) by (simp_all add: member_view_def)
  let ?d = "\<lparr>dec_TaskHandle = ''task-1'', dec_State = TaskLaunching, dec_Launchable = False, dec_Reason = no_reason\<rparr>"
  have arts: "indexSchedulingArtifacts plain [solo_initiative] [] = Inr (\<lambda>_. Map.empty)"
    by (simp add: indexSchedulingArtifacts_def)
  have one_sched: "scheduleOneInitiative plain 0 solo_initiative (Map.empty(''task-1'' \<mapsto> t)) Map.empty Map.empty =
    Inr (\<lparr>sch_InitiativeHandle = ''init-1'', sch_State = InitiativeStateOther [], sch_Tasks = [?d]\<rparr>, [], Map.empty(''task-1'' \<mapsto> ''init-1''))"
    using t v(3) by (simp add: scheduleOneInitiative_def ready_decision_def ready_candidates_def)
  have "deriveInitiativeState solo_initiative [?d] = InitiativeActive"
    by (auto simp: deriveInitiativeState_def state_count_def allTaskStates_def hasInitiativeProgress_def Let_def)
  then have derive: "DeriveInitiativeState plain solo_initiative [t] [] = Inr InitiativeActive"
    using t arts one_sched by (simp add: DeriveInitiativeState_def solo_valid)
  show ?thesis
    using derive refresh_busy [OF assms]
    by (simp add: refreshInitiativeAggregate_def andThen_def within_def member_initiative [OF v(1,2)] tx_run)
qed

section \<open>The authority\<close>

lemma member_scan: "scanInitiativeLaunchFact member_fact = Inr member_fact"
  by code_simp

lemma member_launches_serene:
  assumes "calm s"
  shows "serene (s\<lparr>tx_view := with_launches [member_fact] (tx_view s)\<rparr>)"
proof -
  have "filter (\<lambda>h. fact_key h = key) [member_fact] = first_fact key [member_fact]" for key
    by (simp add: first_fact_def)
  then have "launch_tables_ok (with_launches [member_fact] (tx_view s))" by (simp add: launch_tables_ok_def)
  moreover have "fact_createdAt member_fact \<noteq> []" by (simp add: member_fact_def formatTime_nonempty)
  ultimately show ?thesis
    using assms member_scan by (simp add: serene_def launch_sound_def dated_facts_def readable_facts_def)
qed

lemma member_frontier:
  assumes "calm s"
  shows "initiativeSchedulingFrontier ready_task ScheduleResourceQueued sample_limits idle (s\<lparr>tx_view := with_launches [member_fact] (tx_view s)\<rparr>) =
    (Inr (True, ScheduleResourceQueued), s\<lparr>tx_view := with_launches [member_fact] (tx_view s)\<rparr>)"
proof -
  let ?s = "s\<lparr>tx_view := with_launches [member_fact] (tx_view s)\<rparr>"
  let ?goal = "\<lparr>goal_target = ''task-1'', goal_reason = ScheduleResourceQueued, goal_limits = sample_limits,
      goal_available = lim_MaxConcurrentTasks sample_limits - given_Host idle\<rparr>"
  have rounds: "round_facts (with_launches [member_fact] (tx_view s)) turn = (if turn = 0 then [member_fact] else [])" for turn
    by (simp add: round_facts_def member_fact_def)
  have "[0..<MaximumInitiativeMembers] = 0 # [1..<MaximumInitiativeMembers]"
    by (simp add: MaximumInitiativeMembers_def upt_conv_Cons)
  then have order: "facts_in_order (tx_view ?s) [0..<MaximumInitiativeMembers] = [member_fact]"
    by (simp add: facts_in_order_def rounds)
  have "usage_natural idle" by (simp add: usage_natural_def map_count_simps)
  from frontier_one_pass [OF member_launches_serene [OF assms] this, of ?goal]
  have "frontier_loop ?goal idle ?s = Some (Inr (True, ScheduleResourceQueued), ?s)"
    unfolding order by (simp add: resource_free_def map_count_simps) (simp add: member_fact_def sample_limits_def map_count_simps)
  then show ?thesis by (simp add: initiativeSchedulingFrontier_def)
qed

lemma member_authority:
  assumes v: "member_view ready_task (tx_view s)" "calm s" "tasks_of (tx_view s) = [ready_task]"
    and none: "db_launch_facts (tx_view s) = []" "db_launch_heads (tx_view s) = []"
  shows "authorizeInitiativeTaskStart plain ready_task (Some sample_limits) s = (Inr (), s\<lparr>tx_view := with_launches [member_fact] (tx_view s)\<rparr>)"
proof -
  let ?s = "s\<lparr>tx_view := with_launches [member_fact] (tx_view s)\<rparr>"
  have v': "member_view ready_task (tx_view ?s)" "calm ?s" using v by simp_all
  have usage: "initiativeSchedulingUsage ?s = (Inr idle, ?s)"
    using v(2,3) by (simp add: initiativeSchedulingUsage_def usage_rows_def scheduling_states_def andThen_def tx_run tasks_of_def)
  have limits: "ScheduleInitiativesWithUsage plain [] [] [] sample_limits idle = Inr []"
    using sample_limits_valid by (simp add: ScheduleInitiativesWithUsage_def indexSchedulingTaskSet_def idle_normal scheduleInitiatives_def
        indexSchedulingArtifacts_def schedule_order_def Let_def)
  note schedule = member_schedule [OF room_samples(1) ready_task_valid]
  have candidates: "initiativeSchedulingCandidates plain solo_initiative ''task-1'' sample_limits idle ?s =
     (Inr ([\<lparr>lcand_task = ready_task, lcand_round = 0\<rparr>], no_reason), ?s)"
    by (simp add: initiativeSchedulingCandidates_def andThen_def within_def tx_run member_initiative [OF v'] schedule target_reason_def)
  have target: "initiativeLaunchFactForTask ready_task ?s = (Inr (Some member_fact), ?s)"
    using v(2) member_scan by (simp add: initiativeLaunchFactForTask_def andThen_def tx_run) (simp add: member_fact_def)
  have host: "\<not> sint (lim_MaxConcurrentTasks sample_limits) \<le> sint (given_Host idle)" by (simp add: sample_limits_def)
  show ?thesis
    using host
    by (simp add: authorizeInitiativeTaskStart_def andThen_def within_def tx_run member_initiative [OF v(1,2)] refresh_ready [OF v(1,2)] none
        usage limits candidates target member_frontier [OF v(2)])
qed

section \<open>The start\<close>

lemma sample_start_operation:
  "OperationRecord_Validate (completedMutationOperation ''op-2'' ''StartTask'' (replicate 64 CHR ''b'') ''task-1'' 2 (utc_at 2)) = None"
  by code_simp

lemma member_store_parts:
  "db_tasks member_store = [sample_row ready_task]" "tasks_of member_store = [ready_task]" "db_applications member_store = []"
  "db_operations member_store = [sample_operation]" "db_launch_facts member_store = []" "db_launch_heads member_store = []"
  "state_versions member_store = [1, 1, 1]" "member_view ready_task member_store"
proof -
  show "member_view ready_task member_store"
    using ready_task_valid
    by (simp add: member_view_def member_store_def sample_store_def empty_store_def find_task_row_def sample_row_def ready_task_def [symmetric])
qed (simp_all add: member_store_def sample_store_def empty_store_def ready_task_def tasks_of_def sample_row_def state_versions_def
       sample_operation_def solo_initiative_def sample_initiative_def)

lemma member_start:
  obtains x db' where "CommitTaskStart plain sample_start member_store [] = (Inr x, db')" "res_Task x = started_task"
proof -
  let ?s = "\<lparr>tx_durable = member_store, tx_view = member_store, tx_faults = []\<rparr>"
  let ?v1 = "with_launches [member_fact] member_store"
  let ?s1 = "\<lparr>tx_durable = member_store, tx_view = ?v1, tx_faults = []\<rparr>"
  let ?oper = "completedMutationOperation ''op-2'' ''StartTask'' (replicate 64 CHR ''b'') ''task-1'' 2 (utc_at 2)"
  let ?v2 = "add_event (state_event started_task) (write_state started_task ?v1)"
  have fresh: "mutationReplay ''op-2'' ''StartTask'' (replicate 64 CHR ''b'') ?s = (Inr None, ?s)"
    by (rule fresh_operation_run) (simp_all add: find_operation_def member_store_parts sample_operation_def)
  have get: "getTask plain ''task-1'' ?s = (Inr ready_task, ?s)"
    using member_initiative(2) [of ready_task ?s] member_store_parts(8) by simp
  have auth: "authorizeInitiativeTaskStart plain ready_task (Some sample_limits) ?s = (Inr (), ?s1)"
    using member_authority [of ?s] member_store_parts by simp
  have version: "nextMutationStateVersion ?s1 = (Inr 2, ?s1)"
    using nextMutationStateVersion_run [of ?s1 1] by (simp add: member_store_parts)
  have final: "(stepped ready_task TaskLaunching (utc_at 2))\<lparr>task_StateVersion := 2\<rparr> = started_task" by (simp add: started_task_def)
  have row: "find_task_row ''task-1'' ?v1 = Some (sample_row ready_task)" "rows_of_task ''task-1'' ?v1 = 1"
    by (simp_all add: find_task_row_def rows_of_task_def member_store_parts sample_row_def)
  have moved: "moved_from started_task ready_task = started_task" by (simp add: started_task_def moved_from_def stepped_def)
  have "db_tasks ?v2 = [sample_row started_task]"
    using moved by (simp add: add_event_def write_state_def member_store_parts sample_row_def moved_from_def)
  then have v2: "member_view started_task ?v2" "db_launch_facts ?v2 = [member_fact]" "db_launch_heads ?v2 = [member_fact]"
    using started_task_valid member_store_parts(8)
    by (simp_all add: member_view_def find_task_row_def sample_row_def) (simp_all add: add_event_def write_state_def with_launches_def)
  have reserved: "refuseReservedIntegrationTaskTransition ''task-1'' TaskReady TaskLaunching ?s1 = (Inr (), ?s1)"
    by (rule no_reservation) (simp_all add: with_launches_def member_store_parts)
  have time: "\<not> IsZero (utc_at 2)" by (simp add: utc_at_def time_defs)
  have aggregate: "refreshInitiativeAggregate plain ''task-1'' 2 (utc_at 2) (?s1\<lparr>tx_view := ?v2\<rparr>) =
      (Inr (), ?s1\<lparr>tx_view := with_launches [] ?v2\<rparr>)"
    using aggregate_busy [of started_task "?s1\<lparr>tx_view := ?v2\<rparr>"] v2 by simp
  have update: "updateTaskState plain started_task ?s1 = (Inr (), ?s1\<lparr>tx_view := with_launches [] ?v2\<rparr>)"
    using row reserved aggregate started_task_valid time
    by (simp add: updateTaskState_def updateTaskStateWithReservationGuard_def andThen_def within_def tx_run sample_row_def
        appendTaskStateEvent_def appendServiceEvent_def state_event_def add_event_def)
  have fresh2: "find_operation (op_ID ?oper) (with_launches [] ?v2) = None"
    by (simp add: find_operation_def add_event_def write_state_def member_store_parts sample_operation_def)
  have fields: "start_TaskHandle sample_start = ''task-1''" "start_OperationID sample_start = ''op-2''"
    "start_SubjectDigest sample_start = replicate 64 CHR ''b''" "start_SchedulingLimits sample_start = Some sample_limits" "start_At sample_start = utc_at 2"
    by (simp_all add: sample_start_def)
  have "\<exists>x db'. CommitTaskStart plain sample_start member_store [] = (Inr x, db') \<and> res_Task x = started_task"
    unfolding CommitTaskStart_def fields tx_run replay_first_def commit_new_start_def
    by (simp add: andThen_def attempt_def within_def fresh get auth applied_def start_step tx_run version final update
        insertOperation_run fresh2 [simplified] sample_start_operation Let_def)
  then show thesis using that by blast
qed

end
