(* ===== verification/Launch_Safety.thy ===== *)
theory Launch_Safety
  imports Launch_Sample
begin

text \<open>
  The properties of a start: the frontier returns, decides as one ordered pass over the facts, and a member
  of an initiative starts only under the three ceilings.
\<close>

section \<open>What is in use, counted\<close>

text \<open>The tasks that hold a place, of those with a property.\<close>

definition in_use :: "(Task \<Rightarrow> bool) \<Rightarrow> durable \<Rightarrow> nat" where
  "in_use P db = length (filter (\<lambda>t. task_State t \<in> set scheduling_states \<and> P t) (tasks_of db))"

lemma sum_counts: "(\<Sum>x\<leftarrow>sort (remdups xs). if C x then count_list xs x else 0) = length (filter C xs)"
proof -
  have "(\<Sum>x\<leftarrow>sort (remdups xs). if C x then count_list xs x else 0) = (\<Sum>x\<in>set xs. if C x then count_list xs x else 0)"
    by (simp add: sum_list_distinct_conv_sum_set)
  also have "\<dots> = (\<Sum>x\<in>set xs. count_list (filter C xs) x)"
  proof (rule sum.cong [OF refl])
    fix x
    have "count_list (filter C xs) x = (if C x then count_list xs x else 0)" by (induction xs) auto
    then show "(if C x then count_list xs x else 0) = count_list (filter C xs) x" by simp
  qed
  also have "\<dots> = length (filter C xs)" by (rule sum_count_set) auto
  finally show ?thesis .
qed

lemma usage_rows_sum:
  "(\<Sum>(r, p, n)\<leftarrow>usage_rows db. if C r p then n else 0) = in_use (\<lambda>t. C (task_RepositoryID t) (task_WorkerProfileID t)) db"
proof -
  let ?used = "map (\<lambda>t. (task_RepositoryID t, task_WorkerProfileID t)) (filter (\<lambda>t. task_State t \<in> set scheduling_states) (tasks_of db))"
  have "(\<Sum>(r, p, n)\<leftarrow>usage_rows db. if C r p then n else 0) = (\<Sum>x\<leftarrow>sort (remdups ?used). if C (fst x) (snd x) then count_list ?used x else 0)"
    unfolding usage_rows_def Let_def tasks_of_def by (simp add: comp_def case_prod_beta)
  also have "\<dots> = length (filter (\<lambda>x. C (fst x) (snd x)) ?used)" by (rule sum_counts)
  also have "\<dots> = in_use (\<lambda>t. C (task_RepositoryID t) (task_WorkerProfileID t)) db"
    by (simp add: in_use_def filter_map comp_def conj_commute)
  finally show ?thesis .
qed

lemma sum_usage_Inr:
  "sum_usage rows usage = Inr usage' \<Longrightarrow>
     given_Host usage' = given_Host usage + of_nat (\<Sum>(r, p, n)\<leftarrow>rows. n) \<and>
     map_count (given_Repositories usage') k = map_count (given_Repositories usage) k + of_nat (\<Sum>(r, p, n)\<leftarrow>rows. if r = k then n else 0) \<and>
     map_count (given_WorkerProfiles usage') k = map_count (given_WorkerProfiles usage) k + of_nat (\<Sum>(r, p, n)\<leftarrow>rows. if p = k then n else 0)"
proof (induction rows usage rule: sum_usage.induct)
  case (2 r p n rows usage)
  then show ?case by (auto simp: Let_def map_count_add split: if_splits)
qed simp

lemma sint_of_small: "n < 2 ^ 63 \<Longrightarrow> sint (of_nat n :: int64) = int n"
  by (simp add: signed_of_nat signed_take_bit_int_eq_self)

lemma in_use_bound: "in_use P db \<le> length (db_tasks db)"
  unfolding in_use_def tasks_of_def by (metis length_filter_le length_map)

lemma usage_counts:
  assumes run: "initiativeSchedulingUsage s = (Inr usage, s')" and small: "length (db_tasks (tx_view s)) < 2 ^ 63"
  shows "sint (given_Host usage) = int (in_use (\<lambda>_. True) (tx_view s))"
    "sint (map_count (given_Repositories usage) r) = int (in_use (\<lambda>t. task_RepositoryID t = r) (tx_view s))"
    "sint (map_count (given_WorkerProfiles usage) p) = int (in_use (\<lambda>t. task_WorkerProfileID t = p) (tx_view s))"
    "usage_natural usage"
proof -
  let ?zero = "\<lparr>given_Host = 0, given_Repositories = fmempty, given_WorkerProfiles = fmempty\<rparr> :: InitiativeSchedulingUsage"
  from run have sum: "sum_usage (usage_rows (tx_view s)) ?zero = Inr usage"
    unfolding initiativeSchedulingUsage_def by (auto simp: tx_ok)
  have fits: "in_use P (tx_view s) < 2 ^ 63" for P using in_use_bound [of P "tx_view s"] small by simp
  have all: "(\<Sum>(r, p, n)\<leftarrow>usage_rows (tx_view s). n) = in_use (\<lambda>_. True) (tx_view s)"
    using usage_rows_sum [of "\<lambda>_ _. True" "tx_view s"] by simp
  note counted = sum_usage_Inr [OF sum]
  have zero: "map_count fmempty k = (0 :: int64)" for k by (simp add: map_count_def)
  show "sint (given_Host usage) = int (in_use (\<lambda>_. True) (tx_view s))"
    using counted [of "[]"] fits by (simp add: all sint_of_small)
  show "sint (map_count (given_Repositories usage) r) = int (in_use (\<lambda>t. task_RepositoryID t = r) (tx_view s))"
    using counted [of r] fits usage_rows_sum [of "\<lambda>r' _. r' = r" "tx_view s"] by (simp add: sint_of_small zero)
  show p: "sint (map_count (given_WorkerProfiles usage) p) = int (in_use (\<lambda>t. task_WorkerProfileID t = p) (tx_view s))" for p
    using counted [of p] fits usage_rows_sum [of "\<lambda>_ p'. p' = p" "tx_view s"] by (simp add: sint_of_small zero)
  show "usage_natural usage" unfolding usage_natural_def p by simp
qed

section \<open>What the frontier grants\<close>

lemma admit_target:
  "admit goal ls (usage, selected) = Inl (True, reason) \<Longrightarrow>
     \<exists>l\<in>set ls. fact_taskHandle l = goal_target goal \<and> resource_free (goal_limits goal) usage l"
proof (induction ls arbitrary: usage selected)
  case (Cons l ls)
  show ?case
  proof (cases "resource_free (goal_limits goal) usage l \<and> fact_taskHandle l \<noteq> goal_target goal")
    case True
    with Cons.prems have "admit goal ls (take_resource l usage, selected + 1) = Inl (True, reason)" by (simp split: if_splits)
    from Cons.IH [OF this] free_antimono [of "goal_limits goal" usage l] True show ?thesis by auto
  qed (use Cons in \<open>auto split: if_splits\<close>)
qed simp

lemma frontier_grants:
  assumes run: "initiativeSchedulingFrontier task reason limits usage s = (Inr (True, why), s')"
    and sound: "launch_sound (tx_view s)" and natural: "usage_natural usage"
  obtains l where "l \<in> set (db_launch_facts (tx_view s))" "fact_taskHandle l = task_Handle task" "resource_free limits usage l"
proof -
  let ?goal = "\<lparr>goal_target = task_Handle task, goal_reason = reason, goal_limits = limits,
        goal_available = lim_MaxConcurrentTasks limits - given_Host usage\<rparr>"
  from serve_rounds_return [of ?goal "[0..<MaximumInitiativeMembers]" "(usage, 0)" s] obtain r t where
    loop: "serve_rounds ?goal [0..<MaximumInitiativeMembers] (usage, 0) s = Some (r, t)" by blast
  with run have r: "r = Inr (True, why)" by (simp add: initiativeSchedulingFrontier_def frontier_loop_def)
  from rounds_admit [OF _ _ loop [unfolded r] refl natural] sound
  have "(True, why) = (case admit ?goal (facts_in_order (tx_view s) [0..<MaximumInitiativeMembers]) (usage, 0) of
      Inl d \<Rightarrow> d | Inr _ \<Rightarrow> (False, goal_reason ?goal))"
    by (simp add: launch_sound_def)
  then have "admit ?goal (facts_in_order (tx_view s) [0..<MaximumInitiativeMembers]) (usage, 0) = Inl (True, why)"
    by (simp split: sum.splits)
  from admit_target [OF this] obtain l where l: "l \<in> set (facts_in_order (tx_view s) [0..<MaximumInitiativeMembers])"
    "fact_taskHandle l = task_Handle task" "resource_free limits usage l" by auto
  from l(1) have "l \<in> set (db_launch_facts (tx_view s))" by (auto simp: facts_in_order_def round_facts_def)
  with l show thesis by (intro that)
qed

lemma target_fact_ok:
  assumes run: "initiativeLaunchFactForTask task s = (Inr found, s')"
    and l: "l \<in> set (db_launch_facts (tx_view s))" "fact_taskHandle l = task_Handle task"
    and handles: "distinct (map fact_taskHandle (db_launch_facts (tx_view s)))"
  shows "fact_repositoryID l = task_RepositoryID task \<and> fact_workerProfileID l = task_WorkerProfileID task"
proof -
  let ?find = "find (\<lambda>l. fact_taskHandle l = task_Handle task) (db_launch_facts (tx_view s))"
  from l obtain row where row: "?find = Some row" by (cases ?find) (auto simp: find_None_iff)
  with l handles have "row = l" by (auto simp: distinct_map inj_on_def dest!: find_SomeD)
  moreover from run row have "fact_repositoryID row = task_RepositoryID task" "fact_workerProfileID row = task_WorkerProfileID task"
    unfolding initiativeLaunchFactForTask_def
    by (auto simp: tx_ok scanInitiativeLaunchFact_def ensure_def split: if_splits option.splits)
  ultimately show ?thesis by simp
qed

text \<open>An authority for a member of an initiative, on launch tables that are in step.\<close>

lemma authority_has_room:
  assumes run: "authorizeInitiativeTaskStart u task limits s = (Inr a, s')"
    and member: "containing_initiatives (task_Handle task) (tx_view s) \<noteq> []"
    and sound: "launch_sound (tx_view s)" and small: "length (db_tasks (tx_view s)) < 2 ^ 63"
  obtains l where "limits = Some l"
    "int (in_use (\<lambda>_. True) (tx_view s)) < sint (lim_MaxConcurrentTasks l)"
    "int (in_use (\<lambda>t. task_RepositoryID t = task_RepositoryID task) (tx_view s)) < sint (lim_MaxConcurrentTasksPerRepository l)"
    "int (in_use (\<lambda>t. task_WorkerProfileID t = task_WorkerProfileID task) (tx_view s)) <
      sint (map_count (lim_WorkerProfileLimits l) (task_WorkerProfileID task))"
proof -
  obtain found s1 where joined: "initiativeForTask (task_Handle task) s = (Inr found, s1)"
    using run unfolding authorizeInitiativeTaskStart_def andThen_ok within_ok by blast
  have v1: "tx_view s1 = tx_view s" using readsD [OF reads_initiative(1) joined] by simp
  from joined obtain rows s0 where rows: "select (containing_initiatives (task_Handle task)) s = (Inr rows, s0)"
    and scanned: "(case rows of [] \<Rightarrow> give None | initiative # others \<Rightarrow>
         andThen (within ''read initiative membership'' (yield (scanInitiative initiative))) (\<lambda>initiative.
         if others \<noteq> [] then refuse (PlainError ''read initiative membership: task belongs to multiple initiatives'')
         else give (Some initiative))) s0 = (Inr found, s1)"
    unfolding initiativeForTask_def andThen_ok [where m = "within _ (select _)"] within_ok
    by (elim exE conjE) (rule that)
  from rows member have "rows \<noteq> []" by auto
  with scanned obtain i where found: "found = Some i" by (cases rows) (auto simp: tx_ok split: if_splits)
  define rest where "rest i l = andThen (within ''authorize initiative task start facts'' (refreshInitiativeLaunchFacts u i)) (\<lambda>_.
        andThen (within ''authorize initiative task start capacity'' initiativeSchedulingUsage) (\<lambda>usage.
        andThen (within ''authorize initiative task start schedule'' (yield (ScheduleInitiativesWithUsage u [] [] [] l usage))) (\<lambda>_.
        if sint (lim_MaxConcurrentTasks l) \<le> sint (given_Host usage)
        then refuse (not_launchable (schedule_reason_text ScheduleResourceQueued))
        else
        andThen (within ''authorize initiative task start decision''
          (initiativeSchedulingCandidates u i (task_Handle task) l usage)) (\<lambda>(candidates, reason).
        andThen (within ''authorize initiative task start target fact'' (initiativeLaunchFactForTask task)) (\<lambda>targetFact.
        andThen (require (case targetFact of
            None \<Rightarrow> None
          | Some f \<Rightarrow> fail_if (fact_initiativeHandle f \<noteq> ini_Handle i)
              (PlainError ''authorize initiative task start: launch fact initiative differs''))) (\<lambda>_.
        andThen (within ''authorize initiative task start fleet''
          (initiativeSchedulingFrontier task (if targetFact \<noteq> None then ScheduleResourceQueued else reason) l usage)) (\<lambda>(launchable, reason).
        if launchable then give ()
        else if reason \<noteq> no_reason then refuse (not_launchable (schedule_reason_text reason))
        else refuse (not_launchable ''initiative is not launchable''))))))))" for i l
  have "authorizeInitiativeTaskStart u task limits = andThen (within ''authorize initiative task start membership''
      (initiativeForTask (task_Handle task))) (\<lambda>found. case found of None \<Rightarrow> give () | Some i \<Rightarrow> (case limits of
        None \<Rightarrow> refuse (not_launchable ''reviewed scheduling limits are unavailable'')
      | Some l \<Rightarrow> if ini_State i \<noteq> InitiativeActive then refuse (not_launchable ''initiative is not active'') else rest i l))"
    unfolding authorizeInitiativeTaskStart_def rest_def by (rule refl)
  with run joined found obtain l where l: "limits = Some l" and rest: "rest i l s1 = (Inr a, s')"
    by (cases limits) (auto simp: andThen_def within_def refuse_def split: if_splits)
  from rest obtain b s2 usage s3 c s4 d s5 targetFact s6 e s7 g s8 where
    refresh: "refreshInitiativeLaunchFacts u i s1 = (Inr b, s2)" and usage: "initiativeSchedulingUsage s2 = (Inr usage, s3)"
    and host: "\<not> sint (lim_MaxConcurrentTasks l) \<le> sint (given_Host usage)"
    and same: "s4 = s3" and candidates: "initiativeSchedulingCandidates u i (task_Handle task) l usage s4 = (Inr d, s5)"
    and target: "initiativeLaunchFactForTask task s5 = (Inr targetFact, s6)" and same': "s7 = s6"
    and frontier: "initiativeSchedulingFrontier task (if targetFact \<noteq> None then ScheduleResourceQueued else snd d) l usage s7 = (Inr g, s8)"
    and granted: "fst g"
    unfolding rest_def inversion by (elim exE conjE) (rule that, (assumption | simp add: tx_ok split: if_splits)+)
  have core: "core_part (tx_view s2) = core_part (tx_view s)" using leavesD [OF refresh_leaves_core refresh] v1 by simp
  then have tasks: "tasks_of (tx_view s2) = tasks_of (tx_view s)" by (simp add: core_part_def)
  then have "length (db_tasks (tx_view s2)) = length (db_tasks (tx_view s))" by (metis tasks_of_def length_map)
  with small have small2: "length (db_tasks (tx_view s2)) < 2 ^ 63" by simp
  have in_use: "in_use P (tx_view s2) = in_use P (tx_view s)" for P by (simp add: in_use_def tasks)
  have sound2: "launch_sound (tx_view s2)" using keepsD [OF refresh_keeps(1) refresh] sound v1 by simp
  have v: "tx_view s5 = tx_view s2" "tx_view s7 = tx_view s2"
    using readsD [OF authority_reads(2) usage] readsD [OF authority_reads(3) candidates] readsD [OF authority_reads(1) target] same same' by simp_all
  note counts = usage_counts [OF usage small2, unfolded in_use]
  from frontier granted obtain why where
    "initiativeSchedulingFrontier task (if targetFact \<noteq> None then ScheduleResourceQueued else snd d) l usage s7 = (Inr (True, why), s8)"
    by (cases g) simp
  from frontier_grants [OF this] sound2 v(2) counts(4) obtain f where
    f: "f \<in> set (db_launch_facts (tx_view s2))" "fact_taskHandle f = task_Handle task" "resource_free l usage f" by auto
  have "fact_repositoryID f = task_RepositoryID task \<and> fact_workerProfileID f = task_WorkerProfileID task"
    using target_fact_ok [OF target] f sound2 v(1) by (simp add: launch_sound_iff facts_ok_def)
  with f(3) have "sint (map_count (given_Repositories usage) (task_RepositoryID task)) < sint (lim_MaxConcurrentTasksPerRepository l)"
    "sint (map_count (given_WorkerProfiles usage) (task_WorkerProfileID task)) < sint (map_count (lim_WorkerProfileLimits l) (task_WorkerProfileID task))"
    by (simp_all add: resource_free_def)
  with host l counts that show thesis by (simp add: not_le)
qed

section \<open>The frontier returns, and decides as one pass\<close>

text \<open>
  C10.  The frontier always returns.  For every goal, usage and database state, whatever the driver does, the
  search over the rounds, which loads pages of heads and follows the facts of a resource while their order
  asks for it, ends with a decision or an error.
\<close>

theorem frontier_returns: "\<exists>r s'. frontier_loop goal usage s = Some (r, s')"
  using serve_rounds_return [of goal "[0..<MaximumInitiativeMembers]" "(usage, 0)" s]
  unfolding frontier_loop_def by blast

text \<open>
  C8.  The frontier decides as one ordered pass.  On launch tables that are in step and readable, with a
  driver that fails nowhere, the search by pages of heads and a queue of their successors returns exactly
  the decision of one pass over all facts, round by round and in order, that takes every fact whose
  repository and worker profile have room.
\<close>

theorem frontier_is_one_pass:
  assumes "serene s" "usage_natural usage"
  shows "frontier_loop goal usage s = Some (Inr
    (case admit goal (facts_in_order (tx_view s) [0..<MaximumInitiativeMembers]) (usage, 0) of
       Inl decision \<Rightarrow> decision | Inr _ \<Rightarrow> (False, goal_reason goal)), s)"
  using assms by (rule frontier_one_pass)

definition sample_fact :: "nat \<Rightarrow> string \<Rightarrow> initiativeLaunchFact" where
  "sample_fact turn handle = \<lparr>fact_taskHandle = handle, fact_initiativeHandle = ''init-1'', fact_createdAt = ''2026-01-01T00:00:00Z'',
     fact_round = turn, fact_repositoryID = ''repo-1'', fact_workerProfileID = ''profile-1''\<rparr>"

definition launch_fleet :: "durable tx_state" where
  "launch_fleet = (let db = empty_store\<lparr>db_launch_facts := [sample_fact 1 ''task-2'', sample_fact 0 ''task-1''],
       db_launch_heads := [sample_fact 0 ''task-1'', sample_fact 1 ''task-2'']\<rparr>
     in \<lparr>tx_durable = db, tx_view = db, tx_faults = []\<rparr>)"

definition sample_goal :: frontier_goal where
  "sample_goal = \<lparr>goal_target = ''task-2'', goal_reason = ScheduleResourceQueued,
     goal_limits = \<lparr>lim_MaxConcurrentTasks = 2, lim_MaxConcurrentTasksPerRepository = 1,
       lim_WorkerProfileLimits = fmap_of_list [(''profile-1'', 2)]\<rparr>, goal_available = 2\<rparr>"

lemma sample_facts_scan: "scanInitiativeLaunchFact (sample_fact 0 ''task-1'') = Inr (sample_fact 0 ''task-1'')"
  "scanInitiativeLaunchFact (sample_fact 1 ''task-2'') = Inr (sample_fact 1 ''task-2'')"
  by code_simp+

lemma launch_fleet_parts:
  "db_launch_facts (tx_view launch_fleet) = [sample_fact 1 ''task-2'', sample_fact 0 ''task-1'']"
  "db_launch_heads (tx_view launch_fleet) = [sample_fact 0 ''task-1'', sample_fact 1 ''task-2'']" "calm launch_fleet"
  by (simp_all add: launch_fleet_def Let_def)

lemma sample_fact_sel [simp]: "fact_taskHandle (sample_fact n h) = h" "fact_round (sample_fact n h) = n"
  "fact_createdAt (sample_fact n h) \<noteq> []" "fact_repositoryID (sample_fact n h) = ''repo-1''"
  "fact_workerProfileID (sample_fact n h) = ''profile-1''"
  by (simp_all add: sample_fact_def)

lemma two_heads: "fact_round a \<noteq> fact_round b \<Longrightarrow> filter (\<lambda>h. fact_key h = key) [a, b] = first_fact key [b, a]"
  by (auto simp: first_fact_def fact_key_def)

lemma sample_serene: "serene launch_fleet" "usage_natural idle"
proof -
  have "launch_tables_ok (tx_view launch_fleet)"
    unfolding launch_tables_ok_def launch_fleet_parts by (intro conjI allI two_heads) simp_all
  then show "serene launch_fleet"
    using sample_facts_scan
    by (simp add: serene_def launch_sound_def dated_facts_def readable_facts_def launch_fleet_parts)
  show "usage_natural idle" by (simp add: usage_natural_def map_count_def)
qed

theorem frontier_is_one_pass_witness:
  "frontier_loop sample_goal idle launch_fleet = Some (Inr (False, ScheduleResourceQueued), launch_fleet)"
proof -
  have rounds: "round_facts (tx_view launch_fleet) turn =
      (if turn = 0 then [sample_fact 0 ''task-1''] else if turn = 1 then [sample_fact 1 ''task-2''] else [])" for turn
    by (simp add: round_facts_def launch_fleet_parts)
  have "[0..<MaximumInitiativeMembers] = 0 # 1 # [2..<MaximumInitiativeMembers]"
    by (simp add: MaximumInitiativeMembers_def upt_conv_Cons numeral_2_eq_2)
  then have order: "facts_in_order (tx_view launch_fleet) [0..<MaximumInitiativeMembers] = [sample_fact 0 ''task-1'', sample_fact 1 ''task-2'']"
    by (simp add: facts_in_order_def rounds)
  show ?thesis
    using frontier_is_one_pass [OF sample_serene, of sample_goal]
    unfolding order by (simp add: sample_goal_def resource_free_def take_resource_def map_count_add map_count_simps)
qed

section \<open>Starts stay under the ceilings\<close>

lemma in_use_moved:
  assumes one: "one_row t ts" and tasks: "tasks_of db' = move_in t ts" "tasks_of db = ts"
    and P: "\<And>old. P (moved_from t old) \<Longrightarrow> P old"
  shows "in_use P db' \<le> in_use P db + 1"
proof -
  have "length (filter (\<lambda>x. task_State x \<in> set scheduling_states \<and> P x) (move_in t xs)) \<le>
      length (filter (\<lambda>x. task_State x \<in> set scheduling_states \<and> P x) xs) + length (filter (\<lambda>x. task_Handle x = task_Handle t) xs)" for xs
    by (induction xs) (auto simp: move_in_def dest: P)
  from this [of ts] show ?thesis using one tasks by (simp add: in_use_def one_row_def)
qed

text \<open>
  C9.  A member of an initiative starts only under the ceilings.  When a new start succeeds for such a
  task, the scheduling limits were given, and in the resulting database the tasks in use stay within the
  limit of the host, those of its repository within the limit of a repository, and those of its worker
  profile within the limit of that profile.
\<close>

theorem start_keeps_ceilings:
  assumes "CommitTaskStart u m db faults = (Inr x, db')" "find_operation (start_OperationID m) db = None"
    and "containing_initiatives (start_TaskHandle m) db \<noteq> []"
    and "launch_sound db" "length (db_tasks db) < 2 ^ 63"
  shows "\<exists>limits. start_SchedulingLimits m = Some limits \<and>
    int (in_use (\<lambda>_. True) db') \<le> sint (lim_MaxConcurrentTasks limits) \<and>
    int (in_use (\<lambda>t. task_RepositoryID t = task_RepositoryID (res_Task x)) db') \<le> sint (lim_MaxConcurrentTasksPerRepository limits) \<and>
    int (in_use (\<lambda>t. task_WorkerProfileID t = task_WorkerProfileID (res_Task x)) db') \<le>
      sint (map_count (lim_WorkerProfileLimits limits) (task_WorkerProfileID (res_Task x)))"
  using assms(1) unfolding CommitTaskStart_def
proof (rule skeleton_success)
  show "commits_last (commit_new_start u m)" by (rule commits_last_start)
  show "reads (mutationResult u oper)" for oper by (rule reads_task)
  fix s s'
  assume "commit_new_start u m s = (Inr x, s')" and view: "tx_view s = db" "tx_view s' = db'"
  from commit_new_start_ok [OF this(1)] obtain task s1 a s2 moved v s3 b s4 c s5 where
    get: "getTask u (start_TaskHandle m) s = (Inr task, s1)"
    and auth: "authorizeInitiativeTaskStart u task (start_SchedulingLimits m) s1 = (Inr a, s2)"
    and step: "ApplyTransition u task TransitionLaunchRequested (start_At m) = (moved, None)"
    and version: "nextMutationStateVersion s2 = (Inr v, s3)"
    and writes: "updateTaskState u (moved\<lparr>task_StateVersion := v\<rparr>) s3 = (Inr b, s4)"
      "insertOperation (completedMutationOperation (start_OperationID m) ''StartTask'' (start_SubjectDigest m)
       (task_Handle moved) v (start_At m)) s4 = (Inr c, s5)"
    and x: "tx_view s' = tx_view s5" "res_Task x = moved\<lparr>task_StateVersion := v\<rparr>"
    and "res_Operation x = completedMutationOperation (start_OperationID m) ''StartTask'' (start_SubjectDigest m) (task_Handle moved) v (start_At m)" .
  let ?t = "moved\<lparr>task_StateVersion := v\<rparr>"
  have v1: "tx_view s1 = db" using readsD [OF reads_task(1) get] view by simp
  have handle: "task_Handle task = start_TaskHandle m" using returnsD [OF returns_getTask get] by simp
  have "containing_initiatives (task_Handle task) (tx_view s1) \<noteq> []" "launch_sound (tx_view s1)" "length (db_tasks (tx_view s1)) < 2 ^ 63"
    using assms(3-5) handle v1 by simp_all
  from authority_has_room [OF auth this] obtain l where l: "start_SchedulingLimits m = Some l"
    and room: "int (in_use (\<lambda>_. True) db) < sint (lim_MaxConcurrentTasks l)"
      "int (in_use (\<lambda>t. task_RepositoryID t = task_RepositoryID task) db) < sint (lim_MaxConcurrentTasksPerRepository l)"
      "int (in_use (\<lambda>t. task_WorkerProfileID t = task_WorkerProfileID task) db) <
        sint (map_count (lim_WorkerProfileLimits l) (task_WorkerProfileID task))"
    unfolding v1 by blast
  have "core_part (tx_view s3) = core_part db"
    using leavesD [OF authority_leaves_core auth] nextMutationStateVersion_ok(1) [OF version] v1 by simp
  then have tasks3: "tasks_of (tx_view s3) = tasks_of db" by (simp add: core_part_def)
  note w = update_and_record [OF writes, unfolded tasks3]
  have after: "tasks_of db' = move_in ?t (tasks_of db)" using w(1) x(1) view(2) by simp
  have "in_use P db' \<le> in_use P db + 1" if "\<And>old. P (moved_from ?t old) \<Longrightarrow> P old" for P
    by (rule in_use_moved [OF w(7) after refl that])
  from this [of "\<lambda>_. True"] this [of "\<lambda>t. task_RepositoryID t = task_RepositoryID task"]
    this [of "\<lambda>t. task_WorkerProfileID t = task_WorkerProfileID task"]
  have more: "in_use (\<lambda>_. True) db' \<le> in_use (\<lambda>_. True) db + 1"
    "in_use (\<lambda>t. task_RepositoryID t = task_RepositoryID task) db' \<le> in_use (\<lambda>t. task_RepositoryID t = task_RepositoryID task) db + 1"
    "in_use (\<lambda>t. task_WorkerProfileID t = task_WorkerProfileID task) db' \<le> in_use (\<lambda>t. task_WorkerProfileID t = task_WorkerProfileID task) db + 1"
    by (simp_all add: moved_from_def)
  have "task_RepositoryID ?t = task_RepositoryID task" "task_WorkerProfileID ?t = task_WorkerProfileID task"
    using step by (auto simp: ApplyTransition_accepts stepped_def)
  with l room more show ?thesis unfolding x(2) by auto
qed (use assms(2) in simp)

theorem start_keeps_ceilings_witness:
  "\<exists>x db'. CommitTaskStart (\<lambda>_. True) sample_start member_store [] = (Inr x, db') \<and>
     int (in_use (\<lambda>_. True) db') \<le> sint (lim_MaxConcurrentTasks sample_limits)"
proof -
  obtain x db' where run: "CommitTaskStart (\<lambda>_. True) sample_start member_store [] = (Inr x, db')" by (rule member_start)
  have start: "start_OperationID sample_start = ''op-2''" "start_TaskHandle sample_start = ''task-1''" "start_SchedulingLimits sample_start = Some sample_limits"
    by (simp_all add: sample_start_def)
  have "find_operation (start_OperationID sample_start) member_store = None"
    by (simp add: find_operation_def member_store_parts start sample_operation_def)
  moreover have "containing_initiatives (start_TaskHandle sample_start) member_store \<noteq> []"
    using member_store_parts(8) by (simp add: containing_initiatives_def member_view_def start)
  moreover have "launch_sound member_store"
    by (simp add: launch_sound_def launch_tables_ok_def dated_facts_def member_store_parts first_fact_def)
  ultimately have "\<exists>limits. start_SchedulingLimits sample_start = Some limits \<and>
    int (in_use (\<lambda>_. True) db') \<le> sint (lim_MaxConcurrentTasks limits) \<and>
    int (in_use (\<lambda>t. task_RepositoryID t = task_RepositoryID (res_Task x)) db') \<le> sint (lim_MaxConcurrentTasksPerRepository limits) \<and>
    int (in_use (\<lambda>t. task_WorkerProfileID t = task_WorkerProfileID (res_Task x)) db') \<le>
      sint (map_count (lim_WorkerProfileLimits limits) (task_WorkerProfileID (res_Task x)))"
    by (intro start_keeps_ceilings [OF run]) (simp_all add: member_store_parts)
  with run start(3) show ?thesis by auto
qed

text \<open>
  C11.  The launch tables stay in step.  From tables where every resource that has launch facts has its first
  fact, and no other, as its head, where a task has at most one fact and every fact is dated, any sequence
  of commands with any driver behaviour leads to such tables.
\<close>

theorem launch_tables_stay_in_step:
  assumes "launch_sound db"
  shows "launch_sound (run_history u h db)"
  using assms by (rule history_keeps_launch_sound)

theorem launch_tables_stay_in_step_witness:
  "launch_sound (run_history (\<lambda>_. True) [(DoStart sample_start, []), (DoPause sample_mutation, [])] member_store)"
  by (rule launch_tables_stay_in_step)
     (simp add: launch_sound_def launch_tables_ok_def dated_facts_def member_store_parts first_fact_def)

text \<open>
  C38.  A task outside every initiative has no ceiling.  Whether limits are given or not, and whatever is in
  use on the host, in its repository or by its worker profile, the authority to start it is granted without
  reading either, and nothing changes.
\<close>

theorem standalone_start_ignores_ceilings:
  assumes "containing_initiatives (task_Handle task) (tx_view s) = []" "calm s"
  shows "authorizeInitiativeTaskStart u task limits s = (Inr (), s)"
  using assms by (simp add: authorizeInitiativeTaskStart_def initiativeForTask_def andThen_def within_def tx_run)

theorem standalone_start_ignores_ceilings_witness:
  "authorizeInitiativeTaskStart (\<lambda>_. True) ready_task None \<lparr>tx_durable = sample_store TaskWorking, tx_view = sample_store TaskWorking, tx_faults = []\<rparr> =
     (Inr (), \<lparr>tx_durable = sample_store TaskWorking, tx_view = sample_store TaskWorking, tx_faults = []\<rparr>)"
  by (rule standalone_start_ignores_ceilings) (simp_all add: containing_initiatives_def sample_store_def empty_store_def)

end
