(* ===== verification/Wire_Json.thy ===== *)
theory Wire_Json
  imports
    Go_Text
    "HOL-Library.Multiset"
begin

text \<open>
  JSON documents as \<open>src/internal/comiswire\<close> handles them (\<open>json_names.go\<close> and the decoding
  helpers of \<open>validation.go\<close>).  A document is the tree that \<open>encoding/json\<close> reads with
  \<open>UseNumber\<close>: a string is its bytes, a number is the text of its literal, an object is the list
  of its members in the order of the document, duplicates included.  A byte slice is
  \<open>contents\<close>: its length, whether \<open>utf8.Valid\<close> holds of it, and the one tree the decoder reads from
  it (\<open>None\<close> when the decoder fails or finds a second value behind the first).
\<close>

section \<open>Documents\<close>

datatype json =
    JNull
  | JBool bool
  | JNumber string
  | JString string
  | JArray "json list"
  | JObject "(string \<times> json) list"

record contents =
  bytes_length :: nat
  utf8_valid :: bool
  parsed :: "json option"

datatype wire_error =
    NotUTF8
  | MalformedJSON
  | DuplicateName string
  | SchemaError string string
  | WireError string
  | NumberOutOfRange string

section \<open>Numbers as tokens\<close>

text \<open>
  The token decoder of the scan runs without \<open>UseNumber\<close>, so it reads every number with
  \<open>strconv.ParseFloat\<close>, which refuses a value that rounds to an infinity: one that is not below the
  middle between the largest float64 and \<open>2 ^ 1024\<close>.  A literal of the JSON grammar is a sign, digits,
  a fraction and an exponent; \<open>ParseFloat\<close> stops counting the exponent's digits at ten thousand.
\<close>

definition is_digit :: "char \<Rightarrow> bool" where
  "is_digit c \<longleftrightarrow> CHR ''0'' \<le> c \<and> c \<le> CHR ''9''"

definition digits_value :: "string \<Rightarrow> nat" where
  "digits_value ds = foldl (\<lambda>n c. 10 * n + (of_char c - 48)) 0 ds"

definition float_exponent :: "string \<Rightarrow> int" where
  "float_exponent t =
     (case t of
        [] \<Rightarrow> 0
      | _ # s \<Rightarrow>
          (let ds = (if s \<noteq> [] \<and> hd s \<in> {CHR ''-'', CHR ''+''} then tl s else s);
               e = int (foldl (\<lambda>n c. if n < 10000 then 10 * n + (of_char c - 48) else n) 0 ds)
           in if s \<noteq> [] \<and> hd s = CHR ''-'' then - e else e))"

definition exceeds_float64 :: "string \<Rightarrow> bool" where
  "exceeds_float64 t =
     (let u = (if t \<noteq> [] \<and> hd t = CHR ''-'' then tl t else t);
          whole = takeWhile is_digit u;
          r = dropWhile is_digit u;
          frac = (if r \<noteq> [] \<and> hd r = CHR ''.'' then takeWhile is_digit (tl r) else []);
          r' = (if r \<noteq> [] \<and> hd r = CHR ''.'' then dropWhile is_digit (tl r) else r);
          m = digits_value (whole @ frac);
          e = float_exponent r' - int (length frac)
      in (2 ^ 1024 - 2 ^ 970) * 10 ^ nat (- e) \<le> m * 10 ^ nat e)"

section \<open>Duplicate names\<close>

text \<open>
  \<open>scanJSONValue\<close> walks the tokens of a document.  In an object a name is compared with the names
  already seen in that object before its value is scanned.
\<close>

fun scanJSONValue :: "json \<Rightarrow> wire_error option"
  and scan_items :: "json list \<Rightarrow> wire_error option"
  and scan_members :: "string set \<Rightarrow> (string \<times> json) list \<Rightarrow> wire_error option" where
  "scanJSONValue (JObject ms) = scan_members {} ms"
| "scanJSONValue (JArray vs) = scan_items vs"
| "scanJSONValue JNull = None"
| "scanJSONValue (JBool b) = None"
| "scanJSONValue (JNumber n) = (if exceeds_float64 n then Some (NumberOutOfRange n) else None)"
| "scanJSONValue (JString s) = None"
| "scan_items [] = None"
| "scan_items (v # vs) =
     (case scanJSONValue v of Some e \<Rightarrow> Some e | None \<Rightarrow> scan_items vs)"
| "scan_members seen [] = None"
| "scan_members seen ((name, v) # ms) =
     (if name \<in> seen then Some (DuplicateName name)
      else case scanJSONValue v of
             Some e \<Rightarrow> Some e
           | None \<Rightarrow> scan_members (insert name seen) ms)"

definition rejectDuplicateJSONNames :: "contents \<Rightarrow> wire_error option" where
  "rejectDuplicateJSONNames c =
     (case parsed c of None \<Rightarrow> Some MalformedJSON | Some v \<Rightarrow> scanJSONValue v)"

definition decodeStrictValue :: "contents \<Rightarrow> wire_error + json" where
  "decodeStrictValue c =
     (if \<not> utf8_valid c then Inl NotUTF8
      else case rejectDuplicateJSONNames c of
             Some e \<Rightarrow> Inl e
           | None \<Rightarrow> (case parsed c of None \<Rightarrow> Inl MalformedJSON | Some v \<Rightarrow> Inr v))"

text \<open>
  What the scan decides: at every depth the names of an object are distinct and no number is out of
  the range of a float64.
\<close>

fun decodable :: "json \<Rightarrow> bool" where
  "decodable (JObject ms) \<longleftrightarrow>
     distinct (map fst ms) \<and> (\<forall>v\<in>set (map snd ms). decodable v)"
| "decodable (JArray vs) \<longleftrightarrow> (\<forall>v\<in>set vs. decodable v)"
| "decodable JNull \<longleftrightarrow> True"
| "decodable (JBool b) \<longleftrightarrow> True"
| "decodable (JNumber n) \<longleftrightarrow> \<not> exceeds_float64 n"
| "decodable (JString s) \<longleftrightarrow> True"

lemma scan_none_iff:
  "scanJSONValue v = None \<longleftrightarrow> decodable v"
  "scan_items vs = None \<longleftrightarrow> (\<forall>v\<in>set vs. decodable v)"
  "scan_members seen ms = None \<longleftrightarrow>
     distinct (map fst ms) \<and> fst ` set ms \<inter> seen = {} \<and> (\<forall>v\<in>set (map snd ms). decodable v)"
  by (induction v and vs and seen ms rule: scanJSONValue_scan_items_scan_members.induct)
    (auto split: option.splits)

lemma decodeStrictValue_Inr:
  "decodeStrictValue c = Inr v \<longleftrightarrow> utf8_valid c \<and> parsed c = Some v \<and> decodable v"
  by (auto simp: decodeStrictValue_def rejectDuplicateJSONNames_def scan_none_iff(1) [symmetric]
      split: option.splits)

section \<open>Comparison\<close>

text \<open>
  \<open>equalJSONValue\<close> compares the encodings.  \<open>json.Marshal\<close> writes the members of a Go map in the
  order of their names and a number as the text it was read from, so two decoded values are equal
  when their trees agree up to the order of members.
\<close>

fun canonical :: "json \<Rightarrow> json" where
  "canonical (JObject ms) = JObject (sort_key fst (map (\<lambda>(n, v). (n, canonical v)) ms))"
| "canonical (JArray vs) = JArray (map canonical vs)"
| "canonical JNull = JNull"
| "canonical (JBool b) = JBool b"
| "canonical (JNumber n) = JNumber n"
| "canonical (JString s) = JString s"

definition is_JBool :: "json \<Rightarrow> bool" where
  "is_JBool v = (case v of JBool _ \<Rightarrow> True | _ \<Rightarrow> False)"

definition equalJSONValue :: "json \<Rightarrow> json \<Rightarrow> bool" where
  "equalJSONValue l r \<longleftrightarrow> canonical l = canonical r"

lemma equalJSONValue_scalar [simp]:
  "equalJSONValue v (JString t) \<longleftrightarrow> v = JString t"
  "equalJSONValue v (JNumber n) \<longleftrightarrow> v = JNumber n"
  "equalJSONValue v (JBool b) \<longleftrightarrow> v = JBool b"
  "equalJSONValue v JNull \<longleftrightarrow> v = JNull"
  by (cases v; auto simp: equalJSONValue_def)+

lemma equalJSONValue_refl [simp]: "equalJSONValue v v"
  by (simp add: equalJSONValue_def)

lemma map_insort_key:
  "(\<And>x. f (g x) = f x) \<Longrightarrow> map g (insort_key f x xs) = insort_key f (g x) (map g xs)"
  by (induction xs) auto

lemma map_sort_key: "(\<And>x. f (g x) = f x) \<Longrightarrow> map g (sort_key f xs) = sort_key f (map g xs)"
  by (induction xs) (simp_all add: map_insort_key)

lemma sort_key_idem: "sort_key f (sort_key f xs) = sort_key f xs"
  by (rule sort_key_id_if_sorted) (rule sorted_sort_key)

lemma set_canonical_members:
  "set (sort_key fst (map (\<lambda>(n, v). (n, canonical v)) ms)) = (\<lambda>(n, v). (n, canonical v)) ` set ms"
  by simp

lemma map_of_canonical_members:
  assumes "distinct (map fst ms)"
  shows "map_of (sort_key fst (map (\<lambda>(n, v). (n, canonical v)) ms)) n = map_option canonical (map_of ms n)"
proof -
  let ?c = "map (\<lambda>(n, v). (n, canonical v)) ms"
  have fsts: "map fst ?c = map fst ms"
    by (simp add: comp_def case_prod_unfold)
  have unsorted: "distinct (map fst ?c)"
    using assms by (simp only: fsts)
  then have "distinct (map fst (sort_key fst ?c))"
    by (metis mset_map mset_sort mset_eq_imp_distinct_iff)
  then have "map_of (sort_key fst ?c) = map_of ?c"
    using unsorted by (rule map_of_inject_set [THEN iffD2]) simp
  then show ?thesis
    by (simp add: map_of_map)
qed

lemma canonical_idem [simp]: "canonical (canonical v) = canonical v"
proof (induction v rule: canonical.induct)
  case (1 ms)
  let ?g = "\<lambda>(n, v). (n, canonical v)"
  have "map ?g (sort_key fst (map ?g ms)) = sort_key fst (map ?g (map ?g ms))"
    by (rule map_sort_key) auto
  also have "map ?g (map ?g ms) = map ?g ms"
    using 1 by (auto simp: case_prod_unfold)
  finally show ?case
    by (simp add: sort_key_idem)
qed auto

lemma equalJSONValue_canonical [simp]: "equalJSONValue (canonical v) w = equalJSONValue v w"
  by (simp add: equalJSONValue_def)

lemma canonical_scalar [simp]:
  "canonical v = JString t \<longleftrightarrow> v = JString t"
  "canonical v = JNumber n \<longleftrightarrow> v = JNumber n"
  "canonical v = JNull \<longleftrightarrow> v = JNull"
  "is_JBool (canonical v) = is_JBool v"
  by (cases v; simp add: is_JBool_def)+

end
