(* ===== verification/Wire_Schema.thy ===== *)
theory Wire_Schema
  imports Wire_Json
begin

text \<open>
  The validation of a wire document against a generated schema
  (\<open>src/internal/comiswire/validation.go\<close>).  \<open>wireSchema\<close> has the fields of the source's struct;
  an absent field is the empty list, the empty string or \<open>None\<close>.  The members of an object are
  visited in the order of the list: Go's order over a map is not fixed, and the verdict is shown
  not to depend on it.  \<open>regexp.Compile\<close> is an argument, \<open>None\<close> when the pattern is refused.
\<close>

section \<open>Numbers\<close>

text \<open>
  \<open>json.Number\<close> keeps the literal, and \<open>big.Rat.SetString\<close> reads it: its value is
  \<open>mantissa * 10 ^ exponent\<close>.  \<open>SetString\<close> refuses an exponent that is not an \<open>int64\<close>, and a power of ten beyond a million
  unless the mantissa is zero.
\<close>

record decimal =
  mantissa :: int
  exponent :: int

definition read_exponent :: "string \<Rightarrow> int option" where
  "read_exponent t =
     (case t of
        [] \<Rightarrow> Some 0
      | _ # s \<Rightarrow>
          (let neg = (s \<noteq> [] \<and> hd s = CHR ''-'');
               ds = (if s \<noteq> [] \<and> hd s \<in> {CHR ''-'', CHR ''+''} then tl s else s);
               e = (if neg then - int (digits_value ds) else int (digits_value ds))
           in if - (2 ^ 63) \<le> e \<and> e < 2 ^ 63 then Some e else None))"

definition SetString :: "string \<Rightarrow> decimal option" where
  "SetString t =
     (let neg = (t \<noteq> [] \<and> hd t = CHR ''-'');
          u = (if neg then tl t else t);
          whole = takeWhile is_digit u;
          r = dropWhile is_digit u;
          frac = (if r \<noteq> [] \<and> hd r = CHR ''.'' then takeWhile is_digit (tl r) else []);
          r' = (if r \<noteq> [] \<and> hd r = CHR ''.'' then dropWhile is_digit (tl r) else r);
          m = int (digits_value (whole @ frac))
      in case read_exponent r' of
           None \<Rightarrow> None
         | Some e \<Rightarrow>
             if m = 0 then Some \<lparr>mantissa = 0, exponent = 0\<rparr>
             else if 1000000 < \<bar>e - int (length frac)\<bar> then None
             else Some \<lparr>mantissa = (if neg then - m else m), exponent = e - int (length frac)\<rparr>)"

definition IsInt :: "decimal \<Rightarrow> bool" where
  "IsInt d \<longleftrightarrow> 0 \<le> exponent d \<or> 10 ^ nat (- exponent d) dvd mantissa d"

text \<open>\<open>Rat.Cmp\<close>, on the common exponent.\<close>

definition scaled :: "int \<Rightarrow> decimal \<Rightarrow> int" where
  "scaled e d = mantissa d * 10 ^ nat (exponent d - e)"

definition Cmp :: "decimal \<Rightarrow> decimal \<Rightarrow> int" where
  "Cmp a b =
     (let e = min (exponent a) (exponent b); x = scaled e a; y = scaled e b
      in if x < y then -1 else if x = y then 0 else 1)"

section \<open>Schemas\<close>

datatype wireSchema = WireSchema
  (AdditionalProperties: "bool option")
  (AnyOf: "wireSchema list")
  (Const: "json option")
  (Enum: "json list")
  (ExclusiveMinimum: "string option")
  (Items: "wireSchema option")
  (Maximum: "string option")
  (MaxItems: "int option")
  (MaxLength: "int option")
  (Minimum: "string option")
  (MinItems: "int option")
  (MinLength: "int option")
  (OneOf: "wireSchema list")
  (Pattern: "string")
  (Properties: "(string \<times> wireSchema) list")
  (Required: "string list")
  (SchemaType: "string")

type_synonym regexp = "string \<Rightarrow> (string \<Rightarrow> bool) option"

lemma size_AnyOf: "size_list size (AnyOf s) < size s"
  by (cases s) simp

lemma size_OneOf: "size_list size (OneOf s) < size s"
  by (cases s) simp

lemma size_Items: "Items s = Some c \<Longrightarrow> size c < size s"
  by (cases s) auto

lemma size_Properties: "map_of (Properties s) n = Some c \<Longrightarrow> size c < size s"
proof -
  assume "map_of (Properties s) n = Some c"
  then have "(n, c) \<in> set (Properties s)"
    by (rule map_of_SomeD)
  then have "size_prod (\<lambda>_. 0) size (n, c) \<le> size_list (size_prod (\<lambda>_. 0) size) (Properties s)"
    by (intro size_list_estimation' [OF _ order_refl])
  then show ?thesis
    by (cases s) simp
qed

lemma size_variant: "v \<in> set vs \<Longrightarrow> size v < size_list size vs"
  by (induction vs) auto

section \<open>Constants, enums, strings and numbers\<close>

definition check_constant :: "wireSchema \<Rightarrow> json \<Rightarrow> string \<Rightarrow> wire_error option" where
  "check_constant s v path =
     (case Const s of
        None \<Rightarrow> None
      | Some k \<Rightarrow>
          first_error
            [fail_if (scanJSONValue k \<noteq> None) (SchemaError path ''constant is not decodable''),
             fail_if (\<not> equalJSONValue v k) (SchemaError path ''differs from its constant'')])"

definition check_enum :: "wireSchema \<Rightarrow> json \<Rightarrow> string \<Rightarrow> wire_error option" where
  "check_enum s v path =
     (if Enum s = [] then None
      else first_error
        [fail_if (list_ex (\<lambda>c. scanJSONValue c \<noteq> None) (Enum s)) (SchemaError path ''enum is not decodable''),
         fail_if (\<not> list_ex (equalJSONValue v) (Enum s)) (SchemaError path ''is outside its closed enum'')])"

text \<open>\<open>strings.ReplaceAll\<close> of the six characters of the escape \<open>u0000\<close> by the four of \<open>x00\<close>.\<close>

fun patternText :: "string \<Rightarrow> string" where
  "patternText [] = []"
| "patternText (c # s) =
     (if take 6 (c # s) = CHR 0x5C # ''u0000'' then (CHR 0x5C # ''x00'') @ patternText (drop 5 s)
      else c # patternText s)"

definition below :: "int option \<Rightarrow> nat \<Rightarrow> bool" where
  "below lo n \<longleftrightarrow> (case lo of None \<Rightarrow> False | Some m \<Rightarrow> int n < m)"

definition above :: "int option \<Rightarrow> nat \<Rightarrow> bool" where
  "above hi n \<longleftrightarrow> (case hi of None \<Rightarrow> False | Some m \<Rightarrow> m < int n)"

definition check_pattern :: "regexp \<Rightarrow> wireSchema \<Rightarrow> string \<Rightarrow> string \<Rightarrow> wire_error option" where
  "check_pattern compile s t path =
     (if Pattern s = [] then None
      else case compile (patternText (Pattern s)) of
             None \<Rightarrow> Some (SchemaError path ''pattern does not compile'')
           | Some matches \<Rightarrow> fail_if (\<not> matches t) (SchemaError path ''does not match its pattern''))"

definition validateWireString :: "regexp \<Rightarrow> wireSchema \<Rightarrow> json \<Rightarrow> string \<Rightarrow> wire_error option" where
  "validateWireString compile s v path =
     (case v of
        JString t \<Rightarrow>
          first_error
            [fail_if (below (MinLength s) (length (runes t))) (SchemaError path ''is too short''),
             fail_if (above (MaxLength s) (length (runes t))) (SchemaError path ''is too long''),
             check_pattern compile s t path]
      | _ \<Rightarrow> Some (SchemaError path ''is not a string''))"

datatype bound_name = BoundMinimum | BoundExclusiveMinimum | BoundMaximum

definition check_bound :: "decimal \<Rightarrow> string \<Rightarrow> string option \<times> bound_name \<times> bool \<Rightarrow> wire_error option" where
  "check_bound d path b =
     (case b of (val, name, inclusive) \<Rightarrow>
        (case val of
           None \<Rightarrow> None
         | Some t \<Rightarrow>
             (case SetString t of
                None \<Rightarrow> Some (SchemaError path ''has an invalid bound'')
              | Some limit \<Rightarrow>
                  (let comparison = Cmp d limit
                   in fail_if
                        ((name = BoundMaximum \<and> 0 < comparison) \<or>
                         (name \<noteq> BoundMaximum \<and> (comparison < 0 \<or> (\<not> inclusive \<and> comparison = 0))))
                        (SchemaError path ''violates a bound'')))))"

definition validateWireNumber :: "wireSchema \<Rightarrow> json \<Rightarrow> string \<Rightarrow> bool \<Rightarrow> wire_error option" where
  "validateWireNumber s v path integer =
     (case v of
        JNumber t \<Rightarrow>
          (case SetString t of
             None \<Rightarrow> Some (SchemaError path ''is not a valid number'')
           | Some d \<Rightarrow>
               first_error
                 (fail_if (integer \<and> \<not> IsInt d) (SchemaError path ''is not an integer'') #
                  map (check_bound d path)
                    [(Minimum s, BoundMinimum, True),
                     (ExclusiveMinimum s, BoundExclusiveMinimum, False),
                     (Maximum s, BoundMaximum, True)]))
      | _ \<Rightarrow> Some (SchemaError path ''is not a number''))"

section \<open>The validator\<close>

definition child_path :: "string \<Rightarrow> string \<Rightarrow> string" where
  "child_path path name = path @ ''.'' @ name"

definition item_path :: "string \<Rightarrow> nat \<Rightarrow> string" where
  "item_path path i = path @ ''['' @ dec_nat i @ '']''"

function validateWireValue :: "regexp \<Rightarrow> wireSchema \<Rightarrow> json \<Rightarrow> string \<Rightarrow> wire_error option"
  and validateWireObject :: "regexp \<Rightarrow> wireSchema \<Rightarrow> json \<Rightarrow> string \<Rightarrow> wire_error option"
  and validateWireArray :: "regexp \<Rightarrow> wireSchema \<Rightarrow> json \<Rightarrow> string \<Rightarrow> wire_error option"
  and validateUnion :: "regexp \<Rightarrow> wireSchema list \<Rightarrow> json \<Rightarrow> string \<Rightarrow> bool \<Rightarrow> wire_error option" where
  "validateWireValue compile s v path =
     (if AnyOf s \<noteq> [] then validateUnion compile (AnyOf s) v path False
      else if OneOf s \<noteq> [] then validateUnion compile (OneOf s) v path True
      else first_error
        [check_constant s v path,
         check_enum s v path,
         (if SchemaType s = ''object'' then validateWireObject compile s v path
          else if SchemaType s = ''array'' then validateWireArray compile s v path
          else if SchemaType s = ''string'' then validateWireString compile s v path
          else if SchemaType s = ''integer'' then validateWireNumber s v path True
          else if SchemaType s = ''number'' then validateWireNumber s v path False
          else if SchemaType s = ''boolean'' then
            fail_if (\<not> is_JBool v) (SchemaError path ''is not a boolean'')
          else if SchemaType s = ''null'' then fail_if (v \<noteq> JNull) (SchemaError path ''is not null'')
          else fail_if (SchemaType s \<noteq> []) (SchemaError path ''uses an unsupported schema type''))])"
| "validateWireObject compile s v path =
     (case v of
        JObject ms \<Rightarrow>
          first_error
            (map (\<lambda>r. fail_if (map_of ms r = None) (SchemaError (child_path path r) ''is required'')) (Required s) @
             map (\<lambda>m. case map_of (Properties s) (fst m) of
                        None \<Rightarrow>
                          fail_if (AdditionalProperties s = Some False)
                            (SchemaError (child_path path (fst m)) ''is unknown'')
                      | Some c \<Rightarrow> validateWireValue compile c (snd m) (child_path path (fst m))) ms)
      | _ \<Rightarrow> Some (SchemaError path ''is not an object''))"
| "validateWireArray compile s v path =
     (case v of
        JArray vs \<Rightarrow>
          first_error
            ([fail_if (below (MinItems s) (length vs)) (SchemaError path ''has too few items''),
              fail_if (above (MaxItems s) (length vs)) (SchemaError path ''has too many items'')] @
             (case Items s of
                None \<Rightarrow> []
              | Some c \<Rightarrow>
                  map (\<lambda>i. validateWireValue compile c (vs ! i) (item_path path i)) [0..<length vs]))
      | _ \<Rightarrow> Some (SchemaError path ''is not an array''))"
| "validateUnion compile variants v path exactlyOne =
     (let matches = length (filter (\<lambda>c. validateWireValue compile c v path = None) variants)
      in fail_if (matches = 0 \<or> (exactlyOne \<and> matches \<noteq> 1))
           (SchemaError path ''does not match its closed union''))"
  by pat_completeness auto
termination
  by (relation "measure (\<lambda>x. case x of
        Inl (Inl (_, s, _, _)) \<Rightarrow> 2 * size s + 1
      | Inl (Inr (_, s, _, _)) \<Rightarrow> 2 * size s
      | Inr (Inl (_, s, _, _)) \<Rightarrow> 2 * size s
      | Inr (Inr (_, vs, _, _, _)) \<Rightarrow> 2 * size_list size vs)")
    (auto dest: size_Items size_Properties size_variant
      intro: size_AnyOf size_OneOf less_imp_le simp: less_Suc_eq_le)

declare validateWireValue.simps [simp del] validateWireObject.simps [simp del]
  validateWireArray.simps [simp del] validateUnion.simps [simp del]

section \<open>Conformance\<close>

text \<open>
  What a schema says of a document, without paths, errors and their order.
\<close>

definition within_bound :: "decimal \<Rightarrow> string option \<Rightarrow> (int \<Rightarrow> bool) \<Rightarrow> bool" where
  "within_bound d bound ok \<longleftrightarrow>
     (\<forall>t. bound = Some t \<longrightarrow> (\<exists>limit. SetString t = Some limit \<and> ok (Cmp d limit)))"

definition number_ok :: "wireSchema \<Rightarrow> json \<Rightarrow> bool \<Rightarrow> bool" where
  "number_ok s v integer \<longleftrightarrow>
     (\<exists>t d. v = JNumber t \<and> SetString t = Some d \<and> (integer \<longrightarrow> IsInt d) \<and>
        within_bound d (Minimum s) (\<lambda>c. 0 \<le> c) \<and>
        within_bound d (ExclusiveMinimum s) (\<lambda>c. 0 < c) \<and>
        within_bound d (Maximum s) (\<lambda>c. c \<le> 0))"

definition string_ok :: "regexp \<Rightarrow> wireSchema \<Rightarrow> json \<Rightarrow> bool" where
  "string_ok compile s v \<longleftrightarrow>
     (\<exists>t. v = JString t \<and>
        (\<forall>m. MinLength s = Some m \<longrightarrow> m \<le> int (length (runes t))) \<and>
        (\<forall>m. MaxLength s = Some m \<longrightarrow> int (length (runes t)) \<le> m) \<and>
        (Pattern s \<noteq> [] \<longrightarrow> (\<exists>matches. compile (patternText (Pattern s)) = Some matches \<and> matches t)))"

definition constant_ok :: "wireSchema \<Rightarrow> json \<Rightarrow> bool" where
  "constant_ok s v \<longleftrightarrow> (\<forall>k. Const s = Some k \<longrightarrow> decodable k \<and> equalJSONValue v k)"

definition enum_ok :: "wireSchema \<Rightarrow> json \<Rightarrow> bool" where
  "enum_ok s v \<longleftrightarrow>
     Enum s = [] \<or>
     (\<forall>c\<in>set (Enum s). decodable c) \<and> (\<exists>c\<in>set (Enum s). equalJSONValue v c)"

function conforms :: "regexp \<Rightarrow> wireSchema \<Rightarrow> json \<Rightarrow> bool" where
  "conforms compile s v \<longleftrightarrow>
     (if AnyOf s \<noteq> [] then \<exists>c\<in>set (AnyOf s). conforms compile c v
      else if OneOf s \<noteq> [] then length (filter (\<lambda>c. conforms compile c v) (OneOf s)) = 1
      else constant_ok s v \<and> enum_ok s v \<and>
        (if SchemaType s = ''object'' then
           (case v of
              JObject ms \<Rightarrow>
                set (Required s) \<subseteq> fst ` set ms \<and>
                (\<forall>m\<in>set ms.
                   case map_of (Properties s) (fst m) of
                     None \<Rightarrow> AdditionalProperties s \<noteq> Some False
                   | Some c \<Rightarrow> conforms compile c (snd m))
            | _ \<Rightarrow> False)
         else if SchemaType s = ''array'' then
           (case v of
              JArray vs \<Rightarrow>
                \<not> below (MinItems s) (length vs) \<and> \<not> above (MaxItems s) (length vs) \<and>
                (case Items s of None \<Rightarrow> True | Some c \<Rightarrow> \<forall>x\<in>set vs. conforms compile c x)
            | _ \<Rightarrow> False)
         else if SchemaType s = ''string'' then string_ok compile s v
         else if SchemaType s = ''integer'' then number_ok s v True
         else if SchemaType s = ''number'' then number_ok s v False
         else if SchemaType s = ''boolean'' then is_JBool v
         else if SchemaType s = ''null'' then v = JNull
         else SchemaType s = []))"
  by pat_completeness auto
termination
  by (relation "measure (\<lambda>(_, s, _). size s)")
    (auto dest: size_Items size_Properties size_variant intro: size_AnyOf size_OneOf less_trans)

declare conforms.simps [simp del]

lemma check_constant_None [simp]: "check_constant s v path = None \<longleftrightarrow> constant_ok s v"
  by (auto simp: check_constant_def constant_ok_def scan_none_iff split: option.splits)

lemma check_enum_None [simp]: "check_enum s v path = None \<longleftrightarrow> enum_ok s v"
  by (auto simp: check_enum_def enum_ok_def scan_none_iff list_ex_iff)

lemma validateWireString_None [simp]:
  "validateWireString compile s v path = None \<longleftrightarrow> string_ok compile s v"
  by (auto simp: validateWireString_def string_ok_def check_pattern_def below_def above_def
      split: json.splits option.splits)

lemma check_bound_None:
  "check_bound d path (b, BoundMinimum, True) = None \<longleftrightarrow> within_bound d b (\<lambda>c. 0 \<le> c)"
  "check_bound d path (b, BoundExclusiveMinimum, False) = None \<longleftrightarrow> within_bound d b (\<lambda>c. 0 < c)"
  "check_bound d path (b, BoundMaximum, True) = None \<longleftrightarrow> within_bound d b (\<lambda>c. c \<le> 0)"
  by (auto simp: check_bound_def within_bound_def Let_def split: option.splits)

lemma validateWireNumber_None [simp]:
  "validateWireNumber s v path integer = None \<longleftrightarrow> number_ok s v integer"
  by (auto simp: validateWireNumber_def number_ok_def check_bound_None split: json.splits option.splits)

lemma validateUnion_None:
  "validateUnion compile variants v path False = None \<longleftrightarrow>
     (\<exists>c\<in>set variants. validateWireValue compile c v path = None)"
  "validateUnion compile variants v path True = None \<longleftrightarrow>
     length (filter (\<lambda>c. validateWireValue compile c v path = None) variants) = 1"
proof -
  have "(n = 0 \<or> True \<and> n \<noteq> 1) \<longleftrightarrow> n \<noteq> 1" for n :: nat
    by auto
  then show "validateUnion compile variants v path True = None \<longleftrightarrow>
      length (filter (\<lambda>c. validateWireValue compile c v path = None) variants) = 1"
    by (simp only: validateUnion.simps Let_def fail_if_None not_not)
qed (auto simp: validateUnion.simps Let_def filter_empty_conv)

lemma first_error_map_None: "first_error (map f xs) = None \<longleftrightarrow> (\<forall>x\<in>set xs. f x = None)"
  by (simp add: first_error_None_iff)

lemma first_error_append_None:
  "first_error (xs @ ys) = None \<longleftrightarrow> first_error xs = None \<and> first_error ys = None"
  by (simp split: option.splits)

lemma case_option_eq_None:
  "(case z of None \<Rightarrow> a | Some c \<Rightarrow> b c) = None \<longleftrightarrow> (case z of None \<Rightarrow> a = None | Some c \<Rightarrow> b c = None)"
  by (cases z) simp_all

lemma validateWireObject_None:
  "validateWireObject compile s (JObject ms) path = None \<longleftrightarrow>
     set (Required s) \<subseteq> fst ` set ms \<and>
     (\<forall>m\<in>set ms. case map_of (Properties s) (fst m) of
        None \<Rightarrow> AdditionalProperties s \<noteq> Some False
      | Some c \<Rightarrow> validateWireValue compile c (snd m) (child_path path (fst m)) = None)"
  by (simp add: validateWireObject.simps first_error_map_None first_error_append_None
      case_option_eq_None map_of_eq_None_iff subset_eq del: first_error_append cong: option.case_cong)

lemma validateWireArray_None:
  "validateWireArray compile s (JArray vs) path = None \<longleftrightarrow>
     \<not> below (MinItems s) (length vs) \<and> \<not> above (MaxItems s) (length vs) \<and>
     (case Items s of
        None \<Rightarrow> True
      | Some c \<Rightarrow> \<forall>i<length vs. validateWireValue compile c (vs ! i) (item_path path i) = None)"
  by (auto simp: validateWireArray.simps first_error_None_iff split: option.splits)

lemma validate_iff_conforms:
  "validateWireValue compile s v path = None \<longleftrightarrow> conforms compile s v"
proof (induction compile s v arbitrary: path rule: conforms.induct)
  case (1 compile s v)
  show ?case
  proof (cases "AnyOf s \<noteq> [] \<or> OneOf s \<noteq> []")
    case True
    then show ?thesis
      using 1(1,2)
      by (auto simp: validateWireValue.simps [of _ s] validateUnion_None conforms.simps [of _ s]
          cong: filter_cong)
  next
    case False
    show ?thesis
    proof (cases v)
      case (JObject ms)
      then show ?thesis
        using 1(3) False
        by (auto simp: validateWireValue.simps [of _ s] validateWireObject_None validateWireArray.simps
            conforms.simps [of _ s] split: option.splits)
    next
      case (JArray vs)
      then show ?thesis
        using 1(4) False
        by (auto simp: validateWireValue.simps [of _ s] validateWireArray_None validateWireObject.simps
            conforms.simps [of _ s] all_set_conv_all_nth split: option.splits)
    qed (use False in \<open>simp_all add: validateWireValue.simps [of _ s] validateWireArray.simps
           validateWireObject.simps conforms.simps [of _ s]\<close>)
  qed
qed

section \<open>The order of members\<close>

lemma constant_ok_canonical [simp]: "constant_ok s (canonical v) = constant_ok s v"
  by (simp add: constant_ok_def)

lemma enum_ok_canonical [simp]: "enum_ok s (canonical v) = enum_ok s v"
  by (simp add: enum_ok_def)

lemma string_ok_canonical [simp]: "string_ok compile s (canonical v) = string_ok compile s v"
  by (simp add: string_ok_def)

lemma number_ok_canonical [simp]: "number_ok s (canonical v) integer = number_ok s v integer"
  by (simp add: number_ok_def)

lemma fst_canonical_members:
  "fst ` set (sort_key fst (map (\<lambda>(n, v). (n, canonical v)) ms)) = fst ` set ms"
  by (force simp: image_image)

lemma conforms_canonical: "conforms compile s (canonical v) = conforms compile s v"
proof (induction compile s v rule: conforms.induct)
  case (1 compile s v)
  show ?case
  proof (cases "AnyOf s \<noteq> [] \<or> OneOf s \<noteq> []")
    case True
    then show ?thesis
      using 1(1,2) by (auto simp: conforms.simps [of _ s] cong: filter_cong)
  next
    case False
    have members: "(\<forall>m\<in>set (sort_key fst (map (\<lambda>(n, v). (n, canonical v)) ms)). Q (fst m) (snd m)) \<longleftrightarrow>
          (\<forall>m\<in>set ms. Q (fst m) (canonical (snd m)))" for Q ms
      by (simp add: case_prod_unfold)
    let ?obj = "\<lambda>v. case v of
        JObject ms \<Rightarrow>
          set (Required s) \<subseteq> fst ` set ms \<and>
          (\<forall>m\<in>set ms. case map_of (Properties s) (fst m) of
             None \<Rightarrow> AdditionalProperties s \<noteq> Some False | Some c \<Rightarrow> conforms compile c (snd m))
      | _ \<Rightarrow> False"
    let ?arr = "\<lambda>v. case v of
        JArray vs \<Rightarrow>
          \<not> below (MinItems s) (length vs) \<and> \<not> above (MaxItems s) (length vs) \<and>
          (case Items s of None \<Rightarrow> True | Some c \<Rightarrow> \<forall>x\<in>set vs. conforms compile c x)
      | _ \<Rightarrow> False"
    have obj: "?obj (canonical v) = ?obj v" if "SchemaType s = ''object''"
    proof (cases v)
      case (JObject ms)
      have "conforms compile c (canonical (snd m)) = conforms compile c (snd m)"
        if "m \<in> set ms" "map_of (Properties s) (fst m) = Some c" for m c
        using 1(3) False JObject \<open>SchemaType s = ''object''\<close> that by simp
      then have "(\<forall>m\<in>set ms. case map_of (Properties s) (fst m) of
             None \<Rightarrow> AdditionalProperties s \<noteq> Some False
           | Some c \<Rightarrow> conforms compile c (canonical (snd m))) \<longleftrightarrow>
          (\<forall>m\<in>set ms. case map_of (Properties s) (fst m) of
             None \<Rightarrow> AdditionalProperties s \<noteq> Some False | Some c \<Rightarrow> conforms compile c (snd m))"
        by (intro ball_cong refl) (simp split: option.splits)
      with JObject members [of ms "\<lambda>n x. case map_of (Properties s) n of
          None \<Rightarrow> AdditionalProperties s \<noteq> Some False | Some c \<Rightarrow> conforms compile c x"]
      show ?thesis
        by (simp only: canonical.simps json.case fst_canonical_members)
    qed simp_all
    have arr: "?arr (canonical v) = ?arr v" if "SchemaType s = ''array''"
      using 1(4) False that by (cases v) (simp_all split: option.splits)
    show ?thesis
      using False by (simp add: conforms.simps [of _ s] obj arr)
  qed
qed

lemma conforms_equal: "equalJSONValue v w \<Longrightarrow> conforms compile s v = conforms compile s w"
  by (metis conforms_canonical equalJSONValue_def)

section \<open>Documents\<close>

text \<open>\<open>validateGeneratedJSON\<close>; the generated schema text is the decoded \<open>wireSchema\<close>.\<close>

definition validateGeneratedJSON :: "regexp \<Rightarrow> wireSchema \<Rightarrow> contents \<Rightarrow> wire_error option" where
  "validateGeneratedJSON compile s c =
     (case decodeStrictValue c of
        Inl e \<Rightarrow> Some e
      | Inr v \<Rightarrow> validateWireValue compile s v ''$'')"

definition MaxLineBytes :: nat where
  "MaxLineBytes = 1441792"

definition validateGeneratedDocument :: "regexp \<Rightarrow> wireSchema \<Rightarrow> contents \<Rightarrow> wire_error option" where
  "validateGeneratedDocument compile s c =
     (if MaxLineBytes < bytes_length c then Some (WireError ''generated document exceeds the line limit'')
      else validateGeneratedJSON compile s c)"

lemma validateGeneratedJSON_None:
  "validateGeneratedJSON compile s c = None \<longleftrightarrow>
     (\<exists>v. utf8_valid c \<and> parsed c = Some v \<and> decodable v \<and> conforms compile s v)"
proof -
  have "validateGeneratedJSON compile s c = None \<longleftrightarrow>
      (\<exists>v. decodeStrictValue c = Inr v \<and> conforms compile s v)"
    by (auto simp: validateGeneratedJSON_def validate_iff_conforms split: sum.splits)
  then show ?thesis
    by (simp add: decodeStrictValue_Inr conj_assoc)
qed

end
