(* ===== verification/Wire_Frames.thy ===== *)
theory Wire_Frames
  imports Wire_Schema Text_Codec
begin

text \<open>
  Frames of the host protocol (\<open>src/internal/comiswire\<close>): how \<open>encoding/json\<close> fills the fields of a
  struct from an object, the payload catalogue of \<open>payload_validation.go\<close>, the failures of
  \<open>control_session.go\<close> with the generated schema of an error response, the routing of an inbound
  frame and the decoding of a response (\<open>unix_client.go\<close>).

  The generated catalogue of \<open>protocol.gen.go\<close> is the argument \<open>schemas\<close>, by the names of its
  constants; the schema of the error response is written out, since the failures of the session are
  validated against it.
\<close>

section \<open>Struct fields\<close>

text \<open>
  \<open>encoding/json\<close> compares the name of a member with the names of the fields without regard to
  case, where the two letters outside ASCII that fold to \<open>s\<close> and \<open>k\<close> count as these.  Several
  members may so name one field; they are stored in the order of the document.
\<close>

definition lower_char :: "char \<Rightarrow> char" where
  "lower_char c = (if upper c then char_of (byte c + 32) else c)"

fun fold_name :: "string \<Rightarrow> string" where
  "fold_name [] = []"
| "fold_name (c # s) =
     (if take 2 (c # s) = [char_of (0xC5 :: nat), char_of (0xBF :: nat)] then CHR ''s'' # fold_name (drop 1 s)
      else if take 3 (c # s) = [char_of (0xE2 :: nat), char_of (0x84 :: nat), char_of (0xAA :: nat)]
      then CHR ''k'' # fold_name (drop 2 s)
      else lower_char c # fold_name s)"

declare fold_name.simps(2) [simp del]

lemma fold_name_ascii: "\<forall>c\<in>set t. byte c < 0x80 \<Longrightarrow> fold_name t = map lower_char t"
proof (induction t)
  case (Cons c t)
  have "c \<noteq> char_of (0xC5 :: nat)" "c \<noteq> char_of (0xE2 :: nat)"
    using Cons.prems by auto
  then show ?case
    using Cons by (simp add: fold_name.simps(2))
qed simp

lemma fold_name_lower: "list_all (\<lambda>c. byte c < 0x80 \<and> \<not> upper c) t \<Longrightarrow> fold_name t = t"
  by (simp add: fold_name_ascii list_all_iff lower_char_def cong: map_cong)

definition members_for :: "string \<Rightarrow> (string \<times> json) list \<Rightarrow> json list" where
  "members_for field ms = map snd (filter (\<lambda>m. fold_name (fst m) = field) ms)"

text \<open>The members a struct is filled from: \<open>null\<close> fills nothing, a scalar is an error.\<close>

definition struct_members :: "json \<Rightarrow> wire_error + (string \<times> json) list" where
  "struct_members v =
     (case v of
        JObject ms \<Rightarrow> Inr ms
      | JNull \<Rightarrow> Inr []
      | _ \<Rightarrow> Inl MalformedJSON)"

definition unknown_field :: "string list \<Rightarrow> (string \<times> json) list \<Rightarrow> bool" where
  "unknown_field names ms \<longleftrightarrow> list_ex (\<lambda>m. fold_name (fst m) \<notin> set names) ms"

text \<open>A \<open>json.RawMessage\<close> field: the last member, \<open>null\<close> included; \<open>None\<close> is the empty slice.\<close>

definition raw_field :: "string \<Rightarrow> (string \<times> json) list \<Rightarrow> json option" where
  "raw_field field ms = (case rev (members_for field ms) of [] \<Rightarrow> None | v # _ \<Rightarrow> Some v)"

definition not_text :: "json \<Rightarrow> bool" where
  "not_text v \<longleftrightarrow> (case v of JString _ \<Rightarrow> False | JNull \<Rightarrow> False | _ \<Rightarrow> True)"

text \<open>A string field: \<open>null\<close> leaves it, anything else but a string is an error.\<close>

definition string_field :: "string \<Rightarrow> (string \<times> json) list \<Rightarrow> wire_error + string" where
  "string_field field ms =
     (let vs = members_for field ms
      in if list_ex not_text vs
         then Inl MalformedJSON
         else Inr (foldl (\<lambda>acc v. case v of JString t \<Rightarrow> t | _ \<Rightarrow> acc) [] vs))"

text \<open>A \<open>*Method\<close> field: \<open>null\<close> sets \<open>nil\<close>.\<close>

definition pointer_field :: "string \<Rightarrow> (string \<times> json) list \<Rightarrow> wire_error + string option" where
  "pointer_field field ms =
     (let vs = members_for field ms
      in if list_ex not_text vs
         then Inl MalformedJSON
         else Inr (foldl (\<lambda>acc v. case v of JString t \<Rightarrow> Some t | _ \<Rightarrow> None) None vs))"

definition JSONRPCVersion :: string where
  "JSONRPCVersion = ''2.0''"

section \<open>The envelope of an inbound frame\<close>

text \<open>
  A frame is a line with one more observation: whether the bytes of its id member are UTF-8.
\<close>

record frame = contents +
  id_utf8 :: bool

record controlFrameHeader =
  header_error :: "json option"
  header_id :: "json option"
  header_jsonrpc :: string
  header_method :: "string option"
  header_result :: "json option"

definition decode_header :: "json \<Rightarrow> wire_error + controlFrameHeader" where
  "decode_header v =
     (case struct_members v of
        Inl e \<Rightarrow> Inl e
      | Inr ms \<Rightarrow>
          (case string_field ''jsonrpc'' ms of
             Inl e \<Rightarrow> Inl e
           | Inr version \<Rightarrow>
               (case pointer_field ''method'' ms of
                  Inl e \<Rightarrow> Inl e
                | Inr mth \<Rightarrow>
                    Inr \<lparr>header_error = raw_field ''error'' ms, header_id = raw_field ''id'' ms,
                         header_jsonrpc = version, header_method = mth,
                         header_result = raw_field ''result'' ms\<rparr>)))"

text \<open>\<open>decodeStrictValue\<close> of a raw member; an absent one has no value to read.\<close>

definition strict_raw :: "bool \<Rightarrow> json option \<Rightarrow> wire_error + json" where
  "strict_raw utf8 r =
     decodeStrictValue \<lparr>bytes_length = 0, utf8_valid = utf8, parsed = r\<rparr>"

datatype routed =
    RouteRequest string
  | RouteResponse string
  | RouteError wire_error

definition route_frame :: "frame \<Rightarrow> routed" where
  "route_frame f =
     (case rejectDuplicateJSONNames (contents.truncate f) of
        Some e \<Rightarrow> RouteError e
      | None \<Rightarrow>
          (case parsed f of
             None \<Rightarrow> RouteError MalformedJSON
           | Some v \<Rightarrow>
               (case decode_header v of
                  Inl e \<Rightarrow> RouteError (WireError ''comis control frame envelope is invalid'')
                | Inr h \<Rightarrow>
                    if header_jsonrpc h \<noteq> JSONRPCVersion
                    then RouteError (WireError ''comis control frame envelope is invalid'')
                    else (case header_method h of
                            Some mth \<Rightarrow> RouteRequest mth
                          | None \<Rightarrow>
                              (case strict_raw (id_utf8 f) (header_id h) of
                                 Inl e \<Rightarrow> RouteError (WireError ''comis control response ID is invalid'')
                               | Inr (JString i) \<Rightarrow> RouteResponse i
                               | Inr _ \<Rightarrow> RouteError (WireError ''comis control response ID is absent''))))))"

section \<open>Failures\<close>

datatype ErrorKind =
    BundleDigestMismatch | DeadlineExceeded | InternalError | InvalidParams | InvalidRequest
  | MethodNotFound | PreconditionFailed | ProtocolMismatch | RateLimited | ReplayConflict
  | SizeLimitExceeded | UnauthorizedInstance | KindOther string

fun ErrorKind_Valid :: "ErrorKind \<Rightarrow> bool" where
  "ErrorKind_Valid (KindOther s) = False"
| "ErrorKind_Valid kind = True"

fun ErrorKind_string :: "ErrorKind \<Rightarrow> string" where
  "ErrorKind_string BundleDigestMismatch = ''bundle_digest_mismatch''"
| "ErrorKind_string DeadlineExceeded = ''deadline_exceeded''"
| "ErrorKind_string InternalError = ''internal_error''"
| "ErrorKind_string InvalidParams = ''invalid_params''"
| "ErrorKind_string InvalidRequest = ''invalid_request''"
| "ErrorKind_string MethodNotFound = ''method_not_found''"
| "ErrorKind_string PreconditionFailed = ''precondition_failed''"
| "ErrorKind_string ProtocolMismatch = ''protocol_mismatch''"
| "ErrorKind_string RateLimited = ''rate_limited''"
| "ErrorKind_string ReplayConflict = ''replay_conflict''"
| "ErrorKind_string SizeLimitExceeded = ''size_limit_exceeded''"
| "ErrorKind_string UnauthorizedInstance = ''unauthorized_instance''"
| "ErrorKind_string (KindOther s) = s"

record RPCError =
  Code :: int64
  Hint :: "string option"
  Kind :: ErrorKind
  Message :: string
  Retryable :: bool

fun failure_code :: "ErrorKind \<Rightarrow> int64" where
  "failure_code BundleDigestMismatch = - 32012"
| "failure_code DeadlineExceeded = - 32017"
| "failure_code InternalError = - 32603"
| "failure_code InvalidParams = - 32602"
| "failure_code InvalidRequest = - 32600"
| "failure_code MethodNotFound = - 32601"
| "failure_code PreconditionFailed = - 32018"
| "failure_code ProtocolMismatch = - 32011"
| "failure_code RateLimited = - 32016"
| "failure_code ReplayConflict = - 32014"
| "failure_code SizeLimitExceeded = - 32015"
| "failure_code UnauthorizedInstance = - 32013"
| "failure_code (KindOther s) = 0"

definition wireFailure :: "ErrorKind \<Rightarrow> string \<Rightarrow> RPCError" where
  "wireFailure kind message =
     \<lparr>Code = failure_code kind, Hint = None, Kind = kind, Message = message,
      Retryable = (kind = DeadlineExceeded \<or> kind = InternalError \<or> kind = RateLimited)\<rparr>"

text \<open>The errors of a handler: \<open>errors.As\<close> looks for an \<open>RPCError\<close> along the wrapped errors.\<close>

datatype handler_error =
    HandlerFailure RPCError
  | HandlerWrap string handler_error
  | HandlerText string

fun errors_As :: "handler_error \<Rightarrow> RPCError option" where
  "errors_As (HandlerFailure failure) = Some failure"
| "errors_As (HandlerWrap prefix cause) = errors_As cause"
| "errors_As (HandlerText message) = None"

definition handlerWireFailure :: "handler_error \<Rightarrow> RPCError" where
  "handlerWireFailure err =
     (case errors_As err of
        Some failure \<Rightarrow>
          if ErrorKind_Valid (Kind failure)
          then wireFailure (Kind failure)
                 (if Message failure = [] \<or> 1024 < length (Message failure)
                  then ''control request rejected'' else Message failure)
          else wireFailure InternalError ''control handler failed''
      | None \<Rightarrow> wireFailure InternalError ''control handler failed'')"

section \<open>The error response\<close>

text \<open>
  \<open>json.Marshal\<close>: quotes, backslashes and controls of a string are escaped, and so are the three
  characters of HTML, the two line separators of Unicode and every invalid byte, which is written as
  the replacement character.  The reader of the encoding gets the valid form of the string.
\<close>

definition rune_text :: "nat \<times> nat \<Rightarrow> string" where
  "rune_text d =
     (case d of (r, w) \<Rightarrow>
        if r = 0x22 \<or> r = 0x5C then [CHR 0x5C, char_of r]
        else if r = 0x08 then [CHR 0x5C, CHR ''b'']
        else if r = 0x0C then [CHR 0x5C, CHR ''f'']
        else if r = 0x0A then [CHR 0x5C, CHR ''n'']
        else if r = 0x0D then [CHR 0x5C, CHR ''r'']
        else if r = 0x09 then [CHR 0x5C, CHR ''t'']
        else if r < 0x20 \<or> r = 0x26 \<or> r = 0x3C \<or> r = 0x3E \<or> r = 0x2028 \<or> r = 0x2029 \<or> (r, w) = (RuneError, 1)
        then CHR 0x5C # CHR ''u'' # hex_digits 4 r
        else utf8_encode r)"

definition marshal_string :: "string \<Rightarrow> string" where
  "marshal_string s = CHR 0x22 # concat (map rune_text (decode_all s)) @ [CHR 0x22]"

fun join_comma :: "string list \<Rightarrow> string" where
  "join_comma [] = []"
| "join_comma [t] = t"
| "join_comma (t # ts) = t @ '','' @ join_comma ts"

fun marshal :: "json \<Rightarrow> string" where
  "marshal JNull = ''null''"
| "marshal (JBool b) = (if b then ''true'' else ''false'')"
| "marshal (JNumber n) = n"
| "marshal (JString s) = marshal_string s"
| "marshal (JArray vs) = ''['' @ join_comma (map marshal vs) @ '']''"
| "marshal (JObject ms) =
     ''{'' @ join_comma (map (\<lambda>(n, v). marshal_string n @ '':'' @ marshal v) ms) @ ''}''"

definition valid_utf8 :: "string \<Rightarrow> string" where
  "valid_utf8 s = concat (map utf8_encode (runes s))"

fun reread :: "json \<Rightarrow> json" where
  "reread (JString s) = JString (valid_utf8 s)"
| "reread (JArray vs) = JArray (map reread vs)"
| "reread (JObject ms) = JObject (map (\<lambda>(n, v). (valid_utf8 n, reread v)) ms)"
| "reread JNull = JNull"
| "reread (JBool b) = JBool b"
| "reread (JNumber n) = JNumber n"

definition encoded :: "json \<Rightarrow> contents" where
  "encoded v = \<lparr>bytes_length = length (marshal v), utf8_valid = True, parsed = Some (reread v)\<rparr>"

definition failure_json :: "RPCError \<Rightarrow> json" where
  "failure_json failure =
     JObject
       ([(''code'', JNumber (FormatInt (Code failure)))] @
        (case Hint failure of None \<Rightarrow> [] | Some h \<Rightarrow> [(''hint'', JString h)]) @
        [(''kind'', JString (ErrorKind_string (Kind failure))),
         (''message'', JString (Message failure)),
         (''retryable'', JBool (Retryable failure))])"

definition error_response_json :: "string option \<Rightarrow> RPCError \<Rightarrow> json" where
  "error_response_json i failure =
     JObject
       [(''error'', failure_json failure),
        (''id'', case i of None \<Rightarrow> JNull | Some t \<Rightarrow> JString t),
        (''jsonrpc'', JString JSONRPCVersion)]"

definition text_schema :: "int \<Rightarrow> int \<Rightarrow> string \<Rightarrow> wireSchema" where
  "text_schema lo hi pattern =
     WireSchema None [] None [] None None None None (Some hi) None None (Some lo) [] pattern [] [] ''string''"

definition const_schema :: "json \<Rightarrow> string \<Rightarrow> wireSchema" where
  "const_schema k type =
     WireSchema None [] (Some k) [] None None None None None None None None [] [] [] [] type"

definition closed_schema :: "(string \<times> wireSchema) list \<Rightarrow> string list \<Rightarrow> wireSchema" where
  "closed_schema props required =
     WireSchema (Some False) [] None [] None None None None None None None None [] [] props required ''object''"

definition one_of_schema :: "wireSchema list \<Rightarrow> wireSchema" where
  "one_of_schema variants =
     WireSchema None [] None [] None None None None None None None None variants [] [] [] []"

definition any_of_schema :: "wireSchema list \<Rightarrow> wireSchema" where
  "any_of_schema variants =
     WireSchema None variants None [] None None None None None None None None [] [] [] [] []"

definition identifier_pattern :: string where
  "identifier_pattern = ''^[A-Za-z0-9][A-Za-z0-9._~-]*$''"

definition failure_schema :: "string \<Rightarrow> string \<Rightarrow> bool \<Rightarrow> wireSchema" where
  "failure_schema code kind retry =
     closed_schema
       [(''code'', const_schema (JNumber code) ''number''),
        (''hint'', text_schema 1 1024 []),
        (''kind'', const_schema (JString kind) ''string''),
        (''message'', text_schema 1 1024 []),
        (''retryable'', const_schema (JBool retry) ''boolean'')]
       [''code'', ''kind'', ''retryable'', ''message'']"

definition schemaErrorResponse :: wireSchema where
  "schemaErrorResponse =
     closed_schema
       [(''error'', one_of_schema
          [failure_schema ''-32012'' ''bundle_digest_mismatch'' False,
           failure_schema ''-32017'' ''deadline_exceeded'' True,
           failure_schema ''-32603'' ''internal_error'' True,
           failure_schema ''-32602'' ''invalid_params'' False,
           failure_schema ''-32600'' ''invalid_request'' False,
           failure_schema ''-32601'' ''method_not_found'' False,
           failure_schema ''-32018'' ''precondition_failed'' False,
           failure_schema ''-32011'' ''protocol_mismatch'' False,
           failure_schema ''-32016'' ''rate_limited'' True,
           failure_schema ''-32014'' ''replay_conflict'' False,
           failure_schema ''-32015'' ''size_limit_exceeded'' False,
           failure_schema ''-32013'' ''unauthorized_instance'' False]),
        (''id'', any_of_schema
          [text_schema 1 128 identifier_pattern,
           WireSchema None [] None [] None None None None None None None None [] [] [] [] ''null'']),
        (''jsonrpc'', const_schema (JString ''2.0'') ''string'')]
       [''jsonrpc'', ''id'', ''error'']"

text \<open>The payload catalogue; the generated schemas are looked up by the names of their constants.\<close>

datatype PayloadTarget =
    PayloadRequest | PayloadAbandonResponse | PayloadActivateResponse | PayloadGroupAbandonResponse
  | PayloadGroupActivateResponse | PayloadCancelResponse | PayloadConsumeApprovalResponse
  | PayloadErrorResponse | PayloadHandshakeResponse | PayloadHealthResponse
  | PayloadPutEvidenceResponse | PayloadAttentionResponse | PayloadReleaseResponse
  | PayloadReportResponse | PayloadTerminalEventResponse | PayloadMCPCallContext
  | PayloadMCPManagedRunGroup | PayloadMCPManagedRunResult | PayloadOther string

fun PayloadTarget_Valid :: "PayloadTarget \<Rightarrow> bool" where
  "PayloadTarget_Valid (PayloadOther t) = False"
| "PayloadTarget_Valid target = True"

type_synonym catalogue = "string \<Rightarrow> wireSchema"

definition request_schemas :: "(string \<times> string) list" where
  "request_schemas =
     [(''capabilityServices.handshake'', ''schemaHandshakeRequest''),
      (''capabilityServices.health'', ''schemaHealthRequest''),
      (''managedRuns.abandon'', ''schemaAbandonRequest''),
      (''managedRuns.activate'', ''schemaActivateRequest''),
      (''managedRunGroups.abandon'', ''schemaGroupAbandonRequest''),
      (''managedRunGroups.activate'', ''schemaGroupActivateRequest''),
      (''managedRunGroups.getHostRollup'', ''schemaGroupGetHostRollupRequest''),
      (''managedRuns.cancel'', ''schemaCancelRequest''),
      (''managedRuns.consumeApproval'', ''schemaConsumeApprovalRequest''),
      (''managedRuns.heartbeat'', ''schemaHeartbeatRequest''),
      (''managedRuns.putEvidence'', ''schemaPutEvidenceRequest''),
      (''managedRuns.receiveAttentionResponse'', ''schemaReceiveAttentionResponseRequest''),
      (''managedRuns.release'', ''schemaReleaseRequest''),
      (''managedRuns.report'', ''schemaReportRequest''),
      (''managedRuns.terminalEvent'', ''schemaTerminalEventRequest'')]"

definition requestContract :: "catalogue \<Rightarrow> contents \<Rightarrow> wire_error + wireSchema" where
  "requestContract schemas c =
     (case rejectDuplicateJSONNames c of
        Some e \<Rightarrow> Inl e
      | None \<Rightarrow>
          (case parsed c of
             None \<Rightarrow> Inl MalformedJSON
           | Some v \<Rightarrow>
               (case struct_members v of
                  Inl e \<Rightarrow> Inl e
                | Inr ms \<Rightarrow>
                    if unknown_field [''id'', ''jsonrpc'', ''method'', ''params''] ms
                    then Inl (WireError ''decode comis request method: unknown field'')
                    else (case string_field ''method'' ms of
                            Inl e \<Rightarrow> Inl e
                          | Inr mth \<Rightarrow>
                              (case map_of request_schemas mth of
                                 Some name \<Rightarrow> Inr (schemas name)
                               | None \<Rightarrow> Inl (WireError ''unknown comis request method''))))))"

fun payloadContract :: "catalogue \<Rightarrow> PayloadTarget \<Rightarrow> contents \<Rightarrow> wire_error + wireSchema" where
  "payloadContract schemas PayloadRequest c = requestContract schemas c"
| "payloadContract schemas PayloadAbandonResponse c = Inr (schemas ''schemaAbandonResponse'')"
| "payloadContract schemas PayloadActivateResponse c = Inr (schemas ''schemaActivateResponse'')"
| "payloadContract schemas PayloadGroupAbandonResponse c = Inr (schemas ''schemaGroupAbandonResponse'')"
| "payloadContract schemas PayloadGroupActivateResponse c = Inr (schemas ''schemaGroupActivateResponse'')"
| "payloadContract schemas PayloadCancelResponse c = Inr (schemas ''schemaCancelResponse'')"
| "payloadContract schemas PayloadConsumeApprovalResponse c = Inr (schemas ''schemaConsumeApprovalResponse'')"
| "payloadContract schemas PayloadErrorResponse c = Inr (schemas ''schemaErrorResponse'')"
| "payloadContract schemas PayloadHandshakeResponse c = Inr (schemas ''schemaHandshakeResponse'')"
| "payloadContract schemas PayloadHealthResponse c = Inr (schemas ''schemaHealthResponse'')"
| "payloadContract schemas PayloadPutEvidenceResponse c = Inr (schemas ''schemaPutEvidenceResponse'')"
| "payloadContract schemas PayloadAttentionResponse c = Inr (schemas ''schemaReceiveAttentionResponseResponse'')"
| "payloadContract schemas PayloadReleaseResponse c = Inr (schemas ''schemaReleaseResponse'')"
| "payloadContract schemas PayloadReportResponse c = Inr (schemas ''schemaReportResponse'')"
| "payloadContract schemas PayloadTerminalEventResponse c = Inr (schemas ''schemaTerminalEventResponse'')"
| "payloadContract schemas PayloadMCPCallContext c = Inr (schemas ''schemaMCPCallContext'')"
| "payloadContract schemas PayloadMCPManagedRunGroup c = Inr (schemas ''schemaMCPManagedRunGroupResult'')"
| "payloadContract schemas PayloadMCPManagedRunResult c = Inr (schemas ''schemaMCPManagedRunResult'')"
| "payloadContract schemas (PayloadOther t) c = Inl (WireError ''unknown comis payload target'')"

definition MaxRequestBytes :: nat where
  "MaxRequestBytes = 1441792"

definition MaxResponseBytes :: nat where
  "MaxResponseBytes = 65536"

definition payload_too_long :: "PayloadTarget \<Rightarrow> contents \<Rightarrow> bool" where
  "payload_too_long target c \<longleftrightarrow>
     target \<notin> {PayloadMCPCallContext, PayloadMCPManagedRunGroup, PayloadMCPManagedRunResult} \<and>
     ((if target = PayloadRequest then MaxRequestBytes else MaxResponseBytes) < bytes_length c \<or>
      MaxLineBytes < bytes_length c + 1)"

definition ValidatePayload :: "regexp \<Rightarrow> catalogue \<Rightarrow> PayloadTarget \<Rightarrow> contents \<Rightarrow> wire_error option" where
  "ValidatePayload compile schemas target c =
     (if \<not> PayloadTarget_Valid target then Some (WireError ''unknown comis payload target'')
      else if payload_too_long target c then Some (WireError ''comis payload exceeds its direction limit'')
      else case payloadContract schemas target c of
             Inl e \<Rightarrow> Some e
           | Inr s \<Rightarrow> validateGeneratedJSON compile s c)"

end
