(* ===== verification/Wire_Failures.thy ===== *)
theory Wire_Failures
  imports Wire_Frames
begin

text \<open>
  The failures of the control session against the schema of the error response: which of them pass
  the validation that stands before every write.
\<close>

section \<open>Re-encoded text\<close>

lemma decode_rune_prefix:
  assumes "s \<noteq> []" "\<not> invalid_front s"
  shows "decode_rune (take (snd (decode_rune s)) s @ x) = decode_rune s"
proof (cases s)
  case (Cons c cs)
  consider "cs = []" | c1 where "cs = [c1]" | c1 c2 where "cs = [c1, c2]"
    | c1 c2 c3 ds where "cs = c1 # c2 # c3 # ds"
    by (metis list.exhaust)
  then show ?thesis
    using assms(2) Cons
    by cases (simp_all add: invalid_front_def Let_def split: if_splits, blast+)
qed (use assms(1) in simp)

lemma decode_rune_encoded:
  assumes "s \<noteq> []"
  shows "decode_rune (utf8_encode (fst (decode_rune s)) @ x) =
    (fst (decode_rune s), length (utf8_encode (fst (decode_rune s))))"
proof (cases "invalid_front s")
  case True
  then show ?thesis
    by (simp add: invalid_front_def RuneError_def utf8_encode_def cont_byte_def)
next
  case False
  have front: "take (snd (decode_rune s)) s = utf8_encode (fst (decode_rune s))"
    using assms False by (intro take_decoded) simp_all
  then have "length (utf8_encode (fst (decode_rune s))) = snd (decode_rune s)"
    using decode_rune_width_le [of s] by (metis length_take min.absorb2)
  then show ?thesis
    using decode_rune_prefix [OF assms False, of x] front by (metis prod.collapse)
qed

lemma runes_valid_utf8 [simp]: "runes (valid_utf8 s) = runes s"
proof (induction s rule: decode_all.induct)
  case (1 s)
  show ?case
  proof (cases "s = []")
    case True
    then show ?thesis by (simp add: valid_utf8_def runes_def)
  next
    case False
    let ?r = "fst (decode_rune s)" and ?t = "drop (snd (decode_rune s)) s"
    have runes: "runes s = ?r # runes ?t"
      using False by (simp add: runes_def decode_all.simps [of s])
    have bytes: "valid_utf8 s = utf8_encode ?r @ valid_utf8 ?t"
      by (simp add: valid_utf8_def runes)
    have "decode_all (valid_utf8 s) =
        decode_rune (utf8_encode ?r @ valid_utf8 ?t) #
          decode_all (drop (snd (decode_rune (utf8_encode ?r @ valid_utf8 ?t))) (valid_utf8 s))"
      unfolding bytes by (subst decode_all.simps) (simp add: utf8_encode_def)
    then have "runes (valid_utf8 s) = ?r # runes (valid_utf8 ?t)"
      by (simp add: runes_def decode_rune_encoded [OF False] bytes)
    then show ?thesis
      using 1 False runes by simp
  qed
qed

lemma length_runes_le: "length (runes s) \<le> length s"
proof (induction s rule: decode_all.induct)
  case (1 s)
  show ?case
  proof (cases "s = []")
    case False
    then show ?thesis
      using 1 [OF False] decode_rune_width [OF False] decode_rune_width_le [of s]
      by (simp add: runes_def decode_all.simps [of s])
  qed (simp add: runes_def)
qed

lemma runes_Nil_iff [simp]: "runes s = [] \<longleftrightarrow> s = []"
  by (simp add: runes_def decode_all.simps [of s])

definition message_ok :: "string \<Rightarrow> bool" where
  "message_ok m \<longleftrightarrow> m \<noteq> [] \<and> length (runes m) \<le> 1024"

lemmas conforms_schema =
  conforms.simps [of _ "WireSchema a1 a2 a3 a4 a5 a6 a7 a8 a9 a10 a11 a12 a13 a14 a15 a16 a17"
    for a1 a2 a3 a4 a5 a6 a7 a8 a9 a10 a11 a12 a13 a14 a15 a16 a17]

lemma conforms_const:
  "conforms compile (const_schema (JNumber n) ''number'') v \<longleftrightarrow>
     v = JNumber n \<and> \<not> exceeds_float64 n \<and> SetString n \<noteq> None"
  "conforms compile (const_schema (JString t) ''string'') v \<longleftrightarrow> v = JString t"
  "conforms compile (const_schema (JBool b) ''boolean'') v \<longleftrightarrow> v = JBool b"
  by (auto simp: const_schema_def conforms_schema
      constant_ok_def enum_ok_def number_ok_def string_ok_def within_bound_def is_JBool_def)

lemma conforms_text:
  "conforms compile (text_schema lo hi p) v \<longleftrightarrow>
     (\<exists>t. v = JString t \<and> lo \<le> int (length (runes t)) \<and> int (length (runes t)) \<le> hi \<and>
        (p \<noteq> [] \<longrightarrow> (\<exists>matches. compile (patternText p) = Some matches \<and> matches t)))"
  by (simp add: text_schema_def conforms_schema
      constant_ok_def enum_ok_def string_ok_def)

lemma conforms_closed:
  "conforms compile (closed_schema props required) (JObject ms) \<longleftrightarrow>
     set required \<subseteq> fst ` set ms \<and>
     list_all (\<lambda>m. case map_of props (fst m) of None \<Rightarrow> False | Some c \<Rightarrow> conforms compile c (snd m)) ms"
  by (simp add: closed_schema_def conforms_schema
      constant_ok_def enum_ok_def list_all_iff cong: option.case_cong)

lemma conforms_one_of:
  "vs \<noteq> [] \<Longrightarrow> conforms compile (one_of_schema vs) v \<longleftrightarrow> length (filter (\<lambda>c. conforms compile c v) vs) = 1"
  by (simp add: one_of_schema_def conforms_schema)

lemma conforms_any_of:
  "vs \<noteq> [] \<Longrightarrow> conforms compile (any_of_schema vs) v \<longleftrightarrow> list_ex (\<lambda>c. conforms compile c v) vs"
  by (simp add: any_of_schema_def list_ex_iff conforms_schema)

lemma failure_schema_conforms:
  "conforms compile (failure_schema code kind retry)
      (JObject [(''code'', JNumber c), (''kind'', JString k), (''message'', JString m), (''retryable'', JBool b)])
    \<longleftrightarrow> c = code \<and> k = kind \<and> b = retry \<and> \<not> exceeds_float64 code \<and> SetString code \<noteq> None \<and> message_ok m"
  by (auto simp: failure_schema_def conforms_closed conforms_const conforms_text message_ok_def Suc_le_eq)

text \<open>The strings that the identifier pattern matches, and the identifiers of the schemas.\<close>

definition identifier_matches :: "string \<Rightarrow> bool" where
  "identifier_matches t \<longleftrightarrow>
     t \<noteq> [] \<and> (upper (hd t) \<or> lower_digit (hd t)) \<and>
     list_all (\<lambda>c. upper c \<or> lower_digit c \<or> c \<in> set ''._~-'') (tl t)"

definition identifier_ok :: "string \<Rightarrow> bool" where
  "identifier_ok t \<longleftrightarrow> identifier_matches t \<and> length t \<le> 128"

lemma FormatInt_codes:
  "FormatInt (- 32012) = ''-32012''" "FormatInt (- 32017) = ''-32017''" "FormatInt (- 32603) = ''-32603''"
  "FormatInt (- 32602) = ''-32602''" "FormatInt (- 32600) = ''-32600''" "FormatInt (- 32601) = ''-32601''"
  "FormatInt (- 32018) = ''-32018''" "FormatInt (- 32011) = ''-32011''" "FormatInt (- 32016) = ''-32016''"
  "FormatInt (- 32014) = ''-32014''" "FormatInt (- 32015) = ''-32015''" "FormatInt (- 32013) = ''-32013''"
  by (simp_all add: FormatInt_def dec_nat.simps char_of_def bit_0)

lemma code_numbers:
  "list_all (\<lambda>c. SetString c \<noteq> None \<and> \<not> exceeds_float64 c)
     [''-32012'', ''-32017'', ''-32603'', ''-32602'', ''-32600'', ''-32601'', ''-32018'', ''-32011'',
      ''-32016'', ''-32014'', ''-32015'', ''-32013'']"
  by (simp add: SetString_def read_exponent_def exceeds_float64_def float_exponent_def digits_value_def is_digit_def)

lemma valid_failure_conforms:
  assumes "ErrorKind_Valid kind"
  shows "conforms compile
     (one_of_schema
          [failure_schema ''-32012'' ''bundle_digest_mismatch'' False,
           failure_schema ''-32017'' ''deadline_exceeded'' True,
           failure_schema ''-32603'' ''internal_error'' True,
           failure_schema ''-32602'' ''invalid_params'' False,
           failure_schema ''-32600'' ''invalid_request'' False,
           failure_schema ''-32601'' ''method_not_found'' False,
           failure_schema ''-32018'' ''precondition_failed'' False,
           failure_schema ''-32011'' ''protocol_mismatch'' False,
           failure_schema ''-32016'' ''rate_limited'' True,
           failure_schema ''-32014'' ''replay_conflict'' False,
           failure_schema ''-32015'' ''size_limit_exceeded'' False,
           failure_schema ''-32013'' ''unauthorized_instance'' False])
     (JObject [(''code'', JNumber (FormatInt (failure_code kind))),
               (''kind'', JString (ErrorKind_string kind)), (''message'', JString m),
               (''retryable'', JBool (Retryable (wireFailure kind m)))]) \<longleftrightarrow> message_ok m"
  using assms code_numbers
  by (cases kind) (simp_all add: conforms_one_of failure_schema_conforms FormatInt_codes wireFailure_def)

lemma identifier_ascii: "identifier_matches t \<Longrightarrow> \<forall>c\<in>set t. byte c < 0x80"
proof -
  have "byte c < 0x80" if "upper c \<or> lower_digit c \<or> c \<in> set ''._~-''" for c
    using that by (auto simp: upper_def lower_digit_def less_eq_char_def)
  then show "identifier_matches t \<Longrightarrow> \<forall>c\<in>set t. byte c < 0x80"
    by (cases t) (auto simp: identifier_matches_def list_all_iff)
qed

lemma valid_utf8_ascii: "\<forall>c\<in>set t. byte c < 0x80 \<Longrightarrow> valid_utf8 t = t"
  by (simp add: valid_utf8_def runes_def decode_all_ascii comp_def utf8_encode_def)
    (induction t; simp)

lemma ascii_valid_utf8: "\<forall>c\<in>set (valid_utf8 t). byte c < 0x80 \<Longrightarrow> valid_utf8 t = t"
proof (induction t rule: decode_all.induct)
  case (1 s)
  show ?case
  proof (cases "s = []")
    case False
    let ?r = "fst (decode_rune s)" and ?d = "drop (snd (decode_rune s)) s"
    have bytes: "valid_utf8 s = utf8_encode ?r @ valid_utf8 ?d"
      using False by (simp add: valid_utf8_def runes_def decode_all.simps [of s])
    have low: "?r < 0x80"
    proof (rule ccontr)
      assume high: "\<not> ?r < 0x80"
      have "?r < 0x200000"
        using decode_rune_bound [OF False _ prod.collapse [symmetric]]
        by (cases "invalid_front s") (auto simp: invalid_front_def RuneError_def)
      then have "\<not> byte (hd (utf8_encode ?r)) < 0x80 \<and> utf8_encode ?r \<noteq> []"
        using high by (auto simp: utf8_encode_def)
      then show False
        using 1(2) bytes by (metis Un_iff hd_in_set set_append)
    qed
    then have valid: "\<not> invalid_front s"
      by (auto simp: invalid_front_def RuneError_def)
    then have one: "snd (decode_rune s) = 1" "byte (hd s) = ?r"
      using decode_rune_ascii_rune [OF False _ _ low, of "snd (decode_rune s)"] by simp_all
    then have "utf8_encode ?r = [hd s]"
      using low by (simp add: utf8_encode_def flip: one(2))
    moreover have "valid_utf8 ?d = ?d"
      using 1(2) by (intro 1(1) [OF False]) (simp add: bytes)
    moreover have "s = hd s # drop 1 s"
      using False by (cases s) simp_all
    ultimately show ?thesis
      using bytes one(1) by simp
  qed (simp add: valid_utf8_def runes_def)
qed

lemma valid_utf8_Nil [simp]: "valid_utf8 s = [] \<longleftrightarrow> s = []"
  using runes_Nil_iff [of "valid_utf8 s"] by simp

lemma identifier_matches_Nil [simp]: "\<not> identifier_matches []"
  by (simp add: identifier_matches_def)

lemma identifier_valid_utf8: "identifier_matches (valid_utf8 t) \<longleftrightarrow> identifier_matches t"
  by (metis ascii_valid_utf8 identifier_ascii valid_utf8_ascii)

lemma length_runes_identifier: "identifier_matches t \<Longrightarrow> length (runes t) = length t"
  by (simp add: runes_def decode_all_ascii identifier_ascii)

lemma patternText_identifier [simp]: "patternText identifier_pattern = identifier_pattern"
  by code_simp

definition response_id_ok :: "string option \<Rightarrow> bool" where
  "response_id_ok i \<longleftrightarrow> (case i of None \<Rightarrow> True | Some t \<Rightarrow> identifier_ok t)"

lemma error_response_conforms:
  assumes "compile identifier_pattern = Some identifier_matches" "ErrorKind_Valid kind"
  shows "conforms compile schemaErrorResponse (reread (error_response_json i (wireFailure kind m))) \<longleftrightarrow>
    response_id_ok i \<and> message_ok m"
proof -
  have names: "valid_utf8 n = n" if "n \<in> {''code'', ''kind'', ''message'', ''retryable'', ''error'', ''id'', ''jsonrpc'', ''2.0''}" for n
    using that by (intro valid_utf8_ascii) auto
  have kind: "valid_utf8 (ErrorKind_string kind) = ErrorKind_string kind"
    using assms(2) by (intro valid_utf8_ascii) (cases kind; simp)
  have message: "message_ok (valid_utf8 m) = message_ok m"
    using runes_Nil_iff [of "valid_utf8 m"] by (simp add: message_ok_def)
  have failure: "reread (failure_json (wireFailure kind m)) =
      JObject [(''code'', JNumber (FormatInt (failure_code kind))),
        (''kind'', JString (ErrorKind_string kind)), (''message'', JString (valid_utf8 m)),
        (''retryable'', JBool (Retryable (wireFailure kind (valid_utf8 m))))]"
    by (simp add: failure_json_def wireFailure_def names kind)
  have ident: "conforms compile (any_of_schema [text_schema 1 128 identifier_pattern,
      WireSchema None [] None [] None None None None None None None None [] [] [] [] ''null''])
      (case i of None \<Rightarrow> JNull | Some t \<Rightarrow> JString (valid_utf8 t)) \<longleftrightarrow> response_id_ok i"
    using assms(1)
    by (cases i)
      (auto simp: conforms_any_of conforms_text conforms_schema response_id_ok_def identifier_ok_def
        identifier_valid_utf8 length_runes_identifier constant_ok_def enum_ok_def Suc_le_eq
        identifier_pattern_def)
  have id_json: "reread (case i of None \<Rightarrow> JNull | Some t \<Rightarrow> JString t) =
      (case i of None \<Rightarrow> JNull | Some t \<Rightarrow> JString (valid_utf8 t))"
    by (cases i) simp_all
  show ?thesis
    using valid_failure_conforms [OF assms(2), of compile "valid_utf8 m"] ident
    by (auto simp: error_response_json_def schemaErrorResponse_def conforms_closed conforms_const
        names failure message id_json JSONRPCVersion_def)
qed

section \<open>The length of the encoding\<close>

lemma length_hex4: "length (hex_digits 4 r) = 4"
  by simp

lemma length_rune_text: "length (rune_text d) \<le> 6"
  by (cases d) (simp add: rune_text_def utf8_encode_def)

lemma length_marshal_string: "length (marshal_string s) \<le> 6 * length (runes s) + 2"
proof -
  have "length (concat (map rune_text ds)) \<le> 6 * length ds" for ds
  proof (induction ds)
    case (Cons d ds)
    then show ?case
      using length_rune_text [of d] by simp
  qed simp
  from this [of "decode_all s"] show ?thesis
    by (simp add: marshal_string_def runes_def)
qed

lemma length_failure_response:
  assumes "ErrorKind_Valid kind" "message_ok m" "response_id_ok i"
  shows "length (marshal (error_response_json i (wireFailure kind m))) \<le> MaxResponseBytes"
proof -
  have short: "length (marshal_string t) \<le> 302" if "length t \<le> 50" for t
    using length_marshal_string [of t] length_runes_le [of t] that by simp
  have message: "length (marshal_string m) \<le> 6146"
    using length_marshal_string [of m] assms(2) by (simp add: message_ok_def)
  have ident: "length (marshal (case i of None \<Rightarrow> JNull | Some t \<Rightarrow> JString t)) \<le> 770"
  proof (cases i)
    case (Some t)
    then show ?thesis
      using assms(3) length_marshal_string [of t] length_runes_le [of t]
      by (simp add: response_id_ok_def identifier_ok_def)
  qed simp
  have kind: "length (marshal_string (ErrorKind_string kind)) \<le> 302"
    using assms(1) by (intro short) (cases kind; simp)
  have names: "length (marshal_string n) \<le> 302"
    if "n \<in> {''code'', ''kind'', ''message'', ''retryable'', ''error'', ''id'', ''jsonrpc'', ''2.0''}" for n
    using that by (intro short) auto
  have code: "length (FormatInt (failure_code kind)) = 6"
    using assms(1) by (cases kind) (simp_all add: FormatInt_codes)
  have "length (marshal (error_response_json i (wireFailure kind m))) \<le> 20000"
    using message ident kind code names [of "''code''"] names [of "''kind''"] names [of "''message''"]
      names [of "''retryable''"] names [of "''error''"] names [of "''id''"] names [of "''jsonrpc''"]
      names [of "''2.0''"]
    by (simp add: error_response_json_def failure_json_def wireFailure_def JSONRPCVersion_def)
  then show ?thesis
    by (simp add: MaxResponseBytes_def)
qed

lemma decodable_response:
  assumes "ErrorKind_Valid kind"
  shows "decodable (reread (error_response_json i (wireFailure kind m)))"
proof -
  have "valid_utf8 n = n" if "n \<in> {''code'', ''kind'', ''message'', ''retryable'', ''error'', ''id'', ''jsonrpc''}" for n
    using that by (intro valid_utf8_ascii) auto
  moreover have "\<not> exceeds_float64 (FormatInt (failure_code kind))"
    using assms code_numbers by (cases kind) (simp_all add: FormatInt_codes)
  ultimately show ?thesis
    by (cases i) (simp_all add: error_response_json_def failure_json_def wireFailure_def)
qed

lemma failure_payload_valid:
  assumes "compile identifier_pattern = Some identifier_matches"
    and "schemas ''schemaErrorResponse'' = schemaErrorResponse"
    and "ErrorKind_Valid kind" "message_ok m"
  shows "ValidatePayload compile schemas PayloadErrorResponse (encoded (error_response_json i (wireFailure kind m))) = None
    \<longleftrightarrow> response_id_ok i"
proof -
  have "\<not> payload_too_long PayloadErrorResponse (encoded (error_response_json i (wireFailure kind m)))"
    if "response_id_ok i"
    using length_failure_response [OF assms(3,4) that]
    by (simp add: payload_too_long_def encoded_def MaxResponseBytes_def MaxLineBytes_def)
  then show ?thesis
    using error_response_conforms [of compile kind i m, OF assms(1,3)] decodable_response [of kind i m, OF assms(3)] assms(2,4)
    by (auto simp: ValidatePayload_def validateGeneratedJSON_None encoded_def)
qed

lemma handler_failure_shape:
  obtains kind m where "handlerWireFailure err = wireFailure kind m" "ErrorKind_Valid kind" "message_ok m"
proof -
  have fixed: "message_ok ''control request rejected''" "message_ok ''control handler failed''"
    by (simp_all add: message_ok_def runes_def decode_all_ascii)
  have "message_ok t" if "t \<noteq> []" "length t \<le> 1024" for t
    using that length_runes_le [of t] by (simp add: message_ok_def)
  then show thesis
    using fixed that unfolding handlerWireFailure_def
    by (cases "errors_As err") (force split: if_splits)+
qed

end
