(* ===== verification/Wire_Dispatch.thy ===== *)
theory Wire_Dispatch
  imports Wire_Failures
begin

text \<open>
  The answers of the control session (\<open>control_session.go\<close>, \<open>control_group_dispatch.go\<close>) and the
  reading of the host's answers (\<open>decodeWireResponse\<close> of \<open>unix_client.go\<close>, the handshake check).

  The generated request and response structs are the argument \<open>dto\<close>: how the members called
  \<open>params\<close> fill the parameters of a method, which operation they name, and how parameters and
  results are written.  The handler of the service is an argument too.
\<close>

section \<open>Requests\<close>

record ('p, 'r) dto =
  decode_params :: "string \<Rightarrow> json list \<Rightarrow> wire_error + 'p"
  operation_id :: "'p \<Rightarrow> string"
  params_json :: "'p \<Rightarrow> json"
  result_json :: "'r \<Rightarrow> json"

record 'p envelope =
  env_id :: string
  env_jsonrpc :: string
  env_method :: string
  env_params :: 'p
  env_bearer :: string

text \<open>\<open>decodeStrictObject\<close> into the request struct of a method with its bearer.\<close>

definition decode_envelope ::
  "('p, 'r) dto \<Rightarrow> string \<Rightarrow> contents \<Rightarrow> wire_error + 'p envelope" where
  "decode_envelope dto mth c =
     (case rejectDuplicateJSONNames c of
        Some e \<Rightarrow> Inl e
      | None \<Rightarrow>
          (case parsed c of
             None \<Rightarrow> Inl MalformedJSON
           | Some v \<Rightarrow>
               (case struct_members v of
                  Inl e \<Rightarrow> Inl e
                | Inr ms \<Rightarrow>
                    if unknown_field [''id'', ''jsonrpc'', ''method'', ''params'', ''bearer''] ms
                    then Inl (WireError ''unknown field'')
                    else
                      (case (string_field ''id'' ms, string_field ''jsonrpc'' ms,
                             string_field ''method'' ms, string_field ''bearer'' ms,
                             decode_params dto mth (members_for ''params'' ms)) of
                         (Inr i, Inr version, Inr m, Inr bearer, Inr params) \<Rightarrow>
                           Inr \<lparr>env_id = i, env_jsonrpc = version, env_method = m,
                                env_params = params, env_bearer = bearer\<rparr>
                       | _ \<Rightarrow> Inl MalformedJSON))))"

definition base_request_json :: "('p, 'r) dto \<Rightarrow> 'p envelope \<Rightarrow> json" where
  "base_request_json dto env =
     JObject
       [(''id'', JString (env_id env)), (''jsonrpc'', JString (env_jsonrpc env)),
        (''method'', JString (env_method env)), (''params'', params_json dto (env_params env))]"

definition validateBaseRequest ::
  "regexp \<Rightarrow> catalogue \<Rightarrow> ('p, 'r) dto \<Rightarrow> 'p envelope \<Rightarrow> wire_error option" where
  "validateBaseRequest compile schemas dto env =
     ValidatePayload compile schemas PayloadRequest (encoded (base_request_json dto env))"

definition result_response_json :: "('p, 'r) dto \<Rightarrow> string \<Rightarrow> 'r \<Rightarrow> json" where
  "result_response_json dto i result =
     JObject [(''id'', JString i), (''jsonrpc'', JString JSONRPCVersion), (''result'', result_json dto result)]"

section \<open>Dispatch\<close>

datatype 'r reply =
    ReplyFailure "string option" RPCError
  | ReplyResult PayloadTarget string 'r

text \<open>The name a method has in the failure messages, and the target its response is validated for.\<close>

definition dispatch_table :: "(string \<times> string \<times> PayloadTarget) list" where
  "dispatch_table =
     [(''managedRuns.activate'', ''activation'', PayloadActivateResponse),
      (''managedRuns.abandon'', ''abandon'', PayloadAbandonResponse),
      (''managedRunGroups.activate'', ''group activation'', PayloadGroupActivateResponse),
      (''managedRunGroups.abandon'', ''group abandonment'', PayloadGroupAbandonResponse),
      (''managedRuns.cancel'', ''cancel'', PayloadCancelResponse),
      (''managedRuns.terminalEvent'', ''terminal event'', PayloadTerminalEventResponse)]"

definition dispatch ::
  "regexp \<Rightarrow> catalogue \<Rightarrow> ('p, 'r) dto \<Rightarrow> string \<Rightarrow> (string \<Rightarrow> 'p \<Rightarrow> handler_error + 'r) \<Rightarrow>
   string \<Rightarrow> contents \<Rightarrow> 'r reply" where
  "dispatch compile schemas dto bearer handler mth c =
     (case map_of dispatch_table mth of
        None \<Rightarrow> ReplyFailure None (wireFailure MethodNotFound ''control method is not allowed'')
      | Some (label, target) \<Rightarrow>
          (case decode_envelope dto mth c of
             Inl e \<Rightarrow>
               ReplyFailure None (wireFailure InvalidRequest (''invalid '' @ label @ '' envelope''))
           | Inr env \<Rightarrow>
               if env_bearer env \<noteq> bearer then
                 ReplyFailure (Some (env_id env))
                   (wireFailure UnauthorizedInstance ''instance credential differs'')
               else if env_id env \<noteq> operation_id dto (env_params env) then
                 ReplyFailure (Some (env_id env))
                   (wireFailure InvalidRequest (label @ '' operation identity differs''))
               else if validateBaseRequest compile schemas dto env \<noteq> None then
                 ReplyFailure (Some (env_id env))
                   (wireFailure InvalidParams (''invalid '' @ label @ '' request''))
               else
                 (case handler mth (env_params env) of
                    Inl err \<Rightarrow> ReplyFailure (Some (env_id env)) (handlerWireFailure err)
                  | Inr result \<Rightarrow> ReplyResult target (env_id env) result)))"

text \<open>
  \<open>writeValidated\<close>: the response is validated as it is encoded, then written.  What is left for the
  connection is the text; \<open>writeUnlocked\<close> refuses one that does not fit a line.
\<close>

definition reply_payload :: "('p, 'r) dto \<Rightarrow> 'r reply \<Rightarrow> PayloadTarget \<times> json" where
  "reply_payload dto reply =
     (case reply of
        ReplyFailure i failure \<Rightarrow> (PayloadErrorResponse, error_response_json i failure)
      | ReplyResult target i result \<Rightarrow> (target, result_response_json dto i result))"

definition writeUnlocked :: "json \<Rightarrow> wire_error + string" where
  "writeUnlocked v =
     (if MaxLineBytes - 1 < length (marshal v) then Inl (WireError ''comis control frame exceeds line limit'')
      else Inr (marshal v @ [CHR 0x0A]))"

definition writeValidated ::
  "regexp \<Rightarrow> catalogue \<Rightarrow> PayloadTarget \<Rightarrow> json \<Rightarrow> wire_error + string" where
  "writeValidated compile schemas target v =
     (case ValidatePayload compile schemas target (encoded v) of
        Some e \<Rightarrow> Inl e
      | None \<Rightarrow> writeUnlocked v)"

definition answer ::
  "regexp \<Rightarrow> catalogue \<Rightarrow> ('p, 'r) dto \<Rightarrow> 'r reply \<Rightarrow> wire_error + string" where
  "answer compile schemas dto reply =
     (case reply_payload dto reply of (target, v) \<Rightarrow> writeValidated compile schemas target v)"

section \<open>Responses of the host\<close>

definition requiredControlScopes :: "string list" where
  "requiredControlScopes =
     [''health'', ''attention_response'', ''evidence'', ''report'', ''workspace_lease'',
      ''terminal_events'', ''execution_attachment'', ''managed_run_group'', ''approval_receipt'']"

definition ServiceScope_Valid :: "string \<Rightarrow> bool" where
  "ServiceScope_Valid scope \<longleftrightarrow>
     scope \<in> {''health'', ''attention_response'', ''evidence'', ''report'', ''workspace_lease'',
       ''terminal_events'', ''execution_attachment'', ''managed_run_group'', ''approval_receipt''}"

fun scan_active :: "string set \<Rightarrow> string set \<Rightarrow> string list \<Rightarrow> string set option" where
  "scan_active required seen [] = Some seen"
| "scan_active required seen (scope # scopes) =
     (if \<not> ServiceScope_Valid scope \<or> scope \<notin> required then None
      else scan_active required (insert scope seen) scopes)"

definition sameServiceScopeSet :: "string list \<Rightarrow> string list \<Rightarrow> bool" where
  "sameServiceScopeSet required active \<longleftrightarrow>
     (if list_all ServiceScope_Valid required then
        (case scan_active (set required) {} active of
           None \<Rightarrow> False
         | Some seen \<Rightarrow> card seen = card (set required))
      else False)"

definition sameControlScopes :: "string list \<Rightarrow> bool" where
  "sameControlScopes scopes = sameServiceScopeSet requiredControlScopes scopes"

datatype call_error =
    CallError wire_error
  | CallFailure json

record responseEnvelope =
  response_error :: "json option"
  response_id :: "json option"
  response_jsonrpc :: string
  response_result :: "json option"

definition decode_response_envelope :: "contents \<Rightarrow> wire_error + responseEnvelope" where
  "decode_response_envelope c =
     (case rejectDuplicateJSONNames c of
        Some e \<Rightarrow> Inl e
      | None \<Rightarrow>
          (case parsed c of
             None \<Rightarrow> Inl MalformedJSON
           | Some v \<Rightarrow>
               (case struct_members v of
                  Inl e \<Rightarrow> Inl e
                | Inr ms \<Rightarrow>
                    if unknown_field [''error'', ''id'', ''jsonrpc'', ''result''] ms
                    then Inl (WireError ''unknown field'')
                    else
                      (case string_field ''jsonrpc'' ms of
                         Inl e \<Rightarrow> Inl e
                       | Inr version \<Rightarrow>
                           Inr \<lparr>response_error = raw_field ''error'' ms, response_id = raw_field ''id'' ms,
                                response_jsonrpc = version, response_result = raw_field ''result'' ms\<rparr>))))"

text \<open>
  \<open>decodeWireResponse\<close>: \<open>into\<close> is the strict decoding into the response struct of the call.  A host
  failure is the error member, once the whole frame passes the generated schema.
\<close>

definition decodeWireResponse ::
  "regexp \<Rightarrow> catalogue \<Rightarrow> (json \<Rightarrow> wire_error + 'r) \<Rightarrow> string \<Rightarrow> frame \<Rightarrow> call_error + 'r" where
  "decodeWireResponse compile schemas into expected f =
     (case decode_response_envelope (contents.truncate f) of
        Inl e \<Rightarrow> Inl (CallError e)
      | Inr env \<Rightarrow>
          if response_jsonrpc env \<noteq> JSONRPCVersion
          then Inl (CallError (WireError ''comis wire response JSON-RPC version differs''))
          else
            (case strict_raw (id_utf8 f) (response_id env) of
               Inl e \<Rightarrow> Inl (CallError e)
             | Inr i \<Rightarrow>
                 if (response_result env \<noteq> None) = (response_error env \<noteq> None) then
                   Inl (CallError (WireError ''comis wire response must contain exactly one of result or error''))
                 else if response_result env \<noteq> None \<and> i \<noteq> JString expected then
                   Inl (CallError (WireError ''comis wire response operation ID differs''))
                 else if response_error env \<noteq> None \<and> i \<noteq> JNull \<and> i \<noteq> JString expected then
                   Inl (CallError (WireError ''comis wire error response operation ID differs''))
                 else
                   (case response_error env of
                      Some failure \<Rightarrow>
                        (case validateGeneratedJSON compile (schemas ''schemaErrorResponse'') (contents.truncate f) of
                           Some e \<Rightarrow> Inl (CallError e)
                         | None \<Rightarrow> Inl (CallFailure failure))
                    | None \<Rightarrow>
                        (case parsed f of
                           None \<Rightarrow> Inl (CallError MalformedJSON)
                         | Some v \<Rightarrow> (case into v of Inl e \<Rightarrow> Inl (CallError e) | Inr r \<Rightarrow> Inr r)))))"

section \<open>What a dispatch answers\<close>

text \<open>
  The requests a handler is shown: a known method, the bearer of the session, the operation it names
  itself, and parameters that pass the generated schema.
\<close>

definition admitted ::
  "regexp \<Rightarrow> catalogue \<Rightarrow> ('p, 'r) dto \<Rightarrow> string \<Rightarrow> string \<Rightarrow> contents \<Rightarrow> 'p \<Rightarrow> bool" where
  "admitted compile schemas dto bearer mth c p \<longleftrightarrow>
     mth \<in> fst ` set dispatch_table \<and>
     (\<exists>env. decode_envelope dto mth c = Inr env \<and> env_bearer env = bearer \<and>
        env_id env = operation_id dto (env_params env) \<and>
        validateBaseRequest compile schemas dto env = None \<and> env_params env = p)"

text \<open>Two outcomes of a handler that may differ in private text only.\<close>

definition outward_same :: "handler_error + 'r \<Rightarrow> handler_error + 'r \<Rightarrow> bool" where
  "outward_same x y \<longleftrightarrow>
     (case (x, y) of
        (Inl e, Inl e') \<Rightarrow> errors_As e = errors_As e'
      | (Inr r, Inr r') \<Rightarrow> r = r'
      | _ \<Rightarrow> False)"

lemma handlerWireFailure_cong: "errors_As e = errors_As e' \<Longrightarrow> handlerWireFailure e = handlerWireFailure e'"
  by (simp add: handlerWireFailure_def)

lemma dispatch_cong:
  assumes "\<And>p. admitted compile schemas dto bearer mth c p \<Longrightarrow> outward_same (h mth p) (h' mth p)"
  shows "dispatch compile schemas dto bearer h mth c = dispatch compile schemas dto bearer h' mth c"
proof (cases "\<exists>p. admitted compile schemas dto bearer mth c p")
  case True
  then obtain env where env: "admitted compile schemas dto bearer mth c (env_params env)"
    "decode_envelope dto mth c = Inr env"
    by (auto simp: admitted_def)
  from assms [OF env(1)] show ?thesis
    by (auto simp: dispatch_def env(2) outward_same_def split: option.splits sum.splits
        intro: handlerWireFailure_cong)
next
  case False
  then show ?thesis
    by (auto simp: dispatch_def admitted_def split: option.splits sum.splits dest: map_of_SomeD)
      (metis fst_conv image_eqI map_of_SomeD)+
qed

lemma dispatch_labels:
  assumes "map_of dispatch_table mth = Some (label, target)"
  shows "message_ok (''invalid '' @ label @ '' envelope'')" "message_ok (label @ '' operation identity differs'')"
    "message_ok (''invalid '' @ label @ '' request'')"
proof -
  have "(label, target) \<in> ran (map_of dispatch_table)"
    using assms by (rule ranI)
  then have "label \<in> {''activation'', ''abandon'', ''group activation'', ''group abandonment'', ''cancel'',
      ''terminal event''}"
    using assms by (auto simp: dispatch_table_def split: if_splits)
  moreover have "length (runes t) \<le> 1024" if "length t \<le> 100" for t
    using length_runes_le [of t] that by simp
  ultimately show "message_ok (''invalid '' @ label @ '' envelope'')"
    "message_ok (label @ '' operation identity differs'')" "message_ok (''invalid '' @ label @ '' request'')"
    by (auto simp: message_ok_def)
qed

lemma dispatch_failure_shape:
  assumes "dispatch compile schemas dto bearer handler mth c = ReplyFailure i failure"
  obtains kind m where "failure = wireFailure kind m" "ErrorKind_Valid kind" "message_ok m"
proof -
  have fixed: "message_ok ''control method is not allowed''" "message_ok ''instance credential differs''"
    by (simp_all add: message_ok_def runes_def decode_all_ascii)
  show thesis
  proof (cases "map_of dispatch_table mth")
    case None
    then show thesis
      using assms fixed(1) by (auto simp: dispatch_def intro: that)
  next
    case (Some entry)
    obtain label target where entry: "map_of dispatch_table mth = Some (label, target)"
      using Some by (cases entry) simp
    show thesis
      using assms dispatch_labels [OF entry] fixed(2)
      by (auto simp: dispatch_def entry split: sum.splits if_splits intro: that handler_failure_shape)
  qed
qed

lemma failure_answer:
  assumes "compile identifier_pattern = Some identifier_matches"
    and "schemas ''schemaErrorResponse'' = schemaErrorResponse"
    and "ErrorKind_Valid kind" "message_ok m"
  shows "(\<exists>t. answer compile schemas dto (ReplyFailure i (wireFailure kind m)) = Inr t) \<longleftrightarrow> response_id_ok i"
proof -
  have "\<not> MaxLineBytes - 1 < length (marshal (error_response_json i (wireFailure kind m)))"
    if "response_id_ok i"
    using length_failure_response [OF assms(3,4) that] by (simp add: MaxResponseBytes_def MaxLineBytes_def)
  then show ?thesis
    using failure_payload_valid [of compile schemas kind m i, OF assms]
    by (auto simp: answer_def reply_payload_def writeValidated_def writeUnlocked_def split: option.splits)
qed

end
