(* ===== verification/Control_Session.thy ===== *)
theory Control_Session
  imports Wire_Frames
begin

text \<open>
  The control session (\<open>controlSession\<close> of \<open>src/internal/comiswire/control_session.go\<close>) as a step
  relation over its goroutines: the callers of \<open>call\<close>, the reader of \<open>serve\<close>, the workers of
  \<open>route\<close> and whoever runs the body of \<open>fail\<close>.  A step is one critical section of the mutex, one
  channel operation or one write; the order of the steps is free.

  Calls are numbered, and the number of a call stands for the channel it makes.  The channel holds
  one message: \<open>slot\<close>.  \<open>expired\<close> are the calls whose context is done.  \<open>notifying\<close> are the waiters
  that the body of \<open>fail\<close> has taken out of \<open>pending\<close> and has not yet sent to; a second caller of
  \<open>fail\<close> waits for it to finish, as \<open>sync.Once\<close> does.  \<open>busy\<close> counts the tokens in \<open>limit\<close>.
  \<open>writing\<close> is the goroutine that holds \<open>writeMu\<close>: taking the mutex, which no context interrupts, and
  releasing it behind the write are steps of their own.
\<close>

section \<open>State\<close>

datatype control_result =
    ResultFrame frame
  | ResultError wire_error

datatype call_end = TimedOut | SessionFailed wire_error

datatype call_outcome =
    InFlight
  | WriteFailed wire_error
  | Ended call_end
  | Received control_result

text \<open>
  \<open>Registered\<close>: before \<open>writeMu\<close> is taken; \<open>Writing\<close>: while it is held; \<open>Leaving\<close>: before \<open>removePending\<close>, with what ended the
  call; \<open>Draining\<close>: before the receive that does not block.
\<close>

datatype leave_reason = LeaveWrite wire_error | LeaveTimeout | LeaveDone

datatype call_phase =
    Unused
  | Registered string
  | Writing string
  | Waiting string
  | Leaving string leave_reason
  | Draining string call_end
  | Returned string call_outcome

datatype reader_phase =
    Reading
  | Delivering nat control_result
  | Failing wire_error
  | Joining wire_error
  | Stopped wire_error

datatype write_holder = CallWrites nat | WorkerWrites

record session =
  pending :: "string \<Rightarrow> nat option"
  slot :: "nat \<Rightarrow> control_result option"
  calls :: "nat \<Rightarrow> call_phase"
  expired :: "nat set"
  reader :: reader_phase
  failed :: "wire_error option"
  notifying :: "nat set"
  busy :: nat
  writing :: "write_holder option"

definition newControlSession :: session where
  "newControlSession =
     \<lparr>pending = Map.empty, slot = Map.empty, calls = (\<lambda>_. Unused), expired = {}, reader = Reading,
      failed = None, notifying = {}, busy = 0, writing = None\<rparr>"

definition MaxInFlightRequests :: nat where
  "MaxInFlightRequests = 32"

definition set_call :: "nat \<Rightarrow> call_phase \<Rightarrow> session \<Rightarrow> session" where
  "set_call n p s = s\<lparr>calls := (calls s)(n := p)\<rparr>"

definition set_pending :: "string \<Rightarrow> nat option \<Rightarrow> session \<Rightarrow> session" where
  "set_pending i w s = s\<lparr>pending := (pending s)(i := w)\<rparr>"

definition set_slot :: "nat \<Rightarrow> control_result option \<Rightarrow> session \<Rightarrow> session" where
  "set_slot n r s = s\<lparr>slot := (slot s)(n := r)\<rparr>"

definition set_writing :: "write_holder option \<Rightarrow> session \<Rightarrow> session" where
  "set_writing h s = s\<lparr>writing := h\<rparr>"

definition removePending :: "string \<Rightarrow> session \<Rightarrow> session" where
  "removePending i = set_pending i None"

section \<open>A call\<close>

text \<open>The steps of call number \<open>n\<close>: \<open>call\<close>, \<open>writeWithContext\<close> and \<open>resolveDeliveredControlCall\<close>.\<close>

inductive call_step :: "nat \<Rightarrow> session \<Rightarrow> session \<Rightarrow> bool" for n where
  call_refused:
    "\<lbrakk>calls s n = Unused; pending s i \<noteq> None\<rbrakk>
     \<Longrightarrow> call_step n s (set_call n (Returned i InFlight) s)"
| call_registers:
    "\<lbrakk>calls s n = Unused; pending s i = None\<rbrakk>
     \<Longrightarrow> call_step n s (set_call n (Registered i) (set_pending i (Some n) s))"
| call_locks:
    "\<lbrakk>calls s n = Registered i; writing s = None\<rbrakk>
     \<Longrightarrow> call_step n s (set_call n (Writing i) (set_writing (Some (CallWrites n)) s))"
| call_writes:
    "calls s n = Writing i \<Longrightarrow> call_step n s (set_call n (Waiting i) (set_writing None s))"
| call_write_fails:
    "calls s n = Writing i
     \<Longrightarrow> call_step n s (set_call n (Leaving i (LeaveWrite e)) (set_writing None s))"
| call_receives:
    "\<lbrakk>calls s n = Waiting i; slot s n = Some r\<rbrakk>
     \<Longrightarrow> call_step n s (set_call n (Returned i (Received r)) (set_slot n None s))"
| call_times_out:
    "\<lbrakk>calls s n = Waiting i; n \<in> expired s\<rbrakk>
     \<Longrightarrow> call_step n s (set_call n (Leaving i LeaveTimeout) s)"
| call_sees_done:
    "\<lbrakk>calls s n = Waiting i; failed s \<noteq> None\<rbrakk>
     \<Longrightarrow> call_step n s (set_call n (Leaving i LeaveDone) s)"
| call_leaves_write:
    "calls s n = Leaving i (LeaveWrite e)
     \<Longrightarrow> call_step n s (set_call n (Returned i (WriteFailed e)) (removePending i s))"
| call_leaves_timeout:
    "calls s n = Leaving i LeaveTimeout
     \<Longrightarrow> call_step n s (set_call n (Draining i TimedOut) (removePending i s))"
| call_leaves_done:
    "\<lbrakk>calls s n = Leaving i LeaveDone; failed s = Some e\<rbrakk>
     \<Longrightarrow> call_step n s (set_call n (Draining i (SessionFailed e)) (removePending i s))"
| call_drains:
    "\<lbrakk>calls s n = Draining i ended; slot s n = Some r\<rbrakk>
     \<Longrightarrow> call_step n s (set_call n (Returned i (Received r)) (set_slot n None s))"
| call_ends:
    "\<lbrakk>calls s n = Draining i ended; slot s n = None\<rbrakk>
     \<Longrightarrow> call_step n s (set_call n (Returned i (Ended ended)) s)"

section \<open>The reader, the workers and the failure\<close>

inductive reader_step :: "session \<Rightarrow> session \<Rightarrow> bool" where
  reader_read_fails:
    "reader s = Reading \<Longrightarrow> reader_step s (s\<lparr>reader := Failing e\<rparr>)"
| reader_route_fails:
    "\<lbrakk>reader s = Reading; route_frame f = RouteError e\<rbrakk>
     \<Longrightarrow> reader_step s (s\<lparr>reader := Failing e\<rparr>)"
| reader_spawns:
    "\<lbrakk>reader s = Reading; route_frame f = RouteRequest m; busy s < MaxInFlightRequests\<rbrakk>
     \<Longrightarrow> reader_step s (s\<lparr>busy := busy s + 1\<rparr>)"
| reader_limit:
    "\<lbrakk>reader s = Reading; route_frame f = RouteRequest m; \<not> busy s < MaxInFlightRequests\<rbrakk>
     \<Longrightarrow> reader_step s (s\<lparr>reader := Failing (WireError ''comis control request limit exceeded'')\<rparr>)"
| reader_resolves:
    "\<lbrakk>reader s = Reading; route_frame f = RouteResponse i; pending s i = Some n\<rbrakk>
     \<Longrightarrow> reader_step s (set_pending i None s\<lparr>reader := Delivering n (ResultFrame f)\<rparr>)"
| reader_unexpected:
    "\<lbrakk>reader s = Reading; route_frame f = RouteResponse i; pending s i = None\<rbrakk>
     \<Longrightarrow> reader_step s
           (s\<lparr>reader := Failing (WireError ''comis control response has no pending operation'')\<rparr>)"
| reader_delivers:
    "\<lbrakk>reader s = Delivering n r; slot s n = None\<rbrakk>
     \<Longrightarrow> reader_step s (set_slot n (Some r) s\<lparr>reader := Reading\<rparr>)"
| reader_failed:
    "\<lbrakk>reader s = Failing e; failed s \<noteq> None; notifying s = {}\<rbrakk>
     \<Longrightarrow> reader_step s (s\<lparr>reader := Joining e\<rparr>)"
| reader_joins:
    "\<lbrakk>reader s = Joining e; busy s = 0\<rbrakk> \<Longrightarrow> reader_step s (s\<lparr>reader := Stopped e\<rparr>)"

definition ErrClosed :: wire_error where
  "ErrClosed = WireError ''use of closed network connection''"

text \<open>
  \<open>fail\<close> is called by the reader with the error it met, by a worker with the error of its
  \<open>dispatch\<close>, and by \<open>close\<close>; only the first call runs the body.  The workers that are not in a write are
  \<open>idle\<close>.
\<close>

definition idle :: "session \<Rightarrow> nat" where
  "idle s = busy s - (if writing s = Some WorkerWrites then 1 else 0)"

inductive session_event :: "session \<Rightarrow> session \<Rightarrow> bool" where
  session_fails:
    "\<lbrakk>failed s = None; reader s = Failing e \<or> 0 < idle s \<or> e = ErrClosed\<rbrakk>
     \<Longrightarrow> session_event s
           (s\<lparr>failed := Some e, pending := Map.empty, notifying := ran (pending s)\<rparr>)"
| session_notifies:
    "\<lbrakk>failed s = Some e; n \<in> notifying s; slot s n = None\<rbrakk>
     \<Longrightarrow> session_event s (set_slot n (Some (ResultError e)) s\<lparr>notifying := notifying s - {n}\<rparr>)"
| worker_ends:
    "0 < idle s \<Longrightarrow> session_event s (s\<lparr>busy := busy s - 1\<rparr>)"
| context_expires:
    "session_event s (s\<lparr>expired := insert n (expired s)\<rparr>)"

text \<open>A worker answers with \<open>write\<close>, which takes \<open>writeMu\<close> and sets no deadline.\<close>

inductive write_step :: "session \<Rightarrow> session \<Rightarrow> bool" where
  worker_locks:
    "\<lbrakk>0 < busy s; writing s = None\<rbrakk> \<Longrightarrow> write_step s (set_writing (Some WorkerWrites) s)"
| worker_unlocks:
    "writing s = Some WorkerWrites \<Longrightarrow> write_step s (set_writing None s)"

inductive session_step :: "session \<Rightarrow> session \<Rightarrow> bool" where
  step_call: "call_step n s t \<Longrightarrow> session_step s t"
| step_reader: "reader_step s t \<Longrightarrow> session_step s t"
| step_event: "session_event s t \<Longrightarrow> session_step s t"
| step_write: "write_step s t \<Longrightarrow> session_step s t"

inductive reachable :: "session \<Rightarrow> bool" where
  reachable_new: "reachable newControlSession"
| reachable_step: "\<lbrakk>reachable s; session_step s t\<rbrakk> \<Longrightarrow> reachable t"

inductive_cases session_stepE: "session_step s t"

lemmas session_updates = set_call_def set_pending_def set_slot_def set_writing_def removePending_def

section \<open>Whose message it is\<close>

fun call_id :: "call_phase \<Rightarrow> string option" where
  "call_id Unused = None"
| "call_id (Registered i) = Some i"
| "call_id (Writing i) = Some i"
| "call_id (Waiting i) = Some i"
| "call_id (Leaving i w) = Some i"
| "call_id (Draining i e) = Some i"
| "call_id (Returned i r) = Some i"

text \<open>The phases in which a call has not yet been through \<open>removePending\<close> or a receive.\<close>

fun registered_phase :: "call_phase \<Rightarrow> bool" where
  "registered_phase (Registered i) = True"
| "registered_phase (Writing i) = True"
| "registered_phase (Waiting i) = True"
| "registered_phase (Leaving i w) = True"
| "registered_phase p = False"

text \<open>A message for call \<open>n\<close> is its response, or the error of the session.\<close>

definition message_for :: "session \<Rightarrow> nat \<Rightarrow> control_result \<Rightarrow> bool" where
  "message_for s n r \<longleftrightarrow>
     (\<exists>i. call_id (calls s n) = Some i \<and>
        (case r of
           ResultFrame f \<Rightarrow> route_frame f = RouteResponse i
         | ResultError e \<Rightarrow> failed s = Some e))"

text \<open>
  The invariant: the right to send to a channel is in one place at a time.  It is the entry of
  \<open>pending\<close>, then the hand of the reader or the list of the failure, and ends with the message.
\<close>

definition entries_owned :: "session \<Rightarrow> bool" where
  "entries_owned s \<longleftrightarrow>
     (\<forall>i n. pending s i = Some n \<longrightarrow>
        call_id (calls s n) = Some i \<and> registered_phase (calls s n) \<and> slot s n = None \<and>
        n \<notin> notifying s \<and> (\<forall>r. reader s \<noteq> Delivering n r))"

definition hands_owned :: "session \<Rightarrow> bool" where
  "hands_owned s \<longleftrightarrow>
     (\<forall>n r. reader s = Delivering n r \<longrightarrow> slot s n = None \<and> n \<notin> notifying s \<and> message_for s n r) \<and>
     (\<forall>n\<in>notifying s. slot s n = None \<and> call_id (calls s n) \<noteq> None)"

definition messages_owned :: "session \<Rightarrow> bool" where
  "messages_owned s \<longleftrightarrow>
     (\<forall>n r. slot s n = Some r \<longrightarrow> message_for s n r) \<and>
     (\<forall>n i r. calls s n = Returned i (Received r) \<longrightarrow> message_for s n r)"

definition failure_recorded :: "session \<Rightarrow> bool" where
  "failure_recorded s \<longleftrightarrow>
     (notifying s \<noteq> {} \<longrightarrow> failed s \<noteq> None) \<and>
     (\<forall>n i. calls s n = Leaving i LeaveDone \<longrightarrow> failed s \<noteq> None) \<and>
     busy s \<le> MaxInFlightRequests"

text \<open>The mutex is held by the one call that writes, or by a worker.\<close>

definition lock_owned :: "session \<Rightarrow> bool" where
  "lock_owned s \<longleftrightarrow>
     (\<forall>n. writing s = Some (CallWrites n) \<longleftrightarrow> (\<exists>i. calls s n = Writing i)) \<and>
     (writing s = Some WorkerWrites \<longrightarrow> 0 < busy s)"

definition session_sound :: "session \<Rightarrow> bool" where
  "session_sound s \<longleftrightarrow>
     entries_owned s \<and> hands_owned s \<and> messages_owned s \<and> failure_recorded s \<and> lock_owned s"

lemma message_for_mono:
  assumes "message_for s n r"
    and "call_id (calls s n) = None \<or> call_id (calls t n) = call_id (calls s n)"
    and "failed s = None \<or> failed t = failed s"
  shows "message_for t n r"
  using assms by (auto simp: message_for_def split: control_result.splits)

text \<open>What the steps leave alone.\<close>

lemma call_step_frame:
  assumes "call_step n s t"
  shows "failed t = failed s" "reader t = reader s" "notifying t = notifying s" "busy t = busy s"
    "expired t = expired s" "m \<noteq> n \<Longrightarrow> calls t m = calls s m" "m \<noteq> n \<Longrightarrow> slot t m = slot s m"
    "call_id (calls s n) = None \<or> call_id (calls t n) = call_id (calls s n)"
  using assms by (induction rule: call_step.induct) (simp_all add: session_updates)

lemma call_step_message:
  assumes "call_step n s t" "message_for s m r"
  shows "message_for t m r"
proof (rule message_for_mono [OF assms(2)])
  show "call_id (calls s m) = None \<or> call_id (calls t m) = call_id (calls s m)"
    using call_step_frame(6,8) [OF assms(1)] by (cases "m = n") auto
qed (simp add: call_step_frame(1) [OF assms(1)])

lemma session_sound_entry:
  assumes "session_sound s" "pending s i = Some n"
  shows "call_id (calls s n) = Some i" "registered_phase (calls s n)" "slot s n = None"
    "n \<notin> notifying s" "reader s \<noteq> Delivering n r"
  using assms by (auto simp: session_sound_def entries_owned_def)

lemma session_sound_message:
  assumes "session_sound s"
  shows "slot s n = Some r \<Longrightarrow> message_for s n r"
    and "calls s n = Returned i (Received r) \<Longrightarrow> message_for s n r"
    and "reader s = Delivering n r \<Longrightarrow> slot s n = None \<and> n \<notin> notifying s \<and> message_for s n r"
    and "n \<in> notifying s \<Longrightarrow> slot s n = None \<and> call_id (calls s n) \<noteq> None"
  using assms by (auto simp: session_sound_def messages_owned_def hands_owned_def)

lemma session_sound_unused:
  assumes "session_sound s" "calls s n = Unused"
  shows "slot s n = None" "n \<notin> notifying s" "reader s \<noteq> Delivering n r" "pending s i \<noteq> Some n"
proof -
  show "slot s n = None"
    using session_sound_message(1) [OF assms(1), of n] assms(2)
    by (cases "slot s n") (auto simp: message_for_def)
  show "n \<notin> notifying s"
    using assms by (auto simp: session_sound_def hands_owned_def)
  show "reader s \<noteq> Delivering n r"
    using assms by (auto simp: session_sound_def hands_owned_def message_for_def)
  show "pending s i \<noteq> Some n"
    using session_sound_entry(2) [OF assms(1), of i n] assms(2) by auto
qed

lemma call_step_entries:
  assumes "call_step n s t" "session_sound s"
  shows "entries_owned t"
proof -
  have "call_id (calls t m) = Some j \<and> registered_phase (calls t m) \<and> slot t m = None \<and>
      m \<notin> notifying t \<and> (\<forall>r. reader t \<noteq> Delivering m r)" if "pending t j = Some m" for j m
    using assms(1)
  proof cases
    case (call_registers i)
    then show ?thesis
      using that session_sound_entry [OF assms(2), of j m] session_sound_unused [OF assms(2), of n]
      by (auto simp: session_updates split: if_splits)
  qed (use that session_sound_entry [OF assms(2), of j m] in
      \<open>auto simp: session_updates split: if_splits\<close>)
  then show ?thesis
    by (simp add: entries_owned_def)
qed

lemma call_step_hands:
  assumes "call_step n s t" "session_sound s"
  shows "hands_owned t"
proof -
  have "slot t m = None" if "slot s m = None" for m
    using assms(1) that by (induction rule: call_step.induct) (simp_all add: session_updates)
  moreover have "call_id (calls t m) \<noteq> None" if "call_id (calls s m) \<noteq> None" for m
    using call_step_frame(6,8) [OF assms(1)] that by (cases "m = n") auto
  ultimately show ?thesis
    using assms call_step_message [OF assms(1)] call_step_frame [OF assms(1)]
    by (auto simp: session_sound_def hands_owned_def)
qed

lemma call_step_messages:
  assumes "call_step n s t" "session_sound s"
  shows "messages_owned t"
proof -
  have "\<exists>m'. slot s m' = Some r \<and> m' = m" if "slot t m = Some r" for m r
    using assms(1) that
    by (induction rule: call_step.induct) (auto simp: session_updates split: if_splits)
  moreover have "calls s m = Returned i (Received r) \<or> slot s m = Some r"
    if "calls t m = Returned i (Received r)" for m i r
    using assms(1) that
    by (induction rule: call_step.induct) (auto simp: session_updates split: if_splits)
  ultimately show ?thesis
    using assms(2) call_step_message [OF assms(1)]
    unfolding session_sound_def messages_owned_def by blast
qed

lemma call_step_failure:
  assumes "call_step n s t" "session_sound s"
  shows "failure_recorded t"
proof -
  have "calls s m = Leaving i LeaveDone \<or> failed s \<noteq> None" if "calls t m = Leaving i LeaveDone" for m i
    using assms(1) that
    by (induction rule: call_step.induct) (auto simp: session_updates split: if_splits)
  then show ?thesis
    using assms(2) call_step_frame [OF assms(1)]
    unfolding session_sound_def failure_recorded_def by metis
qed

lemma lock_released:
  assumes "lock_owned s" "calls s n = Writing i" "\<And>j. p \<noteq> Writing j"
  shows "lock_owned (set_call n p (set_writing None s))"
proof -
  have "calls s m \<noteq> Writing j" if "m \<noteq> n" for m j
    using that assms(1,2) unfolding lock_owned_def by (metis option.inject write_holder.inject)
  then show ?thesis
    using assms(3) by (simp add: lock_owned_def session_updates)
qed

lemma lock_kept:
  assumes "lock_owned s" "\<And>j. calls s n \<noteq> Writing j" "\<And>j. p \<noteq> Writing j"
  shows "lock_owned (set_call n p s)"
  using assms by (simp add: lock_owned_def session_updates)

lemma lock_owned_updates [simp]:
  "lock_owned (set_pending i w s) = lock_owned s" "lock_owned (set_slot n r s) = lock_owned s"
  "lock_owned (removePending i s) = lock_owned s"
  "calls (set_pending i w s) = calls s" "calls (set_slot n r s) = calls s" "calls (removePending i s) = calls s"
  by (simp_all add: lock_owned_def session_updates)

lemma call_step_lock:
  assumes "call_step n s t" "session_sound s"
  shows "lock_owned t"
proof -
  have "lock_owned s" using assms(2) by (simp add: session_sound_def)
  with assms(1) show ?thesis
  proof cases
    case (call_locks i)
    with \<open>lock_owned s\<close> show ?thesis
      by (auto simp: lock_owned_def session_updates)
  qed (simp_all add: lock_kept lock_released)
qed

lemma session_sound_single:
  "session_sound s \<Longrightarrow> pending s i = Some n \<Longrightarrow> pending s j = Some n \<Longrightarrow> i = j"
  by (metis session_sound_entry(1) option.inject)

lemma reader_resolves_sound:
  assumes "session_sound s" "reader s = Reading" "route_frame f = RouteResponse i" "pending s i = Some n"
  shows "session_sound (set_pending i None s\<lparr>reader := Delivering n (ResultFrame f)\<rparr>)"
    (is "session_sound ?t")
proof -
  have "entries_owned ?t"
    using session_sound_entry [OF assms(1)] session_sound_single [OF assms(1,4)]
    by (auto simp: entries_owned_def session_updates split: if_splits)
  moreover have "hands_owned ?t"
    using session_sound_entry [OF assms(1,4)] session_sound_message(4) [OF assms(1)] assms(3)
    by (auto simp: hands_owned_def session_updates message_for_def)
  moreover have "messages_owned ?t" "failure_recorded ?t" "lock_owned ?t"
    using assms(1)
    by (auto simp: messages_owned_def session_sound_def failure_recorded_def message_for_def lock_owned_def
        session_updates split: control_result.splits)
  ultimately show ?thesis
    by (simp add: session_sound_def)
qed

lemma reader_step_sound:
  assumes "reader_step s t" "session_sound s"
  shows "session_sound t"
  using assms(1)
proof cases
  case (reader_resolves f i n)
  then show ?thesis
    using reader_resolves_sound [OF assms(2)] by simp
qed (use assms(2) in \<open>auto simp: session_updates session_sound_def entries_owned_def hands_owned_def
      messages_owned_def failure_recorded_def lock_owned_def idle_def message_for_def
      split: control_result.splits if_splits\<close>)

lemma session_fails_sound:
  assumes "session_sound s" "failed s = None"
  shows "session_sound (s\<lparr>failed := Some e, pending := Map.empty, notifying := ran (pending s)\<rparr>)"
    (is "session_sound ?t")
proof -
  have message: "message_for s n r \<Longrightarrow> message_for ?t n r" for n r
    by (rule message_for_mono [where s = s]) (simp_all add: assms(2))
  have notified: "slot s n = None \<and> call_id (calls s n) \<noteq> None \<and> (\<forall>r. reader s \<noteq> Delivering n r)"
    if "n \<in> ran (pending s)" for n
    using that session_sound_entry [OF assms(1)] by (force simp: ran_def)
  have "hands_owned ?t"
    using notified session_sound_message(3) [OF assms(1)] message by (auto simp: hands_owned_def)
  moreover have "messages_owned ?t"
    using session_sound_message(1,2) [OF assms(1)] message by (auto simp: messages_owned_def)
  moreover have "entries_owned ?t" "failure_recorded ?t" "lock_owned ?t"
    using assms(1) by (auto simp: entries_owned_def session_sound_def failure_recorded_def lock_owned_def)
  ultimately show ?thesis
    by (simp add: session_sound_def)
qed

lemma session_event_sound:
  assumes "session_event s t" "session_sound s"
  shows "session_sound t"
  using assms(1)
proof cases
  case (session_fails e)
  then show ?thesis
    using session_fails_sound [OF assms(2)] by simp
qed (use assms(2) in \<open>auto simp: session_updates session_sound_def entries_owned_def hands_owned_def
      messages_owned_def failure_recorded_def lock_owned_def idle_def message_for_def
      split: control_result.splits if_splits\<close>)

lemma write_step_sound:
  assumes "write_step s t" "session_sound s"
  shows "session_sound t"
  using assms(1)
  by cases (use assms(2) in \<open>auto simp: session_updates session_sound_def entries_owned_def hands_owned_def
      messages_owned_def failure_recorded_def lock_owned_def message_for_def
      split: control_result.splits\<close>)

lemma call_step_sound: "call_step n s t \<Longrightarrow> session_sound s \<Longrightarrow> session_sound t"
  unfolding session_sound_def [of t]
  by (intro conjI call_step_entries call_step_hands call_step_messages call_step_failure call_step_lock)

lemma session_step_sound: "session_step s t \<Longrightarrow> session_sound s \<Longrightarrow> session_sound t"
  by (erule session_stepE)
    (erule call_step_sound reader_step_sound session_event_sound write_step_sound, assumption)+

lemma new_session_sound: "session_sound newControlSession"
  by (simp add: session_sound_def entries_owned_def hands_owned_def messages_owned_def
      failure_recorded_def lock_owned_def newControlSession_def)

lemma reachable_sound: "reachable s \<Longrightarrow> session_sound s"
  by (induction rule: reachable.induct) (auto intro: new_session_sound session_step_sound)

end
