(* ===== verification/Control_Runs.thy ===== *)
theory Control_Runs
  imports Control_Session
begin

text \<open>
  Runs of the control session: a call that has been told to end returns, and the two orders of a
  timeout and a response that the mutex of the session leaves open.
\<close>

section \<open>Calls return\<close>

text \<open>How many steps of its own a call has left at most.\<close>

fun steps_left :: "call_phase \<Rightarrow> nat" where
  "steps_left Unused = 6"
| "steps_left (Registered i) = 5"
| "steps_left (Writing i) = 4"
| "steps_left (Waiting i) = 3"
| "steps_left (Leaving i w) = 2"
| "steps_left (Draining i e) = 1"
| "steps_left (Returned i r) = 0"

lemma call_step_decreases: "call_step n s t \<Longrightarrow> steps_left (calls t n) < steps_left (calls s n)"
  by (induction rule: call_step.induct) (simp_all add: session_updates)

lemma reader_step_frame: "reader_step s t \<Longrightarrow> calls t = calls s \<and> expired t = expired s \<and> failed t = failed s"
  by (induction rule: reader_step.induct) (simp_all add: session_updates)

lemma session_event_frame:
  "session_event s t \<Longrightarrow>
     calls t = calls s \<and> expired s \<subseteq> expired t \<and> (failed s = None \<or> failed t = failed s)"
  by (induction rule: session_event.induct) (auto simp: session_updates)

lemma write_step_frame: "write_step s t \<Longrightarrow> calls t = calls s \<and> expired t = expired s \<and> failed t = failed s"
  by (induction rule: write_step.induct) (simp_all add: session_updates)

lemma session_step_decreases: "session_step s t \<Longrightarrow> steps_left (calls t n) \<le> steps_left (calls s n)"
proof (elim session_stepE)
  fix m
  assume "call_step m s t"
  then show ?thesis
    using call_step_decreases call_step_frame(6) by (cases "m = n") (auto intro: less_imp_le)
qed (auto dest: reader_step_frame session_event_frame write_step_frame)

definition told_to_end :: "session \<Rightarrow> nat \<Rightarrow> bool" where
  "told_to_end s n \<longleftrightarrow> n \<in> expired s \<or> failed s \<noteq> None"

lemma told_to_end_stays: "session_step s t \<Longrightarrow> told_to_end s n \<Longrightarrow> told_to_end t n"
  by (elim session_stepE)
    (auto simp: told_to_end_def dest: call_step_frame(1,5) reader_step_frame session_event_frame write_step_frame)

text \<open>A call is held back while it waits for \<open>writeMu\<close> and another goroutine has it.\<close>

definition held_back :: "session \<Rightarrow> nat \<Rightarrow> bool" where
  "held_back s n \<longleftrightarrow> (\<exists>i. calls s n = Registered i) \<and> writing s \<noteq> None"

lemma held_back_stuck: "held_back s n \<Longrightarrow> \<not> call_step n s t"
  by (auto simp: held_back_def elim: call_step.cases)

lemma held_back_holder:
  assumes "session_sound s" "held_back s n"
  shows "writing s \<noteq> Some (CallWrites n)"
proof -
  have "writing s = Some (CallWrites n) \<longrightarrow> (\<exists>i. calls s n = Writing i)"
    using assms(1) unfolding session_sound_def lock_owned_def by blast
  with assms(2) show ?thesis
    by (auto simp: held_back_def)
qed

lemma own_step_not_held:
  assumes "call_step n s t"
  shows "\<not> held_back t n \<or> calls s n = Unused"
  using assms by (induction rule: call_step.induct) (simp_all add: held_back_def session_updates)

lemma ended_call_steps:
  assumes "session_sound s" "told_to_end s n" "calls s n \<noteq> Unused" "steps_left (calls s n) \<noteq> 0"
    and "\<not> held_back s n"
  shows "\<exists>t. call_step n s t"
proof (cases "calls s n")
  case (Waiting i)
  then show ?thesis
    using assms(2) by (auto simp: told_to_end_def intro: call_times_out call_sees_done)
next
  case (Leaving i w)
  then show ?thesis
    using assms(1)
    by (cases w)
      (auto simp: session_sound_def failure_recorded_def intro: call_leaves_write call_leaves_timeout
        call_leaves_done)
next
  case (Draining i e)
  then show ?thesis
    by (cases "slot s n") (auto intro: call_drains call_ends)
qed (use assms(3-5) in \<open>auto simp: held_back_def intro: call_locks call_writes\<close>)

section \<open>Runs\<close>

abbreviation session_run :: "session \<Rightarrow> session \<Rightarrow> bool" where
  "session_run \<equiv> session_step\<^sup>*\<^sup>*"

lemma reachable_run: "session_run s t \<Longrightarrow> reachable s \<Longrightarrow> reachable t"
  by (induction rule: rtranclp_induct) (auto intro: reachable_step)

text \<open>
  A response is in the hand of the reader, the context of its call is done and the call has left its
  wait, but not yet removed its registration.
\<close>

definition crossing :: "string \<Rightarrow> frame \<Rightarrow> session" where
  "crossing i f =
     newControlSession
       \<lparr>calls := (\<lambda>_. Unused)(0 := Leaving i LeaveTimeout), expired := {0},
        reader := Delivering 0 (ResultFrame f)\<rparr>"

lemma reachable_crossing:
  assumes "route_frame f = RouteResponse i"
  shows "reachable (crossing i f)"
proof -
  let ?s0 = newControlSession
  let ?s1 = "set_call 0 (Registered i) (set_pending i (Some 0) ?s0)"
  let ?s1' = "set_call 0 (Writing i) (set_writing (Some (CallWrites 0)) ?s1)"
  let ?s2 = "set_call 0 (Waiting i) (set_writing None ?s1')"
  let ?s3 = "?s2\<lparr>expired := insert 0 (expired ?s2)\<rparr>"
  let ?s4 = "set_pending i None ?s3\<lparr>reader := Delivering 0 (ResultFrame f)\<rparr>"
  have "session_step ?s0 ?s1"
    by (intro step_call [of 0] call_registers) (simp_all add: newControlSession_def)
  moreover have "session_step ?s1 ?s1'"
    by (intro step_call [of 0] call_locks) (simp_all add: session_updates newControlSession_def)
  moreover have "session_step ?s1' ?s2"
    by (intro step_call [of 0] call_writes) (simp add: session_updates)
  moreover have "session_step ?s2 ?s3"
    by (intro step_event context_expires)
  moreover have "session_step ?s3 ?s4"
    by (intro step_reader reader_resolves assms) (simp_all add: session_updates newControlSession_def)
  moreover have "session_step ?s4 (set_call 0 (Leaving i LeaveTimeout) ?s4)"
    by (intro step_call [of 0] call_times_out) (simp_all add: session_updates)
  moreover have "set_call 0 (Leaving i LeaveTimeout) ?s4 = crossing i f"
    by (simp add: crossing_def session_updates newControlSession_def fun_upd_idem)
  ultimately show ?thesis
    by (metis reachable_new reachable_step)
qed

lemma crossing_loses_response:
  "session_run (crossing i f)
    (crossing i f\<lparr>calls := (\<lambda>_. Unused)(0 := Returned i (Ended TimedOut)), reader := Reading,
       slot := [0 \<mapsto> ResultFrame f]\<rparr>)"
proof -
  let ?s1 = "set_call 0 (Draining i TimedOut) (removePending i (crossing i f))"
  let ?s2 = "set_call 0 (Returned i (Ended TimedOut)) ?s1"
  let ?s3 = "set_slot 0 (Some (ResultFrame f)) ?s2\<lparr>reader := Reading\<rparr>"
  have "session_run (crossing i f) ?s1"
    by (intro r_into_rtranclp step_call [of 0] call_leaves_timeout) (simp add: crossing_def)
  also have "session_run ?s1 ?s2"
    by (intro r_into_rtranclp step_call [of 0] call_ends)
      (simp_all add: crossing_def session_updates newControlSession_def)
  also have "session_run ?s2 ?s3"
    by (intro r_into_rtranclp step_reader reader_delivers)
      (simp_all add: crossing_def session_updates newControlSession_def)
  also have "?s3 = crossing i f\<lparr>calls := (\<lambda>_. Unused)(0 := Returned i (Ended TimedOut)),
      reader := Reading, slot := [0 \<mapsto> ResultFrame f]\<rparr>"
    by (simp add: crossing_def session_updates newControlSession_def fun_upd_idem)
  finally show ?thesis .
qed

text \<open>
  A second call of the operation has registered and sent its request, and the reader has delivered the
  response to the first; the first has not yet left.
\<close>

definition overtaking :: "string \<Rightarrow> frame \<Rightarrow> session" where
  "overtaking i f =
     crossing i f
       \<lparr>pending := [i \<mapsto> 1], calls := (\<lambda>_. Unused)(0 := Leaving i LeaveTimeout, 1 := Waiting i),
        reader := Reading, slot := [0 \<mapsto> ResultFrame f]\<rparr>"

lemma crossing_overtakes: "session_run (crossing i f) (overtaking i f)"
proof -
  let ?s1 = "set_call 1 (Registered i) (set_pending i (Some 1) (crossing i f))"
  let ?s1' = "set_call 1 (Writing i) (set_writing (Some (CallWrites 1)) ?s1)"
  let ?s2 = "set_call 1 (Waiting i) (set_writing None ?s1')"
  let ?s3 = "set_slot 0 (Some (ResultFrame f)) ?s2\<lparr>reader := Reading\<rparr>"
  have "session_run (crossing i f) ?s1"
    by (intro r_into_rtranclp step_call [of 1] call_registers) (simp_all add: crossing_def newControlSession_def)
  also have "session_run ?s1 ?s1'"
    by (intro r_into_rtranclp step_call [of 1] call_locks)
      (simp_all add: session_updates crossing_def newControlSession_def)
  also have "session_run ?s1' ?s2"
    by (intro r_into_rtranclp step_call [of 1] call_writes) (simp add: session_updates)
  also have "session_run ?s2 ?s3"
    by (intro r_into_rtranclp step_reader reader_delivers)
      (simp_all add: crossing_def session_updates newControlSession_def)
  also have "?s3 = overtaking i f"
    by (simp add: overtaking_def crossing_def session_updates newControlSession_def)
  finally show ?thesis .
qed

section \<open>Every told call ends\<close>

lemma told_to_end_run: "session_run s u \<Longrightarrow> told_to_end s n \<Longrightarrow> told_to_end u n"
  by (induction rule: rtranclp_induct) (auto intro: told_to_end_stays)

lemma steps_left_run: "session_run s u \<Longrightarrow> steps_left (calls u n) \<le> steps_left (calls s n)"
  by (induction rule: rtranclp_induct) (auto intro: order_trans session_step_decreases)

lemma steps_left_5: "steps_left p \<le> 5 \<longleftrightarrow> p \<noteq> Unused"
  by (cases p) simp_all

lemma steps_left_0: "steps_left p = 0 \<Longrightarrow> \<exists>i r. p = Returned i r"
  by (cases p) simp_all

lemma call_ends_within:
  assumes "session_sound s" "told_to_end s n" "steps_left (calls s n) \<le> k" "calls s n \<noteq> Unused" "\<not> held_back s n"
  shows "\<exists>j\<le>k. \<exists>t i r. (call_step n ^^ j) s t \<and> calls t n = Returned i r"
  using assms
proof (induction k arbitrary: s)
  case 0
  then show ?case
    using steps_left_0 by auto
next
  case (Suc k)
  show ?case
  proof (cases "steps_left (calls s n) = 0")
    case True
    then show ?thesis
      using steps_left_0 by (intro exI [of _ 0]) auto
  next
    case False
    then obtain t where t: "call_step n s t"
      using ended_call_steps [OF Suc.prems(1,2,4) _ Suc.prems(5)] by auto
    have "session_sound t" "told_to_end t n"
      using t Suc.prems(1,2) session_step_sound told_to_end_stays by (blast intro: step_call)+
    moreover have "steps_left (calls t n) \<le> k" "calls t n \<noteq> Unused"
      using call_step_decreases [OF t] Suc.prems(3,4) steps_left_5 [of "calls s n"] steps_left_5 [of "calls t n"]
      by simp_all
    moreover have "\<not> held_back t n"
      using own_step_not_held [OF t] Suc.prems(4) by simp
    ultimately obtain j u i r where "j \<le> k" "(call_step n ^^ j) t u" "calls u n = Returned i r"
      using Suc.IH by blast
    then show ?thesis
      using relpowp_Suc_I2 [of "call_step n" s t j u] t
      by (intro exI [of _ "Suc j"] conjI exI [of _ u] exI [of _ i] exI [of _ r]) simp_all
  qed
qed

definition ends_alone :: "session \<Rightarrow> nat \<Rightarrow> bool" where
  "ends_alone s n \<longleftrightarrow> (\<exists>k\<le>5. \<exists>t i r. (call_step n ^^ k) s t \<and> calls t n = Returned i r)"

lemma told_call_ends:
  assumes "session_sound s" "told_to_end s n" "calls s n \<noteq> Unused"
  shows "ends_alone s n \<longleftrightarrow> \<not> held_back s n"
proof
  assume "ends_alone s n"
  then obtain k t i r where run: "(call_step n ^^ k) s t" "calls t n = Returned i r"
    by (auto simp: ends_alone_def)
  show "\<not> held_back s n"
  proof
    assume held: "held_back s n"
    then have "s = t"
      using run(1) by (cases k) (auto simp: held_back_stuck elim: relpowp_E2)
    with held run(2) show False
      by (auto simp: held_back_def)
  qed
next
  assume "\<not> held_back s n"
  then show "ends_alone s n"
    unfolding ends_alone_def using assms by (intro call_ends_within) (simp_all add: steps_left_5)
qed

text \<open>Once the holder lets go, by a step of its own, nothing holds the call back.\<close>

lemma released_call_ends:
  assumes "session_sound s" "told_to_end s n" "calls s n \<noteq> Unused" "session_step s t" "writing t = None"
  shows "ends_alone t n"
proof -
  have "session_sound t" "told_to_end t n"
    using assms session_step_sound told_to_end_stays by blast+
  moreover have "calls t n \<noteq> Unused"
    using session_step_decreases [OF assms(4), of n] assms(3) steps_left_5 [of "calls s n"] steps_left_5 [of "calls t n"]
    by simp
  ultimately show ?thesis
    using told_call_ends assms(5) by (simp add: held_back_def)
qed

lemma holder_can_release:
  assumes "session_sound s" "writing s = Some h"
  shows "\<exists>t. session_step s t \<and> writing t = None"
proof (cases h)
  case (CallWrites m)
  then obtain i where "calls s m = Writing i"
    using assms by (auto simp: session_sound_def lock_owned_def)
  from step_call [OF call_writes [OF this]] show ?thesis
    by (intro exI conjI) (assumption, simp add: session_updates)
next
  case WorkerWrites
  then have "write_step s (set_writing None s)"
    using assms(2) by (intro worker_unlocks) simp
  from step_write [OF this] show ?thesis
    by (intro exI conjI) (assumption, simp add: session_updates)
qed

lemma told_call_run:
  assumes "reachable s" "told_to_end s n" "calls s n \<noteq> Unused" "session_run s u"
  shows "session_sound u" "told_to_end u n" "calls u n \<noteq> Unused"
proof -
  show "session_sound u"
    by (rule reachable_sound [OF reachable_run [OF assms(4,1)]])
  show "told_to_end u n"
    using assms(4,2) by (rule told_to_end_run)
  show "calls u n \<noteq> Unused"
    using steps_left_run [OF assms(4), of n] assms(3) steps_left_5 order_trans by blast
qed

section \<open>A write without a deadline\<close>

text \<open>The runs in which the worker that writes does not come back from its write.\<close>

definition worker_keeps_writing :: "session \<Rightarrow> session \<Rightarrow> bool" where
  "worker_keeps_writing s t \<longleftrightarrow> session_step s t \<and> writing t = Some WorkerWrites"

lemma worker_holds_call:
  assumes "worker_keeps_writing\<^sup>*\<^sup>* s t" "writing s = Some WorkerWrites" "calls s n = Registered i"
  shows "writing t = Some WorkerWrites \<and> calls t n = Registered i"
  using assms
proof (induction rule: rtranclp_induct)
  case (step t u)
  then have now: "writing t = Some WorkerWrites" "calls t n = Registered i" and "session_step t u" "writing u = Some WorkerWrites"
    by (simp_all add: worker_keeps_writing_def)
  have "calls u n = calls t n"
    using \<open>session_step t u\<close>
  proof (elim session_stepE)
    fix m
    assume "call_step m t u"
    then show ?thesis
      using held_back_stuck [of t n u] call_step_frame(6) [of m t u n] now by (cases "m = n") (auto simp: held_back_def)
  qed (auto dest: reader_step_frame session_event_frame write_step_frame)
  with now \<open>writing u = Some WorkerWrites\<close> show ?case by simp
qed simp

text \<open>A worker answers, a call registers and its context ends.\<close>

definition stalled :: "string \<Rightarrow> session" where
  "stalled i =
     newControlSession
       \<lparr>busy := 1, writing := Some WorkerWrites, pending := [i \<mapsto> 0],
        calls := (\<lambda>_. Unused)(0 := Registered i), expired := {0}\<rparr>"

lemma reachable_stalled:
  assumes "route_frame f = RouteRequest m"
  shows "reachable (stalled i)"
proof -
  let ?s0 = newControlSession
  let ?s1 = "?s0\<lparr>busy := busy ?s0 + 1\<rparr>"
  let ?s2 = "set_writing (Some WorkerWrites) ?s1"
  let ?s3 = "set_call 0 (Registered i) (set_pending i (Some 0) ?s2)"
  let ?s4 = "?s3\<lparr>expired := insert 0 (expired ?s3)\<rparr>"
  have "session_step ?s0 ?s1"
    by (intro step_reader reader_spawns [OF _ assms]) (simp_all add: newControlSession_def MaxInFlightRequests_def)
  moreover have "session_step ?s1 ?s2"
    by (intro step_write worker_locks) (simp_all add: newControlSession_def)
  moreover have "session_step ?s2 ?s3"
    by (intro step_call [of 0] call_registers) (simp_all add: session_updates newControlSession_def)
  moreover have "session_step ?s3 ?s4"
    by (intro step_event context_expires)
  moreover have "?s4 = stalled i"
    by (simp add: stalled_def session_updates newControlSession_def)
  ultimately show ?thesis
    by (metis reachable_new reachable_step)
qed

end
