(* ===== verification/Wire_Safety.thy ===== *)
theory Wire_Safety
  imports Wire_Dispatch Control_Runs
begin

text \<open>
  The properties of the host protocol: what the schema validator decides, which answers of the
  control session can be sent and what its handler is shown, and the calls and deliveries of the
  session under every order of its goroutines.
\<close>

section \<open>Samples\<close>

lemma plain_names [simp]:
  "fold_name ''id'' = ''id''" "fold_name ''jsonrpc'' = ''jsonrpc''" "fold_name ''result'' = ''result''"
  "fold_name ''method'' = ''method''" "fold_name ''params'' = ''params''" "fold_name ''bearer'' = ''bearer''"
  by (rule fold_name_lower; simp add: upper_def less_eq_char_def)+

definition sample_frame :: "string \<Rightarrow> frame" where
  "sample_frame i =
     \<lparr>bytes_length = 60, utf8_valid = True,
      parsed = Some (JObject [(''id'', JString i), (''jsonrpc'', JString ''2.0''), (''result'', JObject [])]),
      id_utf8 = True\<rparr>"

lemma sample_frame_route: "route_frame (sample_frame i) = RouteResponse i"
  by (simp add: route_frame_def sample_frame_def contents.truncate_def rejectDuplicateJSONNames_def
      decode_header_def struct_members_def string_field_def pointer_field_def raw_field_def
      members_for_def not_text_def JSONRPCVersion_def strict_raw_def
      decodeStrictValue_def)

definition sample_request_frame :: frame where
  "sample_request_frame =
     \<lparr>bytes_length = 60, utf8_valid = True,
      parsed = Some (JObject [(''jsonrpc'', JString ''2.0''), (''method'', JString ''managedRuns.cancel'')]),
      id_utf8 = True\<rparr>"

lemma sample_request_route: "route_frame sample_request_frame = RouteRequest ''managedRuns.cancel''"
  by (simp add: route_frame_def sample_request_frame_def contents.truncate_def rejectDuplicateJSONNames_def
      decode_header_def struct_members_def string_field_def pointer_field_def raw_field_def
      members_for_def not_text_def JSONRPCVersion_def)

definition sample_dto :: "(string, string) dto" where
  "sample_dto =
     \<lparr>decode_params = (\<lambda>m vs. case vs of [JString t] \<Rightarrow> Inr t | _ \<Rightarrow> Inl MalformedJSON),
      operation_id = (\<lambda>p. p), params_json = JString, result_json = JString\<rparr>"

definition sample_catalogue :: catalogue where
  "sample_catalogue name =
     (if name = ''schemaErrorResponse'' then schemaErrorResponse
      else WireSchema None [] None [] None None None None None None None None [] [] [] [] [])"

definition sample_regexp :: regexp where
  "sample_regexp t = (if t = identifier_pattern then Some identifier_matches else None)"

definition sample_request :: contents where
  "sample_request =
     \<lparr>bytes_length = 120, utf8_valid = True,
      parsed = Some (JObject
        [(''id'', JString ''op-1''), (''jsonrpc'', JString ''2.0''), (''method'', JString ''managedRuns.cancel''),
         (''params'', JString ''op-1''), (''bearer'', JString ''secret'')])\<rparr>"

lemma sample_envelope:
  "decode_envelope sample_dto ''managedRuns.cancel'' sample_request =
     Inr \<lparr>env_id = ''op-1'', env_jsonrpc = ''2.0'', env_method = ''managedRuns.cancel'',
          env_params = ''op-1'', env_bearer = ''secret''\<rparr>"
  by (simp add: decode_envelope_def sample_request_def rejectDuplicateJSONNames_def struct_members_def
      unknown_field_def string_field_def members_for_def not_text_def sample_dto_def)

lemma sample_base_request:
  "validateBaseRequest sample_regexp sample_catalogue sample_dto
     \<lparr>env_id = ''op-1'', env_jsonrpc = ''2.0'', env_method = ''managedRuns.cancel'',
      env_params = ''op-1'', env_bearer = ''secret''\<rparr> = None"
proof -
  have ascii: "valid_utf8 t = t" if "t \<in> {''id'', ''jsonrpc'', ''method'', ''params'', ''op-1'', ''2.0'', ''managedRuns.cancel''}" for t
    using that by (intro valid_utf8_ascii) auto
  have short: "length (marshal_string t) \<le> 302" if "length t \<le> 50" for t
    using length_marshal_string [of t] length_runes_le [of t] that by simp
  show ?thesis
    using short [of "''id''"] short [of "''jsonrpc''"] short [of "''method''"] short [of "''params''"]
      short [of "''op-1''"] short [of "''2.0''"] short [of "''managedRuns.cancel''"]
    by (simp add: validateBaseRequest_def ValidatePayload_def payload_too_long_def encoded_def
        base_request_json_def sample_dto_def MaxRequestBytes_def MaxLineBytes_def requestContract_def
        rejectDuplicateJSONNames_def struct_members_def unknown_field_def string_field_def
        members_for_def not_text_def request_schemas_def sample_catalogue_def
        validateGeneratedJSON_None conforms_schema constant_ok_def enum_ok_def ascii)
qed

lemma sample_dispatch:
  "dispatch sample_regexp sample_catalogue sample_dto ''secret''
     (\<lambda>m p. Inl (HandlerWrap ''cancel: '' (HandlerText t))) ''managedRuns.cancel'' sample_request =
   ReplyFailure (Some ''op-1'') (wireFailure InternalError ''control handler failed'')"
  using sample_base_request
  by (simp add: dispatch_def dispatch_table_def sample_envelope handlerWireFailure_def)
    (simp add: sample_dto_def)

section \<open>Validation\<close>

text \<open>
  C14. The validator accepts a document exactly when it conforms to the schema: the early returns,
  the paths and the order of the checks do not change what is decided, at any depth and for any
  schema, unions included.  Nor does the order in which the members of objects are visited, which Go
  chooses anew for each range over a map: documents that the comparison of the source takes for
  equal get the same verdict.
\<close>

theorem validation_is_conformance:
  "(validateWireValue compile s v path = None \<longleftrightarrow> conforms compile s v) \<and>
   (equalJSONValue v w \<longrightarrow>
      (validateWireValue compile s v path = None) = (validateWireValue compile s w path' = None))"
  unfolding validate_iff_conforms using conforms_equal by simp

lemma validation_is_conformance_witness:
  "(validateWireValue sample_regexp schemaErrorResponse
      (JObject [(''jsonrpc'', JString ''2.0''), (''id'', JNull)]) ''$'' = None) =
   (validateWireValue sample_regexp schemaErrorResponse
      (JObject [(''id'', JNull), (''jsonrpc'', JString ''2.0'')]) ''$'' = None)"
  by (rule validation_is_conformance [THEN conjunct2, rule_format])
    (simp add: equalJSONValue_def less_list_code less_char_def)

text \<open>
  The duplicate check compares names as they stand, the decoder without regard to case: a frame that
  gives its id twice, once in capitals, passes the check, and the later one routes it.
\<close>

theorem folded_duplicate_routes_by_last:
  "route_frame
     \<lparr>bytes_length = n, utf8_valid = True,
      parsed = Some (JObject [(''id'', JString i), (''ID'', JString j), (''jsonrpc'', JString ''2.0'')]),
      id_utf8 = True\<rparr> = RouteResponse j"
proof -
  have "fold_name ''ID'' = ''id''"
    by (subst fold_name_ascii) (simp_all add: lower_char_def upper_def less_eq_char_def char_of_def bit_0)
  then show ?thesis
    by (simp add: route_frame_def contents.truncate_def rejectDuplicateJSONNames_def
        decode_header_def struct_members_def string_field_def pointer_field_def raw_field_def
        members_for_def not_text_def JSONRPCVersion_def strict_raw_def decodeStrictValue_def)
qed

section \<open>Answers\<close>

text \<open>
  C15. Whatever goes wrong with a request, and whatever error its handler returns, the failure it is
  answered with passes the generated schema and fits its limits, so that it is sent and the session
  goes on, exactly when its id is an identifier of the protocol or null.
\<close>

theorem failing_request_is_answered:
  fixes dto :: "('p, 'r) dto"
  assumes "compile identifier_pattern = Some identifier_matches"
    and "schemas ''schemaErrorResponse'' = schemaErrorResponse"
    and "dispatch compile schemas dto bearer handler mth c = ReplyFailure i failure"
  shows "(\<exists>t. answer compile schemas dto (ReplyFailure i failure :: 'r reply) = Inr t) \<longleftrightarrow> response_id_ok i"
proof -
  obtain kind m where "failure = wireFailure kind m" "ErrorKind_Valid kind" "message_ok m"
    using assms(3) by (rule dispatch_failure_shape)
  with failure_answer [of compile schemas kind m dto i] assms(1,2) show ?thesis
    by simp
qed

lemma failing_request_is_answered_witness:
  "(\<exists>t. answer sample_regexp sample_catalogue sample_dto
      (ReplyFailure (Some ''op-1'') (wireFailure InternalError ''control handler failed'')) = Inr t)
   \<longleftrightarrow> response_id_ok (Some ''op-1'')"
  by (rule failing_request_is_answered [OF _ _ sample_dispatch])
    (simp_all add: sample_regexp_def sample_catalogue_def)

text \<open>
  C16. The answer to a request depends on the handler only through what the handler does on admitted
  parameters, and there only through its result or the protocol failure it returns: a request with
  another credential, another operation or invalid parameters never reaches it, and the text of any
  other error stays private.
\<close>

theorem handler_is_isolated:
  assumes "\<And>p. admitted compile schemas dto bearer mth c p \<Longrightarrow> outward_same (h mth p) (h' mth p)"
  shows "dispatch compile schemas dto bearer h mth c = dispatch compile schemas dto bearer h' mth c"
  using assms by (rule dispatch_cong)

lemma handler_is_isolated_witness:
  "dispatch sample_regexp sample_catalogue sample_dto ''secret'' (\<lambda>m p. Inl (HandlerText ''disk full''))
     ''managedRuns.cancel'' sample_request =
   dispatch sample_regexp sample_catalogue sample_dto ''secret'' (\<lambda>m p. Inl (HandlerText ''no rows''))
     ''managedRuns.cancel'' sample_request"
  by (rule handler_is_isolated) (simp add: outward_same_def)

section \<open>The session\<close>

text \<open>
  C12. Under every order of callers, reader, workers and failure, the one-message channel of a call is
  empty whenever the reader or the failure is about to send to it, so neither ever blocks; no more
  than the permitted number of requests is in work; and a call that returns a frame returns a
  response to its own operation.
\<close>

theorem session_deliveries:
  assumes "reachable s"
  shows "(reader s = Delivering n r \<longrightarrow> slot s n = None) \<and> (n \<in> notifying s \<longrightarrow> slot s n = None) \<and>
    busy s \<le> MaxInFlightRequests \<and>
    (calls s n = Returned i (Received (ResultFrame f)) \<longrightarrow> route_frame f = RouteResponse i)"
proof -
  have sound: "session_sound s"
    using assms by (rule reachable_sound)
  then have "busy s \<le> MaxInFlightRequests"
    by (simp add: session_sound_def failure_recorded_def)
  moreover have "route_frame f = RouteResponse i"
    if "calls s n = Returned i (Received (ResultFrame f))"
    using session_sound_message(2) [OF sound that] that by (simp add: message_for_def)
  ultimately show ?thesis
    using session_sound_message(3,4) [OF sound] by blast
qed

lemma session_deliveries_witness:
  "slot (crossing ''op-1'' (sample_frame ''op-1'')) 0 = None \<and>
   busy (crossing ''op-1'' (sample_frame ''op-1'')) \<le> MaxInFlightRequests"
  using session_deliveries [OF reachable_crossing [OF sample_frame_route [of "''op-1''"]],
      of 0 "ResultFrame (sample_frame ''op-1'')"]
  by (simp add: crossing_def)

text \<open>
  C13.  A call whose context is done or whose session has failed returns by steps of its own, five at
  most, from every state that any order of steps leads to, exactly unless it waits for the write mutex
  and another goroutine has it.  In that case the holder can let go by one step, and whatever step frees
  the mutex, the call's own steps suffice after it.
\<close>

theorem told_call_returns:
  assumes "reachable s" "told_to_end s n" "calls s n \<noteq> Unused" "session_run s u"
  shows "(ends_alone u n \<longleftrightarrow> \<not> held_back u n) \<and>
    (held_back u n \<longrightarrow> (\<exists>v. session_step u v \<and> writing v = None)) \<and>
    (\<forall>v. session_step u v \<and> writing v = None \<longrightarrow> ends_alone v n)"
proof (intro conjI impI allI)
  note run = told_call_run [OF assms]
  show "ends_alone u n \<longleftrightarrow> \<not> held_back u n"
    using run by (rule told_call_ends)
  show "\<exists>v. session_step u v \<and> writing v = None" if "held_back u n"
    using that holder_can_release [OF run(1)] by (auto simp: held_back_def)
  show "ends_alone v n" if "session_step u v \<and> writing v = None" for v
    using that released_call_ends [OF run] by blast
qed

lemma told_call_returns_witness:
  "ends_alone (crossing ''op-1'' (sample_frame ''op-1'')) 0 \<and> \<not> ends_alone (stalled ''op-1'') 0 \<and>
   (\<exists>v. session_step (stalled ''op-1'') v \<and> writing v = None)"
proof -
  have "told_to_end (crossing ''op-1'' (sample_frame ''op-1'')) 0" "calls (crossing ''op-1'' (sample_frame ''op-1'')) 0 \<noteq> Unused"
    "\<not> held_back (crossing ''op-1'' (sample_frame ''op-1'')) 0"
    and "told_to_end (stalled ''op-1'') 0" "calls (stalled ''op-1'') 0 \<noteq> Unused" "held_back (stalled ''op-1'') 0"
    by (simp_all add: crossing_def stalled_def told_to_end_def held_back_def newControlSession_def)
  with told_call_returns [OF reachable_crossing [OF sample_frame_route [of "''op-1''"]] _ _ rtranclp.rtrancl_refl, where n = 0]
    told_call_returns [OF reachable_stalled [OF sample_request_route, where i = "''op-1''"] _ _ rtranclp.rtrancl_refl, where n = 0]
  show ?thesis by blast
qed



text \<open>
  C37.  The timeout of a call does not bound it.  A worker that answers a request writes without a
  deadline and holds the write mutex: a call may be registered behind it with its context done, and as
  long as the worker's write does not come back the call stays where it is, whatever steps the other
  goroutines take.
\<close>

theorem worker_write_outlasts_timeout:
  "\<exists>s. reachable s \<and> 0 \<in> expired s \<and> failed s = None \<and> calls s 0 = Registered i \<and>
     writing s = Some WorkerWrites \<and>
     {t. worker_keeps_writing\<^sup>*\<^sup>* s t} \<subseteq> {t. calls t 0 = Registered i}"
proof (intro exI conjI subsetI)
  show "reachable (stalled i)"
    using sample_request_route by (rule reachable_stalled)
  show "t \<in> {t. calls t 0 = Registered i}" if "t \<in> {t. worker_keeps_writing\<^sup>*\<^sup>* (stalled i) t}" for t
    using worker_holds_call [of "stalled i" t 0 i] that by (simp add: stalled_def)
qed (simp_all add: stalled_def newControlSession_def)

end
