(* ===== verification/Spec2Isabelle.thy ===== *)
theory Spec2Isabelle
  imports Lifecycle Brief Evidence Delivery Initiative Scheduling Decisions Views Timestamps Store_Safety Launch_Safety Wire_Safety
begin

text \<open>
  \<^bold>\<open>A verification library for comis-dev-crew\<close>

  The program supervises coding workers.  An operator or a host (Comis) asks for a task; the service
  pins the task's brief, hands it to a worker, takes the worker's reports without trusting them, judges
  the candidate from evidence it gathered itself, delivers and merges under approval, and cleans up.
  Several tasks may form an initiative, a graph of components that the scheduler launches within
  concurrency ceilings.  Everything is durable and fails closed: an unknown fact never counts as
  success.

  \<^bold>\<open>Theories and the code they model\<close>

  \<^item> \<open>Prelude\<close>: checks in sequence (\<open>first_error\<close>, \<open>ensure\<close>), uniqueness scans, 64-bit arithmetic.
  \<^item> \<open>Go_Text\<close>, \<open>Text_Codec\<close>, \<open>Sha256\<close>: the standard library the code uses: UTF-8 decoding,
    \<open>strings.TrimSpace\<close>, \<open>strconv.Quote\<close> with its injectivity, \<open>time.Time\<close>, SHA-256.  The table of
    printable runes of \<open>unicode\<close> above ASCII is the argument \<open>u\<close> of every definition that quotes.
  \<^item> \<open>Validation\<close>: vocabulary, error values and field validators (\<open>domain/validation.go\<close>,
    \<open>domain/error.go\<close>, \<open>domain/attachment.go\<close>).
  \<^item> \<open>Task\<close>, \<open>Brief\<close>: the task record, its validation, the rendered brief and its pin
    (\<open>domain/task.go\<close>, \<open>domain/brief.go\<close>).
  \<^item> \<open>Versioned\<close>, \<open>Lifecycle\<close>: the transition table, bindings, worker reports, operation records
    (\<open>domain/task_transition.go\<close>, \<open>binding.go\<close>, \<open>report.go\<close>, \<open>report_transition.go\<close>, \<open>operation.go\<close>).
    \<open>Versioned\<close> is the interface of a versioned record: a refused operation leaves it alone, an accepted
    one adds one to its version and never moves its stamp back.
  \<^item> \<open>Lapsing\<close>, \<open>Evidence\<close>, \<open>Delivery\<close>: evidence bundles and the candidate judge (\<open>domain/evidence.go\<close>,
    \<open>candidate_judge.go\<close>), backlog, merge approval and landed proof (\<open>backlog.go\<close>, \<open>merge_approval.go\<close>,
    \<open>landed_proof.go\<close>).  \<open>Lapsing\<close> is the interface of a decision that holds inside a time window only.
  \<^item> \<open>Initiative\<close>: the initiative graph and its artifacts (\<open>domain/initiative.go\<close>,
    \<open>contract_artifact.go\<close>, \<open>contract_artifact_content.go\<close>).
  \<^item> \<open>Scheduler\<close>, \<open>Allocation\<close>, \<open>Scheduling\<close>: the fleet scheduler
    (\<open>application/initiative_scheduler.go\<close>, \<open>_artifacts.go\<close>, \<open>_usage.go\<close>).  \<open>Allocation\<close> is the interface
    of a capacity meter: what a greedy sequence of grants may use.
  \<^item> \<open>Decisions\<close>: how open questions come back to a human (\<open>application/decision_surfacing.go\<close>, its
    SQLite ledger, its supervisor, and the published schedule).
  \<^item> \<open>Views\<close>: the read side (\<open>application/queries.go\<close>, \<open>fleet_capacity.go\<close>, \<open>initiative_graph.go\<close>,
    \<open>query_candidate_posture.go\<close>, \<open>query_explain.go\<close>, \<open>task_evidence.go\<close>).
  \<^item> \<open>Timestamps\<close>: the RFC 3339 text of stored times (\<open>store/sqlite/repository.go\<close>), its calendar and its order.
  \<^item> \<open>Failures\<close>, \<open>Preparation\<close>: sentinel errors with \<open>errors.Is\<close>, failures safe to show, and the records that
    commands carry (\<open>application/mutation_types.go\<close>, \<open>mutations.go\<close>, \<open>intervention.go\<close>, \<open>worker_harness.go\<close>).
  \<^item> \<open>Transactions\<close>: a SQLite transaction as a state passing program.  Every statement, the begin and the
    commit consult a list of driver answers, so an error may strike anywhere; only a commit publishes.
  \<^item> \<open>Store\<close>: the tables, the shared statements and the aggregate refresh (\<open>store/sqlite/repository.go\<close>,
    \<open>mutations.go\<close>, \<open>mutation_helpers.go\<close>, \<open>commit_skeleton.go\<close>, \<open>initiative_aggregate.go\<close>,
    \<open>initiative_launch_facts.go\<close>, \<open>integration_reservation_guard.go\<close>, \<open>service_events.go\<close>).
  \<^item> \<open>Store_Commands\<close>, \<open>Store_Terminal\<close>: one definition per command of the store (\<open>mutations.go\<close>,
    \<open>preparation_intents.go\<close>, \<open>pause.go\<close>, \<open>cancel.go\<close>, \<open>cancel_task.go\<close>, \<open>resume.go\<close>, \<open>steer.go\<close>, \<open>verify.go\<close>,
    \<open>replace.go\<close>, \<open>terminal_lifecycle.go\<close>).
  \<^item> \<open>Store_Contract\<close>, \<open>Store_Laws\<close>: what a step reads, leaves alone and returns; the laws every command
    obeys (\<open>lawful\<close>).  \<open>Store_History\<close> states them as the interface \<open>store_command\<close>, interprets it on the
    commands and follows histories of commands; \<open>Store_Safety\<close> holds the properties of the store.
  \<^item> \<open>Launch_Authority\<close>: the start command and its authority inside the transaction (\<open>initiative_launch.go\<close>,
    \<open>initiative_launch_facts.go\<close>, \<open>mutations.go\<close>): the use of the fleet, the pages of resource heads, the
    frontier's queue.  \<open>Launch_Frontier\<close> shows that its loops return, \<open>Launch_Order\<close> that they admit what
    one ordered pass over the facts admits, \<open>Launch_Contract\<close> that every command keeps the launch tables
    in step, \<open>Launch_Calm\<close> and \<open>Launch_Sample\<close> run it where nothing fails; \<open>Launch_Safety\<close> holds its properties.
  \<^item> \<open>Wire_Json\<close>, \<open>Wire_Schema\<close>: documents of the host protocol, the check for duplicate names and the
    schema validator (\<open>comiswire/json_names.go\<close>, \<open>validation.go\<close>), with what a schema says of a document.
    \<open>Wire_Frames\<close>, \<open>Wire_Failures\<close>, \<open>Wire_Dispatch\<close>: struct fields, the payload catalogue, routing, failures
    and their generated schema, the dispatch of requests, the reading of responses
    (\<open>payload_validation.go\<close>, \<open>control_session.go\<close>, \<open>control_group_dispatch.go\<close>, \<open>unix_client.go\<close>).
  \<^item> \<open>Control_Session\<close>, \<open>Control_Runs\<close>: the goroutines of a control session as a step relation
    (\<open>call\<close>, \<open>serve\<close>, \<open>route\<close>, \<open>resolveResponse\<close>, \<open>write\<close>, \<open>fail\<close> of \<open>comiswire/control_session.go\<close>), with
    both of its mutexes (\<open>mu\<close> as the atomicity of a step, \<open>writeMu\<close> as a holder in the state), its
    invariant and its runs.  \<open>Wire_Safety\<close> holds the properties of the protocol.
  This theory holds what spans components: the operator's capacity view agrees with the scheduler.

  \<^bold>\<open>Conventions\<close>

  A Go struct is a record with the field names prefixed, a closed string type a datatype with an extra
  constructor for any other string, an \<open>int\<close> or \<open>int64\<close> a 64-bit word read by \<open>sint\<close>, an error
  \<open>go_error\<close>, a fallible function \<open>go_error + 'a\<close> or, when it returns a value and an error together, a
  pair.  A map is a function to options or a finite map; where Go ranges over it in unspecified order,
  the model picks an order and the result is proved, or evidently, independent of it.  Answers of the
  outside world (repository reads, clocks, the raiser of questions) are arguments.

  \<^bold>\<open>What the lemmas show\<close>

  Validity, identity and binding survive every operation on a task; the version counts accepted
  operations; delivery is reached through validation and delivery in their order, or past a reconciliation
  from the state it found; a worker's report never grants success, unknown is left by reconciliation only.  The brief determines the contract, whatever text a criterion holds.  The
  judge accepts exactly current, complete, passing evidence and only during its lifetime; merge
  approval and the landed proof likewise have exact conditions.  A valid initiative is acyclic and
  never deadlocks; the scheduler keeps its three ceilings, launches only what may start, queues only
  when full, and derives an aggregate no better than its members.  Open questions come back on a
  bounded doubling cadence however often the ledger is polled.

  A store command, under any driver behaviour, is applied exactly once, leaves no trace when it is
  refused (but the audit row of an altered replay), keeps the tables sound, and refines an abstract
  ledger of tasks and operations; a task leaves doubt only on durable evidence.

  A start of a member keeps the ceilings of the host, its repository and its worker profile, and the
  frontier that grants it, though it reads pages and follows resources, decides as one pass over all
  launch facts would.

  The schema validator decides conformance, in whatever order members are visited; every failure of a
  request with an identifier can be sent; a handler is shown admitted requests only and its private
  errors stay private.  In a control session the right to send to a call is in one place at a time, so
  no send blocks; a call told to end returns by its own steps, unless it waits for the write mutex; behind a
  worker's write, which has no deadline, it waits as long as that write does.  Two orders of a timeout and
  a response that the session leaves open are run: the response lost, and the next call left without
  registration.

  \<^bold>\<open>Bounds and termination\<close>

  No definition uses fuel: every loop is structural recursion on a list or a count, except the
  depth-first cycle search, the schema validator and the UTF-8 and chunking loops, which carry
  termination proofs, and the two
  nested loops of the frontier (\<open>refill\<close>, \<open>serve\<close>), partial functions on a transaction that are proved to
  return from every state: a page moves the cursor or ends the heads, a fact served makes way for a later
  one of its resource.

  \<^bold>\<open>Not modelled\<close>

  Process, socket, file and Git work (\<open>internal/git\<close>, \<open>workers\<close>, \<open>validation\<close>, most of \<open>service\<close>), the
  forwarders and the reconnecting connection of the host protocol, the other wire protocols
  (\<open>localapi\<close>, \<open>mcpadapter\<close>, \<open>reporter\<close>), the forge client, the command line, SQL text and migrations, and
  the canonical JSON encoding of evidence and command subjects.  Of the host protocol, the text of a
  frame is the tree the decoder reads from it, regular expressions are an argument, and so are the
  generated request structs and schemas, but for the schema of an error response; a write is one step that
  ends or fails, and the bytes, the deadlines and the clock behind it are left out.  In the store: \<open>json\<close>
  columns hold their values, times are in UTC, and reports, cleanup, outboxes, promotions and the
  two-phase integration ledger are left out.
\<close>

section \<open>The fleet view and the scheduler\<close>

lemma sorted_list_of_fmap_entry: "(k, v) \<in> set (sorted_list_of_fmap m) \<longleftrightarrow> fmlookup m k = Some v"
  by (auto simp: sorted_list_of_fmap_def fmlookup_dom_iff sorted_list_of_fset.rep_eq)

lemma ball_fmap_entries: "(\<forall>d\<in>set (sorted_list_of_fmap m). Q d) \<longleftrightarrow> (\<forall>k v. fmlookup m k = Some v \<longrightarrow> Q (k, v))"
  by (auto simp: sorted_list_of_fmap_entry)

lemma count_capacity_Inr:
  "count_capacity u limits observations (usage, repositories) = Inr (usage', repositories') \<Longrightarrow>
     usage' = fold (\<lambda>task usage. if taskConsumesWorker (task_State task) then charge task usage else usage)
       (map obs_Task observations) usage \<and>
     set repositories' = set repositories \<union> task_RepositoryID ` obs_Task ` set observations \<and>
     (\<forall>o'\<in>set observations. fmlookup (lim_WorkerProfileLimits limits) (task_WorkerProfileID (obs_Task o')) \<noteq> None)"
  by (induction observations arbitrary: usage repositories) (auto simp: Let_def split: if_splits)

text \<open>The dimension of a capacity snapshot that a task would be charged to.\<close>

definition charged_to :: "Task \<Rightarrow> FleetCapacityDimension \<Rightarrow> bool" where
  "charged_to task dimension \<longleftrightarrow>
     (case dim_Kind dimension of
        CapacityHost \<Rightarrow> True
      | CapacityRepository \<Rightarrow> dim_ID dimension = task_RepositoryID task
      | CapacityWorkerProfile \<Rightarrow> dim_ID dimension = task_WorkerProfileID task
      | CapacityKindOther _ \<Rightarrow> False)"

text \<open>
  C32.  The operator sees the capacity the scheduler acts on: for every task of a projected fleet the
  scheduler's capacity test, on the usage it would itself derive from the same tasks, fails exactly when
  the snapshot shows a saturated dimension that the task is charged to.
\<close>

theorem capacity_view_agrees_with_scheduler:
  assumes "projectFleetCapacity u observations (Some limits) = Inr snapshot"
    and "observation \<in> set observations"
  defines "task \<equiv> obs_Task observation"
  shows "schedulingCapacityAvailable task limits (usage_fold (map obs_Task observations)) \<longleftrightarrow>
    list_all (\<lambda>d. \<not> (charged_to task d \<and> dim_Saturated d)) (snap_Dimensions snapshot)"
proof -
  from assms(1) obtain usage repositories where
    counted: "count_capacity u limits observations (no_usage, []) = Inr (usage, repositories)"
    and dims: "snap_Dimensions snapshot = capacity_dimensions limits usage repositories"
    by (auto simp: projectFleetCapacity_def Let_def split: sum.splits)
  have usage: "usage = usage_fold (map obs_Task observations)"
    and repo: "task_RepositoryID task \<in> set repositories"
    and "fmlookup (lim_WorkerProfileLimits limits) (task_WorkerProfileID task) \<noteq> None"
    using count_capacity_Inr [OF counted] assms(2) by (auto simp: usage_fold_def task_def)
  then obtain limit where limit: "fmlookup (lim_WorkerProfileLimits limits) (task_WorkerProfileID task) = Some limit" by blast
  have "list_all (\<lambda>d. \<not> (charged_to task d \<and> dim_Saturated d)) (capacity_dimensions limits usage repositories) \<longleftrightarrow>
    sint (use_host usage) < sint (lim_MaxConcurrentTasks limits) \<and>
    sint (use_repositories usage (task_RepositoryID task)) < sint (lim_MaxConcurrentTasksPerRepository limits) \<and>
    sint (use_profiles usage (task_WorkerProfileID task)) < sint limit"
    using repo limit
    by (auto simp: capacity_dimensions_def newFleetCapacityDimension_def Let_def list_all_iff charged_to_def not_le
        ball_fmap_entries ball_Un)
  then show ?thesis
    by (simp add: dims schedulingCapacityAvailable_def map_count_def limit flip: usage)
qed

definition sample_observation :: TaskObservation where
  "sample_observation = \<lparr>obs_Task = task_named (\<lambda>_. True) ''task-1'' TaskWorking, obs_Evidence = zero_evidence_view\<rparr>"

theorem capacity_view_agrees_with_scheduler_witness:
  "\<exists>snapshot. projectFleetCapacity (\<lambda>_. True) [sample_observation] (Some sample_limits) = Inr snapshot \<and>
    list_ex dim_Saturated (snap_Dimensions snapshot) \<and>
    \<not> schedulingCapacityAvailable (obs_Task sample_observation) sample_limits (usage_fold [obs_Task sample_observation])"
proof -
  let ?t = "task_named (\<lambda>_. True) ''task-1'' TaskWorking" and ?obs = "[sample_observation]"
  have strings: "authorityPattern ''codex-worker''" "authorityPattern ''repo-1''" by code_simp+
  have counted: "count_capacity (\<lambda>_. True) sample_limits ?obs (no_usage, []) = Inr (charge ?t no_usage, [''repo-1''])"
    by (simp add: sample_observation_def sample_limits_def)
  have "list_all (\<lambda>d. validateFleetCapacityDimension d = None) (capacity_dimensions sample_limits (charge ?t no_usage) [''repo-1''])"
    using strings
    by (simp add: capacity_dimensions_def sample_limits_def sorted_list_of_fmap_def sorted_list_of_fset.rep_eq charge_def
        no_usage_def newFleetCapacityDimension_def validateFleetCapacityDimension_def field_check_defs)
  then have "first_error (map validateFleetCapacityDimension
      (capacity_dimensions sample_limits (charge ?t no_usage) [''repo-1''])) = None"
    by (auto simp: first_error_None_iff list_all_iff)
  then have run: "projectFleetCapacity (\<lambda>_. True) ?obs (Some sample_limits) =
      Inr \<lparr>snap_Known = True, snap_Dimensions = capacity_dimensions sample_limits (charge ?t no_usage) [''repo-1'']\<rparr>"
    by (simp only: projectFleetCapacity_def option.case counted sum.case prod.case Let_def ensure_None)
  moreover have "dim_Saturated (hd (capacity_dimensions sample_limits (charge ?t no_usage) [''repo-1'']))"
    by (simp add: capacity_dimensions_def newFleetCapacityDimension_def charge_def no_usage_def sample_limits_def)
  moreover from this have "list_ex dim_Saturated (capacity_dimensions sample_limits (charge ?t no_usage) [''repo-1''])"
    by (simp add: capacity_dimensions_def)
  moreover have "\<not> list_all (\<lambda>d. \<not> (charged_to (obs_Task sample_observation) d \<and> dim_Saturated d))
      (capacity_dimensions sample_limits (charge ?t no_usage) [''repo-1''])"
    by (simp add: capacity_dimensions_def newFleetCapacityDimension_def charged_to_def charge_def no_usage_def sample_limits_def)
  ultimately show ?thesis
    using capacity_view_agrees_with_scheduler [OF run, of sample_observation] by auto
qed

end
